(* ===== verification/Heap_Array.thy ===== *)
theory Heap_Array
  imports Prelude
begin

text \<open>
  Binary heaps held in a slice, the shape two parts of the program use: the worst-first heap of
  \<^verbatim>\<open>internal/memory/internal/topk\<close>, whose loops are written out there, and the heap of users
  backing off of \<^verbatim>\<open>internal/aml/scheduler.go\<close>, kept by Go's \<^verbatim>\<open>container/heap\<close>. Both run the
  same two loops over a slice and a comparison \<open>lt\<close>: one moves an element up from the end, the
  other moves one down from the root, each choosing the lesser child.

  The lemmas are proved once, in the locale \<open>weak_order\<close>, for every strict weak order.
\<close>

section \<open>The loops\<close>

abbreviation parent :: "nat \<Rightarrow> nat" where
  "parent j \<equiv> (j - Suc 0) div 2"

function sift_up :: "('a \<Rightarrow> 'a \<Rightarrow> bool) \<Rightarrow> 'a list \<Rightarrow> nat \<Rightarrow> 'a list" where
  "sift_up lt xs j =
     (if 0 < j \<and> lt (xs ! j) (xs ! parent j)
      then sift_up lt (swap_at xs (parent j) j) (parent j)
      else xs)"
  by pat_completeness auto
termination
  by (relation "measure (\<lambda>(lt, xs, j). j)") auto

function sift_down :: "('a \<Rightarrow> 'a \<Rightarrow> bool) \<Rightarrow> 'a list \<Rightarrow> nat \<Rightarrow> nat \<Rightarrow> 'a list" where
  "sift_down lt xs i n =
     (if n \<le> 2 * i + 1 then xs
      else let child = (if 2 * i + 2 < n \<and> lt (xs ! (2 * i + 2)) (xs ! (2 * i + 1))
                        then 2 * i + 2 else 2 * i + 1)
           in if lt (xs ! child) (xs ! i)
              then sift_down lt (swap_at xs i child) child n
              else xs)"
  by pat_completeness auto
termination
  by (relation "measure (\<lambda>(lt, xs, i, n). n - i)") (auto simp: Let_def split: if_splits)

declare sift_up.simps [simp del] sift_down.simps [simp del]

text \<open>The two operations of \<^verbatim>\<open>container/heap\<close> the program calls.\<close>

definition heap_Push :: "('a \<Rightarrow> 'a \<Rightarrow> bool) \<Rightarrow> 'a list \<Rightarrow> 'a \<Rightarrow> 'a list" where
  "heap_Push lt xs x = sift_up lt (xs @ [x]) (length xs)"

definition heap_Pop :: "('a \<Rightarrow> 'a \<Rightarrow> bool) \<Rightarrow> 'a list \<Rightarrow> 'a \<times> 'a list" where
  "heap_Pop lt xs =
     (let n = length xs - 1;
          ys = sift_down lt (swap_at xs 0 n) 0 n
      in (ys ! n, take n ys))"

lemma parent_less: "0 < k \<Longrightarrow> parent k < k"
  by linarith

lemma parent_bound: "0 < k \<Longrightarrow> k < n \<Longrightarrow> parent k < n"
  by linarith

section \<open>What the loops keep, whatever the comparison\<close>

lemma length_sift_up [simp]: "length (sift_up lt xs j) = length xs"
proof (induction lt xs j rule: sift_up.induct)
  case (1 lt xs j)
  then show ?case by (subst sift_up.simps) simp
qed

lemma mset_sift_up [simp]: "j < length xs \<Longrightarrow> mset (sift_up lt xs j) = mset xs"
proof (induction lt xs j rule: sift_up.induct)
  case (1 lt xs j)
  show ?case
  proof (cases "0 < j \<and> lt (xs ! j) (xs ! parent j)")
    case True
    then have "parent j < length xs" using "1.prems" by linarith
    with True 1 show ?thesis by (subst sift_up.simps) simp
  next
    case False
    then show ?thesis by (subst sift_up.simps) auto
  qed
qed

lemma length_sift_down [simp]: "length (sift_down lt xs i n) = length xs"
proof (induction lt xs i n rule: sift_down.induct)
  case (1 lt xs i n)
  then show ?case by (subst sift_down.simps) (simp add: Let_def)
qed

lemma mset_sift_down [simp]: "n \<le> length xs \<Longrightarrow> mset (sift_down lt xs i n) = mset xs"
proof (induction lt xs i n rule: sift_down.induct)
  case (1 lt xs i n)
  then show ?case by (subst sift_down.simps) (auto simp: Let_def)
qed

text \<open>The part of the slice past the heap's end is not touched.\<close>

lemma nth_sift_down_beyond:
  "n \<le> length xs \<Longrightarrow> n \<le> k \<Longrightarrow> sift_down lt xs i n ! k = xs ! k"
proof (induction lt xs i n rule: sift_down.induct)
  case (1 lt xs i n)
  then show ?case
    by (subst sift_down.simps) (auto simp: Let_def nth_swap_at)
qed

lemma mset_heap_Push [simp]: "mset (heap_Push lt xs x) = add_mset x (mset xs)"
  by (simp add: heap_Push_def)

lemma set_heap_Push [simp]: "set (heap_Push lt xs x) = insert x (set xs)"
  by (metis mset_heap_Push set_mset_add_mset_insert set_mset_mset)

lemma length_heap_Push [simp]: "length (heap_Push lt xs x) = Suc (length xs)"
  by (simp add: heap_Push_def)

lemma distinct_heap_Push: "distinct (heap_Push lt xs x) = distinct (x # xs)"
  by (metis mset.simps(2) mset_heap_Push mset_eq_imp_distinct_iff)

text \<open>A pop returns the root and keeps the other elements.\<close>

lemma heap_Pop_fst: "xs \<noteq> [] \<Longrightarrow> fst (heap_Pop lt xs) = xs ! 0"
  by (simp add: heap_Pop_def Let_def nth_sift_down_beyond nth_swap_at)

lemma mset_heap_Pop:
  assumes "xs \<noteq> []"
  shows "add_mset (fst (heap_Pop lt xs)) (mset (snd (heap_Pop lt xs))) = mset xs"
proof -
  let ?n = "length xs - 1"
  let ?ys = "sift_down lt (swap_at xs 0 ?n) 0 ?n"
  have len: "length ?ys = Suc ?n" using assms by simp
  then have "?ys = take ?n ?ys @ [?ys ! ?n]"
    by (metis lessI order_refl take_Suc_conv_app_nth take_all)
  then have "mset ?ys = add_mset (?ys ! ?n) (mset (take ?n ?ys))"
    by (metis add_mset_add_single mset.simps mset_append)
  moreover have "mset ?ys = mset xs" using assms by simp
  ultimately show ?thesis by (simp add: heap_Pop_def Let_def)
qed

lemma heap_Pop_snd_eq:
  assumes "xs \<noteq> []"
  shows "mset (snd (heap_Pop lt xs)) = mset xs - {# xs ! 0 #}"
  using mset_heap_Pop [OF assms, of lt] by (simp add: heap_Pop_fst [OF assms])
      (metis add_mset_remove_trivial)

lemma length_heap_Pop: "xs \<noteq> [] \<Longrightarrow> length (snd (heap_Pop lt xs)) = length xs - 1"
  by (simp add: heap_Pop_def Let_def)

section \<open>Strict weak orders\<close>

locale weak_order =
  fixes lt :: "'a \<Rightarrow> 'a \<Rightarrow> bool"
  assumes less_asym: "lt a b \<Longrightarrow> \<not> lt b a"
    and less_split: "lt a c \<Longrightarrow> lt a b \<or> lt b c"
begin

lemma less_irrefl [simp]: "\<not> lt a a"
  using less_asym by blast

lemma less_trans: "lt a b \<Longrightarrow> lt b c \<Longrightarrow> lt a c"
  using less_asym less_split by blast

lemma le_trans: "\<not> lt b a \<Longrightarrow> \<not> lt c b \<Longrightarrow> \<not> lt c a"
  using less_split by blast

lemma less_le_trans: "lt a b \<Longrightarrow> \<not> lt c b \<Longrightarrow> lt a c"
  using less_split by blast

text \<open>The heap order over the first \<open>n\<close> elements of a slice.\<close>

definition heap_on :: "'a list \<Rightarrow> nat \<Rightarrow> bool" where
  "heap_on xs n \<longleftrightarrow> (\<forall>k. 0 < k \<and> k < n \<longrightarrow> \<not> lt (xs ! k) (xs ! parent k))"

text \<open>The heap order but for the element at \<open>j\<close>, which may be lt than its parent.\<close>

definition heap_but_up :: "'a list \<Rightarrow> nat \<Rightarrow> nat \<Rightarrow> bool" where
  "heap_but_up xs n j \<longleftrightarrow>
     (\<forall>k. 0 < k \<and> k < n \<and> k \<noteq> j \<longrightarrow> \<not> lt (xs ! k) (xs ! parent k)) \<and>
     (\<forall>k. 0 < k \<and> k < n \<and> parent k = j \<and> 0 < j \<longrightarrow> \<not> lt (xs ! k) (xs ! parent j))"

text \<open>The heap order but for the element at \<open>i\<close>, which may be greater than its children.\<close>

definition heap_but_down :: "'a list \<Rightarrow> nat \<Rightarrow> nat \<Rightarrow> bool" where
  "heap_but_down xs n i \<longleftrightarrow>
     (\<forall>k. 0 < k \<and> k < n \<and> parent k \<noteq> i \<longrightarrow> \<not> lt (xs ! k) (xs ! parent k)) \<and>
     (\<forall>k. 0 < k \<and> k < n \<and> parent k = i \<and> 0 < i \<longrightarrow> \<not> lt (xs ! k) (xs ! parent i))"

lemma heap_on_root: "heap_on xs n \<Longrightarrow> i < n \<Longrightarrow> \<not> lt (xs ! i) (xs ! 0)"
proof (induction i rule: less_induct)
  case (less i)
  show ?case
  proof (cases "i = 0")
    case True
    then show ?thesis by simp
  next
    case False
    then have "parent i < i" by linarith
    with less.IH [of "parent i"] less.prems have "\<not> lt (xs ! parent i) (xs ! 0)" by simp
    moreover have "\<not> lt (xs ! i) (xs ! parent i)"
      using less.prems False by (auto simp: heap_on_def)
    ultimately show ?thesis using le_trans by blast
  qed
qed

lemma heap_but_up_swap:
  assumes up: "heap_but_up xs n j" and j: "0 < j" "j < n" "n \<le> length xs"
    and lt_j: "lt (xs ! j) (xs ! parent j)"
  shows "heap_but_up (swap_at xs (parent j) j) n (parent j)"
proof -
  let ?p = "parent j"
  let ?ys = "swap_at xs ?p j"
  have pj: "?p < j" "?p < length xs" "j < length xs" using j by linarith+
  note nth = nth_swap_at [OF pj(2) pj(3)]
  have "\<not> lt (?ys ! k) (?ys ! parent k)" if k: "0 < k" "k < n" "k \<noteq> ?p" for k
  proof -
    consider "k = j" | "k \<noteq> j" "parent k = j" | "k \<noteq> j" "parent k = ?p" | "k \<noteq> j" "parent k \<noteq> j" "parent k \<noteq> ?p"
      by blast
    then show ?thesis
    proof cases
      case 1
      then show ?thesis using pj lt_j less_asym by (simp add: nth)
    next
      case 2
      then show ?thesis using up k j pj unfolding heap_but_up_def by (auto simp: nth)
    next
      case 3
      then have "\<not> lt (xs ! k) (xs ! ?p)" using up k unfolding heap_but_up_def by auto
      with 3 k lt_j pj show ?thesis using less_trans by (auto simp: nth)
    next
      case 4
      then show ?thesis using up k unfolding heap_but_up_def by (auto simp: nth)
    qed
  qed
  moreover have "\<not> lt (?ys ! k) (?ys ! parent ?p)"
    if k: "0 < k" "k < n" "parent k = ?p" "0 < ?p" for k
  proof -
    have pp: "parent ?p < ?p" using k by linarith
    have p_ok: "\<not> lt (xs ! ?p) (xs ! parent ?p)"
      using up k pj j unfolding heap_but_up_def by auto
    show ?thesis
    proof (cases "k = j")
      case True
      then show ?thesis using p_ok pj pp by (simp add: nth)
    next
      case False
      then have "\<not> lt (xs ! k) (xs ! ?p)" using up k unfolding heap_but_up_def by auto
      with p_ok have "\<not> lt (xs ! k) (xs ! parent ?p)" using le_trans by blast
      then show ?thesis using False k pj pp by (auto simp: nth)
    qed
  qed
  ultimately show ?thesis by (simp add: heap_but_up_def)
qed

lemma heap_sift_up_weak:
  "lt' = lt \<Longrightarrow> heap_but_up xs n j \<Longrightarrow> j < n \<Longrightarrow> n \<le> length xs \<Longrightarrow> heap_on (sift_up lt' xs j) n"
proof (induction lt' xs j rule: sift_up.induct)
  case (1 lt' xs j)
  show ?case
  proof (cases "0 < j \<and> lt (xs ! j) (xs ! parent j)")
    case True
    then have "heap_but_up (swap_at xs (parent j) j) n (parent j)"
      using heap_but_up_swap 1 by simp
    moreover have "parent j < n" using 1 by linarith
    ultimately have "heap_on (sift_up lt (swap_at xs (parent j) j) (parent j)) n"
      using "1.IH" "1.prems" True by simp
    then show ?thesis using True "1.prems"(1) by (subst sift_up.simps) simp
  next
    case False
    have "\<not> lt (xs ! k) (xs ! parent k)" if "0 < k" "k < n" for k
      using that False "1.prems"(2) unfolding heap_but_up_def by (cases "k = j") auto
    then have "heap_on xs n" by (simp add: heap_on_def)
    then show ?thesis using False "1.prems"(1) by (subst sift_up.simps) auto
  qed
qed

lemmas heap_sift_up = heap_sift_up_weak [OF refl]

lemma heap_but_down_swap:
  assumes down: "heap_but_down xs n i" and n: "n \<le> length xs"
    and c: "c < n" "0 < c" "parent c = i"
    and lt_c: "lt (xs ! c) (xs ! i)"
    and least: "\<And>k. 0 < k \<Longrightarrow> k < n \<Longrightarrow> parent k = i \<Longrightarrow> \<not> lt (xs ! k) (xs ! c)"
  shows "heap_but_down (swap_at xs i c) n c"
proof -
  let ?ys = "swap_at xs i c"
  have ic: "i < c" "i < length xs" "c < length xs" using c n by linarith+
  note nth = nth_swap_at [OF ic(2) ic(3)]
  have "\<not> lt (?ys ! k) (?ys ! parent k)" if k: "0 < k" "k < n" "parent k \<noteq> c" for k
  proof -
    consider "parent k = i" "k = c" | "parent k = i" "k \<noteq> c" | "k = i" "parent k \<noteq> i"
      | "k \<noteq> i" "k \<noteq> c" "parent k \<noteq> i"
      using c by blast
    then show ?thesis
    proof cases
      case 1
      then show ?thesis using ic lt_c less_asym by (simp add: nth)
    next
      case 2
      moreover from this have "k \<noteq> i" using k by linarith
      ultimately show ?thesis using least k by (simp add: nth)
    next
      case 3
      then have "\<not> lt (xs ! c) (xs ! parent i)"
        using down c k unfolding heap_but_down_def by auto
      then show ?thesis using 3 k by (auto simp: nth)
    next
      case 4
      then show ?thesis using down k unfolding heap_but_down_def by (auto simp: nth)
    qed
  qed
  moreover have "\<not> lt (?ys ! k) (?ys ! parent c)" if k: "0 < k" "k < n" "parent k = c" for k
  proof -
    have "k \<noteq> i" "k \<noteq> c" "parent k \<noteq> i" using k c ic by linarith+
    then show ?thesis using down k c unfolding heap_but_down_def by (auto simp: nth)
  qed
  ultimately show ?thesis by (simp add: heap_but_down_def)
qed

lemma children: "parent k = i \<Longrightarrow> 0 < k \<Longrightarrow> k = 2 * i + 1 \<or> k = 2 * i + 2"
  by linarith

lemma heap_sift_down_weak:
  "lt' = lt \<Longrightarrow> heap_but_down xs n i \<Longrightarrow> n \<le> length xs \<Longrightarrow> heap_on (sift_down lt' xs i n) n"
proof (induction lt' xs i n rule: sift_down.induct)
  case (1 lt' xs i n)
  let ?c = "if 2 * i + 2 < n \<and> lt (xs ! (2 * i + 2)) (xs ! (2 * i + 1)) then 2 * i + 2 else 2 * i + 1"
  note down = "1.prems"(2)
  show ?case
  proof (cases "n \<le> 2 * i + 1")
    case True
    have "\<not> lt (xs ! k) (xs ! parent k)" if "0 < k" "k < n" for k
      using that True down children [of k i] unfolding heap_but_down_def by auto
    then show ?thesis using True by (subst sift_down.simps) (simp add: heap_on_def)
  next
    case False
    have c: "?c < n" "0 < ?c" "parent ?c = i" using False by auto
    have least: "\<not> lt (xs ! k) (xs ! ?c)" if "0 < k" "k < n" "parent k = i" for k
      using children [OF that(3,1)] that(2) less_asym by auto
    show ?thesis
    proof (cases "lt (xs ! ?c) (xs ! i)")
      case True
      have "heap_but_down (swap_at xs i ?c) n ?c"
        by (rule heap_but_down_swap [OF down "1.prems"(3) c True least])
      then have "heap_on (sift_down lt (swap_at xs i ?c) ?c n) n"
        using "1.IH" [OF False refl] True "1.prems" by simp
      then show ?thesis using False True "1.prems"(1) by (subst sift_down.simps) (simp add: Let_def)
    next
      case no_swap: False
      have "\<not> lt (xs ! k) (xs ! parent k)" if k: "0 < k" "k < n" for k
      proof (cases "parent k = i")
        case True
        then show ?thesis using least [OF k True] no_swap le_trans by metis
      next
        case False
        then show ?thesis using down k unfolding heap_but_down_def by auto
      qed
      then have "heap_on xs n" by (simp add: heap_on_def)
      then show ?thesis using False no_swap "1.prems"(1)
        by (subst sift_down.simps) (simp add: Let_def)
    qed
  qed
qed

lemmas heap_sift_down = heap_sift_down_weak [OF refl]

section \<open>The heap operations\<close>

lemma heap_on_Push:
  assumes "heap_on xs (length xs)"
  shows "heap_on (heap_Push lt xs x) (Suc (length xs))"
proof -
  have no_child: "parent k \<noteq> length xs" if "0 < k" "k < Suc (length xs)" for k
    using parent_less [OF that(1)] that(2) by linarith
  have "\<not> lt ((xs @ [x]) ! k) ((xs @ [x]) ! parent k)" if "0 < k" "k < length xs" for k
    using assms that parent_bound [OF that] by (simp add: heap_on_def nth_append)
  then have "heap_but_up (xs @ [x]) (Suc (length xs)) (length xs)"
    using no_child by (auto simp: heap_but_up_def less_Suc_eq)
  then show ?thesis by (simp add: heap_Push_def heap_sift_up)
qed

lemma heap_on_replace_root:
  assumes "heap_on xs n" "n \<le> length xs"
  shows "heap_on (sift_down lt (xs[0 := x]) 0 n) n"
proof -
  have "heap_but_down (xs[0 := x]) n 0"
    using assms unfolding heap_but_down_def heap_on_def
    by (auto simp: nth_list_update)
  then show ?thesis using assms by (simp add: heap_sift_down)
qed

lemma heap_on_Pop:
  assumes "heap_on xs (length xs)" "xs \<noteq> []"
  shows "heap_on (snd (heap_Pop lt xs)) (length xs - 1)"
proof -
  let ?n = "length xs - 1"
  let ?ys = "swap_at xs 0 ?n"
  have "heap_but_down ?ys ?n 0"
    using assms unfolding heap_but_down_def heap_on_def by (auto simp: nth_swap_at)
  then have "heap_on (sift_down lt ?ys 0 ?n) ?n" using assms by (simp add: heap_sift_down)
  then show ?thesis
    by (auto simp: heap_Pop_def Let_def heap_on_def parent_bound)
qed

text \<open>A pop returns a least element.\<close>

lemma heap_Pop_least:
  assumes "heap_on xs (length xs)" "xs \<noteq> []" "x \<in> set xs"
  shows "\<not> lt x (fst (heap_Pop lt xs))"
  using assms heap_on_root by (auto simp: heap_Pop_fst in_set_conv_nth)

end

end
