(* ===== verification/Topk.thy ===== *)
theory Topk
  imports Heap_Array
begin

text \<open>
  The bounded selector of \<^verbatim>\<open>internal/memory/internal/topk/topk.go\<close> and its caller
  \<^verbatim>\<open>semanticTopK\<close> of \<^verbatim>\<open>internal/memory/graph/semantic.go\<close>. The selector keeps the best \<open>limit\<close> of
  the values added to it in a worst-first heap; the lemmas show that what it keeps is a best
  selection whatever the order of the additions, and that \<^verbatim>\<open>Sorted\<close> lists it best first.
\<close>

section \<open>The selector\<close>

record 'a Selector =
  items :: "'a list"
  limit :: nat
  better :: "'a \<Rightarrow> 'a \<Rightarrow> bool"

text \<open>\<^verbatim>\<open>New\<close> panics on a limit that is not positive: \<open>None\<close>.\<close>

definition New :: "int \<Rightarrow> ('a \<Rightarrow> 'a \<Rightarrow> bool) \<Rightarrow> 'a Selector option" where
  "New lmt bet = (if lmt \<le> 0 then None else Some \<lparr>items = [], limit = nat lmt, better = bet\<rparr>)"

abbreviation worse :: "'a Selector \<Rightarrow> 'a \<Rightarrow> 'a \<Rightarrow> bool" where
  "worse s a b \<equiv> better s b a"

definition Add :: "'a Selector \<Rightarrow> 'a \<Rightarrow> 'a Selector" where
  "Add s value =
     (if length (items s) < limit s
      then s\<lparr>items := sift_up (worse s) (items s @ [value]) (length (items s))\<rparr>
      else if \<not> better s value (items s ! 0) then s
      else s\<lparr>items := sift_down (worse s) ((items s)[0 := value]) 0 (length (items s))\<rparr>)"

text \<open>
  \<^verbatim>\<open>Sorted\<close> sorts the slice with \<^verbatim>\<open>sort.Slice\<close>, which orders by the comparison and leaves the order
  of equal elements open. The model is an insertion sort, one of the orders it may produce; the
  lemmas speak only of what every such order has.
\<close>

fun insert_by :: "('a \<Rightarrow> 'a \<Rightarrow> bool) \<Rightarrow> 'a \<Rightarrow> 'a list \<Rightarrow> 'a list" where
  "insert_by bet x [] = [x]"
| "insert_by bet x (y # ys) = (if bet y x then y # insert_by bet x ys else x # y # ys)"

fun sort_Slice :: "('a \<Rightarrow> 'a \<Rightarrow> bool) \<Rightarrow> 'a list \<Rightarrow> 'a list" where
  "sort_Slice bet [] = []"
| "sort_Slice bet (x # xs) = insert_by bet x (sort_Slice bet xs)"

definition Sorted :: "'a Selector \<Rightarrow> 'a list" where
  "Sorted s = sort_Slice (better s) (items s)"

text \<open>The additions of one selection, in the order they are made.\<close>

definition AddAll :: "'a Selector \<Rightarrow> 'a list \<Rightarrow> 'a Selector" where
  "AddAll s vs = foldl Add s vs"

section \<open>The caller: exact cosine selection\<close>

text \<open>
  \<^verbatim>\<open>semanticTopK\<close> scores every cached vector against one, drops those below the threshold and keeps
  the best \<open>limit\<close>. The cache is the list of its entries in the order the map iteration visits
  them, which Go leaves open; \<open>cosine\<close> stands for \<^verbatim>\<open>embed.CosineSimilarity\<close>. Scores are compared
  only, so they are values of a linear order (a \<^verbatim>\<open>float64\<close> other than NaN).
\<close>

record ('i, 's) semanticScore =
  score_id :: 'i
  similarity :: 's

definition semantic_candidates ::
  "('v \<Rightarrow> 'v \<Rightarrow> 's::linorder) \<Rightarrow> ('i \<times> 'v) list \<Rightarrow> 'i \<Rightarrow> 'v \<Rightarrow> 's \<Rightarrow> ('i, 's) semanticScore list" where
  "semantic_candidates cosine cache excludeID vec threshold =
     [\<lparr>score_id = fst e, similarity = cosine vec (snd e)\<rparr>.
        e \<leftarrow> cache, fst e \<noteq> excludeID, threshold \<le> cosine vec (snd e)]"

definition semanticTopK ::
  "('v \<Rightarrow> 'v \<Rightarrow> 's::linorder) \<Rightarrow> ('i \<times> 'v) list \<Rightarrow> 'i \<Rightarrow> 'v \<Rightarrow> 's \<Rightarrow> int \<Rightarrow>
   ('i, 's) semanticScore list option" where
  "semanticTopK cosine cache excludeID vec threshold lmt =
     (case New lmt (\<lambda>a b. similarity b < similarity a) of
        None \<Rightarrow> None
      | Some best \<Rightarrow>
          Some (Sorted (AddAll best (semantic_candidates cosine cache excludeID vec threshold))))"

section \<open>Sorting\<close>

lemma mset_insert_by [simp]: "mset (insert_by bet x ys) = add_mset x (mset ys)"
  by (induction ys) auto

lemma mset_sort_Slice [simp]: "mset (sort_Slice bet xs) = mset xs"
  by (induction xs) auto

lemma set_insert_by [simp]: "set (insert_by bet x ys) = insert x (set ys)"
  by (metis mset_insert_by set_mset_add_mset_insert set_mset_mset)

context weak_order
begin

definition sorted_by :: "'a list \<Rightarrow> bool" where
  "sorted_by xs \<longleftrightarrow> sorted_wrt (\<lambda>a b. \<not> lt b a) xs"

lemma sorted_insert_by: "sorted_by ys \<Longrightarrow> sorted_by (insert_by lt x ys)"
proof (induction ys)
  case Nil
  then show ?case by (simp add: sorted_by_def)
next
  case (Cons y ys)
  show ?case
  proof (cases "lt y x")
    case True
    then have "\<not> lt x y" by (rule less_asym)
    with True Cons show ?thesis by (simp add: sorted_by_def)
  next
    case False
    have "\<not> lt z x" if "z \<in> set ys" for z
      using le_trans [of y x z] False Cons.prems that by (auto simp: sorted_by_def)
    with False Cons.prems show ?thesis by (simp add: sorted_by_def)
  qed
qed

lemma sorted_sort_Slice: "sorted_by (sort_Slice lt xs)"
proof (induction xs)
  case Nil
  show ?case by (simp add: sorted_by_def)
next
  case (Cons x xs)
  then show ?case by (simp add: sorted_insert_by)
qed

end

section \<open>The selector keeps a best selection\<close>

text \<open>
  A best selection of size at most \<open>k\<close> from a multiset: as many elements as there are, up to
  \<open>k\<close>, and no element left out is better than one kept.
\<close>

definition best_of :: "('a \<Rightarrow> 'a \<Rightarrow> bool) \<Rightarrow> nat \<Rightarrow> 'a multiset \<Rightarrow> 'a multiset \<Rightarrow> bool" where
  "best_of bet k V M \<longleftrightarrow>
     M \<subseteq># V \<and> size M = min k (size V) \<and> (\<forall>x\<in>#M. \<forall>y\<in>#V - M. \<not> bet y x)"

text \<open>The order a caller passes: better elements first, so the heap's order is its converse.\<close>

locale topk_order = best_first: weak_order bet for bet :: "'a \<Rightarrow> 'a \<Rightarrow> bool"

sublocale topk_order \<subseteq> worst_first: weak_order "\<lambda>a b. bet b a"
  by unfold_locales (use best_first.less_asym best_first.less_split in blast)+

context topk_order
begin

definition selector_inv :: "'a Selector \<Rightarrow> bool" where
  "selector_inv s \<longleftrightarrow>
     better s = bet \<and> 0 < limit s \<and> length (items s) \<le> limit s \<and>
     worst_first.heap_on (items s) (length (items s))"

lemma selector_inv_New: "New lmt bet = Some s \<Longrightarrow> selector_inv s"
  by (auto simp: New_def selector_inv_def worst_first.heap_on_def split: if_splits)

lemma selector_inv_Add:
  assumes inv: "selector_inv s"
  shows "selector_inv (Add s v)"
proof (cases "length (items s) < limit s")
  case True
  then show ?thesis
    using inv worst_first.heap_on_Push [of "items s" v]
    by (auto simp: selector_inv_def Add_def heap_Push_def)
next
  case False
  then show ?thesis
    using inv worst_first.heap_on_replace_root [of "items s" "length (items s)" v]
    by (auto simp: selector_inv_def Add_def)
qed

lemma Add_limit [simp]: "limit (Add s v) = limit s" and Add_better [simp]: "better (Add s v) = better s"
  by (simp_all add: Add_def)

lemma best_of_grow:
  assumes "best_of bet k V M" "size M < k"
  shows "best_of bet k (add_mset v V) (add_mset v M)"
proof -
  have "size M = size V" using assms by (auto simp: best_of_def)
  then have "M = V" using assms(1) by (metis best_of_def mset_subset_size subset_mset.le_imp_less_or_eq less_irrefl)
  then show ?thesis using assms by (auto simp: best_of_def)
qed

lemma best_of_drop:
  assumes best: "best_of bet k V M" and full: "k \<le> size M" and root: "r \<in># M"
    and worst: "\<And>x. x \<in># M \<Longrightarrow> \<not> bet r x" and v: "\<not> bet v r"
  shows "best_of bet k (add_mset v V) M"
proof -
  have sub: "M \<subseteq># V" and size_M: "size M = min k (size V)" using best by (auto simp: best_of_def)
  then obtain D where D: "V = M + D" by (metis subset_mset.le_iff_add)
  have "\<not> bet v x" if "x \<in># M" for x
    using best_first.le_trans worst [OF that] v by blast
  moreover have "\<not> bet y x" if "y \<in># D" "x \<in># M" for x y
    using best D that by (auto simp: best_of_def)
  moreover have "add_mset v V - M = add_mset v D" using D by simp
  moreover have "M \<subseteq># add_mset v V" using D by (metis mset_subset_eq_add_left union_mset_add_mset_right)
  ultimately show ?thesis using full size_M by (auto simp: best_of_def)
qed

lemma best_of_replace:
  assumes best: "best_of bet k V (add_mset r M)"
    and worst: "\<And>x. x \<in># M \<Longrightarrow> \<not> bet r x" and v: "bet v r"
    and full: "k \<le> Suc (size M)"
  shows "best_of bet k (add_mset v V) (add_mset v M)"
proof -
  have sub: "add_mset r M \<subseteq># V" and size_M: "Suc (size M) = min k (size V)"
    using best by (auto simp: best_of_def)
  then obtain D where D: "V = add_mset r M + D" by (metis subset_mset.le_iff_add)
  have old: "\<not> bet y x" if "y \<in># D" "x \<in># add_mset r M" for x y
    using best D that by (auto simp: best_of_def)
  have dropped: "add_mset v V - add_mset v M = add_mset r D" using D by simp
  have "\<not> bet y x" if "x \<in># add_mset v M" "y \<in># add_mset r D" for x y
  proof -
    consider "x = v" "y = r" | "x = v" "y \<in># D" | "x \<in># M" "y = r" | "x \<in># M" "y \<in># D"
      using \<open>x \<in># add_mset v M\<close> \<open>y \<in># add_mset r D\<close> by auto
    then show ?thesis
    proof cases
      case 1
      then show ?thesis using v best_first.less_asym by simp
    next
      case 2
      then show ?thesis using old [of y r] v best_first.less_trans by auto
    next
      case 3
      then show ?thesis using worst by simp
    next
      case 4
      then show ?thesis using old by simp
    qed
  qed
  then show ?thesis using size_M full D dropped by (auto simp: best_of_def)
qed

lemma best_of_Add:
  assumes inv: "selector_inv s" and best: "best_of bet (limit s) V (mset (items s))"
  shows "best_of bet (limit s) (add_mset v V) (mset (items (Add s v)))"
proof (cases "length (items s) < limit s")
  case True
  then show ?thesis using best_of_grow [OF best] by (simp add: Add_def)
next
  case False
  let ?r = "items s ! 0"
  have ne: "items s \<noteq> []" and bet: "better s = bet" using False inv by (auto simp: selector_inv_def)
  have worst: "\<not> bet ?r x" if "x \<in> set (items s)" for x
    using that worst_first.heap_on_root inv by (auto simp: selector_inv_def in_set_conv_nth)
  show ?thesis
  proof (cases "bet v ?r")
    case True
    obtain xs where xs: "items s = ?r # xs" using ne by (cases "items s") auto
    have "mset (items (Add s v)) = add_mset v (mset xs)"
      using False True bet ne by (subst Add_def) (simp add: mset_sift_down, metis list_update_code(2) mset.simps(2) xs)
    moreover have "best_of bet (limit s) V (add_mset ?r (mset xs))" using best xs by (metis mset.simps(2))
    moreover have "limit s \<le> Suc (size (mset xs))" using False by (metis length_Cons not_le size_mset xs)
    moreover have "\<not> bet ?r x" if "x \<in># mset xs" for x
      using that worst xs by (metis in_multiset_in_set list.set_intros(2))
    ultimately show ?thesis using best_of_replace [OF _ _ True, of "limit s" V "mset xs"] by simp
  next
    case False
    then have "items (Add s v) = items s" using \<open>\<not> length (items s) < limit s\<close> bet by (simp add: Add_def)
    then show ?thesis
      using best_of_drop [OF best, of ?r v] False worst ne \<open>\<not> length (items s) < limit s\<close> by simp
  qed
qed

lemma AddAll_best:
  "selector_inv s \<Longrightarrow> best_of bet (limit s) V (mset (items s)) \<Longrightarrow>
   best_of bet (limit s) (V + mset vs) (mset (items (AddAll s vs))) \<and> selector_inv (AddAll s vs)"
proof (induction vs arbitrary: s V)
  case Nil
  then show ?case by (simp add: AddAll_def)
next
  case (Cons v vs)
  have "best_of bet (limit (Add s v)) (add_mset v V) (mset (items (Add s v)))"
    using best_of_Add [OF Cons.prems] by simp
  from Cons.IH [OF selector_inv_Add [OF Cons.prems(1)] this] show ?case
    by (simp add: AddAll_def)
qed

theorem Sorted_AddAll:
  assumes "New lmt bet = Some s"
  shows "best_of bet (nat lmt) (mset vs) (mset (Sorted (AddAll s vs))) \<and>
         best_first.sorted_by (Sorted (AddAll s vs))"
proof -
  have s: "items s = []" "limit s = nat lmt" using assms by (auto simp: New_def split: if_splits)
  then have "best_of bet (limit s) {#} (mset (items s))" by (simp add: best_of_def)
  from AddAll_best [OF selector_inv_New [OF assms] this, of vs] s show ?thesis
    using best_first.sorted_sort_Slice by (simp add: Sorted_def selector_inv_def)
qed

end

section \<open>Selections of the program\<close>

interpretation by_similarity: topk_order "\<lambda>a b :: ('i, 's::linorder) semanticScore. similarity b < similarity a"
  by unfold_locales auto

text \<open>Two lists in descending order with the same elements are the same list.\<close>

lemma descending_unique:
  assumes "sorted_wrt (\<ge>) xs" "sorted_wrt (\<ge>) ys" "mset xs = mset ys"
  shows "xs = (ys :: 's::linorder list)"
proof -
  have "sorted (rev xs)" "sorted (rev ys)" using assms(1,2) by (simp_all add: sorted_wrt_rev)
  moreover have "mset (rev xs) = mset (rev ys)" using assms(3) by simp
  ultimately have "rev xs = rev ys" by (metis properties_for_sort sort_key_id_if_sorted)
  then show ?thesis by simp
qed

lemma best_of_descending:
  fixes f :: "'a \<Rightarrow> 's::linorder"
  assumes best: "best_of (\<lambda>a b. f b < f a) k V (mset xs)" and desc: "sorted_wrt (\<lambda>a b. f b \<le> f a) xs"
  shows "map f xs = take k (rev (sorted_list_of_multiset (image_mset f V)))"
proof -
  obtain D where D: "V = mset xs + D" using best by (metis best_of_def subset_mset.le_iff_add)
  let ?ds = "rev (sorted_list_of_multiset (image_mset f D))"
  have "f y \<le> f x" if "x \<in> set xs" "y \<in># D" for x y
    using best D that by (auto simp: best_of_def not_less)
  then have "sorted_wrt (\<ge>) (map f xs @ ?ds)"
    using desc by (auto simp: sorted_wrt_append sorted_wrt_map sorted_wrt_rev)
  moreover have "sorted_wrt (\<ge>) (rev (sorted_list_of_multiset (image_mset f V)))"
    by (simp add: sorted_wrt_rev)
  moreover have "mset (map f xs @ ?ds) = mset (rev (sorted_list_of_multiset (image_mset f V)))"
    by (simp add: D)
  ultimately have "map f xs @ ?ds = rev (sorted_list_of_multiset (image_mset f V))"
    by (rule descending_unique)
  moreover have "take k (map f xs @ ?ds) = map f xs"
  proof (cases "k \<le> length xs + size D")
    case True
    then have "length xs = k" using best by (simp add: best_of_def D)
    then show ?thesis by simp
  next
    case False
    then have "size D = 0" using best by (simp add: best_of_def D)
    then show ?thesis using False by simp
  qed
  ultimately show ?thesis by simp
qed

text \<open>
  (C39) The selector, given any strict weak ordering and a positive limit, returns a best selection
  of whatever it is given, best first: it holds as many of the values as there are, up to the limit,
  and no value it dropped is better than one it returns.
\<close>

theorem selector_keeps_best:
  assumes "weak_order bet" and "New lmt bet = Some s"
  shows "best_of bet (nat lmt) (mset vs) (mset (Sorted (AddAll s vs))) \<and>
         sorted_wrt (\<lambda>a b. \<not> bet b a) (Sorted (AddAll s vs))"
proof -
  from assms(1) have ord: "topk_order bet" by (rule topk_order.intro)
  show ?thesis
    using topk_order.Sorted_AddAll [OF ord assms(2)] weak_order.sorted_by_def [OF assms(1)] by blast
qed

text \<open>
  (C40) The exact cosine selection: for a positive limit it returns, best first, scores of cached
  vectors that pass the threshold, and their similarities are exactly the greatest ones, as sorting
  every candidate and cutting at the limit would give, whatever order the cache's map is visited in.
  A limit that is not positive panics.
\<close>

theorem semanticTopK_exact:
  fixes cosine :: "'v \<Rightarrow> 'v \<Rightarrow> 's :: linorder" and cache :: "('i \<times> 'v) list"
  shows "(lmt \<le> 0 \<longrightarrow> semanticTopK cosine cache excludeID vec threshold lmt = None) \<and>
   (0 < lmt \<longrightarrow>
     (\<exists>r. semanticTopK cosine cache excludeID vec threshold lmt = Some r \<and>
          mset r \<subseteq># mset (semantic_candidates cosine cache excludeID vec threshold) \<and>
          map similarity r =
            take (nat lmt) (rev (sort (map similarity
              (semantic_candidates cosine cache excludeID vec threshold))))))"
proof -
  let ?bet = "\<lambda>a b :: ('i, 's) semanticScore. similarity b < similarity a"
  let ?cs = "semantic_candidates cosine cache excludeID vec threshold"
  show ?thesis
  proof (cases "lmt \<le> 0")
    case True
    then show ?thesis by (simp add: semanticTopK_def New_def)
  next
    case False
    then obtain s where s: "New lmt ?bet = Some s" by (simp add: New_def)
    let ?r = "Sorted (AddAll s ?cs)"
    have r: "semanticTopK cosine cache excludeID vec threshold lmt = Some ?r"
      unfolding semanticTopK_def s by simp
    from by_similarity.Sorted_AddAll [OF s, of ?cs]
    have best: "best_of ?bet (nat lmt) (mset ?cs) (mset ?r)"
      and "sorted_wrt (\<lambda>a b. \<not> ?bet b a) ?r"
      by (simp_all add: by_similarity.best_first.sorted_by_def)
    then have "map similarity ?r = take (nat lmt) (rev (sorted_list_of_multiset (image_mset similarity (mset ?cs))))"
      by (intro best_of_descending) (simp_all add: not_less)
    then show ?thesis using r best False by (simp add: best_of_def flip: mset_map)
  qed
qed

theorem selector_keeps_best_witness:
  "best_of (\<lambda>a b. b < a) 2 (mset [3, 1, 4, 1, 5 :: int])
     (mset (Sorted (AddAll \<lparr>items = [], limit = 2, better = \<lambda>a b. b < a\<rparr> [3, 1, 4, 1, 5])))"
proof -
  have wo: "weak_order (\<lambda>a b :: int. b < a)" by unfold_locales auto
  have new: "New 2 (\<lambda>a b :: int. b < a) = Some \<lparr>items = [], limit = 2, better = \<lambda>a b. b < a\<rparr>"
    by (simp add: New_def)
  show ?thesis using selector_keeps_best [OF wo new, of "[3, 1, 4, 1, 5]"] by simp
qed

theorem semanticTopK_exact_witness:
  "\<exists>r. semanticTopK (\<lambda>a b :: int. a * b) [(1 :: nat, 5), (2, 3), (3, 9)] 3 2 1 1 = Some r \<and>
       map similarity r = [10]"
proof -
  let ?cache = "[(1 :: nat, 5 :: int), (2, 3), (3, 9)]"
  have "take (nat 1) (rev (sort (map similarity
      (semantic_candidates (\<lambda>a b. a * b) ?cache 3 2 1)))) = [10]"
    by (simp add: semantic_candidates_def)
  with semanticTopK_exact [of 1 "\<lambda>a b. a * b" ?cache 3 2 1] show ?thesis by auto
qed

end
