(* ===== verification/Scheduler.thy ===== *)
theory Scheduler
  imports Heap_Array
begin

text \<open>
  The background consolidation scheduler of \<^verbatim>\<open>internal/aml/scheduler.go\<close>.

  The \<^verbatim>\<open>*schedUser\<close> objects are shared by pointer between the map of users, the queue, the heap of
  retries and the goroutines (a worker running a job, a \<^verbatim>\<open>Hold\<close> not yet released, a
  \<^verbatim>\<open>WaitBacklog\<close> call), so the model keeps them in a store, \<open>objs\<close>, and everything else holds
  addresses. Each critical section of the code (between \<^verbatim>\<open>mu.Lock\<close> and \<^verbatim>\<open>mu.Unlock\<close>) is one
  definition on the record \<open>scheduler\<close>; the record \<open>system\<close> adds the pointers the goroutines
  hold, and \<open>sys_step\<close> interleaves the sections of any number of goroutines.

  Counts of users and characters are unbounded integers, and the backoff's \<^verbatim>\<open>float64\<close> product is
  computed exactly over the rationals. A \<^verbatim>\<open>*list.Element\<close> is the place of its user in the list
  \<open>queue\<close>. The change channel is the number of times it was replaced, \<open>changed\<close>: closing the old
  channel wakes every goroutine that waits, each of which then runs its next section.
\<close>

section \<open>State\<close>

datatype userState = userIdle | userQueued | userRunning | userBackingOff

type_synonym userKey = string
type_synonym addr = nat

record schedUser =
  key :: userKey
  state :: userState
  holds :: nat
  waiters :: nat
  backlog :: int
  added :: int
  dirty :: bool
  measured :: bool
  failures :: nat
  retryAt :: instant
  seq :: nat
  since :: "instant option"
  dirtySince :: "instant option"

record scheduler =
  workers :: nat
  maxUsers :: int
  objs :: "addr \<Rightarrow> schedUser"
  next_addr :: addr
  users :: "userKey \<rightharpoonup> addr"
  measuredUsers :: "userKey \<Rightarrow> bool"
  queue :: "addr list"
  retries :: "addr list"
  running :: int
  retrySeq :: nat
  changed :: nat
  started :: bool
  stopped :: bool
  draining :: bool
  fullLogged :: "instant option"

definition queueFullEvery :: duration where "queueFullEvery = minute"
definition retryBase :: duration where "retryBase = 30 * second"
definition retryMax :: duration where "retryMax = 10 * minute"
definition reservePause :: duration where "reservePause = 10 * minute"

text \<open>The object \<^verbatim>\<open>&schedUser{key: key}\<close>: every other field has its zero value.\<close>

definition new_user :: "userKey \<Rightarrow> schedUser" where
  "new_user k =
     \<lparr>key = k, state = userIdle, holds = 0, waiters = 0, backlog = 0, added = 0, dirty = False,
      measured = False, failures = 0, retryAt = 0, seq = 0, since = None, dirtySince = None\<rparr>"

definition newScheduler :: "nat \<Rightarrow> int \<Rightarrow> scheduler" where
  "newScheduler w m =
     \<lparr>workers = w, maxUsers = m, objs = (\<lambda>_. new_user []), next_addr = 0, users = Map.empty,
      measuredUsers = (\<lambda>_. False), queue = [], retries = [], running = 0, retrySeq = 0,
      changed = 0, started = False, stopped = False, draining = False, fullLogged = None\<rparr>"

text \<open>How a job ended, and the lines the scheduler logs.\<close>

datatype jobError = ErrBackgroundReserve | OtherError

datatype jobOutcomeT = jobOK | jobFailed | jobPaused | jobCanceled

datatype logLine =
    QueueFull int userKey
  | RetriesIn duration userKey
  | PausedForReserve userKey

definition short :: "userKey \<Rightarrow> userKey" where
  "short k = take 8 k"

definition jobOutcome :: "bool \<Rightarrow> jobError option \<Rightarrow> jobOutcomeT" where
  "jobOutcome isCut err =
     (if isCut then jobCanceled
      else case err of
             None \<Rightarrow> jobOK
           | Some ErrBackgroundReserve \<Rightarrow> jobPaused
           | Some OtherError \<Rightarrow> jobFailed)"

section \<open>The locked helpers\<close>

definition upd :: "scheduler \<Rightarrow> addr \<Rightarrow> (schedUser \<Rightarrow> schedUser) \<Rightarrow> scheduler" where
  "upd s a f = s\<lparr>objs := (objs s)(a := f (objs s a))\<rparr>"

definition alloc :: "scheduler \<Rightarrow> userKey \<Rightarrow> scheduler \<times> addr" where
  "alloc s k =
     (let a = next_addr s
      in (s\<lparr>objs := (objs s)(a := new_user k), next_addr := Suc a, users := (users s)(k \<mapsto> a)\<rparr>, a))"

definition lookup_or_alloc :: "scheduler \<Rightarrow> userKey \<Rightarrow> scheduler \<times> addr" where
  "lookup_or_alloc s k = (case users s k of None \<Rightarrow> alloc s k | Some a \<Rightarrow> (s, a))"

definition activeLocked :: "scheduler \<Rightarrow> int" where
  "activeLocked s = int (length (queue s)) + running s + int (length (retries s))"

definition enqueueLocked :: "scheduler \<Rightarrow> addr \<Rightarrow> scheduler" where
  "enqueueLocked s a = (upd s a (\<lambda>u. u\<lparr>state := userQueued\<rparr>))\<lparr>queue := queue s @ [a]\<rparr>"

definition retryLess :: "(addr \<Rightarrow> schedUser) \<Rightarrow> addr \<Rightarrow> addr \<Rightarrow> bool" where
  "retryLess h a b =
     (if retryAt (h a) \<noteq> retryAt (h b) then retryAt (h a) < retryAt (h b)
      else seq (h a) < seq (h b))"

function retryDueLocked :: "scheduler \<Rightarrow> instant \<Rightarrow> scheduler" where
  "retryDueLocked s now =
     (if retries s \<noteq> [] \<and> retryAt (objs s (hd (retries s))) \<le> now
      then let (u, rs) = heap_Pop (retryLess (objs s)) (retries s)
           in retryDueLocked (enqueueLocked (s\<lparr>retries := rs\<rparr>) u) now
      else s)"
  by pat_completeness auto
termination
proof (relation "measure (\<lambda>(s, now). length (retries s))", goal_cases)
  case 1
  show ?case by simp
next
  case (2 s now x u rs)
  then have "rs = snd (heap_Pop (retryLess (objs s)) (retries s))" by (metis snd_conv)
  with 2 show ?case by (simp add: enqueueLocked_def upd_def length_heap_Pop)
qed

declare retryDueLocked.simps [simp del]

definition firstUnheldLocked :: "scheduler \<Rightarrow> addr option" where
  "firstUnheldLocked s = List.find (\<lambda>a. holds (objs s a) = 0) (queue s)"

definition forgetLocked :: "scheduler \<Rightarrow> addr \<Rightarrow> scheduler" where
  "forgetLocked s a =
     (let u = objs s a
      in if state u = userIdle \<and> holds u = 0 \<and> waiters u = 0 \<and> backlog u \<le> 0
            \<and> users s (key u) = Some a
         then s\<lparr>users := (users s)(key u := None)\<rparr>
         else s)"

definition changedLocked :: "scheduler \<Rightarrow> scheduler" where
  "changedLocked s = s\<lparr>changed := Suc (changed s)\<rparr>"

definition unlockChanged :: "scheduler \<Rightarrow> scheduler" where
  "unlockChanged s = changedLocked s"

section \<open>The backoff\<close>

text \<open>\<^verbatim>\<open>math.Round\<close> of a product that is never negative here.\<close>

definition retryDelay :: "nat \<Rightarrow> rat \<Rightarrow> duration" where
  "retryDelay n jitter =
     (let delay = (if n \<le> 10 then retryBase * 2 ^ (n - 1) else retryMax);
          jittered = round (of_int delay * (4 / 5 + 2 / 5 * jitter))
      in min jittered (round (of_int retryMax * (4 / 5 + 1 / 5 * jitter))))"

section \<open>The operations\<close>

text \<open>The users with work are at their bound and the user is not among them.\<close>

definition notifyFull :: "scheduler \<Rightarrow> userKey \<Rightarrow> bool" where
  "notifyFull s k \<longleftrightarrow>
     (case users s k of None \<Rightarrow> True | Some a \<Rightarrow> state (objs s a) = userIdle)
     \<and> maxUsers s \<le> activeLocked s"

definition Notify :: "scheduler \<Rightarrow> instant \<Rightarrow> userKey \<Rightarrow> int \<Rightarrow> scheduler \<times> logLine option" where
  "Notify s now k addedChars =
     (if notifyFull s k
      then
        (let logFull = (case fullLogged s of None \<Rightarrow> True | Some t \<Rightarrow> queueFullEvery \<le> now - t)
         in if logFull
            then (s\<lparr>fullLogged := Some now\<rparr>, Some (QueueFull (maxUsers s) (short k)))
            else (s, None))
      else
        (let (s1, a) = lookup_or_alloc s k;
             s2 = upd s1 a (\<lambda>u. u\<lparr>backlog := backlog u + addedChars\<rparr>);
             s3 = (case state (objs s2 a) of
                     userIdle \<Rightarrow> enqueueLocked (upd s2 a (\<lambda>u. u\<lparr>since := Some now\<rparr>)) a
                   | userRunning \<Rightarrow>
                       upd s2 a (\<lambda>u. u\<lparr>added := added u + addedChars, dirty := True,
                         dirtySince := (if dirty u then dirtySince u else Some now)\<rparr>)
                   | _ \<Rightarrow> s2)
         in (unlockChanged s3, None)))"

text \<open>
  \<^verbatim>\<open>WaitBacklog\<close>: the section before the loop together with its first pass, and the section that
  runs when the wait is woken, either by a change or by the end of the context (\<open>ctxErr\<close>).
  \<open>WaitReturns err\<close> is its return, after the deferred section has run; \<open>WaitBlocks\<close> is the
  \<^verbatim>\<open>select\<close>.
\<close>

datatype 'e waitResult = WaitReturns "'e option" | WaitBlocks

definition waitLeave :: "scheduler \<Rightarrow> addr \<Rightarrow> scheduler" where
  "waitLeave s a = forgetLocked (upd s a (\<lambda>u. u\<lparr>waiters := waiters u - 1\<rparr>)) a"

definition waitLoop :: "scheduler \<Rightarrow> addr \<Rightarrow> int \<Rightarrow> instant \<Rightarrow> scheduler \<times> 'e waitResult" where
  "waitLoop s a bound now =
     (let u = objs s a
      in if bound < backlog u \<and> state u \<noteq> userBackingOff \<and> \<not> stopped s \<and> \<not> draining s
         then if state u = userIdle
              then if maxUsers s \<le> activeLocked s
                   then (waitLeave s a, WaitReturns None)
                   else (changedLocked (enqueueLocked (upd s a (\<lambda>u. u\<lparr>since := Some now\<rparr>)) a),
                         WaitBlocks)
              else (s, WaitBlocks)
         else (waitLeave s a, WaitReturns None))"

definition waitEnter ::
  "scheduler \<Rightarrow> userKey \<Rightarrow> int \<Rightarrow> instant \<Rightarrow> scheduler \<times> addr option \<times> 'e waitResult" where
  "waitEnter s k bound now =
     (case users s k of
        None \<Rightarrow> (s, None, WaitReturns None)
      | Some a \<Rightarrow>
          (let (s', r) = waitLoop (upd s a (\<lambda>u. u\<lparr>waiters := Suc (waiters u)\<rparr>)) a bound now
           in (s', Some a, r)))"

definition waitWake ::
  "scheduler \<Rightarrow> addr \<Rightarrow> int \<Rightarrow> instant \<Rightarrow> 'e option \<Rightarrow> scheduler \<times> 'e waitResult" where
  "waitWake s a bound now ctxErr =
     (case ctxErr of
        Some e \<Rightarrow> (waitLeave s a, WaitReturns (Some e))
      | None \<Rightarrow> waitLoop s a bound now)"

definition Hold :: "scheduler \<Rightarrow> userKey \<Rightarrow> scheduler \<times> addr" where
  "Hold s k =
     (let (s1, a) = lookup_or_alloc s k
      in (upd s1 a (\<lambda>u. u\<lparr>holds := Suc (holds u)\<rparr>), a))"

text \<open>The function \<^verbatim>\<open>Hold\<close> returns, run once.\<close>

definition release :: "scheduler \<Rightarrow> addr \<Rightarrow> scheduler" where
  "release s a = unlockChanged (forgetLocked (upd s a (\<lambda>u. u\<lparr>holds := holds u - 1\<rparr>)) a)"

definition yielding :: "scheduler \<Rightarrow> userKey \<Rightarrow> bool" where
  "yielding s k =
     (draining s \<or> (case users s k of None \<Rightarrow> False | Some a \<Rightarrow> 0 < holds (objs s a)))"

definition Drain :: "scheduler \<Rightarrow> scheduler" where
  "Drain s = unlockChanged (s\<lparr>draining := True\<rparr>)"

text \<open>One pass of \<^verbatim>\<open>WaitDrained\<close>'s loop, after its \<^verbatim>\<open>Drain\<close>: it returns when no job runs.\<close>

definition waitDrainedPass :: "scheduler \<Rightarrow> 'e option \<Rightarrow> (int \<times> 'e) waitResult" where
  "waitDrainedPass s ctxErr =
     (if running s = 0 then WaitReturns None
      else case ctxErr of
             None \<Rightarrow> WaitBlocks
           | Some e \<Rightarrow> WaitReturns (Some (running s, e)))"

text \<open>\<^verbatim>\<open>Run\<close>: its first section (\<open>None\<close> when a run is running), and its last.\<close>

definition runStart :: "scheduler \<Rightarrow> scheduler option" where
  "runStart s = (if started s then None else Some (s\<lparr>started := True, stopped := False\<rparr>))"

definition runEnd :: "scheduler \<Rightarrow> scheduler" where
  "runEnd s = unlockChanged (s\<lparr>started := False, stopped := True\<rparr>)"

record SchedulerStatus =
  Queued :: int
  Running :: int
  BackingOff :: int
  Held :: int
  OldestQueued :: duration
  MaxBacklog :: int

text \<open>The objects the map holds, by address: the loops over the map do not depend on its order.\<close>

definition user_addrs :: "scheduler \<Rightarrow> addr list" where
  "user_addrs s = filter (\<lambda>a. users s (key (objs s a)) = Some a) [0..<next_addr s]"

definition Status :: "scheduler \<Rightarrow> instant \<Rightarrow> SchedulerStatus" where
  "Status s now =
     foldl (\<lambda>st a.
        let u = objs s a;
            st1 = (if 0 < holds u then st\<lparr>Held := Held st + 1\<rparr> else st);
            st2 = st1\<lparr>MaxBacklog := max (MaxBacklog st1) (backlog u)\<rparr>
        in case since u of
             Some t \<Rightarrow>
               if state u \<noteq> userIdle
               then st2\<lparr>OldestQueued := max (OldestQueued st2) (now - t)\<rparr> else st2
           | None \<Rightarrow> st2)
       \<lparr>Queued = int (length (queue s)), Running = running s,
        BackingOff = int (length (retries s)), Held = 0, OldestQueued = 0, MaxBacklog = 0\<rparr>
       (user_addrs s)"

definition StateOf :: "scheduler \<Rightarrow> userKey \<Rightarrow> string \<times> nat" where
  "StateOf s k =
     (case users s k of
        None \<Rightarrow> ('''', 0)
      | Some a \<Rightarrow>
          (let u = objs s a
           in (case state u of
                 userQueued \<Rightarrow> ''queued''
               | userRunning \<Rightarrow> ''running''
               | userBackingOff \<Rightarrow> ''backing-off''
               | userIdle \<Rightarrow> (if 0 < holds u then ''held'' else ''''), failures u)))"

definition Backlog :: "scheduler \<Rightarrow> userKey \<Rightarrow> int \<times> bool" where
  "Backlog s k =
     (case users s k of
        None \<Rightarrow> (0, False)
      | Some a \<Rightarrow> if \<not> measured (objs s a) then (0, False) else (backlog (objs s a), True))"

definition Measured :: "scheduler \<Rightarrow> userKey \<Rightarrow> int \<Rightarrow> scheduler" where
  "Measured s k chars =
     (case users s k of
        None \<Rightarrow> s
      | Some a \<Rightarrow>
          if measured (objs s a) \<or> state (objs s a) = userRunning then s
          else unlockChanged
                 ((upd s a (\<lambda>u. u\<lparr>backlog := chars, measured := True\<rparr>))
                  \<lparr>measuredUsers := (measuredUsers s)(k := True)\<rparr>))"

definition HasMeasured :: "scheduler \<Rightarrow> userKey \<Rightarrow> bool" where
  "HasMeasured s k = measuredUsers s k"

definition signal :: "scheduler \<Rightarrow> scheduler" where
  "signal s = unlockChanged s"

text \<open>
  One pass of the loop of \<^verbatim>\<open>next\<close>: it returns a user to run, or nil (the context has ended, or the
  scheduler drains), or sleeps, for at most a duration when it is positive.
\<close>

datatype nextResult = NextNil | NextRun addr | NextSleep duration

definition nextPass :: "scheduler \<Rightarrow> bool \<Rightarrow> instant \<Rightarrow> scheduler \<times> nextResult" where
  "nextPass s ctxEnded now =
     (if ctxEnded then (s, NextNil)
      else if draining s then (s, NextNil)
      else let s1 = retryDueLocked s now
           in case firstUnheldLocked s1 of
                Some a \<Rightarrow>
                  ((upd s1 a (\<lambda>u. u\<lparr>state := userRunning, added := 0, dirty := False,
                                    dirtySince := None\<rparr>))
                     \<lparr>queue := remove1 a (queue s1), running := running s1 + 1\<rparr>,
                   NextRun a)
              | None \<Rightarrow>
                  (s1, NextSleep (if retries s1 \<noteq> []
                                  then retryAt (objs s1 (hd (retries s1))) - now else 0)))"

text \<open>The switch of \<^verbatim>\<open>finish\<close>: where the user goes, and the line to log.\<close>

definition settle ::
  "scheduler \<Rightarrow> addr \<Rightarrow> jobError option \<Rightarrow> bool \<Rightarrow> instant \<Rightarrow> rat \<Rightarrow> scheduler \<times> logLine option" where
  "settle s a err isCut now jitter =
     (if isCut then (enqueueLocked s a, None)
      else case err of
        None \<Rightarrow>
          (let sA = upd s a (\<lambda>u. u\<lparr>failures := 0\<rparr>)
           in if dirty (objs sA a)
              then (enqueueLocked (upd sA a (\<lambda>u. u\<lparr>since := dirtySince u\<rparr>)) a, None)
              else (upd sA a (\<lambda>u. u\<lparr>state := userIdle, since := None\<rparr>), None))
      | Some e \<Rightarrow>
          (let sA = upd s a (\<lambda>u. u\<lparr>failures := Suc (failures u)\<rparr>);
               d = retryDelay (failures (objs sA a)) jitter;
               (delay, line) =
                 (if e = ErrBackgroundReserve
                  then (reservePause, PausedForReserve (short (key (objs sA a))))
                  else (d, RetriesIn d (short (key (objs sA a)))));
               sB = sA\<lparr>retrySeq := Suc (retrySeq sA)\<rparr>;
               sC = upd sB a (\<lambda>u. u\<lparr>state := userBackingOff, retryAt := now + delay,
                                    seq := retrySeq sB\<rparr>)
           in (sC\<lparr>retries := heap_Push (retryLess (objs sC)) (retries sC) a\<rparr>, Some line)))"

definition finish ::
  "scheduler \<Rightarrow> addr \<Rightarrow> int \<Rightarrow> jobError option \<Rightarrow> bool \<Rightarrow> instant \<Rightarrow> rat \<Rightarrow>
   scheduler \<times> jobOutcomeT \<times> logLine option" where
  "finish s a measureB err isCut now jitter =
     (let s1 = s\<lparr>running := running s - 1\<rparr>;
          s2 = (if 0 \<le> measureB
                then (upd s1 a (\<lambda>u. u\<lparr>backlog := measureB + added u, measured := True\<rparr>))
                       \<lparr>measuredUsers := (measuredUsers s1)(key (objs s1 a) := True)\<rparr>
                else s1);
          s3 = upd s2 a (\<lambda>u. u\<lparr>added := 0\<rparr>);
          (s4, line) = settle s3 a err isCut now jitter;
          s5 = upd s4 a (\<lambda>u. u\<lparr>dirty := False, dirtySince := None\<rparr>)
      in (unlockChanged (forgetLocked s5 a), jobOutcome isCut err, line))"

section \<open>The system: every goroutine's sections, interleaved\<close>

text \<open>
  \<open>jobs\<close> are the users whose job a worker runs (the local \<^verbatim>\<open>u\<close> of \<^verbatim>\<open>work\<close>), \<open>heldBy\<close> the users of
  the \<^verbatim>\<open>Hold\<close> calls not yet released, \<open>waiting\<close> those of the \<^verbatim>\<open>WaitBacklog\<close> calls that block.
\<close>

record system =
  sch :: scheduler
  jobs :: "addr list"
  heldBy :: "addr list"
  waiting :: "addr list"

definition init_system :: "nat \<Rightarrow> int \<Rightarrow> system" where
  "init_system w m = \<lparr>sch = newScheduler w m, jobs = [], heldBy = [], waiting = []\<rparr>"

inductive sys_step :: "system \<Rightarrow> system \<Rightarrow> bool" where
  notify: "sys_step t (t\<lparr>sch := fst (Notify (sch t) now k n)\<rparr>)"
| wait_none: "waitEnter (sch t) k bound now = (s', None, r :: unit waitResult) \<Longrightarrow>
     sys_step t (t\<lparr>sch := s'\<rparr>)"
| wait_returns: "waitEnter (sch t) k bound now = (s', Some a, WaitReturns (e :: unit option)) \<Longrightarrow>
     sys_step t (t\<lparr>sch := s'\<rparr>)"
| wait_blocks: "waitEnter (sch t) k bound now = (s', Some a, WaitBlocks :: unit waitResult) \<Longrightarrow>
     sys_step t (t\<lparr>sch := s', waiting := a # waiting t\<rparr>)"
| wake_returns: "a \<in> set (waiting t) \<Longrightarrow>
     waitWake (sch t) a bound now ctxErr = (s', WaitReturns (e :: unit option)) \<Longrightarrow>
     sys_step t (t\<lparr>sch := s', waiting := remove1 a (waiting t)\<rparr>)"
| wake_blocks: "a \<in> set (waiting t) \<Longrightarrow>
     waitWake (sch t) a bound now ctxErr = (s', WaitBlocks :: unit waitResult) \<Longrightarrow>
     sys_step t (t\<lparr>sch := s'\<rparr>)"
| hold: "Hold (sch t) k = (s', a) \<Longrightarrow> sys_step t (t\<lparr>sch := s', heldBy := a # heldBy t\<rparr>)"
| release: "a \<in> set (heldBy t) \<Longrightarrow>
     sys_step t (t\<lparr>sch := release (sch t) a, heldBy := remove1 a (heldBy t)\<rparr>)"
| drain: "sys_step t (t\<lparr>sch := Drain (sch t)\<rparr>)"
| run_start: "runStart (sch t) = Some s' \<Longrightarrow> sys_step t (t\<lparr>sch := s'\<rparr>)"
| run_end: "started (sch t) \<Longrightarrow> jobs t = [] \<Longrightarrow> sys_step t (t\<lparr>sch := runEnd (sch t)\<rparr>)"
| measured: "sys_step t (t\<lparr>sch := Measured (sch t) k n\<rparr>)"
| signal: "sys_step t (t\<lparr>sch := signal (sch t)\<rparr>)"
| next_run: "started (sch t) \<Longrightarrow> length (jobs t) < workers (sch t) \<Longrightarrow>
     nextPass (sch t) ctxEnded now = (s', NextRun a) \<Longrightarrow>
     sys_step t (t\<lparr>sch := s', jobs := a # jobs t\<rparr>)"
| next_other: "started (sch t) \<Longrightarrow> length (jobs t) < workers (sch t) \<Longrightarrow>
     nextPass (sch t) ctxEnded now = (s', r) \<Longrightarrow> (\<forall>a. r \<noteq> NextRun a) \<Longrightarrow>
     sys_step t (t\<lparr>sch := s'\<rparr>)"
| finish: "a \<in> set (jobs t) \<Longrightarrow>
     sys_step t (t\<lparr>sch := fst (finish (sch t) a measureB err isCut now jitter),
                   jobs := remove1 a (jobs t)\<rparr>)"

inductive reachable :: "nat \<Rightarrow> int \<Rightarrow> system \<Rightarrow> bool" for w m where
  start: "reachable w m (init_system w m)"
| step: "reachable w m t \<Longrightarrow> sys_step t t' \<Longrightarrow> reachable w m t'"

section \<open>The retry order\<close>

interpretation retry: weak_order "retryLess h" for h
  by unfold_locales (auto simp: retryLess_def split: if_splits)

text \<open>The heap order of the users backing off looks only at their retry times and numbers.\<close>

lemma retry_heap_cong:
  assumes "\<And>a. a \<in> set rs \<Longrightarrow> retryAt (h' a) = retryAt (h a) \<and> seq (h' a) = seq (h a)"
  shows "retry.heap_on h' rs (length rs) = retry.heap_on h rs (length rs)"
  using assms by (auto simp: retry.heap_on_def retryLess_def parent_bound)

section \<open>The invariant\<close>

text \<open>An object is live when the map of users holds it.\<close>

definition live :: "scheduler \<Rightarrow> addr \<Rightarrow> bool" where
  "live s a \<longleftrightarrow> users s (key (objs s a)) = Some a"

definition users_ok :: "scheduler \<Rightarrow> bool" where
  "users_ok s \<longleftrightarrow> (\<forall>k a. users s k = Some a \<longrightarrow> a < next_addr s \<and> key (objs s a) = k)"

text \<open>A live object is in exactly the place its state says, once.\<close>

definition places_ok :: "scheduler \<Rightarrow> addr list \<Rightarrow> bool" where
  "places_ok s J \<longleftrightarrow>
     distinct (queue s) \<and> distinct (retries s) \<and> distinct J \<and>
     (\<forall>a. a \<in> set (queue s) \<longleftrightarrow> live s a \<and> state (objs s a) = userQueued) \<and>
     (\<forall>a. a \<in> set (retries s) \<longleftrightarrow> live s a \<and> state (objs s a) = userBackingOff) \<and>
     (\<forall>a. a \<in> set J \<longleftrightarrow> live s a \<and> state (objs s a) = userRunning) \<and>
     running s = int (length J)"

text \<open>The pointers goroutines hold are live, and the objects count them.\<close>

definition refs_ok :: "scheduler \<Rightarrow> addr list \<Rightarrow> addr list \<Rightarrow> bool" where
  "refs_ok s H W \<longleftrightarrow>
     (\<forall>a. live s a \<longrightarrow> holds (objs s a) = count_list H a \<and> waiters (objs s a) = count_list W a) \<and>
     (\<forall>a\<in>set H \<union> set W. live s a)"

text \<open>A user with work has waited since some time, and only a running user is dirty.\<close>

definition since_ok :: "scheduler \<Rightarrow> bool" where
  "since_ok s \<longleftrightarrow>
     (\<forall>a. live s a \<longrightarrow>
        (since (objs s a) = None \<longleftrightarrow> state (objs s a) = userIdle) \<and>
        (dirty (objs s a) \<longrightarrow> state (objs s a) = userRunning) \<and>
        (dirty (objs s a) \<longleftrightarrow> dirtySince (objs s a) \<noteq> None))"

definition sched_inv :: "scheduler \<Rightarrow> addr list \<Rightarrow> addr list \<Rightarrow> addr list \<Rightarrow> bool" where
  "sched_inv s J H W \<longleftrightarrow>
     users_ok s \<and> places_ok s J \<and> refs_ok s H W \<and> since_ok s \<and>
     retry.heap_on (objs s) (retries s) (length (retries s)) \<and>
     activeLocked s \<le> max 0 (maxUsers s) \<and> length J \<le> workers s"

definition sys_inv :: "system \<Rightarrow> bool" where
  "sys_inv t \<longleftrightarrow> sched_inv (sch t) (jobs t) (heldBy t) (waiting t)"

lemmas inv_parts = sched_inv_def users_ok_def places_ok_def refs_ok_def since_ok_def

lemma live_lt: "users_ok s \<Longrightarrow> live s a \<Longrightarrow> a < next_addr s"
  by (auto simp: users_ok_def live_def)

lemma users_live: "users_ok s \<Longrightarrow> users s k = Some a \<Longrightarrow> live s a"
  by (auto simp: users_ok_def live_def)

lemma sys_inv_init: "sys_inv (init_system w m)"
  by (simp add: sys_inv_def inv_parts init_system_def newScheduler_def live_def
      activeLocked_def retry.heap_on_def)

subsection \<open>The helpers keep it\<close>

text \<open>Fields the invariant does not read.\<close>

lemma sched_inv_fields [simp]:
  "sched_inv (changedLocked s) J H W = sched_inv s J H W"
  "sched_inv (unlockChanged s) J H W = sched_inv s J H W"
  "sched_inv (s\<lparr>draining := b\<rparr>) J H W = sched_inv s J H W"
  "sched_inv (s\<lparr>started := b, stopped := c\<rparr>) J H W = sched_inv s J H W"
  "sched_inv (s\<lparr>fullLogged := l\<rparr>) J H W = sched_inv s J H W"
  "sched_inv (s\<lparr>measuredUsers := ms\<rparr>) J H W = sched_inv s J H W"
  by (simp_all add: inv_parts changedLocked_def unlockChanged_def live_def activeLocked_def)

text \<open>A write of an object that keeps what places, counts and the retry order read.\<close>

definition keeps_place :: "(schedUser \<Rightarrow> schedUser) \<Rightarrow> bool" where
  "keeps_place f \<longleftrightarrow>
     (\<forall>u. key (f u) = key u \<and> state (f u) = state u \<and> holds (f u) = holds u \<and>
          waiters (f u) = waiters u \<and> retryAt (f u) = retryAt u \<and> seq (f u) = seq u \<and>
          since (f u) = since u \<and> dirty (f u) = dirty u \<and> dirtySince (f u) = dirtySince u)"

lemma live_upd [simp]: "(\<And>u. key (f u) = key u) \<Longrightarrow> live (upd s a f) b = live s b"
  by (simp add: live_def upd_def)

lemma sched_inv_upd:
  assumes "sched_inv s J H W" "keeps_place f"
  shows "sched_inv (upd s a f) J H W"
proof -
  have eq: "key (objs (upd s a f) b) = key (objs s b)" "state (objs (upd s a f) b) = state (objs s b)"
    "holds (objs (upd s a f) b) = holds (objs s b)" "waiters (objs (upd s a f) b) = waiters (objs s b)"
    "retryAt (objs (upd s a f) b) = retryAt (objs s b)" "seq (objs (upd s a f) b) = seq (objs s b)"
    "since (objs (upd s a f) b) = since (objs s b)" "dirty (objs (upd s a f) b) = dirty (objs s b)"
    "dirtySince (objs (upd s a f) b) = dirtySince (objs s b)" for b
    using assms(2) by (simp_all add: upd_def keeps_place_def)
  have others: "users (upd s a f) = users s" "queue (upd s a f) = queue s"
    "retries (upd s a f) = retries s" "running (upd s a f) = running s"
    "maxUsers (upd s a f) = maxUsers s" "workers (upd s a f) = workers s"
    "next_addr (upd s a f) = next_addr s"
    by (simp_all add: upd_def)
  have "retry.heap_on (objs (upd s a f)) (retries s) (length (retries s)) =
        retry.heap_on (objs s) (retries s) (length (retries s))"
    by (rule retry_heap_cong) (simp add: eq)
  then have "sched_inv (upd s a f) J H W = sched_inv s J H W"
    by (simp add: inv_parts live_def activeLocked_def eq others)
  with assms(1) show ?thesis by simp
qed

lemma sched_invI:
  "users_ok s \<Longrightarrow> places_ok s J \<Longrightarrow> refs_ok s H W \<Longrightarrow> since_ok s \<Longrightarrow>
   retry.heap_on (objs s) (retries s) (length (retries s)) \<Longrightarrow>
   activeLocked s \<le> max 0 (maxUsers s) \<Longrightarrow> length J \<le> workers s \<Longrightarrow> sched_inv s J H W"
  by (simp add: sched_inv_def)

lemma sched_invD:
  assumes "sched_inv s J H W"
  shows "users_ok s" "places_ok s J" "refs_ok s H W" "since_ok s"
    "retry.heap_on (objs s) (retries s) (length (retries s))"
    "activeLocked s \<le> max 0 (maxUsers s)" "length J \<le> workers s"
  using assms by (simp_all add: sched_inv_def)

lemma places_okD:
  assumes "places_ok s J"
  shows "distinct (queue s)" "distinct (retries s)" "distinct J"
    "a \<in> set (queue s) \<longleftrightarrow> live s a \<and> state (objs s a) = userQueued"
    "a \<in> set (retries s) \<longleftrightarrow> live s a \<and> state (objs s a) = userBackingOff"
    "a \<in> set J \<longleftrightarrow> live s a \<and> state (objs s a) = userRunning"
    "running s = int (length J)"
  using assms by (simp_all add: places_ok_def)

text \<open>
  Moving an object to another place: one object is rewritten, keeping its key, and the lists
  change accordingly. Every operation that moves a user is an instance.
\<close>

lemma sched_inv_move:
  assumes inv: "sched_inv s J H W" and a: "live s a"
    and objs: "objs s' = (objs s)(a := u)" and key: "key u = key (objs s a)"
    and users: "users s' = users s" and nxt: "next_addr s' = next_addr s"
    and max: "maxUsers s' = maxUsers s" and wrk: "workers s' = workers s"
    and cnt: "holds u = holds (objs s a)" "waiters u = waiters (objs s a)"
    and tm: "since u = None \<longleftrightarrow> state u = userIdle" "dirty u \<longrightarrow> state u = userRunning"
      "dirty u \<longleftrightarrow> dirtySince u \<noteq> None"
    and pl: "distinct (queue s')" "distinct (retries s')" "distinct J'"
      "set (queue s') = (if state u = userQueued then insert a (set (queue s)) else set (queue s) - {a})"
      "set (retries s') = (if state u = userBackingOff then insert a (set (retries s)) else set (retries s) - {a})"
      "set J' = (if state u = userRunning then insert a (set J) else set J - {a})"
      "running s' = int (length J')"
    and heap: "retry.heap_on (objs s') (retries s') (length (retries s'))"
    and act: "activeLocked s' \<le> max 0 (maxUsers s')" and len: "length J' \<le> workers s'"
  shows "sched_inv s' J' H W"
proof (rule sched_invI)
  have live: "live s' b = live s b" for b using objs key users by (simp add: live_def)
  show "users_ok s'"
    using sched_invD(1) [OF inv] objs key users nxt by (simp add: users_ok_def)
  show "places_ok s' J'"
    using sched_invD(2) [OF inv] pl a by (auto simp: places_ok_def live objs)
  show "refs_ok s' H W"
    using sched_invD(3) [OF inv] cnt by (simp add: refs_ok_def live objs)
  show "since_ok s'"
    using sched_invD(4) [OF inv] tm by (simp add: since_ok_def live objs)
qed (fact heap act len)+

lemma heap_upd_outside:
  assumes "retry.heap_on h rs (length rs)" "a \<notin> set rs"
  shows "retry.heap_on (h(a := u)) rs (length rs)"
proof -
  have "retry.heap_on (h(a := u)) rs (length rs) = retry.heap_on h rs (length rs)"
    by (rule retry_heap_cong) (use assms(2) in auto)
  with assms(1) show ?thesis by simp
qed

lemma sched_inv_enqueue_idle:
  assumes inv: "sched_inv s J H W" and a: "live s a" "state (objs s a) = userIdle"
    and room: "activeLocked s < maxUsers s"
  shows "sched_inv (enqueueLocked (upd s a (\<lambda>u. u\<lparr>since := Some now\<rparr>)) a) J H W"
proof -
  note P = places_okD [OF sched_invD(2) [OF inv]]
  have out: "a \<notin> set (queue s)" "a \<notin> set (retries s)" "a \<notin> set J" using a by (simp_all add: P)
  have clean: "\<not> dirty (objs s a)" "dirtySince (objs s a) = None"
    using sched_invD(4) [OF inv] a by (auto simp: since_ok_def)
  show ?thesis
    by (rule sched_inv_move [OF inv a(1), where u = "(objs s a)\<lparr>since := Some now, state := userQueued\<rparr>"])
      (use out clean room heap_upd_outside [OF sched_invD(5) [OF inv] out(2)] sched_invD(7) [OF inv] P(1,2,3,7)
       in \<open>simp_all add: enqueueLocked_def upd_def activeLocked_def\<close>)
qed

lemma sched_inv_alloc:
  assumes inv: "sched_inv s J H W" and k: "users s k = None"
  shows "sched_inv (fst (alloc s k)) J H W"
    and "live (fst (alloc s k)) (snd (alloc s k))"
    and "objs (fst (alloc s k)) (snd (alloc s k)) = new_user k"
proof -
  let ?s = "fst (alloc s k)"
  let ?a = "next_addr s"
  have fresh: "\<not> live s ?a" using live_lt [OF sched_invD(1) [OF inv]] by blast
  have live: "live ?s b \<longleftrightarrow> b = ?a \<or> live s b" for b
    using k fresh sched_invD(1) [OF inv]
    by (auto simp: live_def alloc_def Let_def new_user_def users_ok_def)
  have objs: "objs ?s = (objs s)(?a := new_user k)" by (simp add: alloc_def Let_def)
  note P = places_okD [OF sched_invD(2) [OF inv]]
  have out: "?a \<notin> set (queue s)" "?a \<notin> set (retries s)" "?a \<notin> set J" using fresh by (simp_all add: P)
  have noref: "?a \<notin> set H" "?a \<notin> set W" using fresh sched_invD(3) [OF inv] by (auto simp: refs_ok_def)
  show "sched_inv ?s J H W"
  proof (rule sched_invI)
    show "users_ok ?s"
      using sched_invD(1) [OF inv] by (auto simp: users_ok_def alloc_def Let_def new_user_def less_Suc_eq)
    show "places_ok ?s J"
      using sched_invD(2) [OF inv] out fresh
      by (auto simp: places_ok_def live objs) (auto simp: alloc_def Let_def new_user_def)
    show "refs_ok ?s H W"
      using sched_invD(3) [OF inv] noref by (auto simp: refs_ok_def live objs new_user_def)
    show "since_ok ?s"
      using sched_invD(4) [OF inv] by (auto simp: since_ok_def live objs new_user_def)
    show "retry.heap_on (objs ?s) (retries ?s) (length (retries ?s))"
      using heap_upd_outside [OF sched_invD(5) [OF inv] out(2)] by (simp add: alloc_def Let_def)
    show "activeLocked ?s \<le> max 0 (maxUsers ?s)" "length J \<le> workers ?s"
      using sched_invD(6,7) [OF inv] by (simp_all add: alloc_def Let_def activeLocked_def)
  qed
  show "live ?s (snd (alloc s k))" "objs ?s (snd (alloc s k)) = new_user k"
    by (simp_all add: live_def alloc_def Let_def new_user_def)
qed

lemma sched_inv_forget:
  assumes inv: "sched_inv s J H W"
  shows "sched_inv (forgetLocked s a) J H W"
proof (cases "state (objs s a) = userIdle \<and> holds (objs s a) = 0 \<and> waiters (objs s a) = 0 \<and>
    backlog (objs s a) \<le> 0 \<and> users s (key (objs s a)) = Some a")
  case True
  let ?s = "forgetLocked s a"
  have s: "?s = s\<lparr>users := (users s)(key (objs s a) := None)\<rparr>"
    using True by (simp add: forgetLocked_def Let_def)
  have a: "live s a" using True by (simp add: live_def)
  have live: "live ?s b \<longleftrightarrow> live s b \<and> b \<noteq> a" for b
    using a by (auto simp: live_def s)
  note P = places_okD [OF sched_invD(2) [OF inv]]
  have out: "a \<notin> set (queue s)" "a \<notin> set (retries s)" "a \<notin> set J" using True by (simp_all add: P)
  have noref: "a \<notin> set H" "a \<notin> set W"
    using sched_invD(3) [OF inv] a True by (auto simp: refs_ok_def count_list_0_iff [symmetric])
  show ?thesis
  proof (rule sched_invI)
    show "users_ok ?s" using sched_invD(1) [OF inv] by (auto simp: users_ok_def s)
    show "places_ok ?s J"
      using sched_invD(2) [OF inv] out by (auto simp: places_ok_def live) (auto simp: s)
    show "refs_ok ?s H W"
      using sched_invD(3) [OF inv] noref by (auto simp: refs_ok_def live) (auto simp: s)
    show "since_ok ?s"
      using sched_invD(4) [OF inv] by (auto simp: since_ok_def live) (auto simp: s)
  qed (use sched_invD(5,6,7) [OF inv] in \<open>simp_all add: s activeLocked_def\<close>)
next
  case False
  then have "forgetLocked s a = s" by (auto simp: forgetLocked_def Let_def)
  with inv show ?thesis by simp
qed

lemma count_list_remove1: "count_list (remove1 a xs) b = (if a = b then count_list xs b - 1 else count_list xs b)"
  by (induction xs) auto

text \<open>A goroutine taking or dropping a pointer: only the object's counts change.\<close>

lemma sched_inv_recount:
  assumes inv: "sched_inv s J H W" and a: "live s a"
    and keep: "key (f (objs s a)) = key (objs s a)" "state (f (objs s a)) = state (objs s a)"
      "retryAt (f (objs s a)) = retryAt (objs s a)" "seq (f (objs s a)) = seq (objs s a)"
      "since (f (objs s a)) = since (objs s a)" "dirty (f (objs s a)) = dirty (objs s a)"
      "dirtySince (f (objs s a)) = dirtySince (objs s a)"
    and cnt: "holds (f (objs s a)) = count_list H' a" "waiters (f (objs s a)) = count_list W' a"
    and other: "\<And>b. b \<noteq> a \<Longrightarrow> count_list H' b = count_list H b \<and> count_list W' b = count_list W b"
    and sub: "set H' \<subseteq> insert a (set H)" "set W' \<subseteq> insert a (set W)"
  shows "sched_inv (upd s a f) J H' W'"
proof -
  let ?s = "upd s a f"
  have live: "live ?s b = live s b" for b using keep by (simp add: live_def upd_def)
  have objs: "objs ?s = (objs s)(a := f (objs s a))" by (simp add: upd_def)
  have rest: "users ?s = users s" "queue ?s = queue s" "retries ?s = retries s"
    "running ?s = running s" "maxUsers ?s = maxUsers s" "workers ?s = workers s"
    "next_addr ?s = next_addr s" by (simp_all add: upd_def)
  show ?thesis
  proof (rule sched_invI)
    show "users_ok ?s" using sched_invD(1) [OF inv] keep by (simp add: users_ok_def objs rest)
    show "places_ok ?s J"
      using sched_invD(2) [OF inv] keep by (simp add: places_ok_def live objs rest)
    show "refs_ok ?s H' W'"
      using sched_invD(3) [OF inv] cnt other sub a by (auto simp: refs_ok_def live objs)
    show "since_ok ?s" using sched_invD(4) [OF inv] keep by (simp add: since_ok_def live objs)
    have "retry.heap_on (objs ?s) (retries s) (length (retries s)) =
          retry.heap_on (objs s) (retries s) (length (retries s))"
      by (rule retry_heap_cong) (use keep in \<open>auto simp: objs\<close>)
    then show "retry.heap_on (objs ?s) (retries ?s) (length (retries ?s))"
      using sched_invD(5) [OF inv] by (simp add: rest)
  qed (use sched_invD(6,7) [OF inv] in \<open>simp_all add: rest activeLocked_def\<close>)
qed

lemma sched_inv_lookup:
  assumes inv: "sched_inv s J H W" and "lookup_or_alloc s k = (s', a)"
  shows "sched_inv s' J H W" "live s' a" "users s' k = Some a" "key (objs s' a) = k"
    "state (objs s' a) = (case users s k of None \<Rightarrow> userIdle | Some b \<Rightarrow> state (objs s b))"
    "activeLocked s' = activeLocked s" "maxUsers s' = maxUsers s"
proof -
  have "sched_inv s' J H W \<and> live s' a \<and> users s' k = Some a \<and> key (objs s' a) = k \<and>
    state (objs s' a) = (case users s k of None \<Rightarrow> userIdle | Some b \<Rightarrow> state (objs s b)) \<and>
    activeLocked s' = activeLocked s \<and> maxUsers s' = maxUsers s"
  proof (cases "users s k")
    case None
    then have eq: "s' = fst (alloc s k)" "a = snd (alloc s k)"
      using assms(2) by (simp_all add: lookup_or_alloc_def)
    show ?thesis
      using sched_inv_alloc [OF inv None] None
      unfolding eq by (auto simp: new_user_def alloc_def Let_def activeLocked_def)
  next
    case (Some b)
    then have "s' = s" "a = b" using assms(2) by (simp_all add: lookup_or_alloc_def)
    then show ?thesis
      using inv Some users_live [OF sched_invD(1) [OF inv] Some] sched_invD(1) [OF inv]
      by (auto simp: users_ok_def)
  qed
  then show "sched_inv s' J H W" "live s' a" "users s' k = Some a" "key (objs s' a) = k"
    "state (objs s' a) = (case users s k of None \<Rightarrow> userIdle | Some b \<Rightarrow> state (objs s b))"
    "activeLocked s' = activeLocked s" "maxUsers s' = maxUsers s" by blast+
qed

subsection \<open>The operations keep it\<close>

lemma sched_inv_Hold:
  assumes inv: "sched_inv s J H W" and hold: "Hold s k = (s', a)"
  shows "sched_inv s' J (a # H) W"
proof -
  obtain s1 where s1: "lookup_or_alloc s k = (s1, a)" "s' = upd s1 a (\<lambda>u. u\<lparr>holds := Suc (holds u)\<rparr>)"
    using hold by (auto simp: Hold_def Let_def split: prod.splits)
  note L = sched_inv_lookup [OF inv s1(1)]
  show ?thesis unfolding s1(2)
    by (rule sched_inv_recount [OF L(1,2)])
      (use sched_invD(3) [OF L(1)] L(2) in \<open>auto simp: refs_ok_def\<close>)
qed

lemma sched_inv_release:
  assumes inv: "sched_inv s J H W" and a: "a \<in> set H"
  shows "sched_inv (release s a) J (remove1 a H) W"
proof -
  have live: "live s a" using sched_invD(3) [OF inv] a by (auto simp: refs_ok_def)
  have "sched_inv (upd s a (\<lambda>u. u\<lparr>holds := holds u - 1\<rparr>)) J (remove1 a H) W"
    by (rule sched_inv_recount [OF inv live])
      (use sched_invD(3) [OF inv] live set_remove1_subset [of a H] in \<open>auto simp: refs_ok_def count_list_remove1\<close>)
  then show ?thesis by (simp add: release_def sched_inv_forget)
qed

lemma sched_inv_waitLeave:
  assumes inv: "sched_inv s J H W" and a: "a \<in> set W"
  shows "sched_inv (waitLeave s a) J H (remove1 a W)"
proof -
  have live: "live s a" using sched_invD(3) [OF inv] a by (auto simp: refs_ok_def)
  have "sched_inv (upd s a (\<lambda>u. u\<lparr>waiters := waiters u - 1\<rparr>)) J H (remove1 a W)"
    by (rule sched_inv_recount [OF inv live])
      (use sched_invD(3) [OF inv] live set_remove1_subset [of a W] in \<open>auto simp: refs_ok_def count_list_remove1\<close>)
  then show ?thesis by (simp add: waitLeave_def sched_inv_forget)
qed

lemma sched_inv_waitLoop:
  assumes inv: "sched_inv s J H W" and a: "a \<in> set W"
    and loop: "waitLoop s a bound now = (s', r)"
  shows "case r of WaitReturns _ \<Rightarrow> sched_inv s' J H (remove1 a W) | WaitBlocks \<Rightarrow> sched_inv s' J H W"
proof -
  have live: "live s a" using sched_invD(3) [OF inv] a by (auto simp: refs_ok_def)
  show ?thesis
    using loop inv sched_inv_waitLeave [OF inv a] sched_inv_enqueue_idle [OF inv live, of now]
    by (auto simp: waitLoop_def Let_def split: if_splits)
qed

lemma sched_inv_waitEnter:
  assumes inv: "sched_inv s J H W" and enter: "waitEnter s k bound now = (s', b, r)"
  shows "case r of WaitReturns _ \<Rightarrow> sched_inv s' J H W
         | WaitBlocks \<Rightarrow> (\<exists>a. b = Some a \<and> sched_inv s' J H (a # W))"
proof (cases "users s k")
  case None
  then show ?thesis using enter inv by (auto simp: waitEnter_def)
next
  case (Some a)
  let ?s = "upd s a (\<lambda>u. u\<lparr>waiters := Suc (waiters u)\<rparr>)"
  have live: "live s a" using users_live [OF sched_invD(1) [OF inv] Some] .
  have "sched_inv ?s J H (a # W)"
    by (rule sched_inv_recount [OF inv live])
      (use sched_invD(3) [OF inv] live in \<open>auto simp: refs_ok_def\<close>)
  from sched_inv_waitLoop [OF this, of a bound now s' r] show ?thesis
    using enter Some by (auto simp: waitEnter_def split: prod.splits waitResult.splits)
qed

lemma sched_inv_Measured:
  assumes inv: "sched_inv s J H W"
  shows "sched_inv (Measured s k n) J H W"
proof -
  have "sched_inv (upd s a (\<lambda>u. u\<lparr>backlog := n, measured := True\<rparr>)) J H W" for a
    by (rule sched_inv_upd [OF inv]) (simp add: keeps_place_def)
  then show ?thesis
    using inv by (auto simp: Measured_def split: option.splits)
qed

lemma sched_inv_Notify:
  assumes inv: "sched_inv s J H W"
  shows "sched_inv (fst (Notify s now k n)) J H W"
proof (cases "notifyFull s k")
  case True
  then show ?thesis using inv by (simp add: Notify_def Let_def)
next
  case False
  obtain s1 a where s1: "lookup_or_alloc s k = (s1, a)" by fastforce
  note L = sched_inv_lookup [OF inv s1]
  let ?s2 = "upd s1 a (\<lambda>u. u\<lparr>backlog := backlog u + n\<rparr>)"
  have s2: "sched_inv ?s2 J H W" by (rule sched_inv_upd [OF L(1)]) (simp add: keeps_place_def)
  have state2: "state (objs ?s2 a) = state (objs s1 a)" and live2: "live ?s2 a"
    using L(2) by (simp_all add: upd_def live_def)
  show ?thesis
  proof (cases "state (objs s1 a)")
    case userIdle
    then have "activeLocked ?s2 < maxUsers ?s2"
      using False L(5,6,7) by (auto simp: notifyFull_def upd_def activeLocked_def split: option.splits)
    from sched_inv_enqueue_idle [OF s2 live2 _ this, of now] userIdle False s1 state2 show ?thesis
      by (simp add: Notify_def Let_def)
  next
    case userRunning
    have "sched_inv (upd ?s2 a (\<lambda>u. u\<lparr>added := added u + n, dirty := True,
        dirtySince := (if dirty u then dirtySince u else Some now)\<rparr>)) J H W"
    proof (rule sched_inv_move [OF s2 live2 _])
      show "objs (upd ?s2 a (\<lambda>u. u\<lparr>added := added u + n, dirty := True,
         dirtySince := (if dirty u then dirtySince u else Some now)\<rparr>)) =
       (objs ?s2)(a := (objs ?s2 a)\<lparr>added := added (objs ?s2 a) + n, dirty := True,
         dirtySince := (if dirty (objs ?s2 a) then dirtySince (objs ?s2 a) else Some now)\<rparr>)"
        by (simp add: upd_def)
    qed (use sched_invD [OF s2] places_okD [OF sched_invD(2) [OF s2]] live2 state2 userRunning
           heap_upd_outside [OF sched_invD(5) [OF s2], of a]
         in \<open>auto simp: upd_def since_ok_def activeLocked_def\<close>)
    then show ?thesis using userRunning False s1 state2 by (simp add: Notify_def Let_def)
  qed (use s2 False s1 state2 in \<open>simp_all add: Notify_def Let_def\<close>)
qed

lemma heap_Pop_retries:
  assumes inv: "sched_inv s J H W" and ne: "retries s \<noteq> []"
    and pop: "heap_Pop (retryLess (objs s)) (retries s) = (a, rs)"
  shows "a = hd (retries s)" "mset (retries s) = add_mset a (mset rs)" "distinct rs"
    "set rs = set (retries s) - {a}" "a \<in> set (retries s)" "length (retries s) = Suc (length rs)"
    "retry.heap_on (objs s) rs (length rs)"
proof -
  have fst: "a = fst (heap_Pop (retryLess (objs s)) (retries s))"
    and snd: "rs = snd (heap_Pop (retryLess (objs s)) (retries s))" using pop by simp_all
  show "a = hd (retries s)" using ne by (simp add: fst heap_Pop_fst hd_conv_nth)
  show ms: "mset (retries s) = add_mset a (mset rs)"
    using mset_heap_Pop [OF ne, of "retryLess (objs s)"] by (simp add: fst snd)
  then have "distinct (a # rs)"
    using places_okD(2) [OF sched_invD(2) [OF inv]] by (metis mset.simps(2) mset_eq_imp_distinct_iff)
  then show "distinct rs" "set rs = set (retries s) - {a}" "a \<in> set (retries s)"
    using ms by (auto dest: mset_eq_setD simp flip: mset.simps(2))
  show len: "length (retries s) = Suc (length rs)" using ms by (metis mset.simps(2) size_mset length_Cons)
  show "retry.heap_on (objs s) rs (length rs)"
    using retry.heap_on_Pop [OF sched_invD(5) [OF inv] ne] len by (simp add: snd)
qed

lemma sched_inv_retryStep:
  assumes inv: "sched_inv s J H W" and ne: "retries s \<noteq> []"
    and pop: "heap_Pop (retryLess (objs s)) (retries s) = (a, rs)"
  shows "sched_inv (enqueueLocked (s\<lparr>retries := rs\<rparr>) a) J H W"
proof -
  note R = heap_Pop_retries [OF inv ne pop]
  note P = places_okD [OF sched_invD(2) [OF inv]]
  have a: "live s a" "state (objs s a) = userBackingOff" using R(5) by (simp_all add: P)
  have out: "a \<notin> set (queue s)" "a \<notin> set J" "a \<notin> set rs" using a R(4) by (simp_all add: P)
  have tm: "since (objs s a) \<noteq> None" "\<not> dirty (objs s a)" "dirtySince (objs s a) = None"
    using sched_invD(4) [OF inv] a by (auto simp: since_ok_def)
  show ?thesis
    by (rule sched_inv_move [OF inv a(1), where u = "(objs s a)\<lparr>state := userQueued\<rparr>"])
      (use out tm heap_upd_outside [OF R(7) out(3)] P(1,2,3,7) R(3,4,6) sched_invD(6,7) [OF inv]
       in \<open>simp_all add: enqueueLocked_def upd_def activeLocked_def\<close>)
qed

lemma sched_inv_retryDueLocked:
  "sched_inv s J H W \<Longrightarrow> sched_inv (retryDueLocked s now) J H W"
proof (induction s now rule: retryDueLocked.induct)
  case (1 s now)
  show ?case
  proof (cases "retries s \<noteq> [] \<and> retryAt (objs s (hd (retries s))) \<le> now")
    case True
    obtain a rs where pop: "heap_Pop (retryLess (objs s)) (retries s) = (a, rs)" by fastforce
    have "sched_inv (enqueueLocked (s\<lparr>retries := rs\<rparr>) a) J H W"
      using sched_inv_retryStep [OF "1.prems" _ pop] True by blast
    with "1.IH" [OF True refl, of a rs] pop True show ?thesis by (subst retryDueLocked.simps) simp
  next
    case False
    with "1.prems" show ?thesis by (subst retryDueLocked.simps) auto
  qed
qed

text \<open>The fields no retry writes.\<close>

lemma retryDueLocked_frame:
  "workers (retryDueLocked s now) = workers s \<and> maxUsers (retryDueLocked s now) = maxUsers s \<and>
   users (retryDueLocked s now) = users s \<and> draining (retryDueLocked s now) = draining s \<and>
   running (retryDueLocked s now) = running s \<and>
   (\<forall>a. holds (objs (retryDueLocked s now) a) = holds (objs s a) \<and>
        key (objs (retryDueLocked s now) a) = key (objs s a) \<and>
        retryAt (objs (retryDueLocked s now) a) = retryAt (objs s a))"
proof (induction s now rule: retryDueLocked.induct)
  case (1 s now)
  show ?case
  proof (cases "retries s \<noteq> [] \<and> retryAt (objs s (hd (retries s))) \<le> now")
    case True
    obtain a rs where pop: "heap_Pop (retryLess (objs s)) (retries s) = (a, rs)" by fastforce
    have eq: "retryDueLocked s now = retryDueLocked (enqueueLocked (s\<lparr>retries := rs\<rparr>) a) now"
      using True pop by (subst retryDueLocked.simps) simp
    show ?thesis
      using "1.IH" [OF True refl, of a rs] pop unfolding eq by (simp add: enqueueLocked_def upd_def)
  next
    case False
    then have "retryDueLocked s now = s" by (subst retryDueLocked.simps) auto
    then show ?thesis by simp
  qed
qed

lemmas retryDueLocked_frames [simp] =
  retryDueLocked_frame [THEN conjunct1]
  retryDueLocked_frame [THEN conjunct2, THEN conjunct1]
  retryDueLocked_frame [THEN conjunct2, THEN conjunct2, THEN conjunct1]

lemma sched_inv_nextPass:
  assumes inv: "sched_inv s J H W" and nx: "nextPass s ctxEnded now = (s', r)"
    and free: "length J < workers s"
  shows "case r of NextRun a \<Rightarrow> sched_inv s' (a # J) H W | _ \<Rightarrow> sched_inv s' J H W"
proof -
  let ?s1 = "retryDueLocked s now"
  have s1: "sched_inv ?s1 J H W" using sched_inv_retryDueLocked [OF inv] .
  note P = places_okD [OF sched_invD(2) [OF s1]]
  show ?thesis
  proof (cases "ctxEnded \<or> draining s \<or> firstUnheldLocked ?s1 = None")
    case True
    then show ?thesis using nx inv s1 by (auto simp: nextPass_def Let_def split: if_splits)
  next
    case False
    then obtain a where first: "firstUnheldLocked ?s1 = Some a" by auto
    then have "a \<in> set (queue ?s1)" using find_Some_iff_mem by (fastforce simp: firstUnheldLocked_def)
    then have a: "live ?s1 a" "state (objs ?s1 a) = userQueued" by (simp_all add: P)
    have out: "a \<notin> set (retries ?s1)" "a \<notin> set J" using a by (simp_all add: P)
    have tm: "since (objs ?s1 a) \<noteq> None" using sched_invD(4) [OF s1] a by (auto simp: since_ok_def)
    have len: "length (queue ?s1) = Suc (length (remove1 a (queue ?s1)))"
      using \<open>a \<in> set (queue ?s1)\<close> by (rule length_remove1_mem)
    let ?u = "(objs ?s1 a)\<lparr>state := userRunning, added := 0, dirty := False, dirtySince := None\<rparr>"
    let ?s2 = "(upd ?s1 a (\<lambda>u. u\<lparr>state := userRunning, added := 0, dirty := False, dirtySince := None\<rparr>))
       \<lparr>queue := remove1 a (queue ?s1), running := running ?s1 + 1\<rparr>"
    have "sched_inv ?s2 (a # J) H W"
      by (rule sched_inv_move [OF s1 a(1), where u = ?u])
        (use out tm heap_upd_outside [OF sched_invD(5) [OF s1] out(1)] P(1,2,3,7) free len sched_invD(6) [OF s1]
         in \<open>simp_all add: upd_def activeLocked_def\<close>)
    moreover have "s' = ?s2" "r = NextRun a" using nx False first by (auto simp: nextPass_def Let_def)
    ultimately show ?thesis by simp
  qed
qed

text \<open>The end of a job, whatever its outcome: the running user moves to its next place.\<close>

lemma sched_inv_end_job:
  assumes inv: "sched_inv s J H W" and a: "a \<in> set J"
    and objs: "objs s' = (objs s)(a := u)"
    and frame: "users s' = users s" "next_addr s' = next_addr s" "maxUsers s' = maxUsers s"
      "workers s' = workers s" "running s' = running s - 1"
    and keep: "key u = key (objs s a)" "holds u = holds (objs s a)" "waiters u = waiters (objs s a)"
    and tm: "state u \<noteq> userRunning" "since u = None \<longleftrightarrow> state u = userIdle" "\<not> dirty u" "dirtySince u = None"
    and q: "queue s' = (if state u = userQueued then queue s @ [a] else queue s)"
    and r: "retries s' = (if state u = userBackingOff
              then heap_Push (retryLess (objs s')) (retries s) a else retries s)"
  shows "sched_inv s' (remove1 a J) H W"
proof -
  note P = places_okD [OF sched_invD(2) [OF inv]]
  have live: "live s a" "state (objs s a) = userRunning" using a by (simp_all add: P)
  have out: "a \<notin> set (queue s)" "a \<notin> set (retries s)" using live by (simp_all add: P)
  have len: "length J = Suc (length (remove1 a J))" using a by (rule length_remove1_mem)
  have heap: "retry.heap_on (objs s') (retries s) (length (retries s))"
    using heap_upd_outside [OF sched_invD(5) [OF inv] out(2)] by (simp add: objs)
  then have heap': "retry.heap_on (objs s') (retries s') (length (retries s'))"
    using retry.heap_on_Push by (simp add: r)
  have "activeLocked s' \<le> activeLocked s"
    using P(7) frame(5) len by (simp add: q r activeLocked_def)
  then have act: "activeLocked s' \<le> max 0 (maxUsers s')"
    using sched_invD(6) [OF inv] frame(3) by simp
  show ?thesis
    by (rule sched_inv_move [OF inv live(1) objs])
      (use P(1,2,3,7) out len heap' frame keep tm act sched_invD(7) [OF inv] in
       \<open>simp_all add: q r distinct_heap_Push\<close>)
qed

lemma sched_inv_finish:
  assumes inv: "sched_inv s J H W" and a: "a \<in> set J"
  shows "sched_inv (fst (finish s a m err isCut now jitter)) (remove1 a J) H W"
proof -
  have live: "live s a" "state (objs s a) = userRunning"
    using a by (simp_all add: places_okD [OF sched_invD(2) [OF inv]])
  have tm: "since (objs s a) \<noteq> None" "dirty (objs s a) \<longleftrightarrow> dirtySince (objs s a) \<noteq> None"
    using sched_invD(4) [OF inv] live by (auto simp: since_ok_def)
  define s3 where "s3 = upd (if 0 \<le> m
      then (upd (s\<lparr>running := running s - 1\<rparr>) a (\<lambda>u. u\<lparr>backlog := m + added u, measured := True\<rparr>))
             \<lparr>measuredUsers := (measuredUsers s)(key (objs s a) := True)\<rparr>
      else s\<lparr>running := running s - 1\<rparr>) a (\<lambda>u. u\<lparr>added := 0\<rparr>)"
  obtain s4 line where s4: "settle s3 a err isCut now jitter = (s4, line)" by fastforce
  let ?s5 = "upd s4 a (\<lambda>u. u\<lparr>dirty := False, dirtySince := None\<rparr>)"
  have s3: "key (objs s3 a) = key (objs s a)" "holds (objs s3 a) = holds (objs s a)"
    "waiters (objs s3 a) = waiters (objs s a)" "since (objs s3 a) = since (objs s a)"
    "dirty (objs s3 a) = dirty (objs s a)" "dirtySince (objs s3 a) = dirtySince (objs s a)"
    "\<And>b. b \<noteq> a \<Longrightarrow> objs s3 b = objs s b" "users s3 = users s" "next_addr s3 = next_addr s"
    "maxUsers s3 = maxUsers s" "workers s3 = workers s" "running s3 = running s - 1"
    "queue s3 = queue s" "retries s3 = retries s"
    by (simp_all add: s3_def upd_def)
  have others: "\<And>b. b \<noteq> a \<Longrightarrow> objs s4 b = objs s b" "users s4 = users s" "next_addr s4 = next_addr s"
    "maxUsers s4 = maxUsers s" "workers s4 = workers s" "running s4 = running s - 1"
    using s4 by (auto simp: settle_def upd_def enqueueLocked_def Let_def s3
        split: if_splits option.splits prod.splits)
  have obj: "key (objs s4 a) = key (objs s a)" "holds (objs s4 a) = holds (objs s a)"
    "waiters (objs s4 a) = waiters (objs s a)" "state (objs s4 a) \<noteq> userRunning"
    "since (objs s4 a) = None \<longleftrightarrow> state (objs s4 a) = userIdle"
    using s4 tm by (auto simp: settle_def upd_def enqueueLocked_def Let_def s3
        split: if_splits option.splits prod.splits)
  have lists: "queue s4 = (if state (objs s4 a) = userQueued then queue s @ [a] else queue s)"
    "retries s4 = (if state (objs s4 a) = userBackingOff
       then heap_Push (retryLess (objs s4)) (retries s) a else retries s)"
    using s4 by (auto simp: settle_def upd_def enqueueLocked_def Let_def s3
        split: if_splits option.splits prod.splits)
  have less: "retryLess (objs ?s5) = retryLess (objs s4)"
    by (intro ext) (simp add: upd_def retryLess_def)
  have "sched_inv ?s5 (remove1 a J) H W"
    by (rule sched_inv_end_job [OF inv a, where u = "objs ?s5 a"])
      (use others obj lists in \<open>auto simp: less, auto simp: upd_def\<close>)
  moreover have "fst (finish s a m err isCut now jitter) = unlockChanged (forgetLocked ?s5 a)"
    using s4 by (cases "0 \<le> m") (simp_all add: finish_def Let_def s3_def)
  ultimately show ?thesis by (simp add: sched_inv_forget)
qed

subsection \<open>Every reachable state has it\<close>

lemma sys_step_inv: "sys_step t t' \<Longrightarrow> sys_inv t \<Longrightarrow> sys_inv t'"
proof (induction rule: sys_step.induct)
  case (notify t now k n)
  then show ?case by (simp add: sys_inv_def sched_inv_Notify)
next
  case (wait_none t k bound now s' r)
  then show ?case
    using sched_inv_waitEnter [of "sch t" "jobs t" "heldBy t" "waiting t" k bound now s' None r]
    by (auto simp: sys_inv_def split: waitResult.splits)
next
  case (wait_returns t k bound now s' a e)
  then show ?case using sched_inv_waitEnter by (fastforce simp: sys_inv_def)
next
  case (wait_blocks t k bound now s' a)
  then show ?case using sched_inv_waitEnter by (fastforce simp: sys_inv_def)
next
  case (wake_returns a t bound now ctxErr s' e)
  then show ?case
    using sched_inv_waitLeave sched_inv_waitLoop [of "sch t" "jobs t" "heldBy t" "waiting t" a bound now s']
    by (fastforce simp: sys_inv_def waitWake_def split: option.splits)
next
  case (wake_blocks a t bound now ctxErr s')
  then show ?case
    using sched_inv_waitLoop [of "sch t" "jobs t" "heldBy t" "waiting t" a bound now s']
    by (fastforce simp: sys_inv_def waitWake_def split: option.splits)
next
  case (hold t k s' a)
  then show ?case using sched_inv_Hold by (simp add: sys_inv_def)
next
  case (release a t)
  then show ?case by (simp add: sys_inv_def sched_inv_release)
next
  case (drain t)
  then show ?case by (simp add: sys_inv_def Drain_def)
next
  case (run_start t s')
  then show ?case by (auto simp: sys_inv_def runStart_def split: if_splits)
next
  case (run_end t)
  then show ?case by (simp add: sys_inv_def runEnd_def)
next
  case (measured t k n)
  then show ?case by (simp add: sys_inv_def sched_inv_Measured)
next
  case (signal t)
  then show ?case by (simp add: sys_inv_def signal_def)
next
  case (next_run t ctxEnded now s' a)
  then show ?case using sched_inv_nextPass by (fastforce simp: sys_inv_def)
next
  case (next_other t ctxEnded now s' r)
  then show ?case
    using sched_inv_nextPass [of "sch t" "jobs t" "heldBy t" "waiting t" ctxEnded now s' r]
    by (cases r) (auto simp: sys_inv_def)
next
  case (finish a t measureB err isCut now jitter)
  then show ?case by (simp add: sys_inv_def sched_inv_finish)
qed

lemma reachable_sys_inv: "reachable w m t \<Longrightarrow> sys_inv t"
  by (induction rule: reachable.induct) (auto simp: sys_inv_init sys_step_inv)

section \<open>What each operation leaves alone\<close>

lemmas op_simps = upd_def enqueueLocked_def forgetLocked_def changedLocked_def unlockChanged_def
  alloc_def lookup_or_alloc_def Let_def

lemma forgetLocked_frame [simp]:
  "workers (forgetLocked s a) = workers s" "maxUsers (forgetLocked s a) = maxUsers s"
  "draining (forgetLocked s a) = draining s" "objs (forgetLocked s a) = objs s"
  "queue (forgetLocked s a) = queue s" "retries (forgetLocked s a) = retries s"
  "running (forgetLocked s a) = running s"
  by (simp_all add: forgetLocked_def Let_def)

definition config :: "scheduler \<Rightarrow> nat \<times> int" where
  "config s = (workers s, maxUsers s)"

lemma config_upd [simp]: "config (upd s a f) = config s" by (simp add: config_def upd_def)
lemma config_enqueue [simp]: "config (enqueueLocked s a) = config s"
  by (simp add: config_def enqueueLocked_def upd_def)
lemma config_forget [simp]: "config (forgetLocked s a) = config s" by (simp add: config_def)
lemma config_changed [simp]: "config (changedLocked s) = config s" "config (unlockChanged s) = config s"
  by (simp_all add: config_def changedLocked_def unlockChanged_def)
lemma config_lookup: "lookup_or_alloc s k = (s', a) \<Longrightarrow> config s' = config s \<and> draining s' = draining s"
  by (auto simp: config_def lookup_or_alloc_def alloc_def Let_def split: option.splits)
lemma config_retryDue [simp]: "config (retryDueLocked s now) = config s" by (simp add: config_def)
lemma config_settle: "settle s a err isCut now j = (s', l) \<Longrightarrow> config s' = config s \<and> draining s' = draining s"
  by (auto simp: config_def settle_def enqueueLocked_def upd_def Let_def split: if_splits option.splits)

lemma draining_upd [simp]: "draining (upd s a f) = draining s" by (simp add: upd_def)
lemma draining_enqueue [simp]: "draining (enqueueLocked s a) = draining s" by (simp add: enqueueLocked_def)
lemma draining_changed [simp]:
  "draining (changedLocked s) = draining s" "draining (unlockChanged s) = draining s"
  by (simp_all add: changedLocked_def unlockChanged_def)
lemma draining_retryDue [simp]: "draining (retryDueLocked s now) = draining s"
  using retryDueLocked_frame by blast

lemma config_Notify: "config (fst (Notify s now k n)) = config s \<and> draining (fst (Notify s now k n)) = draining s"
proof -
  obtain s1 a where "lookup_or_alloc s k = (s1, a)" by fastforce
  from config_lookup [OF this] this show ?thesis
    by (auto simp: Notify_def Let_def split: userState.splits) (simp_all add: config_def)
qed

lemma config_Hold: "Hold s k = (s', a) \<Longrightarrow> config s' = config s \<and> draining s' = draining s"
  by (auto simp: Hold_def Let_def split: prod.splits dest: config_lookup)

lemma config_waitLoop: "waitLoop s a b now = (s', r) \<Longrightarrow> config s' = config s \<and> draining s' = draining s"
  by (auto simp: waitLoop_def waitLeave_def Let_def split: if_splits)

lemma config_waitEnter: "waitEnter s k b now = (s', x, r) \<Longrightarrow> config s' = config s \<and> draining s' = draining s"
  by (auto simp: waitEnter_def split: option.splits prod.splits dest: config_waitLoop)

lemma config_waitWake: "waitWake s a b now e = (s', r) \<Longrightarrow> config s' = config s \<and> draining s' = draining s"
  by (auto simp: waitWake_def waitLeave_def split: option.splits dest: config_waitLoop)

lemma config_Measured: "config (Measured s k n) = config s \<and> draining (Measured s k n) = draining s"
  by (auto simp: Measured_def split: option.splits) (simp_all add: config_def upd_def)

lemma config_nextPass: "nextPass s c now = (s', r) \<Longrightarrow> config s' = config s \<and> draining s' = draining s"
  by (auto simp: nextPass_def Let_def split: if_splits option.splits) (simp_all add: config_def upd_def)

lemma config_finish:
  "config (fst (finish s a m err isCut now j)) = config s \<and> draining (fst (finish s a m err isCut now j)) = draining s"
proof -
  define s3 where "s3 = upd (if 0 \<le> m
      then (upd (s\<lparr>running := running s - 1\<rparr>) a (\<lambda>u. u\<lparr>backlog := m + added u, measured := True\<rparr>))
             \<lparr>measuredUsers := (measuredUsers s)(key (objs s a) := True)\<rparr>
      else s\<lparr>running := running s - 1\<rparr>) a (\<lambda>u. u\<lparr>added := 0\<rparr>)"
  obtain s4 l where s4: "settle s3 a err isCut now j = (s4, l)" by fastforce
  have "config s3 = config s \<and> draining s3 = draining s" by (simp add: s3_def config_def upd_def)
  with config_settle [OF s4] s4 show ?thesis
    by (cases "0 \<le> m") (simp_all add: finish_def Let_def s3_def)
qed

lemma sys_step_config: "sys_step t t' \<Longrightarrow> config (sch t') = config (sch t)"
  by (induction rule: sys_step.induct)
    (auto simp: config_Notify config_Measured config_finish release_def Drain_def runStart_def runEnd_def signal_def
       dest: config_waitEnter config_waitWake config_Hold config_nextPass split: if_splits,
     auto simp: config_def changedLocked_def unlockChanged_def)

lemma reachable_config: "reachable w m t \<Longrightarrow> workers (sch t) = w \<and> maxUsers (sch t) = m"
proof (induction rule: reachable.induct)
  case start
  show ?case by (simp add: init_system_def newScheduler_def)
next
  case (step t t')
  then show ?case using sys_step_config [of t t'] by (simp add: config_def)
qed

section \<open>Properties\<close>

text \<open>
  (C13) One job per user runs at a time, on at most as many workers as the scheduler was made with,
  and its count of running users is right, whatever the interleaving of the goroutines.
\<close>

theorem scheduler_one_job_per_user:
  assumes "reachable w m t"
  shows "distinct (map (\<lambda>a. key (objs (sch t) a)) (jobs t)) \<and> length (jobs t) \<le> w \<and>
         running (sch t) = int (length (jobs t))"
proof -
  note inv = reachable_sys_inv [OF assms, unfolded sys_inv_def]
  note P = places_okD [OF sched_invD(2) [OF inv]]
  have "inj_on (\<lambda>a. key (objs (sch t) a)) (set (jobs t))"
    by (auto simp: inj_on_def P live_def)
  then show ?thesis
    using P(3,7) sched_invD(7) [OF inv] reachable_config [OF assms] by (simp add: distinct_map)
qed

text \<open>
  (C14) The users with work never exceed the bound, and \<^verbatim>\<open>activeLocked\<close> counts exactly them: the
  queue, the running jobs and the heap of retries hold every user that is not idle, once.
\<close>

theorem scheduler_active_bound:
  assumes "reachable w m t"
  shows "activeLocked (sch t) \<le> max 0 m \<and>
         activeLocked (sch t) = int (card {a. live (sch t) a \<and> state (objs (sch t) a) \<noteq> userIdle})"
proof -
  note inv = reachable_sys_inv [OF assms, unfolded sys_inv_def]
  note P = places_okD [OF sched_invD(2) [OF inv]]
  let ?s = "sch t"
  have "{a. live ?s a \<and> state (objs ?s a) \<noteq> userIdle} = set (queue ?s @ jobs t @ retries ?s)"
  proof (rule set_eqI)
    fix a
    show "a \<in> {a. live ?s a \<and> state (objs ?s a) \<noteq> userIdle} \<longleftrightarrow> a \<in> set (queue ?s @ jobs t @ retries ?s)"
      by (cases "state (objs ?s a)") (simp_all add: P)
  qed
  moreover have "distinct (queue ?s @ jobs t @ retries ?s)" using P(1,2,3) by (auto simp: P)
  ultimately have "card {a. live ?s a \<and> state (objs ?s a) \<noteq> userIdle} =
      length (queue ?s @ jobs t @ retries ?s)" by (metis distinct_card)
  then show ?thesis
    using sched_invD(6) [OF inv] reachable_config [OF assms] P(7) by (simp add: activeLocked_def)
qed

text \<open>
  No pointer a goroutine holds goes stale: every unreleased hold, every blocked wait and every
  running job points to the object the map of users holds for its key, so that a Search's hold is
  always seen by \<^verbatim>\<open>yielding\<close>, which holds of a key exactly while some hold on it is unreleased or the
  scheduler drains.
\<close>

theorem scheduler_holds_seen:
  assumes "reachable w m t"
  shows "(\<forall>a \<in> set (heldBy t) \<union> set (waiting t) \<union> set (jobs t).
            users (sch t) (key (objs (sch t) a)) = Some a) \<and>
         (yielding (sch t) k \<longleftrightarrow>
            draining (sch t) \<or> (\<exists>a \<in> set (heldBy t). key (objs (sch t) a) = k))"
proof -
  note inv = reachable_sys_inv [OF assms, unfolded sys_inv_def]
  note P = places_okD [OF sched_invD(2) [OF inv]]
  note refs = sched_invD(3) [OF inv, unfolded refs_ok_def]
  have ptrs: "live (sch t) a" if "a \<in> set (heldBy t) \<union> set (waiting t) \<union> set (jobs t)" for a
    using that refs by (auto simp: P)
  have "0 < holds (objs (sch t) a) \<longleftrightarrow> a \<in> set (heldBy t)" if "live (sch t) a" for a
    using that refs count_list_0_iff [of "heldBy t" a] by (metis neq0_conv)
  then have "(case users (sch t) k of None \<Rightarrow> False | Some a \<Rightarrow> 0 < holds (objs (sch t) a)) \<longleftrightarrow>
      (\<exists>a \<in> set (heldBy t). key (objs (sch t) a) = k)"
    using ptrs users_live [OF sched_invD(1) [OF inv]] sched_invD(1) [OF inv]
    by (fastforce simp: users_ok_def live_def split: option.splits)
  with ptrs show ?thesis by (auto simp: yielding_def live_def)
qed

text \<open>The order of a worker's choice.\<close>

lemma nextPass_Run_cases:
  assumes "nextPass s ctxEnded now = (s', NextRun a)"
  obtains us vs where "\<not> ctxEnded" "\<not> draining s"
    "queue (retryDueLocked s now) = us @ a # vs"
    "holds (objs s a) = 0" "\<forall>u\<in>set us. holds (objs s u) \<noteq> 0"
    "queue s' = us @ vs" "users s' = users s"
proof -
  let ?s1 = "retryDueLocked s now"
  have frame: "holds (objs ?s1 b) = holds (objs s b)" for b using retryDueLocked_frame by blast
  have run: "\<not> ctxEnded" "\<not> draining s" "firstUnheldLocked ?s1 = Some a"
    "queue s' = remove1 a (queue ?s1)" "users s' = users s"
    using assms by (auto simp: nextPass_def Let_def upd_def split: if_splits option.splits)
  from find_Some_split [OF run(3) [unfolded firstUnheldLocked_def]] obtain us vs
    where q: "queue ?s1 = us @ a # vs" "holds (objs ?s1 a) = 0" "\<forall>u\<in>set us. holds (objs ?s1 u) \<noteq> 0"
    by blast
  then have "a \<notin> set us" by auto
  then have "queue s' = us @ vs" using run(4) q(1) by (simp add: remove1_append)
  with that run q frame show ?thesis by simp
qed

text \<open>
  (C16) A worker takes the first user of the queue no Search holds: every user before it in the
  queue is held, the user taken is not, and the others keep their places.
\<close>

theorem scheduler_next_fifo:
  assumes "nextPass s ctxEnded now = (s', NextRun a)"
  shows "\<exists>us vs. queue (retryDueLocked s now) = us @ a # vs \<and> queue s' = us @ vs \<and>
           (\<forall>u \<in> set us. 0 < holds (objs s u)) \<and> holds (objs s a) = 0 \<and> state (objs s' a) = userRunning"
proof -
  obtain us vs where q: "queue (retryDueLocked s now) = us @ a # vs" "queue s' = us @ vs"
    "\<forall>u\<in>set us. holds (objs s u) \<noteq> 0" "holds (objs s a) = 0"
    using nextPass_Run_cases [OF assms] by metis
  moreover have "state (objs s' a) = userRunning"
    using assms by (auto simp: nextPass_def Let_def upd_def split: if_splits option.splits)
  ultimately show ?thesis by blast
qed

text \<open>Due retries join the queue earliest first.\<close>

lemma retryDueLocked_order:
  assumes "sched_inv s J H W"
  shows "\<exists>ds. queue (retryDueLocked s now) = queue s @ ds \<and>
     mset (retries s) = mset ds + mset (retries (retryDueLocked s now)) \<and>
     (\<forall>a \<in> set ds. retryAt (objs s a) \<le> now) \<and>
     (\<forall>a \<in> set (retries (retryDueLocked s now)). now < retryAt (objs s a)) \<and>
     sorted_wrt (\<lambda>a b. \<not> retryLess (objs s) b a) ds"
  using assms
proof (induction s now rule: retryDueLocked.induct)
  case (1 s now)
  show ?case
  proof (cases "retries s \<noteq> [] \<and> retryAt (objs s (hd (retries s))) \<le> now")
    case True
    obtain a rs where pop: "heap_Pop (retryLess (objs s)) (retries s) = (a, rs)" by fastforce
    note R = heap_Pop_retries [OF "1.prems" _ pop]
    let ?s = "enqueueLocked (s\<lparr>retries := rs\<rparr>) a"
    have eq: "retryDueLocked s now = retryDueLocked ?s now"
      using True pop by (subst retryDueLocked.simps) simp
    have inv: "sched_inv ?s J H W" using sched_inv_retryStep [OF "1.prems" _ pop] True by blast
    have keys: "retryAt (objs ?s b) = retryAt (objs s b)" "retryLess (objs ?s) = retryLess (objs s)" for b
      by (auto simp: enqueueLocked_def upd_def retryLess_def fun_eq_iff)
    obtain ds where ds: "queue (retryDueLocked ?s now) = queue ?s @ ds"
      "mset (retries ?s) = mset ds + mset (retries (retryDueLocked ?s now))"
      "\<forall>b \<in> set ds. retryAt (objs s b) \<le> now"
      "\<forall>b \<in> set (retries (retryDueLocked ?s now)). now < retryAt (objs s b)"
      "sorted_wrt (\<lambda>a b. \<not> retryLess (objs s) b a) ds"
      using "1.IH" [OF True refl, of a rs] pop inv by (auto simp: keys)
    have fields: "queue ?s = queue s @ [a]" "retries ?s = rs" by (simp_all add: enqueueLocked_def upd_def)
    have "set_mset (mset ds) \<subseteq> set_mset (mset rs)" unfolding ds(2) [unfolded fields(2)] by simp
    then have "set ds \<subseteq> set (retries s)" using R(4) True by auto
    moreover have "\<not> retryLess (objs s) b a" if "b \<in> set (retries s)" for b
      using retry.heap_Pop_least [OF sched_invD(5) [OF "1.prems"], of b] True that pop by auto
    ultimately have "sorted_wrt (\<lambda>a b. \<not> retryLess (objs s) b a) (a # ds)" using ds(5) by auto
    moreover have "retryAt (objs s a) \<le> now" using R(1) True by simp
    ultimately show ?thesis
      using ds R(2) True fields by (intro exI [of _ "a # ds"]) (simp add: eq)
  next
    case False
    then have eq: "retryDueLocked s now = s" by (subst retryDueLocked.simps) auto
    have "now < retryAt (objs s b)" if b: "b \<in> set (retries s)" for b
    proof -
      have ne: "retries s \<noteq> []" using b by auto
      have "\<not> retryLess (objs s) b (hd (retries s))"
        using retry.heap_on_root [OF sched_invD(5) [OF "1.prems"]] b
        by (auto simp: in_set_conv_nth hd_conv_nth [OF ne])
      moreover have "now < retryAt (objs s (hd (retries s)))" using False b by auto
      ultimately show ?thesis by (auto simp: retryLess_def split: if_splits)
    qed
    then show ?thesis by (intro exI [of _ "[]"]) (simp add: eq)
  qed
qed

text \<open>
  In every reachable state, a worker's pass moves exactly the users whose backoff has ended to
  the back of the queue, the earliest retry first and then by when they failed; the others stay
  backing off, and a queued user keeps its place.
\<close>

theorem scheduler_retries_in_order:
  assumes "reachable w m t"
  shows "\<exists>ds. queue (retryDueLocked (sch t) now) = queue (sch t) @ ds \<and>
     mset (retries (sch t)) = mset ds + mset (retries (retryDueLocked (sch t) now)) \<and>
     (\<forall>a \<in> set ds. retryAt (objs (sch t) a) \<le> now) \<and>
     (\<forall>a \<in> set (retries (retryDueLocked (sch t) now)). now < retryAt (objs (sch t) a)) \<and>
     sorted_wrt (\<lambda>a b. \<not> retryLess (objs (sch t)) b a) ds"
  using retryDueLocked_order [OF reachable_sys_inv [OF assms, unfolded sys_inv_def]] .

text \<open>
  (C17) A drain starts no job and waits for none: once the scheduler drains it drains for good, every
  later job is one that ran at the drain, and a \<^verbatim>\<open>WaitBacklog\<close> returns at its next look.
\<close>

theorem scheduler_drain:
  assumes "sys_step\<^sup>*\<^sup>* t t'" and "draining (sch t)"
  shows "draining (sch t') \<and> set (jobs t') \<subseteq> set (jobs t) \<and> length (jobs t') \<le> length (jobs t) \<and>
         snd (waitLoop (sch t') a bound now) = (WaitReturns None :: unit waitResult)"
proof -
  have one: "draining (sch v) \<and> set (jobs v) \<subseteq> set (jobs u) \<and> length (jobs v) \<le> length (jobs u)"
    if "sys_step u v" "draining (sch u)" for u v
    using that
  proof (induction rule: sys_step.induct)
    case (finish a t m err isCut now jitter)
    then show ?case
      using set_remove1_subset [of a "jobs t"] by (simp add: config_finish length_remove1)
  next
    case (next_run t ctxEnded now s' a)
    then show ?case by (auto simp: nextPass_def split: if_splits)
  qed (auto simp: config_Notify config_Measured release_def Drain_def runStart_def runEnd_def signal_def
       dest: config_waitEnter config_waitWake config_Hold config_nextPass split: if_splits)
  have "draining (sch t') \<and> set (jobs t') \<subseteq> set (jobs t) \<and> length (jobs t') \<le> length (jobs t)"
    using assms
  proof (induction rule: rtranclp_induct)
    case base
    then show ?case by simp
  next
    case (step u v)
    then show ?case using one [of u v] by fastforce
  qed
  moreover from this have "snd (waitLoop (sch t') a bound now) = (WaitReturns None :: unit waitResult)"
    by (simp add: waitLoop_def Let_def)
  ultimately show ?thesis by simp
qed

subsection \<open>Notifications are not lost\<close>

text \<open>
  A user is pending when a job will look at it again: it is queued, backs off, or runs with
  characters written since its job began.
\<close>

definition pending :: "scheduler \<Rightarrow> userKey \<Rightarrow> bool" where
  "pending s k \<longleftrightarrow>
     (case users s k of
        None \<Rightarrow> False
      | Some a \<Rightarrow> state (objs s a) = userQueued \<or> state (objs s a) = userBackingOff \<or>
                  state (objs s a) = userRunning \<and> dirty (objs s a))"

lemma pending_upd:
  "(\<And>u. state (f u) = state u) \<Longrightarrow> (\<And>u. dirty u \<Longrightarrow> dirty (f u)) \<Longrightarrow> pending s k \<Longrightarrow> pending (upd s b f) k"
  by (auto simp: pending_def upd_def split: option.splits)

lemma pending_enqueue: "pending s k \<Longrightarrow> pending (enqueueLocked s b) k"
  by (auto simp: pending_def enqueueLocked_def upd_def split: option.splits)

lemma pending_forget: "pending s k \<Longrightarrow> pending (forgetLocked s b) k"
  by (auto simp: pending_def forgetLocked_def Let_def split: option.splits if_splits)

lemma pending_fields [simp]:
  "pending (changedLocked s) k = pending s k" "pending (unlockChanged s) k = pending s k"
  "pending (s\<lparr>draining := b\<rparr>) k = pending s k" "pending (s\<lparr>started := b, stopped := c\<rparr>) k = pending s k"
  "pending (s\<lparr>fullLogged := l\<rparr>) k = pending s k" "pending (s\<lparr>measuredUsers := ms\<rparr>) k = pending s k"
  by (simp_all add: pending_def changedLocked_def unlockChanged_def split: option.split)

lemma pending_lookup:
  "users_ok s \<Longrightarrow> lookup_or_alloc s k' = (s', a) \<Longrightarrow> pending s k \<Longrightarrow> pending s' k"
  by (fastforce simp: pending_def lookup_or_alloc_def alloc_def Let_def users_ok_def split: option.splits if_splits)

lemma pending_waitLeave: "pending s k \<Longrightarrow> pending (waitLeave s a) k"
  by (simp add: waitLeave_def pending_forget pending_upd)

lemma pending_waitLoop: "pending s k \<Longrightarrow> waitLoop s a b now = (s', r) \<Longrightarrow> pending s' k"
  by (auto simp: waitLoop_def Let_def pending_waitLeave pending_enqueue pending_upd split: if_splits)

lemma pending_waitEnter: "pending s k \<Longrightarrow> waitEnter s k' b now = (s', x, r) \<Longrightarrow> pending s' k"
  by (auto simp: waitEnter_def split: option.splits prod.splits elim!: pending_waitLoop [rotated] intro: pending_upd)

lemma pending_Notify_other:
  assumes "users_ok s" "pending s k"
  shows "pending (fst (Notify s now k' n)) k"
proof -
  obtain s1 a where s1: "lookup_or_alloc s k' = (s1, a)" by fastforce
  from pending_lookup [OF assms(1) s1 assms(2)] assms(2) s1 show ?thesis
    by (auto simp: Notify_def Let_def pending_enqueue pending_upd split: userState.splits)
qed

lemma pending_retryDueLocked: "pending s k \<Longrightarrow> pending (retryDueLocked s now) k"
proof (induction s now rule: retryDueLocked.induct)
  case (1 s now)
  show ?case
  proof (cases "retries s \<noteq> [] \<and> retryAt (objs s (hd (retries s))) \<le> now")
    case True
    obtain a rs where pop: "heap_Pop (retryLess (objs s)) (retries s) = (a, rs)" by fastforce
    have "pending (enqueueLocked (s\<lparr>retries := rs\<rparr>) a) k"
      by (rule pending_enqueue) (use "1.prems" in \<open>simp add: pending_def split: option.splits\<close>)
    with "1.IH" [OF True refl, of a rs] pop True show ?thesis by (subst retryDueLocked.simps) simp
  next
    case False
    with "1.prems" show ?thesis by (subst retryDueLocked.simps) auto
  qed
qed

lemma pending_nextPass:
  assumes "users_ok s" "nextPass s c now = (s', r)" "pending s k"
    and "\<And>a. r = NextRun a \<Longrightarrow> key (objs s' a) \<noteq> k"
  shows "pending s' k"
proof -
  let ?s1 = "retryDueLocked s now"
  have pend: "pending ?s1 k" using pending_retryDueLocked [OF assms(3)] .
  have key: "key (objs ?s1 b) = key (objs s b)" and "users ?s1 = users s" for b
    using retryDueLocked_frame by blast+
  show ?thesis
  proof (cases r)
    case (NextRun a)
    then have s': "s' = (upd ?s1 a (\<lambda>u. u\<lparr>state := userRunning, added := 0, dirty := False, dirtySince := None\<rparr>))
       \<lparr>queue := remove1 a (queue ?s1), running := running ?s1 + 1\<rparr>"
      using assms(2) by (auto simp: nextPass_def Let_def split: if_splits option.splits)
    then have "users s k \<noteq> Some a"
      using assms(4) [OF NextRun] assms(1) key by (auto simp: users_ok_def upd_def)
    then show ?thesis using pend by (auto simp: s' pending_def upd_def split: option.splits)
  qed (use assms(2,3) pend in \<open>auto simp: nextPass_def Let_def split: if_splits option.splits\<close>)
qed

lemma pending_settle:
  assumes "settle s a err isCut now j = (s', l)" "pending s k" "state (objs s a) = userRunning"
    and "users s k = Some a \<Longrightarrow> dirty (objs s a)"
  shows "pending s' k"
  using assms by (cases "users s k = Some a")
    (auto simp: settle_def enqueueLocked_def upd_def Let_def pending_def split: if_splits option.splits)

lemma pending_finish:
  assumes inv: "sched_inv s J H W" and a: "a \<in> set J" and pend: "pending s k"
  shows "pending (fst (finish s a m err isCut now j)) k"
proof -
  have live: "live s a" "state (objs s a) = userRunning"
    using a by (simp_all add: places_okD [OF sched_invD(2) [OF inv]])
  define s3 where "s3 = upd (if 0 \<le> m
      then (upd (s\<lparr>running := running s - 1\<rparr>) a (\<lambda>u. u\<lparr>backlog := m + added u, measured := True\<rparr>))
             \<lparr>measuredUsers := (measuredUsers s)(key (objs s a) := True)\<rparr>
      else s\<lparr>running := running s - 1\<rparr>) a (\<lambda>u. u\<lparr>added := 0\<rparr>)"
  obtain s4 l where s4: "settle s3 a err isCut now j = (s4, l)" by fastforce
  have s3: "pending s3 k" "state (objs s3 a) = userRunning" "users s3 = users s"
    using pend live by (auto simp: s3_def upd_def pending_def split: option.splits)
  have "dirty (objs s3 a)" if "users s3 k = Some a"
    using that s3(1,2) by (auto simp: pending_def)
  with pending_settle [OF s4 s3(1,2)] have p4: "pending s4 k" by blast
  have not_run: "users s4 k = Some a \<Longrightarrow> state (objs s4 a) = userQueued \<or> state (objs s4 a) = userBackingOff"
    using s4 s3(2) p4 by (auto simp: pending_def settle_def enqueueLocked_def upd_def Let_def split: if_splits option.splits)
  then have "pending (upd s4 a (\<lambda>u. u\<lparr>dirty := False, dirtySince := None\<rparr>)) k"
    using p4 by (auto simp: pending_def upd_def split: option.splits)
  then have "pending (forgetLocked (upd s4 a (\<lambda>u. u\<lparr>dirty := False, dirtySince := None\<rparr>)) a) k"
    by (rule pending_forget)
  then show ?thesis using s4 by (cases "0 \<le> m") (simp_all add: finish_def Let_def s3_def)
qed

text \<open>
  (C15) An accepted notification is never lost. A notification past the bound apart, it leaves its
  user pending with the characters added to its backlog; and whatever step any goroutine takes next,
  a pending user stays pending until a job of its own starts.
\<close>

theorem scheduler_notification_kept:
  assumes "reachable w m t"
  shows "(\<not> notifyFull (sch t) k \<longrightarrow>
            pending (fst (Notify (sch t) now k n)) k \<and>
            (\<exists>a. users (fst (Notify (sch t) now k n)) k = Some a \<and>
                 backlog (objs (fst (Notify (sch t) now k n)) a) =
                   n + (case users (sch t) k of None \<Rightarrow> 0 | Some b \<Rightarrow> backlog (objs (sch t) b)))) \<and>
         (sys_step t t' \<and> pending (sch t) k \<longrightarrow>
            pending (sch t') k \<or>
            (\<exists>a. jobs t' = a # jobs t \<and> users (sch t') k = Some a))"
proof -
  note inv = reachable_sys_inv [OF assms, unfolded sys_inv_def]
  have part1: "pending (fst (Notify (sch t) now k n)) k \<and>
      (\<exists>a. users (fst (Notify (sch t) now k n)) k = Some a \<and>
           backlog (objs (fst (Notify (sch t) now k n)) a) =
             n + (case users (sch t) k of None \<Rightarrow> 0 | Some b \<Rightarrow> backlog (objs (sch t) b)))"
    if "\<not> notifyFull (sch t) k"
  proof -
    obtain s1 a where s1: "lookup_or_alloc (sch t) k = (s1, a)" by fastforce
    note L = sched_inv_lookup [OF inv s1]
    have "backlog (objs s1 a) = (case users (sch t) k of None \<Rightarrow> 0 | Some b \<Rightarrow> backlog (objs (sch t) b))"
      using s1 by (auto simp: lookup_or_alloc_def alloc_def Let_def new_user_def split: option.splits)
    then show ?thesis
      using that s1 L(3) by (cases "state (objs s1 a)")
        (simp_all add: Notify_def Let_def op_simps pending_def)
  qed
  have part2: "pending (sch t') k \<or> (\<exists>a. jobs t' = a # jobs t \<and> users (sch t') k = Some a)"
    if "sys_step t t'" "pending (sch t) k"
    using that inv
  proof (induction rule: sys_step.induct)
    case (next_run t ctxEnded now s' a)
    note ok = sched_invD(1) [OF next_run.prems(2)]
    have "users s' = users (sch t)" "\<And>b. key (objs s' b) = key (objs (sch t) b)"
      using next_run.hyps(3) retryDueLocked_frame [of "sch t" now]
      by (auto simp: nextPass_def Let_def upd_def split: if_splits option.splits)
    moreover have "live s' a"
      using sched_inv_nextPass [OF next_run.prems(2) next_run.hyps(3,2)]
        places_okD(6) [of s' "a # jobs t" a] by (auto dest: sched_invD(2))
    ultimately show ?case
      using pending_nextPass [OF ok next_run.hyps(3) next_run.prems(1)] by (auto simp: live_def)
  next
    case (next_other t ctxEnded now s' r)
    then show ?case using pending_nextPass [OF sched_invD(1)] by fastforce
  next
    case (finish a t m err isCut now j)
    then show ?case using pending_finish by simp
  next
    case (hold t k' s' a)
    then show ?case
      using pending_lookup [OF sched_invD(1)] by (fastforce simp: Hold_def Let_def intro: pending_upd split: prod.splits)
  qed (auto simp: sched_invD(1) pending_Notify_other release_def Drain_def runStart_def runEnd_def signal_def
         Measured_def waitWake_def pending_forget pending_upd pending_waitLeave
       dest: pending_waitLoop [rotated] pending_waitEnter [rotated] split: if_splits option.splits prod.splits)
  from part1 part2 show ?thesis by blast
qed

subsection \<open>A worker never sleeps over work\<close>

text \<open>
  (C18) A worker sleeps only when no job can start: every queued user is held by a Search and no
  backoff has ended, and it sleeps no longer than to the next retry, for as long as it takes when
  there is none.
\<close>

theorem scheduler_sleeps_right:
  assumes "reachable w m t" and "nextPass (sch t) ctxEnded now = (s', NextSleep d)"
  shows "(\<forall>a \<in> set (queue s'). 0 < holds (objs (sch t) a)) \<and>
         (\<forall>a \<in> set (retries s'). now + d \<le> retryAt (objs (sch t) a) \<and> 0 < d) \<and>
         (retries s' = [] \<longrightarrow> d = 0)"
proof -
  note inv = reachable_sys_inv [OF assms(1), unfolded sys_inv_def]
  let ?s = "retryDueLocked (sch t) now"
  have s': "s' = ?s" and none: "firstUnheldLocked ?s = None"
    and d: "d = (if retries ?s \<noteq> [] then retryAt (objs ?s (hd (retries ?s))) - now else 0)"
    using assms(2) by (auto simp: nextPass_def Let_def split: if_splits option.splits)
  have holds: "holds (objs ?s a) = holds (objs (sch t) a)" for a using retryDueLocked_frame by blast
  have at: "retryAt (objs ?s a) = retryAt (objs (sch t) a)" for a using retryDueLocked_frame by blast
  have queued: "0 < holds (objs (sch t) a)" if "a \<in> set (queue ?s)" for a
    using none that by (simp add: firstUnheldLocked_def find_None_iff holds)
  have later: "now < retryAt (objs (sch t) a)" if "a \<in> set (retries ?s)" for a
    using retryDueLocked_order [OF inv, of now] that by blast
  have first: "retryAt (objs (sch t) (hd (retries ?s))) \<le> retryAt (objs (sch t) a)" if a: "a \<in> set (retries ?s)" for a
  proof -
    have ne: "retries ?s \<noteq> []" using a by auto
    have "\<not> retryLess (objs ?s) a (hd (retries ?s))"
      using retry.heap_on_root [OF sched_invD(5) [OF sched_inv_retryDueLocked [OF inv]]] a
      by (auto simp: in_set_conv_nth hd_conv_nth [OF ne])
    then show ?thesis by (auto simp: retryLess_def at split: if_splits)
  qed
  show ?thesis
    using queued first later [of "hd (retries ?s)"] by (auto simp: s' d at)
qed

subsection \<open>The backoff's length\<close>

lemma round_between: "of_int lo \<le> x \<Longrightarrow> x \<le> of_int hi \<Longrightarrow> lo \<le> round x \<and> round x \<le> hi" for x :: rat
  using round_mono [of "of_int lo" x] round_mono [of x "of_int hi"] by simp

text \<open>
  The wait before a retry: for the first five failures in a row it is the doubled base within
  twenty per cent, from the sixth it is the cap less up to twenty per cent; it is never longer than
  ten minutes and never shorter than twenty-four seconds.
\<close>

theorem retryDelay_bounds:
  assumes "0 \<le> jitter" and "jitter < 1" and "1 \<le> n"
  shows "24 * second \<le> retryDelay n jitter \<and> retryDelay n jitter \<le> retryMax \<and>
         (n \<le> 5 \<longrightarrow> 4 * (retryBase * 2 ^ (n - 1)) \<le> 5 * retryDelay n jitter \<and>
                    5 * retryDelay n jitter \<le> 6 * (retryBase * 2 ^ (n - 1))) \<and>
         (6 \<le> n \<longrightarrow> 8 * minute \<le> retryDelay n jitter)"
proof -
  let ?cap = "round (of_int retryMax * (4 / 5 + 1 / 5 * jitter))"
  have cap: "8 * minute \<le> ?cap \<and> ?cap \<le> retryMax"
    by (rule round_between) (use assms in \<open>simp_all add: retryMax_def\<close>)
  have jittered: "4 * e \<le> round (of_int (5 * e) * (4 / 5 + 2 / 5 * jitter)) \<and>
      round (of_int (5 * e) * (4 / 5 + 2 / 5 * jitter)) \<le> 6 * e" if "0 \<le> e" for e :: int
  proof (rule round_between)
    have eq: "of_int (5 * e) * (4 / 5 + 2 / 5 * jitter) = 4 * of_int e + 2 * (of_int e * jitter)"
      by (simp add: algebra_simps)
    have "0 \<le> of_int e * jitter" "of_int e * jitter \<le> of_int e"
      using assms that by (simp_all add: mult_left_le)
    then show "of_int (4 * e) \<le> of_int (5 * e) * (4 / 5 + 2 / 5 * jitter)"
      "of_int (5 * e) * (4 / 5 + 2 / 5 * jitter) \<le> of_int (6 * e)"
      unfolding eq by simp_all
  qed
  show ?thesis
  proof (cases "n \<le> 10")
    case True
    define p :: int where "p = 2 ^ (n - 1)"
    have base: "retryBase * 2 ^ (n - 1) = 5 * (6 * second * p)" by (simp add: retryBase_def p_def)
    have p: "1 \<le> p" by (simp add: p_def)
    have small: "p \<le> 16" if "n \<le> 5" using power_increasing [of "n - 1" 4 "2::int"] that by (simp add: p_def)
    have big: "32 \<le> p" if "6 \<le> n" using power_increasing [of 5 "n - 1" "2::int"] that by (simp add: p_def)
    have "retryDelay n jitter = min (round (of_int (5 * (6 * second * p)) * (4 / 5 + 2 / 5 * jitter))) ?cap"
      unfolding retryDelay_def Let_def base using True by (simp only: if_True)
    with jittered [of "6 * second * p"] cap p small big show ?thesis
      unfolding base retryMax_def by (auto simp: min_def)
  next
    case False
    have "retryDelay n jitter = min (round (of_int (5 * (2 * minute)) * (4 / 5 + 2 / 5 * jitter))) ?cap"
      unfolding retryDelay_def Let_def using False by (simp add: retryMax_def)
    with jittered [of "2 * minute"] cap False show ?thesis by (auto simp: min_def)
  qed
qed

section \<open>A concrete run\<close>

text \<open>
  Two workers, at most five users: an Add notifies a user, a worker runs its job, a Search holds
  it, an Add writes more while the job runs.
\<close>

definition demo_started :: system where
  "demo_started =
     \<lparr>sch = (fst (Notify (newScheduler 2 5) 7 ''ab'' 10))\<lparr>started := True, stopped := False\<rparr>,
      jobs = [], heldBy = [], waiting = []\<rparr>"

definition demo_running :: system where
  "demo_running = demo_started\<lparr>sch := fst (nextPass (sch demo_started) False 9), jobs := [0]\<rparr>"

definition demo_held :: system where
  "demo_held = demo_running\<lparr>sch := fst (Hold (sch demo_running) ''ab''), heldBy := [0]\<rparr>"

definition demo_sleeping :: system where
  "demo_sleeping = demo_started\<lparr>sch := fst (Hold (sch demo_started) ''ab''), heldBy := [0]\<rparr>"

definition demo_failed :: system where
  "demo_failed =
     demo_running\<lparr>sch := fst (finish (sch demo_running) 0 5 (Some OtherError) False 10 (1 / 2)), jobs := []\<rparr>"

lemmas eval_simps = demo_started_def newScheduler_def Notify_def notifyFull_def activeLocked_def
  lookup_or_alloc_def alloc_def new_user_def upd_def enqueueLocked_def unlockChanged_def
  changedLocked_def nextPass_def firstUnheldLocked_def retryDueLocked.simps Hold_def init_system_def
  runStart_def

lemma demo_started_reachable: "reachable 2 5 demo_started"
proof -
  have "reachable 2 5 ((init_system 2 5)\<lparr>sch := fst (Notify (sch (init_system 2 5)) 7 ''ab'' 10)\<rparr>)"
    by (intro reachable.step [OF reachable.start] sys_step.notify)
  then show ?thesis
    by (rule reachable.step) (rule sys_step.run_start [THEN back_subst [of "sys_step _"]],
      auto simp: eval_simps Let_def)
qed

lemma demo_next: "nextPass (sch demo_started) False 9 = (sch demo_running, NextRun 0)"
  by (simp add: demo_running_def) (simp add: eval_simps Let_def)

lemma demo_running_reachable: "reachable 2 5 demo_running"
proof -
  have "sys_step demo_started (demo_started\<lparr>sch := sch demo_running, jobs := 0 # jobs demo_started\<rparr>)"
    by (rule sys_step.next_run [OF _ _ demo_next]) (simp_all add: eval_simps Let_def)
  then have "sys_step demo_started demo_running"
    by (simp add: demo_running_def) (simp add: demo_started_def)
  with demo_started_reachable show ?thesis by (rule reachable.step)
qed

lemma demo_hold: "Hold (sch demo_running) ''ab'' = (sch demo_held, 0)"
  by (simp add: demo_held_def) (simp add: demo_running_def eval_simps Let_def)

lemma demo_held_reachable: "reachable 2 5 demo_held"
proof -
  have "sys_step demo_running demo_held"
    using sys_step.hold [OF demo_hold]
    by (simp add: demo_held_def demo_running_def) (simp add: demo_started_def)
  with demo_running_reachable show ?thesis by (rule reachable.step)
qed

lemma demo_failed_reachable: "reachable 2 5 demo_failed"
proof -
  have "jobs demo_running = [0]" by (simp add: demo_running_def)
  then have "sys_step demo_running demo_failed"
    using sys_step.finish [of 0 demo_running 5 "Some OtherError" False 10 "1 / 2"]
    by (simp add: demo_failed_def)
  with demo_running_reachable show ?thesis by (rule reachable.step)
qed

lemma demo_sleeping_reachable: "reachable 2 5 demo_sleeping"
proof -
  have "Hold (sch demo_started) ''ab'' = (sch demo_sleeping, 0)"
    by (simp add: demo_sleeping_def) (simp add: eval_simps Let_def)
  from sys_step.hold [OF this] have "sys_step demo_started demo_sleeping"
    by (simp add: demo_sleeping_def) (simp add: demo_started_def)
  with demo_started_reachable show ?thesis by (rule reachable.step)
qed

theorem scheduler_one_job_per_user_witness:
  "reachable 2 5 demo_held \<and>
   distinct (map (\<lambda>a. key (objs (sch demo_held) a)) (jobs demo_held)) \<and> length (jobs demo_held) \<le> 2"
  using scheduler_one_job_per_user [OF demo_held_reachable] demo_held_reachable by blast

theorem scheduler_active_bound_witness:
  "reachable 2 5 demo_held \<and> activeLocked (sch demo_held) \<le> max 0 5"
  using scheduler_active_bound [OF demo_held_reachable] demo_held_reachable by blast

theorem scheduler_holds_seen_witness:
  "reachable 2 5 demo_held \<and> yielding (sch demo_held) ''ab''"
proof -
  have "key (objs (sch demo_held) 0) = ''ab''" "heldBy demo_held = [0]"
    by (simp_all add: demo_held_def demo_running_def eval_simps Let_def)
  then show ?thesis
    using scheduler_holds_seen [OF demo_held_reachable, of "''ab''"] demo_held_reachable by simp
qed

theorem scheduler_next_fifo_witness:
  "\<exists>us vs. queue (retryDueLocked (sch demo_started) 9) = us @ 0 # vs \<and>
           queue (sch demo_running) = us @ vs \<and>
           (\<forall>u \<in> set us. 0 < holds (objs (sch demo_started) u)) \<and>
           holds (objs (sch demo_started) 0) = 0 \<and> state (objs (sch demo_running) 0) = userRunning"
  by (rule scheduler_next_fifo [OF demo_next])

theorem scheduler_retries_in_order_witness:
  "retries (sch demo_failed) = [0] \<and> retryAt (objs (sch demo_failed) 0) = 10 + 30 * second \<and>
   queue (sch demo_failed) = [] \<and> queue (retryDueLocked (sch demo_failed) (10 + 30 * second)) = [0]"
proof -
  have "retries (sch demo_failed) = [0]" "retryAt (objs (sch demo_failed) 0) = 10 + 30 * second"
    "queue (sch demo_failed) = []"
    by (simp_all add: demo_failed_def demo_running_def eval_simps finish_def settle_def forgetLocked_def
        heap_Push_def sift_up.simps retryDelay_def retryBase_def retryMax_def Let_def)
  then show ?thesis
    using scheduler_retries_in_order [OF demo_failed_reachable, of "10 + 30 * second"]
    by (auto simp: single_is_union)
qed

theorem scheduler_drain_witness:
  "draining (Drain (sch demo_held)) \<and>
   set (jobs (demo_held\<lparr>sch := Drain (sch demo_held)\<rparr>)) \<subseteq> {0}"
proof -
  have d: "draining (sch (demo_held\<lparr>sch := Drain (sch demo_held)\<rparr>))" by (simp add: Drain_def unlockChanged_def changedLocked_def)
  from scheduler_drain [OF rtranclp.rtrancl_refl d] d show ?thesis
    by (simp add: demo_held_def demo_running_def)
qed

theorem scheduler_notification_kept_witness:
  "reachable 2 5 demo_running \<and> \<not> notifyFull (sch demo_running) ''ab'' \<and>
   pending (fst (Notify (sch demo_running) 10 ''ab'' 3)) ''ab''"
proof -
  have "\<not> notifyFull (sch demo_running) ''ab''" by (simp add: demo_running_def eval_simps Let_def)
  then show ?thesis
    using scheduler_notification_kept [OF demo_running_reachable, of "''ab''" 10 3] demo_running_reachable by simp
qed

theorem scheduler_sleeps_right_witness:
  "nextPass (sch demo_sleeping) False 9 = (sch demo_sleeping, NextSleep 0) \<and>
   queue (sch demo_sleeping) = [0] \<and> 0 < holds (objs (sch demo_sleeping) 0)"
proof -
  have "nextPass (sch demo_sleeping) False 9 = (sch demo_sleeping, NextSleep 0)"
    "queue (sch demo_sleeping) = [0]"
    by (simp_all add: demo_sleeping_def eval_simps Let_def)
  with scheduler_sleeps_right [OF demo_sleeping_reachable this(1)] show ?thesis by simp
qed

theorem retryDelay_bounds_witness:
  "24 * second \<le> retryDelay 3 (1 / 2) \<and> retryDelay 3 (1 / 2) \<le> retryMax"
  using retryDelay_bounds [of "1 / 2" 3] by simp

end
