(* ===== verification/Go_Text.thy ===== *)
theory Go_Text
  imports Prelude "HOL-Library.Char_ord" "HOL-Library.List_Lexorder"
begin

text \<open>
  The parts of Go's standard library that work on text, as the code uses them: byte strings,
  decimal numerals (\<^verbatim>\<open>strconv\<close>), hexadecimal (\<^verbatim>\<open>encoding/hex\<close>), unpadded URL-safe base64
  (\<^verbatim>\<open>encoding/base64\<close>) and UTF-8 (\<^verbatim>\<open>unicode/utf8\<close>). A Go string is a sequence of bytes and a HOL
  character is a byte, so both are values of the type \<open>string\<close>; the order of strings is the
  lexicographic order of their bytes, as Go's \<^verbatim>\<open><\<close>.
\<close>

type_synonym bytes = string

abbreviation code :: "char \<Rightarrow> nat" where "code c \<equiv> of_char c"

named_theorems text_simps \<open>rewrite rules for text encodings\<close>

lemma code_less [simp]: "code c < 256"
  using nat_of_char_less_256 by simp

lemma char_of_code [simp]: "char_of (code c) = c"
  by simp

lemma code_char_of: "n < 256 \<Longrightarrow> code (char_of n) = n"
  by simp

lemma code_eq_iff: "code c = code d \<longleftrightarrow> c = d"
  by simp

section \<open>Decimal numerals\<close>

definition digit :: "nat \<Rightarrow> char" where
  "digit n = char_of (48 + n)"

definition is_digit :: "char \<Rightarrow> bool" where
  "is_digit c \<longleftrightarrow> 48 \<le> code c \<and> code c \<le> 57"

definition digit_val :: "char \<Rightarrow> nat" where
  "digit_val c = code c - 48"

lemma code_digit [simp]: "n < 10 \<Longrightarrow> code (digit n) = 48 + n"
  by (simp add: digit_def)

lemma is_digit_digit [simp]: "n < 10 \<Longrightarrow> is_digit (digit n)"
  by (simp add: is_digit_def)

lemma digit_val_digit [simp]: "n < 10 \<Longrightarrow> digit_val (digit n) = n"
  by (simp add: digit_val_def)

text \<open>\<^verbatim>\<open>strconv.Itoa\<close>, of a number that is not negative, and the value of a run of digits.\<close>

fun decimal :: "nat \<Rightarrow> string" where
  "decimal n = (if n < 10 then [digit n] else decimal (n div 10) @ [digit (n mod 10)])"

declare decimal.simps [simp del]

definition digits_value :: "string \<Rightarrow> nat" where
  "digits_value ds = foldl (\<lambda>n c. 10 * n + digit_val c) 0 ds"

lemma digits_value_snoc: "digits_value (ds @ [c]) = 10 * digits_value ds + digit_val c"
  by (simp add: digits_value_def)

lemma digits_value_decimal [simp]: "digits_value (decimal n) = n"
proof (induction n rule: decimal.induct)
  case (1 n)
  show ?case
  proof (cases "n < 10")
    case True
    then show ?thesis by (simp add: decimal.simps digits_value_def)
  next
    case False
    then show ?thesis using 1 by (subst decimal.simps) (simp add: digits_value_snoc)
  qed
qed

lemma decimal_digits: "c \<in> set (decimal n) \<Longrightarrow> is_digit c"
proof (induction n rule: decimal.induct)
  case (1 n)
  then show ?case by (subst (asm) (2) decimal.simps) (auto split: if_splits)
qed

lemma decimal_nonempty [simp]: "decimal n \<noteq> []"
  by (subst decimal.simps) simp

lemma decimal_inject [simp]: "decimal m = decimal n \<longleftrightarrow> m = n"
  by (metis digits_value_decimal)

lemma decimal_hd: "n \<noteq> 0 \<Longrightarrow> hd (decimal n) \<noteq> CHR ''0''"
proof (induction n rule: decimal.induct)
  case (1 n)
  show ?case
  proof (cases "n < 10")
    case True
    then have "decimal n = [digit n]" by (simp add: decimal.simps)
    moreover have "digit n \<noteq> CHR ''0''"
      using True 1(2) code_eq_iff [of "digit n" "CHR ''0''"] by simp
    ultimately show ?thesis by simp
  next
    case False
    then show ?thesis using 1 by (subst decimal.simps) (simp add: hd_append)
  qed
qed

lemma digit_zero [simp]: "digit 0 = CHR ''0''"
  by (subst code_eq_iff [symmetric]) simp

lemma decimal_zero [simp]: "decimal 0 = ''0''"
  by (simp add: decimal.simps)

text \<open>Numerals of a fixed width, with leading zeros.\<close>

fun fixed :: "nat \<Rightarrow> nat \<Rightarrow> string" where
  "fixed 0 n = []"
| "fixed (Suc w) n = fixed w (n div 10) @ [digit (n mod 10)]"

lemma length_fixed [simp]: "length (fixed w n) = w"
  by (induction w arbitrary: n) auto

lemma fixed_digits: "c \<in> set (fixed w n) \<Longrightarrow> is_digit c"
  by (induction w arbitrary: n) auto

lemma digits_value_fixed: "n < 10 ^ w \<Longrightarrow> digits_value (fixed w n) = n"
proof (induction w arbitrary: n)
  case 0
  then show ?case by (simp add: digits_value_def)
next
  case (Suc w)
  then have "n div 10 < 10 ^ w" by (simp add: div_less_iff_less_mult)
  with Suc.IH show ?case by (simp add: digits_value_snoc)
qed

text \<open>Reading a fixed number of digits off the front of a text.\<close>

definition read_fixed :: "nat \<Rightarrow> string \<Rightarrow> (nat \<times> string) option" where
  "read_fixed w s =
     (if w \<le> length s \<and> list_all is_digit (take w s)
      then Some (digits_value (take w s), drop w s) else None)"

lemma read_fixed_fixed [text_simps]:
  "n < 10 ^ w \<Longrightarrow> read_fixed w (fixed w n @ rest) = Some (n, rest)"
  using fixed_digits by (auto simp: read_fixed_def digits_value_fixed list_all_iff)

section \<open>Hexadecimal\<close>

definition hex_digit :: "nat \<Rightarrow> char" where
  "hex_digit n = (if n < 10 then char_of (48 + n) else char_of (87 + n))"

text \<open>\<^verbatim>\<open>hex.EncodeToString\<close> writes lower case; \<^verbatim>\<open>hex.DecodeString\<close> reads both cases.\<close>

definition hex_val :: "char \<Rightarrow> nat option" where
  "hex_val c =
     (let n = code c
      in if 48 \<le> n \<and> n \<le> 57 then Some (n - 48)
         else if 97 \<le> n \<and> n \<le> 102 then Some (n - 87)
         else if 65 \<le> n \<and> n \<le> 70 then Some (n - 55)
         else None)"

fun hex_encode :: "bytes \<Rightarrow> string" where
  "hex_encode [] = []"
| "hex_encode (b # bs) = hex_digit (code b div 16) # hex_digit (code b mod 16) # hex_encode bs"

fun hex_decode :: "string \<Rightarrow> bytes option" where
  "hex_decode [] = Some []"
| "hex_decode [c] = None"
| "hex_decode (c # d # s) =
     (case (hex_val c, hex_val d) of
        (Some h, Some l) \<Rightarrow> map_option ((#) (char_of (16 * h + l))) (hex_decode s)
      | _ \<Rightarrow> None)"

lemma code_hex_digit: "n < 16 \<Longrightarrow> code (hex_digit n) = (if n < 10 then 48 + n else 87 + n)"
  by (simp add: hex_digit_def)

lemma hex_val_hex_digit [simp]: "n < 16 \<Longrightarrow> hex_val (hex_digit n) = Some n"
  by (auto simp: hex_val_def code_hex_digit Let_def)

lemma hex_decode_encode [simp]: "hex_decode (hex_encode bs) = Some bs"
proof (induction bs)
  case Nil
  then show ?case by simp
next
  case (Cons b bs)
  have "code b div 16 < 16" using code_less [of b] by (simp add: div_less_iff_less_mult)
  with Cons show ?case by simp
qed

lemma length_hex_encode [simp]: "length (hex_encode bs) = 2 * length bs"
  by (induction bs) auto

lemma hex_encode_inject [simp]: "hex_encode a = hex_encode b \<longleftrightarrow> a = b"
  by (metis hex_decode_encode option.inject)

definition is_lower_hex :: "char \<Rightarrow> bool" where
  "is_lower_hex c \<longleftrightarrow> is_digit c \<or> (97 \<le> code c \<and> code c \<le> 102)"

lemma is_lower_hex_digit: "n < 16 \<Longrightarrow> is_lower_hex (hex_digit n)"
  by (auto simp: is_lower_hex_def is_digit_def code_hex_digit)

lemma hex_encode_chars: "c \<in> set (hex_encode bs) \<Longrightarrow> is_lower_hex c"
proof (induction bs)
  case (Cons b bs)
  have "code b div 16 < 16" using code_less [of b] by (simp add: div_less_iff_less_mult)
  with Cons show ?case by (auto simp: is_lower_hex_digit)
qed simp

text \<open>\<^verbatim>\<open>strings.ToLower\<close> of ASCII text.\<close>

definition to_lower1 :: "char \<Rightarrow> char" where
  "to_lower1 c = (if 65 \<le> code c \<and> code c \<le> 90 then char_of (code c + 32) else c)"

definition ToLower :: "string \<Rightarrow> string" where
  "ToLower s = map to_lower1 s"

lemma to_lower1_lower_hex: "is_lower_hex c \<Longrightarrow> to_lower1 c = c"
  by (auto simp: is_lower_hex_def is_digit_def to_lower1_def)

lemma ToLower_hex_encode [simp]: "ToLower (hex_encode bs) = hex_encode bs"
  unfolding ToLower_def by (rule map_idI) (simp add: to_lower1_lower_hex hex_encode_chars)

text \<open>Lower-case hexadecimal text is the encoding of what it decodes to.\<close>

lemma hex_val_lower:
  assumes "hex_val c = Some n" "to_lower1 c = c"
  shows "n < 16 \<and> c = hex_digit n"
proof -
  have lower: "\<not> (65 \<le> code c \<and> code c \<le> 90)"
  proof
    assume up: "65 \<le> code c \<and> code c \<le> 90"
    then have "code (to_lower1 c) = code c + 32" by (simp add: to_lower1_def)
    with assms(2) show False by simp
  qed
  consider (a) "48 \<le> code c" "code c \<le> 57" "n = code c - 48"
    | (b) "97 \<le> code c" "code c \<le> 102" "n = code c - 87"
    using assms(1) lower by (auto simp: hex_val_def Let_def split: if_splits)
  then have "n < 16 \<and> code (hex_digit n) = code c"
    by cases (auto simp: code_hex_digit)
  then show ?thesis by simp
qed

lemma hex_encode_decode:
  "hex_decode s = Some bs \<Longrightarrow> ToLower s = s \<Longrightarrow> hex_encode bs = s"
proof (induction s arbitrary: bs rule: hex_decode.induct)
  case (3 c d s)
  then obtain h l bs' where hl: "hex_val c = Some h" "hex_val d = Some l"
    and bs: "hex_decode s = Some bs'" "bs = char_of (16 * h + l) # bs'"
    by (auto split: option.splits)
  have low: "to_lower1 c = c" "to_lower1 d = d" "ToLower s = s"
    using "3.prems"(2) by (simp_all add: ToLower_def)
  have h: "h < 16" "c = hex_digit h" "l < 16" "d = hex_digit l"
    using hex_val_lower hl low by blast+
  then have "code (char_of (16 * h + l)) = 16 * h + l" by (simp add: code_char_of)
  then show ?case using "3.IH" [OF refl hl(1) hl(2) bs(1) low(3)] bs(2) h
    by (simp add: div_mult_self1)
qed (auto simp: ToLower_def)

section \<open>Unpadded URL-safe base64\<close>

definition b64_digit :: "nat \<Rightarrow> char" where
  "b64_digit n =
     (if n < 26 then char_of (65 + n)
      else if n < 52 then char_of (71 + n)
      else if n < 62 then char_of (n - 4)
      else if n = 62 then CHR ''-'' else CHR ''_'')"

fun base64_RawURL :: "bytes \<Rightarrow> string" where
  "base64_RawURL (a # b # c # r) =
     (let n = 65536 * code a + 256 * code b + code c
      in [b64_digit (n div 262144), b64_digit (n div 4096 mod 64),
          b64_digit (n div 64 mod 64), b64_digit (n mod 64)] @ base64_RawURL r)"
| "base64_RawURL [a, b] =
     (let n = 65536 * code a + 256 * code b
      in [b64_digit (n div 262144), b64_digit (n div 4096 mod 64), b64_digit (n div 64 mod 64)])"
| "base64_RawURL [a] =
     (let n = 65536 * code a in [b64_digit (n div 262144), b64_digit (n div 4096 mod 64)])"
| "base64_RawURL [] = []"

section \<open>UTF-8\<close>

text \<open>
  The number of bytes of the rune at the front of a text, and zero where the text does not start
  with a well-formed encoding (\<^verbatim>\<open>utf8.DecodeRune\<close> returns \<^verbatim>\<open>RuneError\<close> of width one there).
\<close>

definition cont :: "char \<Rightarrow> bool" where
  "cont c \<longleftrightarrow> 128 \<le> code c \<and> code c \<le> 191"

fun rune_len :: "string \<Rightarrow> nat" where
  "rune_len [] = 0"
| "rune_len (a # s) =
     (let x = code a
      in if x < 128 then 1
         else if 194 \<le> x \<and> x \<le> 223 then
           (case s of b # _ \<Rightarrow> if cont b then 2 else 0 | _ \<Rightarrow> 0)
         else if 224 \<le> x \<and> x \<le> 239 then
           (case s of
              b # c # _ \<Rightarrow>
                if cont b \<and> cont c \<and> (x = 224 \<longrightarrow> 160 \<le> code b) \<and> (x = 237 \<longrightarrow> code b \<le> 159) then 3 else 0
            | _ \<Rightarrow> 0)
         else if 240 \<le> x \<and> x \<le> 244 then
           (case s of
              b # c # d # _ \<Rightarrow>
                if cont b \<and> cont c \<and> cont d \<and> (x = 240 \<longrightarrow> 144 \<le> code b) \<and> (x = 244 \<longrightarrow> code b \<le> 143)
                then 4 else 0
            | _ \<Rightarrow> 0)
         else 0)"

declare rune_len.simps [simp del]

lemma rune_len_le: "rune_len s \<le> length s"
  by (cases s) (auto simp: rune_len.simps Let_def split: list.splits)

lemma rune_len_ascii [simp]: "code a < 128 \<Longrightarrow> rune_len (a # s) = 1"
  by (simp add: rune_len.simps)

lemma rune_len_append:
  assumes "rune_len s \<noteq> 0"
  shows "rune_len (take (rune_len s) s @ t) = rune_len s"
proof (cases s)
  case Nil
  with assms show ?thesis by (simp add: rune_len.simps)
next
  case (Cons a r)
  with assms show ?thesis
    by (auto simp: rune_len.simps Let_def split: if_splits list.splits)
qed

function ValidString :: "string \<Rightarrow> bool" where
  "ValidString s =
     (if s = [] then True else if rune_len s = 0 then False else ValidString (drop (rune_len s) s))"
  by pat_completeness auto
termination
proof (relation "Wellfounded.measure length", goal_cases)
  case 1
  show ?case by simp
next
  case (2 s)
  then show ?case using rune_len_le [of s] by simp
qed

declare ValidString.simps [simp del]

lemma ValidString_Nil [simp]: "ValidString []"
  by (simp add: ValidString.simps)

lemma ValidString_ascii_Cons [simp]: "code c < 128 \<Longrightarrow> ValidString (c # s) = ValidString s"
  by (subst ValidString.simps) simp

definition is_ascii :: "string \<Rightarrow> bool" where
  "is_ascii s \<longleftrightarrow> list_all (\<lambda>c. code c < 128) s"

lemma is_ascii_simps [simp]:
  "is_ascii []" "is_ascii (c # s) \<longleftrightarrow> code c < 128 \<and> is_ascii s"
  "is_ascii (s @ t) \<longleftrightarrow> is_ascii s \<and> is_ascii t"
  by (auto simp: is_ascii_def)

lemma is_ascii_Valid [simp]: "is_ascii s \<Longrightarrow> ValidString s"
  by (induction s) auto

lemma is_ascii_digits: "(\<And>c. c \<in> set s \<Longrightarrow> is_digit c) \<Longrightarrow> is_ascii s"
  unfolding is_ascii_def list_all_iff is_digit_def by fastforce

lemma is_ascii_hex [simp]: "is_ascii (hex_encode bs)"
  using hex_encode_chars unfolding is_ascii_def list_all_iff is_lower_hex_def is_digit_def
  by fastforce

end
