(* ===== verification/Go_Sha256.thy ===== *)
theory Go_Sha256
  imports Go_Text "HOL-Library.Word"
begin

unbundle bit_operations_syntax

text \<open>
  SHA-256 (\<^verbatim>\<open>crypto/sha256\<close>, FIPS 180-4) on byte strings. The components use it as a function
  only: no property of the development rests on its being hard to invert or free of collisions,
  and where equal digests do not give equal contents the theorems speak of digests.
\<close>

definition K256 :: "32 word list" where
  "K256 =
     [0x428A2F98, 0x71374491, 0xB5C0FBCF, 0xE9B5DBA5, 0x3956C25B, 0x59F111F1,
      0x923F82A4, 0xAB1C5ED5, 0xD807AA98, 0x12835B01, 0x243185BE, 0x550C7DC3,
      0x72BE5D74, 0x80DEB1FE, 0x9BDC06A7, 0xC19BF174, 0xE49B69C1, 0xEFBE4786,
      0x0FC19DC6, 0x240CA1CC, 0x2DE92C6F, 0x4A7484AA, 0x5CB0A9DC, 0x76F988DA,
      0x983E5152, 0xA831C66D, 0xB00327C8, 0xBF597FC7, 0xC6E00BF3, 0xD5A79147,
      0x06CA6351, 0x14292967, 0x27B70A85, 0x2E1B2138, 0x4D2C6DFC, 0x53380D13,
      0x650A7354, 0x766A0ABB, 0x81C2C92E, 0x92722C85, 0xA2BFE8A1, 0xA81A664B,
      0xC24B8B70, 0xC76C51A3, 0xD192E819, 0xD6990624, 0xF40E3585, 0x106AA070,
      0x19A4C116, 0x1E376C08, 0x2748774C, 0x34B0BCB5, 0x391C0CB3, 0x4ED8AA4A,
      0x5B9CCA4F, 0x682E6FF3, 0x748F82EE, 0x78A5636F, 0x84C87814, 0x8CC70208,
      0x90BEFFFA, 0xA4506CEB, 0xBEF9A3F7, 0xC67178F2]"

definition H256 :: "32 word list" where
  "H256 =
     [0x6A09E667, 0xBB67AE85, 0x3C6EF372, 0xA54FF53A, 0x510E527F, 0x9B05688C,
      0x1F83D9AB, 0x5BE0CD19]"

definition rotr :: "nat \<Rightarrow> 32 word \<Rightarrow> 32 word" where
  "rotr n x = drop_bit n x OR push_bit (32 - n) x"

definition big_sigma0 :: "32 word \<Rightarrow> 32 word" where
  "big_sigma0 x = rotr 2 x XOR rotr 13 x XOR rotr 22 x"

definition big_sigma1 :: "32 word \<Rightarrow> 32 word" where
  "big_sigma1 x = rotr 6 x XOR rotr 11 x XOR rotr 25 x"

definition small_sigma0 :: "32 word \<Rightarrow> 32 word" where
  "small_sigma0 x = rotr 7 x XOR rotr 18 x XOR drop_bit 3 x"

definition small_sigma1 :: "32 word \<Rightarrow> 32 word" where
  "small_sigma1 x = rotr 17 x XOR rotr 19 x XOR drop_bit 10 x"

definition choice :: "32 word \<Rightarrow> 32 word \<Rightarrow> 32 word \<Rightarrow> 32 word" where
  "choice x y z = (x AND y) XOR (NOT x AND z)"

definition majority :: "32 word \<Rightarrow> 32 word \<Rightarrow> 32 word \<Rightarrow> 32 word" where
  "majority x y z = (x AND y) XOR (x AND z) XOR (y AND z)"

text \<open>The message schedule, the newest word first.\<close>

fun extend :: "nat \<Rightarrow> 32 word list \<Rightarrow> 32 word list" where
  "extend 0 ws = ws"
| "extend (Suc n) ws =
     extend n ((small_sigma1 (ws ! 1) + ws ! 6 + small_sigma0 (ws ! 14) + ws ! 15) # ws)"

definition round256 :: "32 word list \<Rightarrow> 32 word \<times> 32 word \<Rightarrow> 32 word list" where
  "round256 st kw =
     (case st of
        [a, b, c, d, e, f, g, h] \<Rightarrow>
          let t1 = h + big_sigma1 e + choice e f g + fst kw + snd kw;
              t2 = big_sigma0 a + majority a b c
          in [t1 + t2, a, b, c, d + t1, e, f, g]
      | _ \<Rightarrow> st)"

definition compress :: "32 word list \<Rightarrow> 32 word list \<Rightarrow> 32 word list" where
  "compress st block =
     map2 (+) st (foldl round256 st (zip K256 (rev (extend 48 (rev block)))))"

definition be_word :: "nat list \<Rightarrow> 32 word" where
  "be_word bs = of_nat (foldl (\<lambda>n b. 256 * n + b) 0 bs)"

definition be_bytes :: "nat \<Rightarrow> nat \<Rightarrow> bytes" where
  "be_bytes w n = map (\<lambda>i. char_of (n div 256 ^ (w - Suc i) mod 256)) [0..<w]"

fun chunks :: "nat \<Rightarrow> 'a list \<Rightarrow> 'a list list" where
  "chunks n xs = (if n = 0 \<or> xs = [] then [] else take n xs # chunks n (drop n xs))"

declare chunks.simps [simp del]

definition pad256 :: "bytes \<Rightarrow> bytes" where
  "pad256 m =
     m @ [char_of (128::nat)] @ replicate ((119 - length m mod 64) mod 64) (char_of (0::nat)) @
     be_bytes 8 (8 * length m)"

definition Sum256 :: "bytes \<Rightarrow> bytes" where
  "Sum256 m =
     concat (map (\<lambda>w. be_bytes 4 (unat w))
       (foldl compress H256
         (map (\<lambda>b. map (\<lambda>q. be_word (map of_char q)) (chunks 4 b)) (chunks 64 (pad256 m)))))"

lemma length_round256: "length st = 8 \<Longrightarrow> length (round256 st kw) = 8"
  by (auto simp: round256_def Let_def split: list.splits)

lemma length_rounds: "length st = 8 \<Longrightarrow> length (foldl round256 st kws) = 8"
  by (induction kws arbitrary: st) (simp_all add: length_round256)

lemma length_compressions: "length st = 8 \<Longrightarrow> length (foldl compress st bs) = 8"
  by (induction bs arbitrary: st) (simp_all add: compress_def length_rounds)

lemma length_be_bytes [simp]: "length (be_bytes w n) = w"
  by (simp add: be_bytes_def)

theorem length_Sum256 [simp]: "length (Sum256 m) = 32"
proof -
  have "length (foldl compress H256 bs) = 8" for bs
    by (rule length_compressions) (simp add: H256_def)
  then show ?thesis by (simp add: Sum256_def length_concat comp_def sum_list_triv)
qed

end
