(* ===== verification/Go_Sha256_Vector.thy ===== *)
theory Go_Sha256_Vector
  imports Go_Sha256
begin

text \<open>
  The SHA-256 of one concrete message of a single block, computed by the kernel: it agrees with the value
  \<^verbatim>\<open>crypto/sha256\<close> gives. The message stands for the credential of an Attachment, so that the examples of
  the authority can authenticate; the schedule and each quarter of the rounds are a lemma of their own.
\<close>

definition sampleCredential :: bytes where
  "sampleCredential = replicate 32 CHR ''k''"

definition sampleBlock :: "32 word list" where
  "sampleBlock =
     [0x6B6B6B6B, 0x6B6B6B6B, 0x6B6B6B6B, 0x6B6B6B6B, 0x6B6B6B6B, 0x6B6B6B6B, 0x6B6B6B6B, 0x6B6B6B6B, 0x80000000,
      0x00000000, 0x00000000, 0x00000000, 0x00000000, 0x00000000, 0x00000000, 0x00000100]"

definition sampleWords0 :: "32 word list" where
  "sampleWords0 =
     [0x6B6B6B6B, 0x6B6B6B6B, 0x6B6B6B6B, 0x6B6B6B6B, 0x6B6B6B6B, 0x6B6B6B6B, 0x6B6B6B6B, 0x6B6B6B6B, 0x80000000,
      0x00000000, 0x00000000, 0x00000000, 0x00000000, 0x00000000, 0x00000000, 0x00000100]"

definition sampleWords1 :: "32 word list" where
  "sampleWords1 =
     [0x6CCCCCCC, 0x6D6CCCCC, 0x6CB15598, 0x6CB1ACF4, 0xED30E467, 0x50CC6471, 0xDB5114D3, 0xA7DB099D, 0x96320F53,
      0x5285E76C, 0xB317E250, 0x3C7FE6D2, 0x5E1AEE82, 0xEB0D5B1C, 0xD2A1EC34, 0x437C5737]"

definition sampleWords2 :: "32 word list" where
  "sampleWords2 =
     [0x313F6B12, 0x2A1B9914, 0x908A9BB7, 0x75D43826, 0xE86B98EA, 0xB861486A, 0xCBF35EBE, 0x9C6F4895, 0x30368C39,
      0x8020E8D6, 0x1AC75A3C, 0x431D1775, 0xCF4C01EF, 0xE941D378, 0x632FA4AF, 0x401D3D67]"

definition sampleWords3 :: "32 word list" where
  "sampleWords3 =
     [0xA38D3899, 0x59CFE4F5, 0x5B776C26, 0x82F9CC72, 0xBD94ECF5, 0xAE6EDBFF, 0xE26BF900, 0xCE112B0C, 0x94D16577,
      0x3A4F32BE, 0xE329FB60, 0x45C539F9, 0xD8C40916, 0xC3093AA3, 0x40BAA404, 0xF834D40A]"

lemma sampleSchedule: "rev (extend 48 (rev sampleBlock)) = sampleWords0 @ sampleWords1 @ sampleWords2 @ sampleWords3"
  by code_simp

lemma sampleRounds0: "foldl round256
     [0x6A09E667, 0xBB67AE85, 0x3C6EF372, 0xA54FF53A, 0x510E527F, 0x9B05688C, 0x1F83D9AB, 0x5BE0CD19] (zip (take 16 (drop 0 K256)) sampleWords0) =
     [0x77C2DC14, 0xA90BFE68, 0x72C8FAC7, 0x21E4F42D, 0x7AF1165F, 0x7B037847, 0x3AC3FAE0, 0x79C6C843]"
  by code_simp

lemma sampleRounds1: "foldl round256
     [0x77C2DC14, 0xA90BFE68, 0x72C8FAC7, 0x21E4F42D, 0x7AF1165F, 0x7B037847, 0x3AC3FAE0, 0x79C6C843] (zip (take 16 (drop 16 K256)) sampleWords1) =
     [0x0CB51287, 0xF61D6177, 0x8E85777D, 0x9EDCA1F4, 0x2D2774C1, 0xE2979B74, 0x8D9638FB, 0xBD9BB61D]"
  by code_simp

lemma sampleRounds2: "foldl round256
     [0x0CB51287, 0xF61D6177, 0x8E85777D, 0x9EDCA1F4, 0x2D2774C1, 0xE2979B74, 0x8D9638FB, 0xBD9BB61D] (zip (take 16 (drop 32 K256)) sampleWords2) =
     [0x65121BA8, 0x1B247EC6, 0x6B82CF7E, 0x78EE11C5, 0x5ADBAFDF, 0x508CD36D, 0xFD6A7A28, 0xFEFADEB1]"
  by code_simp

lemma sampleRounds3: "foldl round256
     [0x65121BA8, 0x1B247EC6, 0x6B82CF7E, 0x78EE11C5, 0x5ADBAFDF, 0x508CD36D, 0xFD6A7A28, 0xFEFADEB1] (zip (take 16 (drop 48 K256)) sampleWords3) =
     [0xF427A925, 0x3E6433C4, 0x66991F46, 0x24C3382F, 0xCCDF2812, 0xFE0EAAC9, 0x6E319BDA, 0x1A151306]"
  by code_simp

lemma K256_quarters:
  "K256 = take 16 (drop 0 K256) @ take 16 (drop 16 K256) @ take 16 (drop 32 K256) @ take 16 (drop 48 K256)"
  by (simp add: K256_def)

lemma sampleQuarters: "zip K256 (sampleWords0 @ sampleWords1 @ sampleWords2 @ sampleWords3) =
  zip (take 16 (drop 0 K256)) sampleWords0 @ zip (take 16 (drop 16 K256)) sampleWords1 @
  zip (take 16 (drop 32 K256)) sampleWords2 @ zip (take 16 (drop 48 K256)) sampleWords3"
  by (simp add: K256_def sampleWords0_def sampleWords1_def sampleWords2_def sampleWords3_def)

lemma chunks_simps: "chunks n [] = []" "0 < n \<Longrightarrow> chunks n (x # xs) = take n (x # xs) # chunks n (drop n (x # xs))"
  by (subst chunks.simps, simp)+

lemma replicate_numeral': "replicate (numeral k) x = x # replicate (pred_numeral k) x"
  by (simp add: numeral_eq_Suc)

lemma samplePad:
  "pad256 sampleCredential = replicate 32 CHR ''k'' @ CHR 0x80 # replicate 23 CHR 0x00 @ [CHR 0x00, CHR 0x00, CHR 0x00, CHR 0x00, CHR 0x00, CHR 0x00, CHR 0x01, CHR 0x00]"
  by (simp add: pad256_def sampleCredential_def be_bytes_def upt_rec char_of_eq_iff)

lemma samplePadded:
  "map (\<lambda>b. map (\<lambda>q. be_word (map of_char q)) (chunks 4 b)) (chunks 64 (pad256 sampleCredential)) = [sampleBlock]"
  unfolding samplePad by (simp add: sampleBlock_def replicate_numeral' chunks_simps be_word_def)

lemma sampleCompressed: "compress H256 sampleBlock =
     [0x5E318F8C, 0xF9CBE249, 0xA30812B8, 0xCA132D69, 0x1DED7A91, 0x99141355, 0x8DB57585, 0x75F5E01F]"
  unfolding compress_def sampleSchedule sampleQuarters foldl_append H256_def sampleRounds0 sampleRounds1 sampleRounds2 sampleRounds3
  by code_simp

lemma sampleSum: "Sum256 sampleCredential = concat (map (\<lambda>w. be_bytes 4 (unat (w :: 32 word)))
     [0x5E318F8C, 0xF9CBE249, 0xA30812B8, 0xCA132D69, 0x1DED7A91, 0x99141355, 0x8DB57585, 0x75F5E01F])"
  by (simp add: Sum256_def samplePadded sampleCompressed)

lemma sampleSum_hd: "hd (Sum256 sampleCredential) = CHR 0x5E"
  unfolding sampleSum by (simp add: be_bytes_def upt_rec char_of_eq_iff)

end
