(* ===== verification/Go_Json.thy ===== *)
theory Go_Json
  imports Go_Text "HOL-Library.Monad_Syntax"
begin

text \<open>
  Go's \<^verbatim>\<open>encoding/json\<close> as the code uses it: \<^verbatim>\<open>json.Marshal\<close> of structs (\<open>Marshal\<close>, which writes no
  white space, escapes \<^verbatim>\<open><\<close>, \<^verbatim>\<open>>\<close>, \<^verbatim>\<open>&\<close>, U+2028 and U+2029 and replaces ill-formed UTF-8), and the
  decoder (\<open>Unmarshal\<close>), a reader of the whole JSON grammar. A struct is first turned into a value of
  the type \<open>json\<close>, its fields in order and the empty ones left out where the tag says
  \<^verbatim>\<open>omitempty\<close>. A number is kept as the literal that spells it.

  The result of the theory is \<open>Unmarshal_Marshal\<close>: decoding what was encoded gives it back.
\<close>

datatype json =
    JNull
  | JBool bool
  | JNum string
  | JStr string
  | JArr "json list"
  | JObj "(string \<times> json) list"

section \<open>Strings\<close>

abbreviation quote :: char where "quote \<equiv> CHR 0x22"
abbreviation backslash :: char where "backslash \<equiv> CHR 0x5C"

definition hex4 :: "nat \<Rightarrow> string" where
  "hex4 n = [hex_digit (n div 4096 mod 16), hex_digit (n div 256 mod 16),
             hex_digit (n div 16 mod 16), hex_digit (n mod 16)]"

definition esc_u :: "nat \<Rightarrow> string" where
  "esc_u n = backslash # CHR ''u'' # hex4 n"

definition esc_ascii :: "char \<Rightarrow> string" where
  "esc_ascii c =
     (if c = quote then [backslash, quote]
      else if c = backslash then [backslash, backslash]
      else if code c = 8 then [backslash, CHR ''b'']
      else if code c = 12 then [backslash, CHR ''f'']
      else if code c = 10 then [backslash, CHR ''n'']
      else if code c = 13 then [backslash, CHR ''r'']
      else if code c = 9 then [backslash, CHR ''t'']
      else if code c < 32 \<or> c = CHR ''<'' \<or> c = CHR ''>'' \<or> c = CHR ''&'' then esc_u (code c)
      else [c])"

definition line_separators :: "string list" where
  "line_separators = [[CHR 0xE2, CHR 0x80, CHR 0xA8], [CHR 0xE2, CHR 0x80, CHR 0xA9]]"

definition esc_rune :: "string \<Rightarrow> string" where
  "esc_rune r =
     (if r = line_separators ! 0 then esc_u 8232
      else if r = line_separators ! 1 then esc_u 8233
      else r)"

function escape :: "string \<Rightarrow> string" where
  "escape s =
     (case s of
        [] \<Rightarrow> []
      | c # cs \<Rightarrow>
          if code c < 128 then esc_ascii c @ escape cs
          else if rune_len s = 0 then esc_u 65533 @ escape cs
          else esc_rune (take (rune_len s) s) @ escape (drop (rune_len s) s))"
  by pat_completeness auto
termination
proof (relation "Wellfounded.measure length", goal_cases)
  case (4 s c cs)
  then show ?case using rune_len_le [of s] by simp
qed auto

declare escape.simps [simp del]

lemma escape_Nil [simp]: "escape [] = []"
  by (simp add: escape.simps)

lemma escape_ascii [simp]: "code c < 128 \<Longrightarrow> escape (c # cs) = esc_ascii c @ escape cs"
  by (simp add: escape.simps)

definition utf8_encode :: "nat \<Rightarrow> string" where
  "utf8_encode n =
     (if n < 128 then [char_of n]
      else if n < 2048 then [char_of (192 + n div 64), char_of (128 + n mod 64)]
      else if n < 65536 then
        [char_of (224 + n div 4096), char_of (128 + n div 64 mod 64), char_of (128 + n mod 64)]
      else
        [char_of (240 + n div 262144), char_of (128 + n div 4096 mod 64),
         char_of (128 + n div 64 mod 64), char_of (128 + n mod 64)])"

definition replacement :: string where
  "replacement = [CHR 0xEF, CHR 0xBF, CHR 0xBD]"

fun read_hex4 :: "string \<Rightarrow> (nat \<times> string) option" where
  "read_hex4 (a # b # c # d # r) =
     do { p \<leftarrow> hex_val a; q \<leftarrow> hex_val b; x \<leftarrow> hex_val c; y \<leftarrow> hex_val d;
          Some (4096 * p + 256 * q + 16 * x + y, r) }"
| "read_hex4 _ = None"

text \<open>A \<^verbatim>\<open>\\u\<close> escape; a high surrogate takes the low surrogate after it, and one alone is replaced.\<close>

definition read_u :: "string \<Rightarrow> (string \<times> string) option" where
  "read_u s =
     do { (n, r) \<leftarrow> read_hex4 s;
          if n < 55296 \<or> 57344 \<le> n then Some (utf8_encode n, r)
          else if n < 56320 then
            (case r of
               e # u # r' \<Rightarrow>
                 if e = backslash \<and> u = CHR ''u'' then
                   (case read_hex4 r' of
                      None \<Rightarrow> None
                    | Some (m, r'') \<Rightarrow>
                        if 56320 \<le> m \<and> m < 57344
                        then Some (utf8_encode (65536 + 1024 * (n - 55296) + (m - 56320)), r'')
                        else Some (replacement, r))
                 else Some (replacement, r)
             | _ \<Rightarrow> Some (replacement, r))
          else Some (replacement, r) }"

definition simple_escapes :: "(char \<times> char) list" where
  "simple_escapes =
     [(quote, quote), (backslash, backslash), (CHR ''/'', CHR ''/''), (CHR ''b'', CHR 0x08),
      (CHR ''f'', CHR 0x0C), (CHR ''n'', CHR 0x0A), (CHR ''r'', CHR 0x0D), (CHR ''t'', CHR 0x09)]"

definition read_escape :: "string \<Rightarrow> (string \<times> string) option" where
  "read_escape s =
     (case s of
        [] \<Rightarrow> None
      | e # r \<Rightarrow>
          if e = CHR ''u'' then read_u r
          else map_option (\<lambda>c. ([c], r)) (map_of simple_escapes e))"

lemma read_hex4_length: "read_hex4 s = Some (n, r) \<Longrightarrow> length r < length s"
  by (induction s rule: read_hex4.induct) (auto split: bind_splits)

lemma read_u_length: "read_u s = Some (c, r) \<Longrightarrow> length r < length s"
  by (auto simp: read_u_def dest!: read_hex4_length split: bind_splits if_splits list.splits option.splits)

lemma read_escape_length: "read_escape s = Some (c, r) \<Longrightarrow> length r < length s"
  by (auto simp: read_escape_def dest: read_u_length split: list.splits if_splits)

text \<open>The body of a string up to its closing quote, and what is left after it.\<close>

function read_string :: "string \<Rightarrow> (string \<times> string) option" where
  "read_string s =
     (case s of
        [] \<Rightarrow> None
      | c # cs \<Rightarrow>
          if c = quote then Some ([], cs)
          else if c = backslash then
            (case read_escape cs of
               None \<Rightarrow> None
             | Some (t, r) \<Rightarrow> map_option (apfst ((@) t)) (read_string r))
          else if code c < 32 then None
          else if code c < 128 then map_option (apfst ((#) c)) (read_string cs)
          else if rune_len s = 0 then map_option (apfst ((@) replacement)) (read_string cs)
          else map_option (apfst ((@) (take (rune_len s) s))) (read_string (drop (rune_len s) s)))"
  by pat_completeness auto
termination
proof (relation "Wellfounded.measure length", goal_cases)
  case (2 s c cs u t r)
  then show ?case using read_escape_length [of cs t r] by simp
next
  case (5 s c cs)
  then show ?case using rune_len_le [of s] by simp
qed auto

declare read_string.simps [simp del]

lemma read_string_quote [simp]: "read_string (quote # r) = Some ([], r)"
  by (simp add: read_string.simps)

lemma read_hex4_hex4 [simp]: "n < 65536 \<Longrightarrow> read_hex4 (hex4 n @ r) = Some (n, r)"
proof -
  assume "n < 65536"
  then have lt: "n div 4096 < 16" by (simp add: div_less_iff_less_mult)
  have "n = 16 * (n div 16) + n mod 16" "n div 16 = 16 * (n div 256) + n div 16 mod 16"
    "n div 256 = 16 * (n div 4096) + n div 256 mod 16"
    using mult_div_mod_eq [of 16 n] mult_div_mod_eq [of 16 "n div 16"] mult_div_mod_eq [of 16 "n div 256"]
    by (simp_all flip: div_mult2_eq)
  then have "4096 * (n div 4096) + (256 * (n div 256 mod 16) + (16 * (n div 16 mod 16) + n mod 16)) = n"
    by linarith
  then show ?thesis using lt by (simp add: hex4_def add.assoc)
qed

lemma read_escape_esc_u:
  "n < 55296 \<Longrightarrow> read_escape (CHR ''u'' # hex4 n @ r) = Some (utf8_encode n, r)"
  by (simp add: read_escape_def read_u_def)

lemma read_string_esc_u:
  "n < 55296 \<Longrightarrow>
   read_string (esc_u n @ r) = map_option (apfst ((@) (utf8_encode n))) (read_string r)"
  by (subst read_string.simps) (simp add: esc_u_def read_escape_esc_u)

lemma read_string_esc_ascii:
  assumes "code c < 128"
  shows "read_string (esc_ascii c @ r) = map_option (apfst ((#) c)) (read_string r)"
proof -
  have cons: "(@) [a] = (#) a" for a :: char by (rule ext) simp
  have u: "esc_ascii c = esc_u (code c) \<Longrightarrow> ?thesis"
    using assms by (simp add: read_string_esc_u utf8_encode_def cons)
  have short: "read_string (backslash # e # r) = map_option (apfst ((#) d)) (read_string r)"
    if "e \<noteq> CHR ''u''" "map_of simple_escapes e = Some d" for e d
    using that by (subst read_string.simps) (simp add: read_escape_def cons)
  have codes: "code c = 8 \<Longrightarrow> c = CHR 0x08" "code c = 12 \<Longrightarrow> c = CHR 0x0C"
    "code c = 10 \<Longrightarrow> c = CHR 0x0A" "code c = 13 \<Longrightarrow> c = CHR 0x0D" "code c = 9 \<Longrightarrow> c = CHR 0x09"
    by (simp_all add: code_eq_iff [symmetric])
  show ?thesis
  proof (cases "esc_ascii c = [c]")
    case True
    moreover have "c \<noteq> quote" "c \<noteq> backslash" "\<not> code c < 32"
      using True by (auto simp: esc_ascii_def esc_u_def hex4_def split: if_splits)
    ultimately show ?thesis using assms by (subst read_string.simps) simp
  next
    case False
    then show ?thesis using u
      by (auto simp: esc_ascii_def short simple_escapes_def dest: codes split: if_splits)
  qed
qed

lemma utf8_line_separators [simp]:
  "utf8_encode 8232 = line_separators ! 0" "utf8_encode 8233 = line_separators ! 1"
  by (simp_all add: utf8_encode_def line_separators_def code_eq_iff [symmetric] del: code_eq_iff)

lemma read_string_multi:
  "128 \<le> code c \<Longrightarrow> rune_len (c # cs) \<noteq> 0 \<Longrightarrow>
   read_string (c # cs) =
     map_option (apfst ((@) (take (rune_len (c # cs)) (c # cs)))) (read_string (drop (rune_len (c # cs)) (c # cs)))"
  by (subst read_string.simps) auto

lemma read_string_rune:
  assumes "rune_len s \<noteq> 0" "128 \<le> code (hd s)"
  shows "read_string (esc_rune (take (rune_len s) s) @ r) =
         map_option (apfst ((@) (take (rune_len s) s))) (read_string r)"
proof (cases "esc_rune (take (rune_len s) s) = take (rune_len s) s")
  case True
  let ?t = "take (rune_len s) s"
  have ne: "s \<noteq> []" using assms(1) by (auto simp: rune_len.simps)
  then obtain cs where t: "?t @ r = hd s # cs" using assms(1) by (cases s; cases "rune_len s") auto
  have n: "rune_len (?t @ r) = rune_len s" by (rule rune_len_append [OF assms(1)])
  have drop: "drop (rune_len s) (?t @ r) = r" and take: "take (rune_len s) (?t @ r) = ?t"
    using rune_len_le [of s] by simp_all
  have "read_string (hd s # cs) = map_option (apfst ((@) ?t)) (read_string r)"
    using read_string_multi [OF assms(2), of cs] assms(1) unfolding t [symmetric] n drop take by simp
  then have "read_string (?t @ r) = map_option (apfst ((@) ?t)) (read_string r)" unfolding t .
  then show ?thesis using True by simp
next
  case False
  then consider "take (rune_len s) s = line_separators ! 0" "esc_rune (take (rune_len s) s) = esc_u 8232"
    | "take (rune_len s) s = line_separators ! 1" "esc_rune (take (rune_len s) s) = esc_u 8233"
    by (auto simp: esc_rune_def split: if_splits)
  then show ?thesis by cases (simp_all add: read_string_esc_u)
qed

lemma read_string_escape:
  "ValidString s \<Longrightarrow> read_string (escape s @ quote # r) = Some (s, r)"
proof (induction s rule: escape.induct)
  case (1 s)
  show ?case
  proof (cases s)
    case Nil
    then show ?thesis by simp
  next
    case (Cons c cs)
    show ?thesis
    proof (cases "code c < 128")
      case True
      then show ?thesis using 1 Cons by (simp add: read_string_esc_ascii)
    next
      case False
      have n: "rune_len s \<noteq> 0" and v: "ValidString (drop (rune_len s) s)"
        using "1.prems" Cons by (subst (asm) ValidString.simps; simp split: if_splits)+
      have "escape s = esc_rune (take (rune_len s) s) @ escape (drop (rune_len s) s)"
        using Cons False n by (subst escape.simps) simp
      moreover have "read_string (escape (drop (rune_len s) s) @ quote # r) = Some (drop (rune_len s) s, r)"
        using "1.IH"(3) [OF Cons False n v] .
      ultimately show ?thesis using n False Cons by (simp add: read_string_rune)
    qed
  qed
qed

lemma length_esc_ascii: "length (esc_ascii c) \<le> 6"
  by (simp add: esc_ascii_def esc_u_def hex4_def)

lemma length_esc_rune: "t \<noteq> [] \<Longrightarrow> length (esc_rune t) \<le> 6 * length t"
  by (cases t) (auto simp: esc_rune_def esc_u_def hex4_def)

lemma length_escape: "length (escape s) \<le> 6 * length s"
proof (induction s rule: escape.induct)
  case (1 s)
  show ?case
  proof (cases s)
    case Nil
    then show ?thesis by simp
  next
    case (Cons c cs)
    let ?n = "rune_len s"
    consider (ascii) "code c < 128" | (bad) "\<not> code c < 128" "?n = 0" | (rune) "\<not> code c < 128" "?n \<noteq> 0"
      by blast
    then show ?thesis
    proof cases
      case ascii
      then show ?thesis using "1.IH"(1) [OF Cons ascii] Cons length_esc_ascii [of c] by simp
    next
      case bad
      then have "escape s = esc_u 65533 @ escape cs" using Cons by (subst escape.simps) simp
      then show ?thesis using "1.IH"(2) [OF Cons bad] Cons by (simp add: esc_u_def hex4_def)
    next
      case rune
      then have "escape s = esc_rune (take ?n s) @ escape (drop ?n s)" using Cons by (subst escape.simps) simp
      moreover have "length (esc_rune (take ?n s)) \<le> 6 * length (take ?n s)"
        using Cons rune(2) by (intro length_esc_rune) simp
      moreover have "length s = length (take ?n s) + length (drop ?n s)" by (metis append_take_drop_id length_append)
      ultimately show ?thesis using "1.IH"(3) [OF Cons rune]
        by (metis add_mono add_mult_distrib2 length_append)
    qed
  qed
qed

section \<open>Values\<close>

fun Marshal :: "json \<Rightarrow> bytes"
  and marshal_elems :: "json list \<Rightarrow> bytes"
  and marshal_members :: "(string \<times> json) list \<Rightarrow> bytes" where
  "Marshal JNull = ''null''"
| "Marshal (JBool b) = (if b then ''true'' else ''false'')"
| "Marshal (JNum l) = l"
| "Marshal (JStr s) = quote # escape s @ [quote]"
| "Marshal (JArr js) = CHR ''['' # marshal_elems js @ '']''"
| "Marshal (JObj kvs) = CHR ''{'' # marshal_members kvs @ ''}''"
| "marshal_elems [] = []"
| "marshal_elems [j] = Marshal j"
| "marshal_elems (j # js) = Marshal j @ CHR '','' # marshal_elems js"
| "marshal_members [] = []"
| "marshal_members [(k, j)] = quote # escape k @ quote # CHR '':'' # Marshal j"
| "marshal_members ((k, j) # kvs) =
     quote # escape k @ quote # CHR '':'' # Marshal j @ CHR '','' # marshal_members kvs"

definition is_space :: "char \<Rightarrow> bool" where
  "is_space c \<longleftrightarrow> c = CHR '' '' \<or> code c = 9 \<or> code c = 10 \<or> code c = 13"

definition skip :: "string \<Rightarrow> string" where
  "skip s = dropWhile is_space s"

lemma length_skip: "length (skip s) \<le> length s"
  by (simp add: skip_def length_dropWhile_le)

text \<open>A number literal: its sign, integer part, fraction and exponent, as long as they go.\<close>

definition read_digits :: "string \<Rightarrow> (string \<times> string) option" where
  "read_digits s =
     (let ds = takeWhile is_digit s in if ds = [] then None else Some (ds, drop (length ds) s))"

definition read_int :: "string \<Rightarrow> (string \<times> string) option" where
  "read_int s =
     (case s of
        [] \<Rightarrow> None
      | c # r \<Rightarrow> if c = CHR ''0'' then Some (''0'', r) else read_digits s)"

definition read_frac :: "string \<Rightarrow> (string \<times> string) option" where
  "read_frac s =
     (case s of
        c # r \<Rightarrow> if c = CHR ''.'' then map_option (apfst ((#) c)) (read_digits r) else Some ([], s)
      | [] \<Rightarrow> Some ([], s))"

definition read_exp :: "string \<Rightarrow> (string \<times> string) option" where
  "read_exp s =
     (case s of
        c # r \<Rightarrow>
          if c = CHR ''e'' \<or> c = CHR ''E'' then
            (case r of
               g # r' \<Rightarrow>
                 if g = CHR ''+'' \<or> g = CHR ''-''
                 then map_option (apfst (\<lambda>ds. c # g # ds)) (read_digits r')
                 else map_option (apfst ((#) c)) (read_digits r)
             | [] \<Rightarrow> None)
          else Some ([], s)
      | [] \<Rightarrow> Some ([], s))"

definition read_number :: "string \<Rightarrow> (string \<times> string) option" where
  "read_number s =
     (let (sign, s0) = (case s of c # r \<Rightarrow> if c = CHR ''-'' then ([c], r) else ([], s) | [] \<Rightarrow> ([], s))
      in do { (i, s1) \<leftarrow> read_int s0;
              (f, s2) \<leftarrow> read_frac s1;
              (e, s3) \<leftarrow> read_exp s2;
              Some (sign @ i @ f @ e, s3) })"

definition read_word :: "string \<Rightarrow> json \<Rightarrow> string \<Rightarrow> (json \<times> string) option" where
  "read_word w j s = (if take (length w) s = w then Some (j, drop (length w) s) else None)"

text \<open>
  The reader of a value. Its first argument bounds the depth of its calls; each call reads at least
  one byte, so the length of the input is always enough.
\<close>

fun read_value :: "nat \<Rightarrow> string \<Rightarrow> (json \<times> string) option"
  and read_elems :: "nat \<Rightarrow> string \<Rightarrow> (json list \<times> string) option"
  and read_members :: "nat \<Rightarrow> string \<Rightarrow> ((string \<times> json) list \<times> string) option" where
  "read_value 0 s = None"
| "read_value (Suc n) s =
     (case skip s of
        [] \<Rightarrow> None
      | c # r \<Rightarrow>
          if c = quote then map_option (apfst JStr) (read_string r)
          else if c = CHR ''{'' then
            (case skip r of
               d # r' \<Rightarrow> if d = CHR ''}'' then Some (JObj [], r') else map_option (apfst JObj) (read_members n r)
             | [] \<Rightarrow> None)
          else if c = CHR ''['' then
            (case skip r of
               d # r' \<Rightarrow> if d = CHR '']'' then Some (JArr [], r') else map_option (apfst JArr) (read_elems n r)
             | [] \<Rightarrow> None)
          else if c = CHR ''n'' then read_word ''null'' JNull (c # r)
          else if c = CHR ''t'' then read_word ''true'' (JBool True) (c # r)
          else if c = CHR ''f'' then read_word ''false'' (JBool False) (c # r)
          else map_option (apfst JNum) (read_number (c # r)))"
| "read_elems 0 s = None"
| "read_elems (Suc n) s =
     do { (j, r) \<leftarrow> read_value n s;
          case skip r of
            d # r' \<Rightarrow>
              if d = CHR '','' then map_option (apfst ((#) j)) (read_elems n r')
              else if d = CHR '']'' then Some ([j], r') else None
          | [] \<Rightarrow> None }"
| "read_members 0 s = None"
| "read_members (Suc n) s =
     (case skip s of
        q # t \<Rightarrow>
          if q = quote then
            do { (k, r) \<leftarrow> read_string t;
                 case skip r of
                   c # r1 \<Rightarrow>
                     if c = CHR '':'' then
                       do { (j, r2) \<leftarrow> read_value n r1;
                            case skip r2 of
                              d # r' \<Rightarrow>
                                if d = CHR '','' then map_option (apfst ((#) (k, j))) (read_members n r')
                                else if d = CHR ''}'' then Some ([(k, j)], r') else None
                            | [] \<Rightarrow> None }
                     else None
                 | [] \<Rightarrow> None }
          else None
      | [] \<Rightarrow> None)"

declare read_value.simps(2) [simp del] read_elems.simps(2) [simp del] read_members.simps(2) [simp del]

text \<open>One value, with nothing but white space after it.\<close>

definition Unmarshal :: "bytes \<Rightarrow> json option" where
  "Unmarshal s =
     (case read_value (Suc (length s)) s of
        Some (j, r) \<Rightarrow> if skip r = [] then Some j else None
      | None \<Rightarrow> None)"

section \<open>Decoding what was encoded\<close>

definition num_literal :: "string \<Rightarrow> bool" where
  "num_literal l \<longleftrightarrow> (\<exists>n. l = decimal n)"

fun json_ok :: "json \<Rightarrow> bool" where
  "json_ok (JNum l) = num_literal l"
| "json_ok (JStr s) = ValidString s"
| "json_ok (JArr js) = list_all json_ok js"
| "json_ok (JObj kvs) = list_all (\<lambda>(k, j). ValidString k \<and> json_ok j) kvs"
| "json_ok _ = True"

text \<open>What may follow a value without becoming part of it.\<close>

definition delimited :: "string \<Rightarrow> bool" where
  "delimited r \<longleftrightarrow> (case r of [] \<Rightarrow> True | c # _ \<Rightarrow> \<not> is_digit c \<and> c \<noteq> CHR ''.'' \<and> c \<noteq> CHR ''e'' \<and> c \<noteq> CHR ''E'')"

lemma skip_Cons [simp]: "\<not> is_space c \<Longrightarrow> skip (c # r) = c # r"
  by (simp add: skip_def)

lemma not_space [simp]:
  "\<not> is_space quote" "\<not> is_space (CHR ''{'')" "\<not> is_space (CHR ''}'')" "\<not> is_space (CHR ''['')"
  "\<not> is_space (CHR '']'')" "\<not> is_space (CHR '','')" "\<not> is_space (CHR '':'')"
  "\<not> is_space (CHR ''n'')" "\<not> is_space (CHR ''t'')" "\<not> is_space (CHR ''f'')"
  "is_digit c \<Longrightarrow> \<not> is_space c"
  by (auto simp: is_space_def is_digit_def)

lemma takeWhile_digits:
  "(\<And>c. c \<in> set ds \<Longrightarrow> is_digit c) \<Longrightarrow> delimited r \<Longrightarrow> takeWhile is_digit (ds @ r) = ds"
  by (induction ds) (auto simp: delimited_def split: list.splits)

lemma read_int_decimal:
  assumes "delimited r"
  shows "read_int (decimal n @ r) = Some (decimal n, r)"
proof (cases "n = 0")
  case True
  then show ?thesis by (simp add: read_int_def)
next
  case False
  then obtain c ds where n: "decimal n = c # ds" "c \<noteq> CHR ''0''"
    using decimal_hd [of n] by (cases "decimal n") auto
  moreover have "takeWhile is_digit (decimal n @ r) = decimal n"
    using takeWhile_digits decimal_digits assms by blast
  ultimately show ?thesis by (simp add: read_int_def read_digits_def Let_def)
qed

lemma read_number_decimal:
  assumes "delimited r"
  shows "read_number (decimal n @ r) = Some (decimal n, r)"
proof -
  obtain c ds where n: "decimal n = c # ds" by (cases "decimal n") auto
  then have "is_digit c" using decimal_digits [of c n] by simp
  then have "c \<noteq> CHR ''-''" by (auto simp: is_digit_def)
  moreover have "read_frac r = Some ([], r)" "read_exp r = Some ([], r)"
    using assms by (auto simp: read_frac_def read_exp_def delimited_def split: list.splits)
  ultimately show ?thesis
    using read_int_decimal [OF assms, of n] by (simp add: read_number_def n)
qed

lemma delimited_simps [simp]:
  "delimited []" "delimited (CHR '','' # r)" "delimited (CHR '']'' # r)" "delimited (CHR ''}'' # r)"
  by (simp_all add: delimited_def is_digit_def)

lemma Marshal_nonempty: "json_ok j \<Longrightarrow> Marshal j \<noteq> []"
  by (cases j) (auto simp: num_literal_def)

lemma Marshal_first:
  assumes "json_ok j"
  obtains c cs where "Marshal j = c # cs" "\<not> is_space c" "c \<noteq> CHR '']''" "c \<noteq> CHR ''}''"
proof (cases j)
  case (JNum l)
  then obtain n where n: "l = decimal n" using assms by (auto simp: num_literal_def)
  then obtain c cs where c: "decimal n = c # cs" by (cases "decimal n") auto
  then have "is_digit c" using decimal_digits [of c n] by simp
  then have "\<not> is_space c \<and> c \<noteq> CHR '']'' \<and> c \<noteq> CHR ''}''" by (auto simp: is_digit_def is_space_def)
  with c n JNum that show thesis by simp
next
  case (JBool b)
  then show thesis using that by (cases b) auto
qed (auto intro: that)

lemma marshal_elems_first:
  assumes "list_all json_ok js" "js \<noteq> []"
  obtains c cs where "marshal_elems js = c # cs" "\<not> is_space c" "c \<noteq> CHR '']''"
proof -
  obtain j js' where js: "js = j # js'" using assms(2) by (cases js) auto
  then have "json_ok j" using assms(1) by simp
  from Marshal_first [OF this] obtain c cs where "Marshal j = c # cs" "\<not> is_space c" "c \<noteq> CHR '']''"
    by blast
  with js that show thesis by (cases js') auto
qed

lemma marshal_members_first:
  "kvs \<noteq> [] \<Longrightarrow> \<exists>cs. marshal_members kvs = quote # cs"
  by (cases kvs rule: marshal_members.cases) auto

lemma marshal_elems_Cons:
  "js \<noteq> [] \<Longrightarrow> marshal_elems (j # js) = Marshal j @ CHR '','' # marshal_elems js"
  by (cases js) auto

lemma marshal_members_Cons:
  "kvs \<noteq> [] \<Longrightarrow> marshal_members ((k, j) # kvs) =
     quote # escape k @ quote # CHR '':'' # Marshal j @ CHR '','' # marshal_members kvs"
  by (cases kvs) auto

lemma read_value_number:
  assumes "num_literal l" "delimited r"
  shows "read_value (Suc n) (l @ r) = Some (JNum l, r)"
proof -
  obtain m where m: "l = decimal m" using assms(1) by (auto simp: num_literal_def)
  then obtain c cs where c: "l = c # cs" by (cases "decimal m") auto
  then have "is_digit c" using decimal_digits [of c m] m by simp
  then have "\<not> is_space c \<and> c \<notin> {quote, CHR ''{'', CHR ''['', CHR ''n'', CHR ''t'', CHR ''f''}"
    by (auto simp: is_digit_def is_space_def)
  then show ?thesis using read_number_decimal [OF assms(2), of m] c m
    by (simp add: read_value.simps(2))
qed

lemma read_elems_one:
  assumes "read_value n (s @ CHR '']'' # r) = Some (j, CHR '']'' # r)"
  shows "read_elems (Suc n) (s @ CHR '']'' # r) = Some ([j], r)"
  using assms by (simp add: read_elems.simps(2))

lemma read_elems_more:
  assumes "read_value n (s @ CHR '','' # r) = Some (j, CHR '','' # r)" "read_elems n r = Some (js, r')"
  shows "read_elems (Suc n) (s @ CHR '','' # r) = Some (j # js, r')"
  using assms by (simp add: read_elems.simps(2))

lemma read_members_one:
  assumes "ValidString k" "read_value n (s @ CHR ''}'' # r) = Some (j, CHR ''}'' # r)"
  shows "read_members (Suc n) (quote # escape k @ quote # CHR '':'' # s @ CHR ''}'' # r) = Some ([(k, j)], r)"
  using assms by (simp add: read_members.simps(2) read_string_escape)

lemma read_members_more:
  assumes "ValidString k" "read_value n (s @ CHR '','' # r) = Some (j, CHR '','' # r)"
    "read_members n r = Some (kvs, r')"
  shows "read_members (Suc n) (quote # escape k @ quote # CHR '':'' # s @ CHR '','' # r) = Some ((k, j) # kvs, r')"
  using assms by (simp add: read_members.simps(2) read_string_escape)

lemma read_value_Marshal:
  "json_ok j \<Longrightarrow> delimited r \<Longrightarrow> length (Marshal j) \<le> n \<Longrightarrow> read_value n (Marshal j @ r) = Some (j, r)"
  and read_elems_marshal:
  "list_all json_ok js \<Longrightarrow> js \<noteq> [] \<Longrightarrow> length (marshal_elems js) < n \<Longrightarrow>
   read_elems n (marshal_elems js @ CHR '']'' # r) = Some (js, r)"
  and read_members_marshal:
  "list_all (\<lambda>(k, j). ValidString k \<and> json_ok j) kvs \<Longrightarrow> kvs \<noteq> [] \<Longrightarrow>
   length (marshal_members kvs) < n \<Longrightarrow>
   read_members n (marshal_members kvs @ CHR ''}'' # r) = Some (kvs, r)"
proof (induction j and js and kvs arbitrary: n r and n r and n r
    rule: Marshal_marshal_elems_marshal_members.induct)
  case 1
  then obtain m where "n = Suc m" by (cases n) auto
  then show ?case by (simp add: read_value.simps(2) read_word_def)
next
  case (2 b)
  then obtain m where "n = Suc m" by (cases n) (auto split: if_splits)
  then show ?case by (simp add: read_value.simps(2) read_word_def)
next
  case (3 l)
  then obtain m where "n = Suc m" using Marshal_nonempty [of "JNum l"] by (cases n) auto
  then show ?case using 3 by (simp add: read_value_number)
next
  case (4 s)
  then obtain m where "n = Suc m" by (cases n) auto
  then show ?case using 4 by (simp add: read_value.simps(2) read_string_escape)
next
  case (5 js)
  then obtain m where m: "n = Suc m" by (cases n) auto
  show ?case
  proof (cases "js = []")
    case True
    then show ?thesis using m by (simp add: read_value.simps(2))
  next
    case False
    have "list_all json_ok js" using "5.prems"(1) by simp
    from marshal_elems_first [OF this False]
    obtain c cs where "marshal_elems js = c # cs" "\<not> is_space c" "c \<noteq> CHR '']''" by blast
    then show ?thesis using 5 m False "5.IH" [of m r] by (simp add: read_value.simps(2))
  qed
next
  case (6 kvs)
  then obtain m where m: "n = Suc m" by (cases n) auto
  show ?case
  proof (cases "kvs = []")
    case True
    then show ?thesis using m by (simp add: read_value.simps(2))
  next
    case False
    then obtain cs where "marshal_members kvs = quote # cs" using marshal_members_first by blast
    then show ?thesis using 6 m False "6.IH" [of m r] by (simp add: read_value.simps(2))
  qed
next
  case (8 j)
  then obtain m where m: "n = Suc m" by (cases n) auto
  then show ?case using 8 "8.IH" [of "CHR '']'' # r" m] by (simp add: read_elems_one)
next
  case (9 j k js)
  then obtain m where m: "n = Suc m" by (cases n) auto
  then show ?case
    using "9.prems" "9.IH"(1) [of "CHR '','' # marshal_elems (k # js) @ CHR '']'' # r" m] "9.IH"(2) [of m r]
    by (simp add: read_elems_more)
next
  case (11 k j)
  then obtain m where m: "n = Suc m" by (cases n) auto
  then show ?case using 11 "11.IH" [of "CHR ''}'' # r" m] by (simp add: read_members_one)
next
  case (12 k j kv kvs)
  then obtain m where m: "n = Suc m" by (cases n) auto
  then show ?case
    using "12.prems" "12.IH"(1) [of "CHR '','' # marshal_members (kv # kvs) @ CHR ''}'' # r" m]
      "12.IH"(2) [of m r]
    by (simp add: read_members_more)
qed auto

theorem Unmarshal_Marshal: "json_ok j \<Longrightarrow> Unmarshal (Marshal j) = Some j"
  using read_value_Marshal [of j "[]" "Suc (length (Marshal j))"]
  by (simp add: Unmarshal_def skip_def)

lemma Marshal_inject: "json_ok i \<Longrightarrow> json_ok j \<Longrightarrow> Marshal i = Marshal j \<longleftrightarrow> i = j"
  by (metis Unmarshal_Marshal option.inject)

section \<open>Struct fields\<close>

text \<open>
  A field left out when empty, and the decoders of the kinds of fields the code has. A \<^verbatim>\<open>null\<close>
  leaves the field as it is, which is empty; a decoder of a number reads a literal with no
  fraction, exponent or sign.
\<close>

definition omitempty :: "string \<Rightarrow> bool \<Rightarrow> json \<Rightarrow> (string \<times> json) list" where
  "omitempty k present v = (if present then [(k, v)] else [])"

definition JNat :: "nat \<Rightarrow> json" where
  "JNat n = JNum (decimal n)"

definition dec_string :: "json \<Rightarrow> string option" where
  "dec_string j = (case j of JStr s \<Rightarrow> Some s | JNull \<Rightarrow> Some [] | _ \<Rightarrow> None)"

definition dec_bool :: "json \<Rightarrow> bool option" where
  "dec_bool j = (case j of JBool b \<Rightarrow> Some b | JNull \<Rightarrow> Some False | _ \<Rightarrow> None)"

definition dec_uint :: "nat \<Rightarrow> json \<Rightarrow> nat option" where
  "dec_uint w j =
     (case j of
        JNum l \<Rightarrow> if list_all is_digit l \<and> digits_value l < 2 ^ w then Some (digits_value l) else None
      | JNull \<Rightarrow> Some 0
      | _ \<Rightarrow> None)"

definition dec_list :: "(json \<Rightarrow> 'a option) \<Rightarrow> json \<Rightarrow> 'a list option" where
  "dec_list dec j =
     (case j of
        JArr js \<Rightarrow> those (map dec js)
      | JNull \<Rightarrow> Some []
      | _ \<Rightarrow> None)"

definition dec_ptr :: "(json \<Rightarrow> 'a option) \<Rightarrow> json \<Rightarrow> 'a option option" where
  "dec_ptr dec j = (case j of JNull \<Rightarrow> Some None | _ \<Rightarrow> map_option Some (dec j))"

text \<open>The members of an object whose keys are known to the struct; \<^verbatim>\<open>null\<close> has none.\<close>

definition dec_struct :: "string list \<Rightarrow> json \<Rightarrow> (string \<times> json) list option" where
  "dec_struct known j =
     (case j of
        JObj kvs \<Rightarrow> if set (map fst kvs) \<subseteq> set known then Some kvs else None
      | JNull \<Rightarrow> Some []
      | _ \<Rightarrow> None)"

definition field :: "'a \<Rightarrow> (json \<Rightarrow> 'a option) \<Rightarrow> string \<Rightarrow> (string \<times> json) list \<Rightarrow> 'a option" where
  "field dflt dec k kvs = (case map_of kvs k of None \<Rightarrow> Some dflt | Some v \<Rightarrow> dec v)"

named_theorems json_simps \<open>rewrite rules for encoding and decoding structs\<close>

lemma map_of_omitempty [json_simps]:
  "map_of (omitempty k c v @ r) k' = (if c \<and> k = k' then Some v else map_of r k')"
  by (simp add: omitempty_def)

lemma map_of_omitempty1 [json_simps]:
  "map_of (omitempty k c v) k' = (if c \<and> k = k' then Some v else None)"
  by (simp add: omitempty_def)

lemma keys_omitempty [json_simps]:
  "fst ` set (omitempty k c v) = (if c then {k} else {})"
  by (simp add: omitempty_def)

lemma json_ok_omitempty [json_simps]:
  "list_all (\<lambda>(k, j). ValidString k \<and> json_ok j) (omitempty k c v) \<longleftrightarrow> (c \<longrightarrow> ValidString k \<and> json_ok v)"
  by (simp add: omitempty_def)

lemma dec_simps [json_simps]:
  "dec_string (JStr s) = Some s" "dec_bool (JBool b) = Some b"
  "dec_ptr dec (JObj kvs) = map_option Some (dec (JObj kvs))"
  "dec_struct known (JObj kvs) = (if set (map fst kvs) \<subseteq> set known then Some kvs else None)"
  by (simp_all add: dec_string_def dec_bool_def dec_ptr_def dec_struct_def)

lemma if_empty [json_simps]:
  "(if xs = [] then Some [] else Some xs) = Some xs"
  "(if b then Some True else Some False) = Some b"
  by simp_all

lemma field_simps [json_simps]:
  "field d dec k (omitempty k' c v @ r) = (if c \<and> k' = k then dec v else field d dec k r)"
  "field d dec k ((k', v) # r) = (if k' = k then dec v else field d dec k r)"
  "field d dec k [] = Some d"
  "field d dec k (omitempty k' c v) = (if c \<and> k' = k then dec v else Some d)"
  by (auto simp: field_def omitempty_def)

lemma dec_uint_JNat [json_simps]: "n < 2 ^ w \<Longrightarrow> dec_uint w (JNat n) = Some n"
  using decimal_digits by (auto simp: dec_uint_def JNat_def list_all_iff)

lemma json_ok_JNat [json_simps]: "json_ok (JNat n)"
  by (auto simp: JNat_def num_literal_def)

lemma those_map_Some: "(\<And>x. x \<in> set xs \<Longrightarrow> f (g x) = Some x) \<Longrightarrow> those (map f (map g xs)) = Some xs"
  by (induction xs) auto

lemma dec_list_enc [json_simps]:
  "(\<And>w. w \<in> set ws \<Longrightarrow> dec (enc w) = Some w) \<Longrightarrow> dec_list dec (JArr (map enc ws)) = Some ws"
  using those_map_Some [of ws dec enc] by (simp add: dec_list_def)

text \<open>An object without two members of one key, at every depth.\<close>

fun unique_keys :: "json \<Rightarrow> bool" where
  "unique_keys (JArr js) = list_all unique_keys js"
| "unique_keys (JObj kvs) = (distinct (map fst kvs) \<and> list_all (\<lambda>(k, j). unique_keys j) kvs)"
| "unique_keys _ = True"

named_theorems keys_simps \<open>rewrite rules for the keys of encoded structs\<close>

declare disjoint_iff [keys_simps] image_Un [keys_simps]

lemma key_in_omitempty [keys_simps]: "k \<in> fst ` set (omitempty k' c v) \<longleftrightarrow> c \<and> k = k'"
  by (auto simp: omitempty_def)

lemma distinct_omitempty [keys_simps]: "distinct (map fst (omitempty k c v))"
  by (simp add: omitempty_def)

lemma unique_omitempty [keys_simps]:
  "list_all (\<lambda>(k, j). unique_keys j) (omitempty k c v) \<longleftrightarrow> (c \<longrightarrow> unique_keys v)"
  by (simp add: omitempty_def)

lemma unique_keys_JNat [simp]: "unique_keys (JNat n)"
  by (simp add: JNat_def)

lemma unique_keys_map [keys_simps]:
  "(\<And>w. w \<in> set ws \<Longrightarrow> unique_keys (enc w)) \<Longrightarrow> list_all unique_keys (map enc ws)"
  by (simp add: list_all_iff)

lemma json_ok_map [json_simps]:
  "(\<And>w. w \<in> set ws \<Longrightarrow> json_ok (enc w)) \<Longrightarrow> list_all json_ok (map enc ws)"
  by (simp add: list_all_iff)

end
