(* ===== verification/Go_Time.thy ===== *)
theory Go_Time
  imports Go_Text "HOL-Library.Monad_Syntax"
begin

text \<open>
  Go's \<^verbatim>\<open>time\<close> as the agency packages use it: an instant is the number of nanoseconds since the Unix
  epoch, \<open>zeroTime\<close> is the zero \<^verbatim>\<open>time.Time\<close> (the start of the year 1), and the two layouts the code
  formats instants with, \<^verbatim>\<open>RFC3339Nano\<close> and the store's fixed-width layout, both in UTC. The
  results are that reading what was written gives the instant back, and that the store's texts
  compare as the instants do.
\<close>

definition nsPerDay :: int where "nsPerDay = 86400000000000"
definition unixDays :: int where "unixDays = 719162"
definition zeroTime :: instant where "zeroTime = - unixDays * nsPerDay"

section \<open>The calendar\<close>

definition leap :: "nat \<Rightarrow> bool" where
  "leap y \<longleftrightarrow> y mod 4 = 0 \<and> (y mod 100 \<noteq> 0 \<or> y mod 400 = 0)"

definition yearDays :: "nat \<Rightarrow> nat" where
  "yearDays y = (if leap y then 366 else 365)"

definition monthDays :: "nat \<Rightarrow> nat list" where
  "monthDays y = [31, if leap y then 29 else 28, 31, 30, 31, 30, 31, 31, 30, 31, 30, 31]"

text \<open>The days of the years \<open>1 \<dots> n\<close>.\<close>

definition daysThrough :: "nat \<Rightarrow> nat" where
  "daysThrough n = 365 * n + n div 4 + n div 400 - n div 100"

lemma yearDays_pos [simp]: "0 < yearDays y"
  by (simp add: yearDays_def)

lemma days_arith:
  fixes a b c n :: nat
  assumes "c \<le> a" "365 + p + q = x + r"
  shows "365 * Suc n + (a + p) + (b + q) - (c + r) = 365 * n + a + b - c + x"
  using assms by simp

lemma daysThrough_Suc: "daysThrough (Suc n) = daysThrough n + yearDays (Suc n)"
proof -
  have le: "n div 100 \<le> n div 4" by (simp add: div_le_mono2)
  have mods: "Suc n mod 100 = 0 \<Longrightarrow> Suc n mod 4 = 0" "Suc n mod 400 = 0 \<Longrightarrow> Suc n mod 100 = 0"
    by presburger+
  have eq: "Suc n div 4 = n div 4 + (if Suc n mod 4 = 0 then 1 else 0)"
    "Suc n div 100 = n div 100 + (if Suc n mod 100 = 0 then 1 else 0)"
    "Suc n div 400 = n div 400 + (if Suc n mod 400 = 0 then 1 else 0)"
    by (simp_all add: div_Suc)
  show ?thesis
    unfolding daysThrough_def eq yearDays_def leap_def
    by (rule days_arith [OF le]) (use mods in auto)
qed

lemma sum_monthDays: "sum_list (monthDays y) = yearDays y"
  by (simp add: monthDays_def yearDays_def)

function splitYear :: "nat \<Rightarrow> nat \<Rightarrow> nat \<times> nat" where
  "splitYear y d = (if d < yearDays y then (y, d) else splitYear (Suc y) (d - yearDays y))"
  by pat_completeness auto
termination
  by (relation "Wellfounded.measure snd") (auto simp: yearDays_def)

declare splitYear.simps [simp del]

fun splitMonth :: "nat list \<Rightarrow> nat \<Rightarrow> nat \<Rightarrow> nat \<times> nat" where
  "splitMonth [] m d = (m, d)"
| "splitMonth (l # ls) m d = (if d < l then (m, d) else splitMonth ls (Suc m) (d - l))"

definition dateOf :: "nat \<Rightarrow> nat \<times> nat \<times> nat" where
  "dateOf d =
     (let y0 = d div 366;
          (y, r) = splitYear (Suc y0) (d - daysThrough y0);
          (m, k) = splitMonth (monthDays y) 0 r
      in (y, Suc m, Suc k))"

definition daysOf :: "nat \<Rightarrow> nat \<Rightarrow> nat \<Rightarrow> nat option" where
  "daysOf y m d =
     (if 1 \<le> y \<and> 1 \<le> m \<and> m \<le> 12 \<and> 1 \<le> d \<and> d \<le> monthDays y ! (m - 1)
      then Some (daysThrough (y - 1) + sum_list (take (m - 1) (monthDays y)) + (d - 1)) else None)"

lemma splitYear_spec:
  "0 < y \<Longrightarrow> splitYear y d = (y', r) \<Longrightarrow>
   0 < y' \<and> y \<le> y' \<and> r < yearDays y' \<and> daysThrough (y' - 1) + r = daysThrough (y - 1) + d"
proof (induction y d rule: splitYear.induct)
  case (1 y d)
  show ?case
  proof (cases "d < yearDays y")
    case True
    then show ?thesis using 1 by (simp add: splitYear.simps)
  next
    case False
    have "daysThrough y = daysThrough (y - 1) + yearDays y"
      using daysThrough_Suc [of "y - 1"] "1.prems"(1) by simp
    then show ?thesis using 1 False by (auto simp: splitYear.simps [of y d])
  qed
qed

lemma splitMonth_spec:
  "d < sum_list ls \<Longrightarrow> splitMonth ls m d = (m', r) \<Longrightarrow>
   m \<le> m' \<and> m' - m < length ls \<and> r < ls ! (m' - m) \<and> sum_list (take (m' - m) ls) + r = d"
proof (induction ls arbitrary: m d)
  case Nil
  then show ?case by simp
next
  case (Cons l ls)
  show ?case
  proof (cases "d < l")
    case True
    then show ?thesis using Cons by auto
  next
    case False
    then have ih: "Suc m \<le> m' \<and> m' - Suc m < length ls \<and> r < ls ! (m' - Suc m) \<and>
        sum_list (take (m' - Suc m) ls) + r = d - l"
      using Cons.IH [of "d - l" "Suc m"] Cons.prems by simp
    then have "m' - m = Suc (m' - Suc m)" by linarith
    then show ?thesis using ih False by (simp; linarith)
  qed
qed

lemma daysThrough_le: "daysThrough (d div 366) \<le> d"
proof -
  have "n div 4 + n div 400 \<le> n + n div 100" for n :: nat by linarith
  then have "daysThrough n \<le> 366 * n" for n by (simp add: daysThrough_def)
  then show ?thesis by (meson le_trans times_div_less_eq_dividend)
qed

theorem daysOf_dateOf:
  assumes "dateOf n = (y, m, d)"
  shows "daysOf y m d = Some n \<and> n div 366 < y \<and> y \<le> Suc (n div 365) \<and> m \<le> 12 \<and> d \<le> 31"
proof -
  let ?y0 = "n div 366"
  obtain y1 r where y1: "splitYear (Suc ?y0) (n - daysThrough ?y0) = (y1, r)" by force
  obtain m1 k where m1: "splitMonth (monthDays y1) 0 r = (m1, k)" by force
  have date: "y = y1" "m = Suc m1" "d = Suc k" using assms y1 m1 by (simp_all add: dateOf_def)
  note Y = splitYear_spec [OF _ y1, simplified]
  have sum: "daysThrough (y1 - 1) + r = n" using Y daysThrough_le [of n] by simp
  have "r < sum_list (monthDays y1)" using Y by (simp add: sum_monthDays)
  note M = splitMonth_spec [OF this m1, simplified]
  have len: "length (monthDays y1) = 12" by (simp add: monthDays_def)
  then have "monthDays y1 ! m1 \<in> set (monthDays y1)" using M by simp
  then have "monthDays y1 ! m1 \<le> 31" by (auto simp: monthDays_def split: if_splits)
  moreover have "365 * y \<le> daysThrough y" for y
    using div_le_mono2 [of 4 100 y] by (simp add: daysThrough_def)
  then have "365 * (y1 - 1) \<le> n" using sum by (metis add_leD1 le_trans order_refl)
  then have "y1 \<le> Suc (n div 365)" by (simp add: less_eq_div_iff_mult_less_eq mult.commute)
  ultimately show ?thesis using Y M sum len by (auto simp: daysOf_def date)
qed

section \<open>The layouts\<close>

text \<open>The date and the clock, without the fraction of a second.\<close>

definition clock :: "nat \<Rightarrow> string" where
  "clock secs = fixed 2 (secs div 3600) @ '':'' @ fixed 2 (secs div 60 mod 60) @ '':'' @ fixed 2 (secs mod 60)"

definition dateText :: "nat \<Rightarrow> string" where
  "dateText days = (case dateOf days of (y, m, d) \<Rightarrow> fixed 4 y @ ''-'' @ fixed 2 m @ ''-'' @ fixed 2 d)"

definition dayOf :: "instant \<Rightarrow> nat" where
  "dayOf t = nat (t div nsPerDay + unixDays)"

definition secOf :: "instant \<Rightarrow> nat" where
  "secOf t = nat (t mod nsPerDay div second)"

definition nanoOf :: "instant \<Rightarrow> nat" where
  "nanoOf t = nat (t mod second)"

definition stripZeros :: "string \<Rightarrow> string" where
  "stripZeros s = rev (dropWhile (\<lambda>c. c = CHR ''0'') (rev s))"

definition fraction :: "nat \<Rightarrow> string" where
  "fraction n = (if n = 0 then [] else CHR ''.'' # stripZeros (fixed 9 n))"

definition RFC3339Nano :: "instant \<Rightarrow> string" where
  "RFC3339Nano t = dateText (dayOf t) @ ''T'' @ clock (secOf t) @ fraction (nanoOf t) @ ''Z''"

definition storeTimeLayout :: "instant \<Rightarrow> string" where
  "storeTimeLayout t =
     dateText (dayOf t) @ ''T'' @ clock (secOf t) @ CHR ''.'' # fixed 9 (nanoOf t) @ ''Z''"

fun readChar :: "char \<Rightarrow> string \<Rightarrow> string option" where
  "readChar c (d # s) = (if c = d then Some s else None)"
| "readChar c [] = None"

definition readDate :: "string \<Rightarrow> (nat \<times> string) option" where
  "readDate s =
     do { (y, s) \<leftarrow> read_fixed 4 s; s \<leftarrow> readChar (CHR ''-'') s;
          (m, s) \<leftarrow> read_fixed 2 s; s \<leftarrow> readChar (CHR ''-'') s;
          (d, s) \<leftarrow> read_fixed 2 s;
          n \<leftarrow> daysOf y m d;
          Some (n, s) }"

definition readClock :: "string \<Rightarrow> (nat \<times> string) option" where
  "readClock s =
     do { (h, s) \<leftarrow> read_fixed 2 s; s \<leftarrow> readChar (CHR '':'') s;
          (m, s) \<leftarrow> read_fixed 2 s; s \<leftarrow> readChar (CHR '':'') s;
          (x, s) \<leftarrow> read_fixed 2 s;
          if h < 24 \<and> m < 60 \<and> x < 60 then Some (3600 * h + 60 * m + x, s) else None }"

text \<open>A fraction of at most nine digits, and the \<^verbatim>\<open>Z\<close> that ends the text.\<close>

definition readFraction :: "string \<Rightarrow> nat option" where
  "readFraction s =
     (if s = ''Z'' then Some 0
      else case readChar (CHR ''.'') s of
             None \<Rightarrow> None
           | Some r \<Rightarrow>
               let ds = takeWhile is_digit r
               in if ds \<noteq> [] \<and> length ds \<le> 9 \<and> dropWhile is_digit r = ''Z''
                  then Some (digits_value (ds @ replicate (9 - length ds) (CHR ''0''))) else None)"

definition instantOf :: "nat \<Rightarrow> nat \<Rightarrow> nat \<Rightarrow> instant" where
  "instantOf days secs nanos = (int days - unixDays) * nsPerDay + int secs * second + int nanos"

text \<open>
  \<^verbatim>\<open>time.Parse\<close>, in either layout, of the spellings \<^verbatim>\<open>Format\<close> writes. The other spellings \<^verbatim>\<open>time.Parse\<close>
  takes (an offset, a longer fraction, a single digit of the hour) the callers refuse, since
  they compare the text with what \<^verbatim>\<open>Format\<close> makes of the instant.
\<close>

definition parseInstant :: "string \<Rightarrow> instant option" where
  "parseInstant s =
     do { (days, s) \<leftarrow> readDate s; s \<leftarrow> readChar (CHR ''T'') s;
          (secs, s) \<leftarrow> readClock s;
          nanos \<leftarrow> readFraction s;
          Some (instantOf days secs nanos) }"

section \<open>Reading what was written\<close>

definition formattable :: "instant \<Rightarrow> bool" where
  "formattable t \<longleftrightarrow> zeroTime \<le> t \<and> dayOf t < 3650000"

lemma readDate_dateText:
  assumes "days < 3650000"
  shows "readDate (dateText days @ rest) = Some (days, rest)"
proof -
  obtain y m d where date: "dateOf days = (y, m, d)" using prod_cases3 by blast
  note D = daysOf_dateOf [OF date]
  have "days div 365 \<le> 9999" using assms by simp
  with D have "y < 10 ^ 4 \<or> y = 10000" by auto
  moreover have "y \<noteq> 10000"
  proof
    assume y: "y = 10000"
    with D have "daysThrough 9999 \<le> days" by (auto simp: daysOf_def split: if_splits; linarith)
    with assms show False by (simp add: daysThrough_def)
  qed
  ultimately have "y < 10 ^ 4" "m < 10 ^ 2" "d < 10 ^ 2" using D by auto
  then show ?thesis using D by (simp add: readDate_def dateText_def date text_simps)
qed

lemma readClock_clock:
  assumes "secs < 86400"
  shows "readClock (clock secs @ rest) = Some (secs, rest)"
proof -
  have h: "secs div 3600 < 24" using assms by simp
  have "secs = 3600 * (secs div 3600) + secs mod 3600" by simp
  moreover have "secs mod 3600 = 60 * (secs div 60 mod 60) + secs mod 60"
    using mod_mult2_eq [of secs 60 60] by simp
  ultimately have "3600 * (secs div 3600) + 60 * (secs div 60 mod 60) + secs mod 60 = secs" by linarith
  then show ?thesis using h by (simp add: readClock_def clock_def text_simps)
qed

lemma stripZeros_pad:
  "stripZeros s @ replicate (length s - length (stripZeros s)) (CHR ''0'') = s"
proof -
  obtain A B where A: "A = takeWhile (\<lambda>c. c = CHR ''0'') (rev s)"
    and B: "B = dropWhile (\<lambda>c. c = CHR ''0'') (rev s)" by simp
  have zs: "A = replicate (length A) (CHR ''0'')"
    by (rule replicate_length_same [symmetric]) (auto simp: A dest: set_takeWhileD)
  have "rev (A @ B) = s" unfolding A B by simp
  then have "s = rev B @ rev A" by simp
  moreover have "rev A = replicate (length A) (CHR ''0'')" by (subst zs) simp
  ultimately have eq: "s = rev B @ replicate (length A) (CHR ''0'')" by simp
  have "stripZeros s = rev B" by (simp add: stripZeros_def B)
  moreover have "length s - length (rev B) = length A" by (subst eq) simp
  ultimately show ?thesis using eq by simp
qed

lemma set_stripZeros: "set (stripZeros s) \<subseteq> set s"
  unfolding stripZeros_def by (metis set_dropWhileD set_rev subsetI)

lemma length_stripZeros: "length (stripZeros s) \<le> length s"
  unfolding stripZeros_def by (metis length_dropWhile_le length_rev)

lemma digits_end: "list_all is_digit ds \<Longrightarrow> takeWhile is_digit (ds @ ''Z'') = ds \<and> dropWhile is_digit (ds @ ''Z'') = ''Z''"
  by (induction ds) (auto simp: is_digit_def)

lemma readFraction_digits:
  assumes "list_all is_digit ds" "ds \<noteq> []" "length ds \<le> 9"
  shows "readFraction (CHR ''.'' # ds @ ''Z'') =
         Some (digits_value (ds @ replicate (9 - length ds) (CHR ''0'')))"
  using digits_end [OF assms(1)] assms(2,3) by (simp add: readFraction_def Let_def)

lemma list_all_fixed [simp]: "list_all is_digit (fixed w n)"
  using fixed_digits by (auto simp: list_all_iff)

lemma readFraction_fixed:
  assumes "n < 10 ^ 9"
  shows "readFraction (CHR ''.'' # fixed 9 n @ ''Z'') = Some n"
proof -
  have "fixed 9 n \<noteq> []" using length_fixed [of 9 n] by fastforce
  then show ?thesis using readFraction_digits [of "fixed 9 n"] digits_value_fixed [OF assms] by simp
qed

lemma readFraction_fraction:
  assumes "n < 10 ^ 9"
  shows "readFraction (fraction n @ ''Z'') = Some n"
proof (cases "n = 0")
  case True
  then show ?thesis by (simp add: fraction_def readFraction_def)
next
  case False
  let ?ds = "stripZeros (fixed 9 n)"
  have pad: "?ds @ replicate (9 - length ?ds) (CHR ''0'') = fixed 9 n"
    using stripZeros_pad [of "fixed 9 n"] by simp
  have zeros: "digits_value (replicate k (CHR ''0'')) = 0" for k
  proof (induction k)
    case (Suc k)
    then show ?case by (simp add: digits_value_def digit_val_def)
  qed (simp add: digits_value_def)
  have "?ds \<noteq> []"
  proof
    assume "?ds = []"
    then have "fixed 9 n = replicate 9 (CHR ''0'')" using pad by simp
    then show False using False digits_value_fixed [OF assms] zeros [of 9] by simp
  qed
  moreover have "list_all is_digit ?ds" using set_stripZeros [of "fixed 9 n"] fixed_digits by (fastforce simp: list_all_iff)
  moreover have "length ?ds \<le> 9" using length_stripZeros [of "fixed 9 n"] by simp
  ultimately show ?thesis using readFraction_digits [of ?ds] pad digits_value_fixed [OF assms] False
    by (simp add: fraction_def)
qed

lemma instantOf_parts: "zeroTime \<le> t \<Longrightarrow> instantOf (dayOf t) (secOf t) (nanoOf t) = t"
proof -
  assume "zeroTime \<le> t"
  then have "(- unixDays * nsPerDay) div nsPerDay \<le> t div nsPerDay"
    by (intro zdiv_mono1) (simp_all add: zeroTime_def nsPerDay_def)
  then have day: "int (dayOf t) - unixDays = t div nsPerDay"
    by (simp add: dayOf_def nsPerDay_def unixDays_def)
  have "t mod nsPerDay mod second = t mod second" by (simp add: nsPerDay_def mod_mod_cancel)
  moreover have "t mod nsPerDay = second * (t mod nsPerDay div second) + t mod nsPerDay mod second" by simp
  ultimately have "int (secOf t) * second + int (nanoOf t) = t mod nsPerDay"
    by (simp add: secOf_def nanoOf_def nsPerDay_def pos_imp_zdiv_nonneg_iff)
  then show ?thesis by (simp add: instantOf_def day add.assoc)
qed

lemma secOf_less: "secOf t < 86400"
proof -
  have "t mod nsPerDay < 86400 * second" by (simp add: nsPerDay_def)
  then have "t mod nsPerDay div second < 86400" by (simp add: div_less_iff_less_mult)
  then show ?thesis by (simp add: secOf_def nat_less_iff)
qed

lemma nanoOf_less: "nanoOf t < 10 ^ 9"
  by (simp add: nanoOf_def nat_less_iff)

lemma parseInstant_text:
  assumes "formattable t" "readFraction f = Some (nanoOf t)"
  shows "parseInstant (dateText (dayOf t) @ ''T'' @ clock (secOf t) @ f) = Some t"
  using assms secOf_less
  by (simp add: parseInstant_def formattable_def readDate_dateText readClock_clock instantOf_parts)

theorem parseInstant_RFC3339Nano: "formattable t \<Longrightarrow> parseInstant (RFC3339Nano t) = Some t"
  unfolding RFC3339Nano_def
  using parseInstant_text [OF _ readFraction_fraction [OF nanoOf_less]] by simp

theorem parseInstant_store: "formattable t \<Longrightarrow> parseInstant (storeTimeLayout t) = Some t"
  unfolding storeTimeLayout_def
  using parseInstant_text [OF _ readFraction_fixed [OF nanoOf_less]] by simp

text \<open>Every instant a 64-bit count of nanoseconds holds can be formatted.\<close>

lemma formattable_int64: "- (2 ^ 63) \<le> t \<Longrightarrow> t < 2 ^ 63 \<Longrightarrow> formattable t"
proof -
  assume t: "- (2 ^ 63) \<le> t" "t < 2 ^ 63"
  then have "t div nsPerDay \<le> (2 ^ 63) div nsPerDay" by (intro zdiv_mono1) (simp_all add: nsPerDay_def)
  then have "dayOf t < 3650000" by (simp add: dayOf_def nsPerDay_def unixDays_def)
  then show ?thesis using t by (simp add: formattable_def zeroTime_def nsPerDay_def unixDays_def)
qed

lemma is_ascii_fixed [simp]: "is_ascii (fixed w n)"
  by (rule is_ascii_digits) (rule fixed_digits)

lemma is_ascii_RFC3339Nano [simp]: "is_ascii (RFC3339Nano t)"
proof -
  have "is_ascii (stripZeros (fixed 9 n))" for n
    using set_stripZeros [of "fixed 9 n"] fixed_digits by (intro is_ascii_digits) blast
  then show ?thesis
    by (auto simp: RFC3339Nano_def dateText_def clock_def fraction_def split: prod.splits)
qed

lemma length_RFC3339Nano: "length (RFC3339Nano t) \<le> 30"
proof -
  have "length (stripZeros (fixed 9 n)) \<le> 9" for n using length_stripZeros [of "fixed 9 n"] by simp
  then have "length (fraction n) \<le> 10" for n by (simp add: fraction_def)
  then show ?thesis by (simp add: RFC3339Nano_def dateText_def clock_def split: prod.splits)
qed

end
