(* ===== verification/Agency_Value.thy ===== *)
theory Agency_Value
  imports Go_Json Go_Sha256 Go_Time
begin

text \<open>
  The bounded values of the agency protocol (\<^verbatim>\<open>internal/agency/value.go\<close>): digests, labels, keys,
  handles and identifiers, payloads, Event references and canonical times, each with the
  constructor that checks it. A wrapper struct around a string is the string itself, and its zero
  value is the empty string; a digest is its 32 bytes, and its zero value 32 zero bytes.

  The results: every constructor accepts exactly the canonical spellings, texts and values determine
  each other, and an accepted token is printable ASCII that JSON leaves as it is.
\<close>

section \<open>Errors\<close>

text \<open>
  \<^verbatim>\<open>ValidationError\<close>, one constructor per category, and the errors that wrap another or report a
  JSON text that cannot be decoded. A call that fails or returns a value is a value of a sum type,
  and \<open>bindE\<close> is the early return on a failure.
\<close>

datatype agencyError =
    ErrInvalid string string
  | ErrLimit string nat nat
  | ErrInvariant string string
  | ErrDecode string
  | ErrWrapped string agencyError

type_synonym 'a result = "agencyError + 'a"

definition bindE :: "'e + 'a \<Rightarrow> ('a \<Rightarrow> 'e + 'b) \<Rightarrow> 'e + 'b" where
  "bindE m f = (case m of Inl e \<Rightarrow> Inl e | Inr x \<Rightarrow> f x)"

lemma bindE_simps [simp]: "bindE (Inl e) f = Inl e" "bindE (Inr x) f = f x"
  by (simp_all add: bindE_def)

lemma bindE_Inr: "bindE m f = Inr y \<longleftrightarrow> (\<exists>x. m = Inr x \<and> f x = Inr y)"
  by (cases m) auto

lemma bindE_split: "P (bindE m f) \<longleftrightarrow> (\<forall>e. m = Inl e \<longrightarrow> P (Inl e)) \<and> (\<forall>x. m = Inr x \<longrightarrow> P (f x))"
  by (cases m) auto

lemma bindE_split_asm:
  "P (bindE m f) \<longleftrightarrow> \<not> ((\<exists>e. m = Inl e \<and> \<not> P (Inl e)) \<or> (\<exists>x. m = Inr x \<and> \<not> P (f x)))"
  by (cases m) auto

lemmas bindE_splits = bindE_split bindE_split_asm

text \<open>A chain of guards, each an early return, succeeds when none of them fires.\<close>

named_theorems guards \<open>success of a chain of guards\<close>

lemma guard_simps [guards]:
  "(if c then Some e else r) = None \<longleftrightarrow> \<not> c \<and> r = None"
  "(if c then Inl e' else r') = Inr x \<longleftrightarrow> \<not> c \<and> r' = Inr x"
  "(case o' of None \<Rightarrow> r | Some e \<Rightarrow> Some e) = None \<longleftrightarrow> o' = None \<and> r = None"
  "(case o'' of None \<Rightarrow> r' | Some e \<Rightarrow> Inl e) = Inr x \<longleftrightarrow> o'' = None \<and> r' = Inr x"
  by (auto split: option.splits)

declare bindE_Inr [guards]

text \<open>A loop that checks or converts the elements of a list and stops at the first failure.\<close>

fun mapE :: "('a \<Rightarrow> 'e + 'b) \<Rightarrow> 'a list \<Rightarrow> 'e + 'b list" where
  "mapE f [] = Inr []"
| "mapE f (x # xs) = bindE (f x) (\<lambda>y. bindE (mapE f xs) (\<lambda>ys. Inr (y # ys)))"

lemma mapE_Inr: "mapE f xs = Inr ys \<longleftrightarrow> list_all2 (\<lambda>x y. f x = Inr y) xs ys"
proof (induction xs arbitrary: ys)
  case (Cons x xs)
  then show ?case by (cases ys) (auto simp: bindE_Inr)
qed auto

lemma mapE_map: "(\<And>x. x \<in> set xs \<Longrightarrow> f (g x) = Inr x) \<Longrightarrow> mapE f (map g xs) = Inr xs"
  by (induction xs) auto

lemma mapE_mem: "mapE f xs = Inr ys \<Longrightarrow> y \<in> set ys \<Longrightarrow> \<exists>x \<in> set xs. f x = Inr y"
  by (induction xs arbitrary: ys) (auto simp: bindE_Inr)

lemma length_mapE: "mapE f xs = Inr ys \<Longrightarrow> length ys = length xs"
  by (simp add: mapE_Inr list_all2_lengthD)

section \<open>Bounds\<close>

definition MaxSemanticLabelBytes :: nat where "MaxSemanticLabelBytes = 96"
definition MaxReferenceKeyBytes :: nat where "MaxReferenceKeyBytes = 160"
definition MaxOpaqueHandleBytes :: nat where "MaxOpaqueHandleBytes = 192"
definition MaxSemanticPayloadBytes :: nat where "MaxSemanticPayloadBytes = 4 * 1024"
definition MaxDiagnosticBytes :: nat where "MaxDiagnosticBytes = 512"
definition MaxSuccessors :: nat where "MaxSuccessors = 16"
definition MaxArtifactInputs :: nat where "MaxArtifactInputs = 8"
definition MaxCausationHandles :: nat where "MaxCausationHandles = 16"
definition MaxViewConsequences :: nat where "MaxViewConsequences = 8"
definition MaxViewTargets :: nat where "MaxViewTargets = 64"
definition MaxViewHandles :: nat where "MaxViewHandles = 128"
definition MaxIntentCanonicalBytes :: nat where "MaxIntentCanonicalBytes = 12 * 1024"
definition MaxViewCanonicalBytes :: nat where "MaxViewCanonicalBytes = 16 * 1024"

lemmas bound_defs = MaxSemanticLabelBytes_def MaxReferenceKeyBytes_def MaxOpaqueHandleBytes_def
  MaxSemanticPayloadBytes_def MaxDiagnosticBytes_def MaxSuccessors_def MaxArtifactInputs_def
  MaxCausationHandles_def MaxViewConsequences_def MaxViewTargets_def MaxViewHandles_def
  MaxIntentCanonicalBytes_def MaxViewCanonicalBytes_def

section \<open>Digests\<close>

type_synonym Digest = bytes

definition zeroDigest :: Digest where
  "zeroDigest = replicate 32 (char_of (0::nat))"

definition Sum :: "bytes \<Rightarrow> Digest" where
  "Sum value = Sum256 value"

definition digestString :: "Digest \<Rightarrow> string" where
  "digestString d = ''sha256:'' @ hex_encode d"

definition ParseDigest :: "string \<Rightarrow> Digest result" where
  "ParseDigest value =
     (if take 7 value \<noteq> ''sha256:''
      then Inl (ErrInvalid ''digest'' ''must use sha256:<lowercase-hex>'')
      else
        let hexValue = drop 7 value
        in case hex_decode hexValue of
             None \<Rightarrow> Inl (ErrInvalid ''digest'' ''must use 64 lowercase hexadecimal characters'')
           | Some decoded \<Rightarrow>
               if length decoded \<noteq> 32
               then Inl (ErrInvalid ''digest'' ''must use 64 lowercase hexadecimal characters'')
               else if hexValue \<noteq> ToLower hexValue
               then Inl (ErrInvalid ''digest'' ''must use lowercase hexadecimal'')
               else if decoded = zeroDigest then Inl (ErrInvalid ''digest'' ''must not be zero'')
               else Inr decoded)"

definition digest_ok :: "Digest \<Rightarrow> bool" where
  "digest_ok d \<longleftrightarrow> length d = 32 \<and> d \<noteq> zeroDigest"

lemma length_Sum [simp]: "length (Sum v) = 32"
  by (simp add: Sum_def)

lemma digestString_inject [simp]: "digestString d = digestString e \<longleftrightarrow> d = e"
  by (simp add: digestString_def)

lemma is_ascii_digestString [simp]: "is_ascii (digestString d)"
  by (simp add: digestString_def)

lemma ParseDigest_Inr: "ParseDigest v = Inr d \<longleftrightarrow> digest_ok d \<and> v = digestString d"
proof
  assume parsed: "ParseDigest v = Inr d"
  then have pre: "take 7 v = ''sha256:''" and dec: "hex_decode (drop 7 v) = Some d"
    and low: "ToLower (drop 7 v) = drop 7 v" and ok: "digest_ok d"
    by (auto simp: ParseDigest_def digest_ok_def Let_def split: if_splits option.splits)
  have "v = ''sha256:'' @ drop 7 v" using pre by (metis append_take_drop_id)
  then show "digest_ok d \<and> v = digestString d"
    using hex_encode_decode [OF dec low] ok by (simp add: digestString_def)
next
  assume "digest_ok d \<and> v = digestString d"
  then show "ParseDigest v = Inr d"
    by (simp add: ParseDigest_def digestString_def digest_ok_def Let_def)
qed

section \<open>Tokens\<close>

definition isASCIILetter :: "char \<Rightarrow> bool \<Rightarrow> bool" where
  "isASCIILetter c lowercase \<longleftrightarrow>
     (97 \<le> code c \<and> code c \<le> 122) \<or> (\<not> lowercase \<and> 65 \<le> code c \<and> code c \<le> 90)"

definition isASCIIDigit :: "char \<Rightarrow> bool" where
  "isASCIIDigit c \<longleftrightarrow> 48 \<le> code c \<and> code c \<le> 57"

text \<open>The loop over the characters; \<open>start\<close> is \<^verbatim>\<open>index == 0\<close>.\<close>

fun tokenCharacters :: "bool \<Rightarrow> bool \<Rightarrow> string \<Rightarrow> bool" where
  "tokenCharacters start lowercase [] = True"
| "tokenCharacters start lowercase (c # cs) =
     (((isASCIILetter c lowercase \<or> isASCIIDigit c) \<or>
       (\<not> start \<and> (c = CHR ''.'' \<or> c = CHR ''_'' \<or> c = CHR ''-'' \<or> c = CHR '':'' \<or>
                    (\<not> lowercase \<and> c = CHR ''/''))))
      \<and> tokenCharacters False lowercase cs)"

definition validateToken :: "string \<Rightarrow> string \<Rightarrow> nat \<Rightarrow> bool \<Rightarrow> agencyError option" where
  "validateToken fld value maximum lowercase =
     (if value = [] then Some (ErrInvalid fld ''must not be empty'')
      else if maximum < length value then Some (ErrLimit fld (length value) maximum)
      else if \<not> tokenCharacters True lowercase value
      then Some (ErrInvalid fld ''contains a non-canonical character'')
      else if \<not> isASCIILetter (last value) lowercase \<and> \<not> isASCIIDigit (last value)
      then Some (ErrInvalid fld ''must end with an ASCII letter or digit'')
      else None)"

type_synonym SemanticLabel = string
type_synonym ReferenceKey = string
type_synonym OpaqueHandle = string
type_synonym SemanticPayload = string
type_synonym AgentPrincipalID = string
type_synonym AttachmentID = string
type_synonym EventID = string
type_synonym HandlingID = string
type_synonym OperationKey = string
type_synonym RouteID = string

definition NewSemanticLabel :: "string \<Rightarrow> SemanticLabel result" where
  "NewSemanticLabel value =
     (case validateToken ''semantic label'' value MaxSemanticLabelBytes True of
        Some e \<Rightarrow> Inl e | None \<Rightarrow> Inr value)"

definition NewReferenceKey :: "string \<Rightarrow> ReferenceKey result" where
  "NewReferenceKey value =
     (case validateToken ''reference key'' value MaxReferenceKeyBytes True of
        Some e \<Rightarrow> Inl e | None \<Rightarrow> Inr value)"

definition NewOpaqueHandle :: "string \<Rightarrow> OpaqueHandle result" where
  "NewOpaqueHandle value =
     (case validateToken ''opaque handle'' value MaxOpaqueHandleBytes False of
        Some e \<Rightarrow> Inl e | None \<Rightarrow> Inr value)"

definition newIdentifier :: "string \<Rightarrow> string \<Rightarrow> string result" where
  "newIdentifier fld value =
     (case validateToken fld value MaxOpaqueHandleBytes False of
        Some e \<Rightarrow> Inl e | None \<Rightarrow> Inr value)"

definition NewAgentPrincipalID :: "string \<Rightarrow> AgentPrincipalID result" where
  "NewAgentPrincipalID = newIdentifier ''AgentPrincipalID''"

definition NewAttachmentID :: "string \<Rightarrow> AttachmentID result" where
  "NewAttachmentID = newIdentifier ''AttachmentID''"

definition NewEventID :: "string \<Rightarrow> EventID result" where
  "NewEventID = newIdentifier ''EventID''"

definition NewHandlingID :: "string \<Rightarrow> HandlingID result" where
  "NewHandlingID = newIdentifier ''HandlingID''"

definition NewOperationKey :: "string \<Rightarrow> OperationKey result" where
  "NewOperationKey = newIdentifier ''operation key''"

definition NewRouteID :: "string \<Rightarrow> RouteID result" where
  "NewRouteID = newIdentifier ''route ID''"

definition NewSemanticPayload :: "string \<Rightarrow> SemanticPayload result" where
  "NewSemanticPayload value =
     (if \<not> ValidString value \<or> CHR 0x00 \<in> set value
      then Inl (ErrInvalid ''semantic payload'' ''must be valid UTF-8 without NUL'')
      else if MaxSemanticPayloadBytes < length value
      then Inl (ErrLimit ''semantic payload'' (length value) MaxSemanticPayloadBytes)
      else
        let encoded = Marshal (JStr value)
        in if length encoded < 2
           then Inl (ErrInvalid ''semantic payload'' ''cannot be encoded canonically'')
           else
             let encodedContentBytes = length encoded - 2
             in if MaxSemanticPayloadBytes < encodedContentBytes
                then Inl (ErrLimit ''semantic payload JSON bytes'' encodedContentBytes MaxSemanticPayloadBytes)
                else Inr value)"

text \<open>What the constructors accept.\<close>

definition token_ok :: "nat \<Rightarrow> bool \<Rightarrow> string \<Rightarrow> bool" where
  "token_ok maximum lowercase v \<longleftrightarrow> validateToken [] v maximum lowercase = None"

lemma validateToken_None [simp]: "validateToken f v m l = None \<longleftrightarrow> token_ok m l v"
  by (simp add: token_ok_def validateToken_def)

abbreviation label_ok :: "string \<Rightarrow> bool" where "label_ok \<equiv> token_ok MaxSemanticLabelBytes True"
abbreviation key_ok :: "string \<Rightarrow> bool" where "key_ok \<equiv> token_ok MaxReferenceKeyBytes True"
abbreviation handle_ok :: "string \<Rightarrow> bool" where "handle_ok \<equiv> token_ok MaxOpaqueHandleBytes False"

definition payload_ok :: "string \<Rightarrow> bool" where
  "payload_ok v \<longleftrightarrow> ValidString v \<and> CHR 0x00 \<notin> set v \<and> length v \<le> MaxSemanticPayloadBytes \<and>
     length (escape v) \<le> MaxSemanticPayloadBytes"

lemma option_result_Inr: "(case r of Some e \<Rightarrow> Inl e | None \<Rightarrow> Inr v) = Inr w \<longleftrightarrow> r = None \<and> w = v"
  by (auto split: option.splits)

lemma NewSemanticLabel_Inr: "NewSemanticLabel v = Inr w \<longleftrightarrow> label_ok v \<and> w = v"
  by (simp add: NewSemanticLabel_def option_result_Inr)

lemma NewReferenceKey_Inr: "NewReferenceKey v = Inr w \<longleftrightarrow> key_ok v \<and> w = v"
  by (simp add: NewReferenceKey_def option_result_Inr)

lemma NewOpaqueHandle_Inr: "NewOpaqueHandle v = Inr w \<longleftrightarrow> handle_ok v \<and> w = v"
  by (simp add: NewOpaqueHandle_def option_result_Inr)

lemma newIdentifier_Inr: "newIdentifier f v = Inr w \<longleftrightarrow> handle_ok v \<and> w = v"
  by (simp add: newIdentifier_def option_result_Inr)

lemma identifier_Inr:
  "NewAgentPrincipalID v = Inr w \<longleftrightarrow> handle_ok v \<and> w = v"
  "NewAttachmentID v = Inr w \<longleftrightarrow> handle_ok v \<and> w = v"
  "NewEventID v = Inr w \<longleftrightarrow> handle_ok v \<and> w = v"
  "NewHandlingID v = Inr w \<longleftrightarrow> handle_ok v \<and> w = v"
  "NewOperationKey v = Inr w \<longleftrightarrow> handle_ok v \<and> w = v"
  "NewRouteID v = Inr w \<longleftrightarrow> handle_ok v \<and> w = v"
  by (simp_all add: NewAgentPrincipalID_def NewAttachmentID_def NewEventID_def NewHandlingID_def
      NewOperationKey_def NewRouteID_def newIdentifier_Inr)

lemma NewSemanticPayload_Inr: "NewSemanticPayload v = Inr w \<longleftrightarrow> payload_ok v \<and> w = v"
  by (auto simp: NewSemanticPayload_def payload_ok_def Let_def)

lemmas constructor_Inr = NewSemanticLabel_Inr NewReferenceKey_Inr NewOpaqueHandle_Inr
  newIdentifier_Inr identifier_Inr NewSemanticPayload_Inr ParseDigest_Inr

text \<open>A token is not empty, within its bound, and JSON writes it as it is.\<close>

definition plain :: "char \<Rightarrow> bool" where
  "plain c \<longleftrightarrow> isASCIILetter c False \<or> isASCIIDigit c \<or> c \<in> {CHR ''.'', CHR ''_'', CHR ''-'', CHR '':'', CHR ''/''}"

lemma tokenCharacters_plain: "tokenCharacters b l s \<Longrightarrow> c \<in> set s \<Longrightarrow> plain c"
  by (induction b l s rule: tokenCharacters.induct) (auto simp: plain_def isASCIILetter_def)

lemma plain_ascii:
  assumes "plain c"
  shows "code c < 128" "esc_ascii c = [c]"
proof -
  have codes: "45 \<le> code c \<and> code c \<le> 122 \<and> code c \<notin> {60, 62, 92}"
    using assms unfolding plain_def isASCIILetter_def isASCIIDigit_def by auto
  then show "code c < 128" by simp
  have "c \<noteq> quote" "c \<noteq> backslash" "c \<noteq> CHR ''<''" "c \<noteq> CHR ''>''" "c \<noteq> CHR ''&''"
    using codes by (auto simp del: of_char_eq_iff)
  then show "esc_ascii c = [c]" using codes by (simp add: esc_ascii_def)
qed

lemma escape_plain: "(\<And>c. c \<in> set s \<Longrightarrow> plain c) \<Longrightarrow> escape s = s \<and> is_ascii s"
  by (induction s) (simp_all add: plain_ascii)

lemma token_okD:
  assumes "token_ok m l v"
  shows "v \<noteq> []" "length v \<le> m" "escape v = v" "is_ascii v"
proof -
  have t: "tokenCharacters True l v" and "v \<noteq> []" "length v \<le> m"
    using assms by (auto simp: token_ok_def validateToken_def split: if_splits)
  then show "v \<noteq> []" "length v \<le> m" by simp_all
  have "escape v = v \<and> is_ascii v" by (rule escape_plain) (rule tokenCharacters_plain [OF t])
  then show "escape v = v" "is_ascii v" by simp_all
qed

lemma token_ok_valid: "token_ok m l v \<Longrightarrow> ValidString v"
  by (simp add: token_okD)

section \<open>Event references and canonical encodings\<close>

record EventRef =
  ref_id :: EventID
  ref_digest :: Digest

definition zeroEventRef :: EventRef where
  "zeroEventRef = \<lparr>ref_id = [], ref_digest = zeroDigest\<rparr>"

definition NewEventRef :: "EventID \<Rightarrow> Digest \<Rightarrow> EventRef result" where
  "NewEventRef i d =
     (if i = [] \<or> d = zeroDigest then Inl (ErrInvalid ''Event reference'' ''ID and digest are required'')
      else Inr \<lparr>ref_id = i, ref_digest = d\<rparr>)"

definition refIsZero :: "EventRef \<Rightarrow> bool" where
  "refIsZero r \<longleftrightarrow> ref_id r = [] \<or> ref_digest r = zeroDigest"

record eventRefWire =
  wire_id :: string
  wire_digest :: string

definition refWire :: "EventRef \<Rightarrow> eventRefWire" where
  "refWire r = \<lparr>wire_id = ref_id r, wire_digest = digestString (ref_digest r)\<rparr>"

definition enc_eventRef :: "eventRefWire \<Rightarrow> json" where
  "enc_eventRef w = JObj [(''id'', JStr (wire_id w)), (''digest'', JStr (wire_digest w))]"

definition dec_eventRef :: "json \<Rightarrow> eventRefWire option" where
  "dec_eventRef j =
     do { kvs \<leftarrow> dec_struct [''id'', ''digest''] j;
          i \<leftarrow> field [] dec_string ''id'' kvs;
          d \<leftarrow> field [] dec_string ''digest'' kvs;
          Some \<lparr>wire_id = i, wire_digest = d\<rparr> }"

definition parseEventRef :: "eventRefWire \<Rightarrow> EventRef result" where
  "parseEventRef wire =
     bindE (NewEventID (wire_id wire)) (\<lambda>i.
     bindE (ParseDigest (wire_digest wire)) (\<lambda>d.
     NewEventRef i d))"

definition canonicalJSON :: "json \<Rightarrow> bytes \<times> Digest" where
  "canonicalJSON value = (let encoded = Marshal value in (encoded, Sum encoded))"

lemma canonicalJSON_simps [simp]: "fst (canonicalJSON j) = Marshal j" "snd (canonicalJSON j) = Sum (Marshal j)"
  by (simp_all add: canonicalJSON_def Let_def)

definition ref_ok :: "EventRef \<Rightarrow> bool" where
  "ref_ok r \<longleftrightarrow> handle_ok (ref_id r) \<and> digest_ok (ref_digest r)"

lemma refIsZero_zero [simp]: "refIsZero zeroEventRef"
  by (simp add: refIsZero_def zeroEventRef_def)

lemma ref_ok_nonzero: "ref_ok r \<Longrightarrow> \<not> refIsZero r"
  by (auto simp: ref_ok_def refIsZero_def digest_ok_def dest: token_okD)

lemma parseEventRef_Inr: "parseEventRef w = Inr r \<longleftrightarrow> ref_ok r \<and> w = refWire r"
proof
  assume "parseEventRef w = Inr r"
  then show "ref_ok r \<and> w = refWire r"
    by (auto simp: parseEventRef_def bindE_Inr constructor_Inr NewEventRef_def ref_ok_def refWire_def
        split: if_splits)
next
  assume r: "ref_ok r \<and> w = refWire r"
  then show "parseEventRef w = Inr r"
    using ref_ok_nonzero [of r]
    by (auto simp: parseEventRef_def bindE_Inr constructor_Inr NewEventRef_def ref_ok_def refWire_def
        refIsZero_def)
qed

lemma dec_enc_eventRef [json_simps]: "dec_eventRef (enc_eventRef w) = Some w"
  by (simp add: dec_eventRef_def enc_eventRef_def json_simps field_def)

lemma json_ok_eventRef: "ref_ok r \<Longrightarrow> json_ok (enc_eventRef (refWire r))"
  by (auto simp: enc_eventRef_def refWire_def ref_ok_def dest: token_ok_valid)

section \<open>Canonical times\<close>

definition canonicalTime :: "string \<Rightarrow> instant \<Rightarrow> instant result" where
  "canonicalTime fld value =
     (if value = zeroTime then Inl (ErrInvalid fld ''must not be zero'')
      else if \<not> (- (2 ^ 63) \<le> value \<and> value < 2 ^ 63)
      then Inl (ErrInvalid fld ''must round-trip through Unix nanoseconds'')
      else if parseInstant (RFC3339Nano value) \<noteq> Some value
      then Inl (ErrInvalid fld ''must round-trip through RFC3339Nano'')
      else Inr value)"

definition time_ok :: "instant \<Rightarrow> bool" where
  "time_ok t \<longleftrightarrow> - (2 ^ 63) \<le> t \<and> t < 2 ^ 63"

lemma canonicalTime_Inr: "canonicalTime f t = Inr u \<longleftrightarrow> time_ok t \<and> u = t"
proof -
  have "t \<noteq> zeroTime" if "time_ok t" using that by (auto simp: time_ok_def zeroTime_def nsPerDay_def unixDays_def)
  then show ?thesis
    using parseInstant_RFC3339Nano [OF formattable_int64, of t] by (auto simp: canonicalTime_def time_ok_def)
qed

lemma parse_time_ok: "time_ok t \<Longrightarrow> parseInstant (RFC3339Nano t) = Some t"
  by (simp add: time_ok_def parseInstant_RFC3339Nano formattable_int64)

end
