(* ===== verification/Agency_Intent.thy ===== *)
theory Agency_Intent
  imports Agency_Value
begin

text \<open>
  What an Agent may ask for (\<^verbatim>\<open>internal/agency/intent.go\<close>, \<^verbatim>\<open>intent_parse.go\<close>): the closed set of
  consequences, targets, Artifact inputs, and \<^verbatim>\<open>AgentIntent\<close> with its constructor, its canonical
  encoding and the reader of that encoding.

  A Go value of a token type is the zero value or was made by its constructor; \<open>spec_ok\<close> states it of
  the parts of an \<^verbatim>\<open>IntentSpec\<close>. The results: the reader takes back every Intent the constructor made,
  whatever it reads the constructor made, and every Intent has the shape its consequence asks for.
\<close>

section \<open>Consequences\<close>

datatype Consequence =
    ConsequenceInvalid
  | ConsequenceCreateHandlings
  | ConsequenceAdvanceHandling
  | ConsequenceResolveCompleted
  | ConsequenceResolveDeclined
  | ConsequenceResolveUnresolved
  | ConsequencePublishReference
  | ConsequenceSupersedeReference
  | ConsequenceRetractReference
  | ConsequenceObserveCompleted
  | ConsequenceObserveDeclined
  | ConsequenceObserveUnresolved

fun consequenceString :: "Consequence \<Rightarrow> string" where
  "consequenceString ConsequenceCreateHandlings = ''handling.create''"
| "consequenceString ConsequenceAdvanceHandling = ''handling.advance''"
| "consequenceString ConsequenceResolveCompleted = ''handling.resolve.completed''"
| "consequenceString ConsequenceResolveDeclined = ''handling.resolve.declined''"
| "consequenceString ConsequenceResolveUnresolved = ''handling.resolve.unresolved''"
| "consequenceString ConsequencePublishReference = ''reference.publish''"
| "consequenceString ConsequenceSupersedeReference = ''reference.supersede''"
| "consequenceString ConsequenceRetractReference = ''reference.retract''"
| "consequenceString ConsequenceObserveCompleted = ''observation.completed''"
| "consequenceString ConsequenceObserveDeclined = ''observation.declined''"
| "consequenceString ConsequenceObserveUnresolved = ''observation.unresolved''"
| "consequenceString ConsequenceInvalid = []"

text \<open>The closed consequences in the order of their numbers.\<close>

definition closedConsequences :: "Consequence list" where
  "closedConsequences =
     [ConsequenceCreateHandlings, ConsequenceAdvanceHandling, ConsequenceResolveCompleted,
      ConsequenceResolveDeclined, ConsequenceResolveUnresolved, ConsequencePublishReference,
      ConsequenceSupersedeReference, ConsequenceRetractReference, ConsequenceObserveCompleted,
      ConsequenceObserveDeclined, ConsequenceObserveUnresolved]"

definition agentDeclarable :: "Consequence \<Rightarrow> bool" where
  "agentDeclarable c \<longleftrightarrow> c \<in> set (take 8 closedConsequences)"

definition observation :: "Consequence \<Rightarrow> bool" where
  "observation c \<longleftrightarrow> c \<in> set (drop 8 closedConsequences)"

definition subjectBound :: "Consequence \<Rightarrow> bool" where
  "subjectBound c \<longleftrightarrow> c \<in> set (take 4 (drop 1 closedConsequences))"

definition referenceBound :: "Consequence \<Rightarrow> bool" where
  "referenceBound c \<longleftrightarrow> c \<in> set (take 3 (drop 5 closedConsequences))"

definition isTerminalConsequence :: "Consequence \<Rightarrow> bool" where
  "isTerminalConsequence c \<longleftrightarrow>
     c = ConsequenceResolveCompleted \<or> c = ConsequenceResolveDeclined \<or> c = ConsequenceResolveUnresolved"

lemmas consequence_defs = agentDeclarable_def observation_def subjectBound_def referenceBound_def
  isTerminalConsequence_def closedConsequences_def

definition parseConsequence :: "string \<Rightarrow> Consequence result" where
  "parseConsequence value =
     (case List.find (\<lambda>c. consequenceString c = value) closedConsequences of
        Some c \<Rightarrow> Inr c
      | None \<Rightarrow> Inl (ErrInvalid ''Intent consequence'' ''is not a closed consequence''))"

lemma parseConsequence_Inr:
  "parseConsequence v = Inr c \<longleftrightarrow> c \<noteq> ConsequenceInvalid \<and> v = consequenceString c"
proof
  assume "parseConsequence v = Inr c"
  then have "List.find (\<lambda>c. consequenceString c = v) closedConsequences = Some c"
    by (auto simp: parseConsequence_def split: option.splits)
  from find_Some_iff_mem [OF this] show "c \<noteq> ConsequenceInvalid \<and> v = consequenceString c"
    by (auto simp: closedConsequences_def)
next
  assume "c \<noteq> ConsequenceInvalid \<and> v = consequenceString c"
  then show "parseConsequence v = Inr c"
    by (cases c) (simp_all add: parseConsequence_def closedConsequences_def)
qed

lemma consequenceString_plain: "is_ascii (consequenceString c)"
  by (cases c) simp_all

section \<open>Targets and Artifact inputs\<close>

record TargetRef =
  targetSelf :: bool
  targetAlias :: OpaqueHandle

definition zeroTarget :: TargetRef where
  "zeroTarget = \<lparr>targetSelf = False, targetAlias = []\<rparr>"

definition SelfTarget :: TargetRef where
  "SelfTarget = \<lparr>targetSelf = True, targetAlias = []\<rparr>"

definition AliasTarget :: "OpaqueHandle \<Rightarrow> TargetRef result" where
  "AliasTarget a =
     (if a = [] then Inl (ErrInvalid ''target alias'' ''must not be zero'')
      else if a = ''self'' then Inl (ErrInvalid ''target alias'' ''self is reserved for the local Principal'')
      else Inr \<lparr>targetSelf = False, targetAlias = a\<rparr>)"

definition targetIsZero :: "TargetRef \<Rightarrow> bool" where
  "targetIsZero t \<longleftrightarrow> \<not> targetSelf t \<and> targetAlias t = []"

definition canonicalKey :: "TargetRef \<Rightarrow> string" where
  "canonicalKey t = (if targetSelf t then ''self'' else ''alias:'' @ targetAlias t)"

datatype ArtifactInputKind = ArtifactInputInvalid | ArtifactInputCandidate | ArtifactInputViewHandle

record ArtifactInput =
  input_kind :: ArtifactInputKind
  input_handle :: OpaqueHandle

definition newArtifactInput :: "ArtifactInputKind \<Rightarrow> OpaqueHandle \<Rightarrow> ArtifactInput result" where
  "newArtifactInput k h =
     (if h = [] then Inl (ErrInvalid ''Artifact input'' ''handle must not be zero'')
      else Inr \<lparr>input_kind = k, input_handle = h\<rparr>)"

definition NewArtifactCandidate :: "OpaqueHandle \<Rightarrow> ArtifactInput result" where
  "NewArtifactCandidate = newArtifactInput ArtifactInputCandidate"

definition NewArtifactViewHandle :: "OpaqueHandle \<Rightarrow> ArtifactInput result" where
  "NewArtifactViewHandle = newArtifactInput ArtifactInputViewHandle"

definition inputCanonicalKey :: "ArtifactInput \<Rightarrow> string" where
  "inputCanonicalKey i =
     (case input_kind i of
        ArtifactInputInvalid \<Rightarrow> ''0''
      | ArtifactInputCandidate \<Rightarrow> ''1''
      | ArtifactInputViewHandle \<Rightarrow> ''2'') @ '':'' @ input_handle i"

section \<open>Intents\<close>

record IntentSpec =
  kind :: SemanticLabel
  payload :: SemanticPayload
  consequence :: Consequence
  subjectHandling :: OpaqueHandle
  successors :: "TargetRef list"
  referenceKey :: ReferenceKey
  referenceHead :: OpaqueHandle
  artifacts :: "ArtifactInput list"
  causationHandles :: "OpaqueHandle list"
  correlationHandle :: OpaqueHandle

record AgentIntent = IntentSpec +
  canonical :: bytes

definition validateRootIntentShape :: "IntentSpec \<Rightarrow> agencyError option" where
  "validateRootIntentShape spec =
     (if subjectHandling spec \<noteq> [] \<or> referenceKey spec \<noteq> [] \<or> referenceHead spec \<noteq> []
      then Some (ErrInvariant ''root Intent'' ''cannot name a subject Handling or Reference'')
      else if length (successors spec) = 0
      then Some (ErrInvariant ''root Intent'' ''must create at least one successor'')
      else None)"

definition validateSubjectIntentShape :: "IntentSpec \<Rightarrow> agencyError option" where
  "validateSubjectIntentShape spec =
     (if subjectHandling spec = [] \<or> referenceKey spec \<noteq> [] \<or> referenceHead spec \<noteq> []
      then Some (ErrInvariant ''subject Intent'' ''requires one subject and no Reference'')
      else None)"

definition validateReferencePublishShape :: "IntentSpec \<Rightarrow> agencyError option" where
  "validateReferencePublishShape spec =
     (if subjectHandling spec \<noteq> [] \<or> length (successors spec) \<noteq> 0 \<or> referenceKey spec = [] \<or>
         referenceHead spec \<noteq> [] \<or> length (artifacts spec) \<noteq> 1
      then Some (ErrInvariant ''Reference publish'' ''requires one new key and one Artifact only'')
      else None)"

definition validateReferenceSupersedeShape :: "IntentSpec \<Rightarrow> agencyError option" where
  "validateReferenceSupersedeShape spec =
     (if subjectHandling spec \<noteq> [] \<or> length (successors spec) \<noteq> 0 \<or> referenceKey spec \<noteq> [] \<or>
         referenceHead spec = [] \<or> length (artifacts spec) \<noteq> 1
      then Some (ErrInvariant ''Reference supersede'' ''requires one offered head and one Artifact only'')
      else None)"

definition validateReferenceRetractShape :: "IntentSpec \<Rightarrow> agencyError option" where
  "validateReferenceRetractShape spec =
     (if subjectHandling spec \<noteq> [] \<or> length (successors spec) \<noteq> 0 \<or> referenceKey spec \<noteq> [] \<or>
         referenceHead spec = [] \<or> length (artifacts spec) \<noteq> 0
      then Some (ErrInvariant ''Reference retract'' ''requires one offered head and no Artifact'')
      else None)"

definition validateIntentShape :: "IntentSpec \<Rightarrow> agencyError option" where
  "validateIntentShape spec =
     (case consequence spec of
        ConsequenceCreateHandlings \<Rightarrow> validateRootIntentShape spec
      | ConsequenceAdvanceHandling \<Rightarrow> validateSubjectIntentShape spec
      | ConsequenceResolveCompleted \<Rightarrow> validateSubjectIntentShape spec
      | ConsequenceResolveDeclined \<Rightarrow> validateSubjectIntentShape spec
      | ConsequenceResolveUnresolved \<Rightarrow> validateSubjectIntentShape spec
      | ConsequencePublishReference \<Rightarrow> validateReferencePublishShape spec
      | ConsequenceSupersedeReference \<Rightarrow> validateReferenceSupersedeShape spec
      | ConsequenceRetractReference \<Rightarrow> validateReferenceRetractShape spec
      | _ \<Rightarrow> None)"

text \<open>The loop over the Artifact inputs, with the keys it has seen.\<close>

fun checkArtifactInputs :: "string set \<Rightarrow> ArtifactInput list \<Rightarrow> agencyError option" where
  "checkArtifactInputs seen [] = None"
| "checkArtifactInputs seen (a # as) =
     (if input_kind a = ArtifactInputInvalid
      then Some (ErrInvalid ''Intent Artifacts'' ''contains an invalid input kind'')
      else if input_handle a = []
      then Some (ErrInvalid ''Intent Artifacts'' ''contains a zero handle'')
      else if inputCanonicalKey a \<in> seen
      then Some (ErrInvalid ''Intent Artifacts'' ''contains a duplicate input'')
      else checkArtifactInputs (insert (inputCanonicalKey a) seen) as)"

definition normalizeHandles :: "string \<Rightarrow> OpaqueHandle list \<Rightarrow> nat \<Rightarrow> OpaqueHandle list result" where
  "normalizeHandles fld handles maximum =
     (if maximum < length handles then Inl (ErrLimit fld (length handles) maximum)
      else if [] \<in> set handles then Inl (ErrInvalid fld ''contains a zero handle'')
      else let result = sort handles
           in if \<not> distinct_adj result then Inl (ErrInvalid fld ''contains a duplicate handle'')
              else Inr result)"

subsection \<open>The wire form\<close>

record targetWire =
  wire_self :: bool
  wire_alias :: string

record artifactInputWire =
  wire_kind :: string
  wire_handle :: string

record intentWire =
  w_kind :: string
  w_payload :: string
  w_consequence :: string
  w_subjectHandling :: string
  w_successors :: "targetWire list"
  w_referenceKey :: string
  w_referenceHead :: string
  w_artifacts :: "artifactInputWire list"
  w_causationHandles :: "string list"
  w_correlationHandle :: string

definition targetToWire :: "TargetRef \<Rightarrow> targetWire" where
  "targetToWire t = \<lparr>wire_self = targetSelf t, wire_alias = targetAlias t\<rparr>"

definition inputToWire :: "ArtifactInput \<Rightarrow> artifactInputWire" where
  "inputToWire i =
     \<lparr>wire_kind = (if input_kind i = ArtifactInputViewHandle then ''view_handle'' else ''candidate''),
      wire_handle = input_handle i\<rparr>"

definition intentToWire :: "('a) IntentSpec_scheme \<Rightarrow> intentWire" where
  "intentToWire i =
     \<lparr>w_kind = kind i, w_payload = payload i, w_consequence = consequenceString (consequence i),
      w_subjectHandling = subjectHandling i, w_successors = map targetToWire (successors i),
      w_referenceKey = referenceKey i, w_referenceHead = referenceHead i,
      w_artifacts = map inputToWire (artifacts i), w_causationHandles = causationHandles i,
      w_correlationHandle = correlationHandle i\<rparr>"

definition enc_target :: "targetWire \<Rightarrow> json" where
  "enc_target w =
     JObj (omitempty ''self'' (wire_self w) (JBool (wire_self w)) @
           omitempty ''alias'' (wire_alias w \<noteq> []) (JStr (wire_alias w)))"

definition enc_input :: "artifactInputWire \<Rightarrow> json" where
  "enc_input w = JObj [(''kind'', JStr (wire_kind w)), (''handle'', JStr (wire_handle w))]"

definition enc_strings :: "string list \<Rightarrow> json" where
  "enc_strings ss = JArr (map JStr ss)"

definition enc_intent :: "intentWire \<Rightarrow> json" where
  "enc_intent w =
     JObj ((''kind'', JStr (w_kind w)) # (''payload'', JStr (w_payload w)) #
           (''consequence'', JStr (w_consequence w)) #
           omitempty ''subject_handling'' (w_subjectHandling w \<noteq> []) (JStr (w_subjectHandling w)) @
           omitempty ''successors'' (w_successors w \<noteq> []) (JArr (map enc_target (w_successors w))) @
           omitempty ''reference_key'' (w_referenceKey w \<noteq> []) (JStr (w_referenceKey w)) @
           omitempty ''reference_head'' (w_referenceHead w \<noteq> []) (JStr (w_referenceHead w)) @
           omitempty ''artifacts'' (w_artifacts w \<noteq> []) (JArr (map enc_input (w_artifacts w))) @
           omitempty ''causation_handles'' (w_causationHandles w \<noteq> []) (enc_strings (w_causationHandles w)) @
           omitempty ''correlation_handle'' (w_correlationHandle w \<noteq> []) (JStr (w_correlationHandle w)))"

definition NewAgentIntent :: "IntentSpec \<Rightarrow> AgentIntent result" where
  "NewAgentIntent spec =
     (if kind spec = [] then Inl (ErrInvalid ''Intent kind'' ''must not be zero'')
      else if \<not> agentDeclarable (consequence spec)
      then Inl (ErrInvalid ''Intent consequence'' ''must be an Agent-declarable consequence'')
      else case validateIntentShape spec of Some e \<Rightarrow> Inl e | None \<Rightarrow>
      if MaxSuccessors < length (successors spec)
      then Inl (ErrLimit ''Intent successors'' (length (successors spec)) MaxSuccessors)
      else if list_ex targetIsZero (successors spec)
      then Inl (ErrInvalid ''Intent successors'' ''contains a zero target'')
      else if \<not> distinct (map canonicalKey (successors spec))
      then Inl (ErrInvalid ''Intent successors'' ''contains a duplicate target'')
      else if MaxArtifactInputs < length (artifacts spec)
      then Inl (ErrLimit ''Intent Artifacts'' (length (artifacts spec)) MaxArtifactInputs)
      else case checkArtifactInputs {} (artifacts spec) of Some e \<Rightarrow> Inl e | None \<Rightarrow>
      bindE (normalizeHandles ''Intent causation'' (causationHandles spec) MaxCausationHandles)
        (\<lambda>causation.
          let intent = IntentSpec.extend (spec\<lparr>causationHandles := causation\<rparr>) \<lparr>canonical = []\<rparr>;
              canonicalBytes = fst (canonicalJSON (enc_intent (intentToWire intent)))
          in if MaxIntentCanonicalBytes < length canonicalBytes
             then Inl (ErrLimit ''Intent canonical bytes'' (length canonicalBytes) MaxIntentCanonicalBytes)
             else Inr (intent\<lparr>canonical := canonicalBytes\<rparr>)))"

section \<open>Reading an Intent\<close>

definition dec_target :: "json \<Rightarrow> targetWire option" where
  "dec_target j =
     do { kvs \<leftarrow> dec_struct [''self'', ''alias''] j;
          s \<leftarrow> field False dec_bool ''self'' kvs;
          a \<leftarrow> field [] dec_string ''alias'' kvs;
          Some \<lparr>wire_self = s, wire_alias = a\<rparr> }"

definition dec_input :: "json \<Rightarrow> artifactInputWire option" where
  "dec_input j =
     do { kvs \<leftarrow> dec_struct [''kind'', ''handle''] j;
          k \<leftarrow> field [] dec_string ''kind'' kvs;
          h \<leftarrow> field [] dec_string ''handle'' kvs;
          Some \<lparr>wire_kind = k, wire_handle = h\<rparr> }"

definition intentKeys :: "string list" where
  "intentKeys = [''kind'', ''payload'', ''consequence'', ''subject_handling'', ''successors'',
     ''reference_key'', ''reference_head'', ''artifacts'', ''causation_handles'', ''correlation_handle'']"

definition dec_intent :: "json \<Rightarrow> intentWire option" where
  "dec_intent j =
     do { kvs \<leftarrow> dec_struct intentKeys j;
          k \<leftarrow> field [] dec_string ''kind'' kvs;
          p \<leftarrow> field [] dec_string ''payload'' kvs;
          c \<leftarrow> field [] dec_string ''consequence'' kvs;
          sh \<leftarrow> field [] dec_string ''subject_handling'' kvs;
          ss \<leftarrow> field [] (dec_list dec_target) ''successors'' kvs;
          rk \<leftarrow> field [] dec_string ''reference_key'' kvs;
          rh \<leftarrow> field [] dec_string ''reference_head'' kvs;
          as \<leftarrow> field [] (dec_list dec_input) ''artifacts'' kvs;
          cs \<leftarrow> field [] (dec_list dec_string) ''causation_handles'' kvs;
          ch \<leftarrow> field [] dec_string ''correlation_handle'' kvs;
          Some \<lparr>w_kind = k, w_payload = p, w_consequence = c, w_subjectHandling = sh,
                w_successors = ss, w_referenceKey = rk, w_referenceHead = rh, w_artifacts = as,
                w_causationHandles = cs, w_correlationHandle = ch\<rparr> }"

text \<open>
  \<^verbatim>\<open>requireObjectArrayKeys\<close>: the value is a list of objects (or \<^verbatim>\<open>null\<close>) whose members are all
  allowed; \<^verbatim>\<open>requireExactIntentWireKeys\<close>: the names of the members, spelled exactly. The source
  reads the text three times (for duplicate keys, for the names, for the values); the model reads it
  once, to a tree, and looks at the tree three times. Both accept the same texts. Where a text is
  malformed after a duplicate key, the source reports the duplicate and the model the malformed text.
\<close>

definition objectKeys :: "json \<Rightarrow> string set option" where
  "objectKeys j = (case j of JObj kvs \<Rightarrow> Some (set (map fst kvs)) | JNull \<Rightarrow> Some {} | _ \<Rightarrow> None)"

definition requireObjectArrayKeys :: "string \<Rightarrow> json \<Rightarrow> string list \<Rightarrow> agencyError option" where
  "requireObjectArrayKeys fld raw allowed =
     (case dec_list objectKeys raw of
        None \<Rightarrow> Some (ErrDecode fld)
      | Some objects \<Rightarrow>
          if list_all (\<lambda>keys. keys \<subseteq> set allowed) objects then None
          else Some (ErrInvalid fld ''contains a non-canonical field name''))"

definition requireExactIntentWireKeys :: "json \<Rightarrow> agencyError option" where
  "requireExactIntentWireKeys j =
     (case (case j of JObj kvs \<Rightarrow> Some kvs | JNull \<Rightarrow> Some [] | _ \<Rightarrow> None) of
        None \<Rightarrow> Some (ErrDecode ''Agent Intent fields'')
      | Some kvs \<Rightarrow>
          if \<not> set (map fst kvs) \<subseteq> set intentKeys
          then Some (ErrInvalid ''Intent JSON'' ''contains a non-canonical field name'')
          else if \<not> {''kind'', ''payload'', ''consequence''} \<subseteq> set (map fst kvs)
          then Some (ErrInvalid ''Intent JSON'' ''omits a required field'')
          else
            case (case map_of kvs ''successors'' of
                    Some raw \<Rightarrow> requireObjectArrayKeys ''Intent successor'' raw [''self'', ''alias'']
                  | None \<Rightarrow> None) of
              Some e \<Rightarrow> Some e
            | None \<Rightarrow>
                (case map_of kvs ''artifacts'' of
                   Some raw \<Rightarrow> requireObjectArrayKeys ''Intent Artifact'' raw [''kind'', ''handle'']
                 | None \<Rightarrow> None))"

definition rejectDuplicateJSONKeys :: "string \<Rightarrow> json \<Rightarrow> agencyError option" where
  "rejectDuplicateJSONKeys fld j =
     (if unique_keys j then None
      else Some (ErrWrapped ''agency: inspect'' (ErrInvalid fld ''contains a duplicate object key'')))"

definition parseOptionalHandle :: "string \<Rightarrow> string \<Rightarrow> OpaqueHandle result" where
  "parseOptionalHandle fld value =
     (if value = [] then Inr []
      else case NewOpaqueHandle value of Inl e \<Rightarrow> Inl (ErrWrapped fld e) | Inr h \<Rightarrow> Inr h)"

definition parseOptionalReferenceKey :: "string \<Rightarrow> ReferenceKey result" where
  "parseOptionalReferenceKey value = (if value = [] then Inr [] else NewReferenceKey value)"

definition parseTargetWith :: "string \<Rightarrow> targetWire \<Rightarrow> TargetRef result" where
  "parseTargetWith fld w =
     (if wire_self w = (wire_alias w \<noteq> [])
      then Inl (ErrInvalid fld ''must contain exactly one of self or alias'')
      else if wire_self w then Inr SelfTarget
      else bindE (NewOpaqueHandle (wire_alias w)) AliasTarget)"

definition parseTargets :: "targetWire list \<Rightarrow> TargetRef list result" where
  "parseTargets = mapE (parseTargetWith ''Intent target'')"

definition parseArtifactInput :: "artifactInputWire \<Rightarrow> ArtifactInput result" where
  "parseArtifactInput w =
     bindE (NewOpaqueHandle (wire_handle w)) (\<lambda>h.
       if wire_kind w = ''candidate'' then NewArtifactCandidate h
       else if wire_kind w = ''view_handle'' then NewArtifactViewHandle h
       else Inl (ErrInvalid ''Intent Artifact kind'' ''is not candidate or view_handle''))"

definition parseArtifactInputs :: "artifactInputWire list \<Rightarrow> ArtifactInput list result" where
  "parseArtifactInputs = mapE parseArtifactInput"

definition parseHandles :: "string \<Rightarrow> string list \<Rightarrow> OpaqueHandle list result" where
  "parseHandles fld =
     mapE (\<lambda>v. case NewOpaqueHandle v of Inl e \<Rightarrow> Inl (ErrWrapped fld e) | Inr h \<Rightarrow> Inr h)"

definition intentFromWire :: "intentWire \<Rightarrow> AgentIntent result" where
  "intentFromWire w =
     bindE (NewSemanticLabel (w_kind w)) (\<lambda>k.
     bindE (NewSemanticPayload (w_payload w)) (\<lambda>p.
     bindE (parseConsequence (w_consequence w)) (\<lambda>c.
     bindE (parseOptionalHandle ''subject Handling'' (w_subjectHandling w)) (\<lambda>sub.
     bindE (parseOptionalHandle ''Reference head'' (w_referenceHead w)) (\<lambda>rh.
     bindE (parseOptionalHandle ''correlation'' (w_correlationHandle w)) (\<lambda>cor.
     bindE (parseOptionalReferenceKey (w_referenceKey w)) (\<lambda>rk.
     bindE (parseTargets (w_successors w)) (\<lambda>ss.
     bindE (parseArtifactInputs (w_artifacts w)) (\<lambda>as.
     bindE (parseHandles ''causation'' (w_causationHandles w)) (\<lambda>cs.
     NewAgentIntent
       \<lparr>kind = k, payload = p, consequence = c, subjectHandling = sub, successors = ss,
        referenceKey = rk, referenceHead = rh, artifacts = as, causationHandles = cs,
        correlationHandle = cor\<rparr>))))))))))"

definition ParseAgentIntentJSON :: "bytes \<Rightarrow> AgentIntent result" where
  "ParseAgentIntentJSON data =
     (if length data = 0 then Inl (ErrInvalid ''Intent JSON'' ''must not be empty'')
      else if MaxIntentCanonicalBytes < length data
      then Inl (ErrLimit ''Intent JSON bytes'' (length data) MaxIntentCanonicalBytes)
      else case Unmarshal data of
        None \<Rightarrow> Inl (ErrDecode ''Agent Intent JSON'')
      | Some j \<Rightarrow>
          case rejectDuplicateJSONKeys ''Agent Intent JSON'' j of Some e \<Rightarrow> Inl e | None \<Rightarrow>
          case requireExactIntentWireKeys j of Some e \<Rightarrow> Inl e | None \<Rightarrow>
          case dec_intent j of None \<Rightarrow> Inl (ErrDecode ''Agent Intent'') | Some wire \<Rightarrow>
          intentFromWire wire)"

section \<open>Round trip\<close>

definition optional :: "(string \<Rightarrow> bool) \<Rightarrow> string \<Rightarrow> bool" where
  "optional ok v \<longleftrightarrow> v = [] \<or> ok v"

definition target_ok :: "TargetRef \<Rightarrow> bool" where
  "target_ok t \<longleftrightarrow>
     (if targetSelf t then targetAlias t = [] else handle_ok (targetAlias t) \<and> targetAlias t \<noteq> ''self'')"

definition input_ok :: "ArtifactInput \<Rightarrow> bool" where
  "input_ok a \<longleftrightarrow> input_kind a \<noteq> ArtifactInputInvalid \<and> handle_ok (input_handle a)"

text \<open>Every part of the value is a zero value or one its constructor made.\<close>

definition spec_ok :: "'a IntentSpec_scheme \<Rightarrow> bool" where
  "spec_ok i \<longleftrightarrow>
     optional label_ok (kind i) \<and> payload_ok (payload i) \<and> optional handle_ok (subjectHandling i) \<and>
     (\<forall>t \<in> set (successors i). t = zeroTarget \<or> target_ok t) \<and>
     optional key_ok (referenceKey i) \<and> optional handle_ok (referenceHead i) \<and>
     (\<forall>a \<in> set (artifacts i). optional handle_ok (input_handle a)) \<and>
     (\<forall>h \<in> set (causationHandles i). optional handle_ok h) \<and>
     optional handle_ok (correlationHandle i)"

lemma dec_enc_target [json_simps]: "dec_target (enc_target w) = Some w"
  by (cases w) (simp add: dec_target_def enc_target_def json_simps image_Un)

lemma dec_enc_input [json_simps]: "dec_input (enc_input w) = Some w"
  by (cases w) (simp add: dec_input_def enc_input_def json_simps)

lemma dec_enc_strings [json_simps]: "dec_list dec_string (enc_strings ss) = Some ss"
  by (simp add: enc_strings_def json_simps)

lemma dec_enc_intent [json_simps]: "dec_intent (enc_intent w) = Some w"
  by (cases w)
    (simp add: dec_intent_def enc_intent_def json_simps image_Un intentKeys_def)

lemma unique_enc_target [keys_simps]: "unique_keys (enc_target w)"
  by (simp add: enc_target_def keys_simps)

lemma unique_enc_input [keys_simps]: "unique_keys (enc_input w)"
  by (simp add: enc_input_def)

lemma unique_enc_intent: "unique_keys (enc_intent w)"
  by (simp add: enc_intent_def enc_strings_def keys_simps)

lemma keys_enc_intent:
  "enc_intent w = JObj kvs \<Longrightarrow> fst ` set kvs \<subseteq> set intentKeys \<and>
     {''kind'', ''payload'', ''consequence''} \<subseteq> fst ` set kvs \<and>
     map_of kvs ''successors'' =
       (if w_successors w = [] then None else Some (JArr (map enc_target (w_successors w)))) \<and>
     map_of kvs ''artifacts'' =
       (if w_artifacts w = [] then None else Some (JArr (map enc_input (w_artifacts w))))"
  by (simp only: enc_intent_def json.inject, hypsubst)
    (simp add: json_simps image_Un intentKeys_def del: map_of_append)

lemma requireObjectArrayKeys_enc:
  assumes "\<And>w. \<exists>kvs. enc w = JObj kvs \<and> fst ` set kvs \<subseteq> set allowed"
  shows "requireObjectArrayKeys f (JArr (map enc ws)) allowed = None"
proof -
  obtain g where g: "\<And>w. enc w = JObj (g w)" "\<And>w. fst ` set (g w) \<subseteq> set allowed"
    using assms by metis
  have "those (map objectKeys (map enc ws)) = Some (map (\<lambda>w. fst ` set (g w)) ws)"
    by (induction ws) (simp_all add: objectKeys_def g flip: set_map)
  then show ?thesis
    using g(2) by (simp add: requireObjectArrayKeys_def dec_list_def list_all_iff)
qed

lemma requireExactIntentWireKeys_enc: "requireExactIntentWireKeys (enc_intent w) = None"
proof -
  obtain kvs where kvs: "enc_intent w = JObj kvs" by (simp add: enc_intent_def)
  have target: "requireObjectArrayKeys f (JArr (map enc_target ws)) [''self'', ''alias''] = None" for f ws
    by (rule requireObjectArrayKeys_enc) (simp add: enc_target_def json_simps image_Un)
  have input: "requireObjectArrayKeys f (JArr (map enc_input ws)) [''kind'', ''handle''] = None" for f ws
    by (rule requireObjectArrayKeys_enc) (simp add: enc_input_def)
  show ?thesis
    using keys_enc_intent [OF kvs]
    by (simp add: requireExactIntentWireKeys_def kvs target input)
qed

lemma optional_valid: "optional (token_ok m l) v \<Longrightarrow> ValidString v"
  by (auto simp: optional_def dest: token_ok_valid)

lemma json_ok_intent:
  assumes "spec_ok i"
  shows "json_ok (enc_intent (intentToWire i))"
proof -
  have target: "json_ok (enc_target (targetToWire t))" if "t \<in> set (successors i)" for t
    using assms that
    by (auto simp: spec_ok_def enc_target_def targetToWire_def json_simps zeroTarget_def target_ok_def
        dest!: bspec [of _ _ t] dest: token_ok_valid split: if_splits)
  have input: "json_ok (enc_input (inputToWire a))" if "a \<in> set (artifacts i)" for a
    using assms that
    by (auto simp: spec_ok_def enc_input_def inputToWire_def dest!: bspec [of _ _ a] optional_valid)
  have causal: "ValidString h" if "h \<in> set (causationHandles i)" for h
    using assms that by (auto simp: spec_ok_def dest!: bspec [of _ _ h] optional_valid)
  have "ValidString (kind i)" "ValidString (payload i)" "ValidString (subjectHandling i)"
    "ValidString (referenceKey i)" "ValidString (referenceHead i)" "ValidString (correlationHandle i)"
    using assms by (auto simp: spec_ok_def payload_ok_def dest: optional_valid)
  then show ?thesis
    using target input causal
    by (simp add: enc_intent_def intentToWire_def enc_strings_def json_simps consequenceString_plain)
qed

lemma parseTargetWith_wire: "target_ok t \<Longrightarrow> parseTargetWith f (targetToWire t) = Inr t"
  by (cases t)
    (auto simp: parseTargetWith_def targetToWire_def target_ok_def SelfTarget_def AliasTarget_def
      bindE_Inr constructor_Inr dest: token_okD split: if_splits)

lemma parseArtifactInput_wire: "input_ok a \<Longrightarrow> parseArtifactInput (inputToWire a) = Inr a"
  by (cases a; cases "input_kind a")
    (auto simp: parseArtifactInput_def inputToWire_def input_ok_def NewArtifactCandidate_def
      NewArtifactViewHandle_def newArtifactInput_def bindE_Inr constructor_Inr dest: token_okD)

lemma parseOptionalHandle_Inr: "optional handle_ok v \<Longrightarrow> parseOptionalHandle f v = Inr v"
  by (auto simp: parseOptionalHandle_def optional_def constructor_Inr split: sum.splits)
    (metis constructor_Inr(3) sum.distinct(1))

lemma parseOptionalReferenceKey_Inr: "optional key_ok v \<Longrightarrow> parseOptionalReferenceKey v = Inr v"
  by (auto simp: parseOptionalReferenceKey_def optional_def constructor_Inr)

lemma parseHandles_Inr: "\<forall>h \<in> set hs. handle_ok h \<Longrightarrow> parseHandles f hs = Inr hs"
proof (induction hs)
  case (Cons h hs)
  then have "NewOpaqueHandle h = Inr h" by (simp add: constructor_Inr)
  with Cons show ?case by (simp add: parseHandles_def)
qed (simp add: parseHandles_def)

text \<open>What the constructor establishes, and that it takes its own result back.\<close>

definition intent_ok :: "AgentIntent \<Rightarrow> bool" where
  "intent_ok i \<longleftrightarrow> spec_ok i \<and> NewAgentIntent (IntentSpec.truncate i) = Inr i"

lemma checkArtifactInputs_None:
  "checkArtifactInputs S as = None \<Longrightarrow>
   \<forall>a \<in> set as. input_kind a \<noteq> ArtifactInputInvalid \<and> input_handle a \<noteq> []"
  by (induction S as rule: checkArtifactInputs.induct) (auto split: if_splits)

lemma NewAgentIntent_Inr:
  assumes "NewAgentIntent spec = Inr i"
  shows "kind spec \<noteq> []" "agentDeclarable (consequence spec)" "validateIntentShape spec = None"
    "length (successors spec) \<le> MaxSuccessors" "\<forall>t \<in> set (successors spec). \<not> targetIsZero t"
    "distinct (map canonicalKey (successors spec))" "length (artifacts spec) \<le> MaxArtifactInputs"
    "checkArtifactInputs {} (artifacts spec) = None"
    "normalizeHandles ''Intent causation'' (causationHandles spec) MaxCausationHandles = Inr (sort (causationHandles spec))"
    "length (Marshal (enc_intent (intentToWire i))) \<le> MaxIntentCanonicalBytes"
    "i = IntentSpec.extend (spec\<lparr>causationHandles := sort (causationHandles spec)\<rparr>)
          \<lparr>canonical = Marshal (enc_intent (intentToWire i))\<rparr>"
  using assms
  by (auto simp: NewAgentIntent_def normalizeHandles_def canonicalJSON_def Let_def bindE_Inr
      list_ex_iff IntentSpec.defs intentToWire_def split: if_splits option.splits)

lemma intent_fields [simp]:
  "kind (IntentSpec.truncate i) = kind i" "payload (IntentSpec.truncate i) = payload i"
  "consequence (IntentSpec.truncate i) = consequence i"
  "subjectHandling (IntentSpec.truncate i) = subjectHandling i"
  "successors (IntentSpec.truncate i) = successors i"
  "referenceKey (IntentSpec.truncate i) = referenceKey i"
  "referenceHead (IntentSpec.truncate i) = referenceHead i"
  "artifacts (IntentSpec.truncate i) = artifacts i"
  "causationHandles (IntentSpec.truncate i) = causationHandles i"
  "correlationHandle (IntentSpec.truncate i) = correlationHandle i"
  by (simp_all add: IntentSpec.truncate_def)

lemma sorted_distinct_adj: "sorted xs \<Longrightarrow> distinct_adj xs \<Longrightarrow> distinct (xs :: 'a :: linorder list)"
proof (induction xs)
  case (Cons x xs)
  then show ?case by (cases xs) (auto simp: order.antisym)
qed simp

lemma normalizeHandles_Inr:
  "normalizeHandles f hs m = Inr r \<Longrightarrow>
     r = sort hs \<and> [] \<notin> set hs \<and> distinct_adj (sort hs) \<and> length hs \<le> m"
  by (auto simp: normalizeHandles_def Let_def split: if_splits)

lemma NewAgentIntent_sorted:
  assumes "NewAgentIntent spec = Inr i"
  shows "NewAgentIntent (spec\<lparr>causationHandles := sort (causationHandles spec)\<rparr>) = Inr i"
proof -
  note N = NewAgentIntent_Inr [OF assms]
  let ?s = "spec\<lparr>causationHandles := sort (causationHandles spec)\<rparr>"
  have shape: "validateIntentShape ?s = validateIntentShape spec"
    by (simp add: validateIntentShape_def validateRootIntentShape_def validateSubjectIntentShape_def
        validateReferencePublishShape_def validateReferenceSupersedeShape_def
        validateReferenceRetractShape_def split: Consequence.splits)
  have causal: "normalizeHandles ''Intent causation'' (sort (causationHandles spec)) MaxCausationHandles =
      normalizeHandles ''Intent causation'' (causationHandles spec) MaxCausationHandles"
    by (simp add: normalizeHandles_def sorted_sort_id)
  have "NewAgentIntent ?s = NewAgentIntent spec"
    unfolding NewAgentIntent_def shape by (simp add: causal cong: if_cong option.case_cong)
  then show ?thesis using assms by simp
qed

lemma NewAgentIntent_again:
  assumes "NewAgentIntent spec = Inr i"
  shows "NewAgentIntent (IntentSpec.truncate i) = Inr i"
proof -
  have "IntentSpec.truncate i = spec\<lparr>causationHandles := sort (causationHandles spec)\<rparr>"
    by (subst NewAgentIntent_Inr(11) [OF assms]) (simp add: IntentSpec.defs)
  then show ?thesis using NewAgentIntent_sorted [OF assms] by simp
qed

lemma spec_ok_truncate: "spec_ok (IntentSpec.truncate i) \<longleftrightarrow> spec_ok i"
  by (simp add: spec_ok_def)

lemma spec_ok_intent:
  assumes "NewAgentIntent spec = Inr i" "spec_ok spec"
  shows "spec_ok i"
  by (subst NewAgentIntent_Inr(11) [OF assms(1)]) (use assms(2) in \<open>simp add: spec_ok_def IntentSpec.defs\<close>)

lemma intentFromWire_toWire:
  assumes "intent_ok i"
  shows "intentFromWire (intentToWire i) = Inr i"
proof -
  have ok: "spec_ok i" and new: "NewAgentIntent (IntentSpec.truncate i) = Inr i"
    using assms by (simp_all add: intent_ok_def)
  note N = NewAgentIntent_Inr [OF new, simplified]
  have targets: "parseTargets (map targetToWire (successors i)) = Inr (successors i)"
    unfolding parseTargets_def
  proof (rule mapE_map)
    fix t assume t: "t \<in> set (successors i)"
    then have "t \<noteq> zeroTarget" using N(5) by (auto simp: targetIsZero_def zeroTarget_def)
    then show "parseTargetWith ''Intent target'' (targetToWire t) = Inr t"
      using ok t by (auto simp: spec_ok_def intro: parseTargetWith_wire)
  qed
  have inputs: "parseArtifactInputs (map inputToWire (artifacts i)) = Inr (artifacts i)"
    unfolding parseArtifactInputs_def
  proof (rule mapE_map)
    fix a assume a: "a \<in> set (artifacts i)"
    then have "input_ok a"
      using checkArtifactInputs_None [OF N(8)] ok by (auto simp: input_ok_def spec_ok_def optional_def)
    then show "parseArtifactInput (inputToWire a) = Inr a" by (rule parseArtifactInput_wire)
  qed
  have "[] \<notin> set (causationHandles i)" using normalizeHandles_Inr [OF N(9)] by simp
  then have causal: "parseHandles ''causation'' (causationHandles i) = Inr (causationHandles i)"
    using ok by (intro parseHandles_Inr) (auto simp: spec_ok_def optional_def)
  have cons: "parseConsequence (consequenceString (consequence i)) = Inr (consequence i)"
    using N(2) by (auto simp: parseConsequence_Inr consequence_defs)
  have "label_ok (kind i)" using ok N(1) by (auto simp: spec_ok_def optional_def)
  then have label: "NewSemanticLabel (kind i) = Inr (kind i)" by (simp add: constructor_Inr)
  have payload: "NewSemanticPayload (payload i) = Inr (payload i)"
    using ok by (simp add: spec_ok_def constructor_Inr)
  show ?thesis
    using ok new unfolding intentFromWire_def
    by (simp add: intentToWire_def label payload cons targets inputs causal spec_ok_def
        parseOptionalHandle_Inr parseOptionalReferenceKey_Inr IntentSpec.truncate_def)
qed

lemma ParseAgentIntentJSON_canonical:
  assumes "intent_ok i"
  shows "ParseAgentIntentJSON (canonical i) = Inr i"
proof -
  have new: "NewAgentIntent (IntentSpec.truncate i) = Inr i" and ok: "spec_ok i"
    using assms by (simp_all add: intent_ok_def)
  note N = NewAgentIntent_Inr [OF new]
  have can: "canonical i = Marshal (enc_intent (intentToWire i))"
    by (subst N(11)) (simp add: IntentSpec.defs)
  have "canonical i \<noteq> []" using Marshal_nonempty [OF json_ok_intent [OF ok]] can by simp
  then show ?thesis
    using N(10) json_ok_intent [OF ok] intentFromWire_toWire [OF assms] unique_enc_intent
    by (simp add: ParseAgentIntentJSON_def can Unmarshal_Marshal rejectDuplicateJSONKeys_def
        requireExactIntentWireKeys_enc dec_enc_intent)
qed

text \<open>Whatever the reader accepts, the constructor made of well-formed parts.\<close>

lemma intentFromWire_ok:
  assumes "intentFromWire w = Inr i"
  shows "intent_ok i"
proof -
  have opt: "optional handle_ok v" if "parseOptionalHandle f w = Inr v" for f v w
    using that by (auto simp: parseOptionalHandle_def optional_def constructor_Inr split: if_splits sum.splits)
  have key: "optional key_ok v" if "parseOptionalReferenceKey w = Inr v" for v w
    using that by (auto simp: parseOptionalReferenceKey_def optional_def constructor_Inr split: if_splits)
  have hs: "\<forall>h \<in> set hs. optional handle_ok h" if "parseHandles f ws = Inr hs" for f hs ws
    using that unfolding parseHandles_def
    by (fastforce dest: mapE_mem simp: constructor_Inr optional_def split: sum.splits)
  have ts: "\<forall>t \<in> set ts. t = zeroTarget \<or> target_ok t" if "parseTargets ws = Inr ts" for ts ws
    using that unfolding parseTargets_def
    by (fastforce dest: mapE_mem simp: parseTargetWith_def bindE_Inr constructor_Inr AliasTarget_def
        SelfTarget_def target_ok_def split: if_splits)
  have as: "\<forall>a \<in> set as. optional handle_ok (input_handle a)" if "parseArtifactInputs ws = Inr as" for as ws
    using that unfolding parseArtifactInputs_def
    by (fastforce dest: mapE_mem simp: parseArtifactInput_def bindE_Inr constructor_Inr
        NewArtifactCandidate_def NewArtifactViewHandle_def newArtifactInput_def optional_def split: if_splits)
  obtain spec where new: "NewAgentIntent spec = Inr i" and ok: "spec_ok spec"
    using assms unfolding intentFromWire_def bindE_Inr spec_ok_def
    by (fastforce simp: constructor_Inr optional_def dest: opt key hs ts as)
  show ?thesis
    using NewAgentIntent_again [OF new] spec_ok_intent [OF new ok] by (simp add: intent_ok_def)
qed

section \<open>The properties of Intents\<close>

text \<open>An Intent that advances a Handling, hands over to the Agent itself and to an alias, and cites
  two Events.\<close>

definition exampleIntentSpec :: IntentSpec where
  "exampleIntentSpec =
     \<lparr>kind = ''note'', payload = ''a < b'', consequence = ConsequenceAdvanceHandling,
      subjectHandling = ''h1'', successors = [SelfTarget, \<lparr>targetSelf = False, targetAlias = ''bob''\<rparr>],
      referenceKey = [], referenceHead = [],
      artifacts = [\<lparr>input_kind = ArtifactInputCandidate, input_handle = ''a1''\<rparr>],
      causationHandles = [''p2'', ''p1''], correlationHandle = ''p1''\<rparr>"

lemma exampleIntentSpec_ok: "spec_ok exampleIntentSpec"
  by code_simp

lemma NewAgentIntent_InrI:
  assumes "kind spec \<noteq> []" "agentDeclarable (consequence spec)" "validateIntentShape spec = None"
    "length (successors spec) \<le> MaxSuccessors" "list_all (\<lambda>t. \<not> targetIsZero t) (successors spec)"
    "distinct (map canonicalKey (successors spec))" "length (artifacts spec) \<le> MaxArtifactInputs"
    "checkArtifactInputs {} (artifacts spec) = None"
    "normalizeHandles ''Intent causation'' (causationHandles spec) MaxCausationHandles = Inr hs"
    "length (Marshal (enc_intent (intentToWire (spec\<lparr>causationHandles := hs\<rparr>)))) \<le> MaxIntentCanonicalBytes"
  shows "NewAgentIntent spec = Inr (IntentSpec.extend (spec\<lparr>causationHandles := hs\<rparr>)
           \<lparr>canonical = Marshal (enc_intent (intentToWire (spec\<lparr>causationHandles := hs\<rparr>)))\<rparr>)"
  using assms
  by (simp add: NewAgentIntent_def canonicalJSON_def Let_def list_ex_iff list_all_iff IntentSpec.defs
      intentToWire_def)

lemma exampleIntent: "\<exists>i. NewAgentIntent exampleIntentSpec = Inr i \<and> causationHandles i = [''p1'', ''p2'']"
proof -
  have "normalizeHandles ''Intent causation'' (causationHandles exampleIntentSpec) MaxCausationHandles =
      Inr [''p1'', ''p2'']"
    by code_simp
  moreover have "length (Marshal (enc_intent (intentToWire
      (exampleIntentSpec\<lparr>causationHandles := [''p1'', ''p2'']\<rparr>)))) \<le> MaxIntentCanonicalBytes"
    by code_simp
  moreover have "kind exampleIntentSpec \<noteq> [] \<and> agentDeclarable (consequence exampleIntentSpec) \<and>
      validateIntentShape exampleIntentSpec = None \<and> length (successors exampleIntentSpec) \<le> MaxSuccessors \<and>
      list_all (\<lambda>t. \<not> targetIsZero t) (successors exampleIntentSpec) \<and>
      distinct (map canonicalKey (successors exampleIntentSpec)) \<and>
      length (artifacts exampleIntentSpec) \<le> MaxArtifactInputs \<and>
      checkArtifactInputs {} (artifacts exampleIntentSpec) = None"
    by code_simp
  ultimately show ?thesis
    by (simp add: NewAgentIntent_InrI IntentSpec.defs)
qed

text \<open>
  (C19) Round trip: every Intent the constructor makes of well-formed parts is read back from its
  canonical bytes as the same Intent, by the reader that checks duplicate keys, exact keys and every
  part again.
\<close>

theorem intent_json_roundtrip:
  assumes "NewAgentIntent spec = Inr i" "spec_ok spec"
  shows "ParseAgentIntentJSON (canonical i) = Inr i"
  using NewAgentIntent_again [OF assms(1)] spec_ok_intent [OF assms]
  by (intro ParseAgentIntentJSON_canonical) (simp add: intent_ok_def)

theorem intent_json_roundtrip_witness:
  "\<exists>i. NewAgentIntent exampleIntentSpec = Inr i \<and> causationHandles i = [''p1'', ''p2''] \<and>
     ParseAgentIntentJSON (canonical i) = Inr i"
  using exampleIntent intent_json_roundtrip [OF _ exampleIntentSpec_ok] by blast

text \<open>
  (C20) What the reader accepts is what the constructor makes: an Intent that was read is the result of
  \<open>NewAgentIntent\<close> on its own parts, each part passes its constructor, and reading the canonical bytes
  of the result gives it again, whatever spelling the text used.
\<close>

theorem intent_parse_sound:
  assumes "ParseAgentIntentJSON text = Inr i"
  shows "NewAgentIntent (IntentSpec.truncate i) = Inr i \<and> spec_ok i \<and>
    ParseAgentIntentJSON (canonical i) = Inr i"
proof -
  obtain w where "intentFromWire w = Inr i"
    using assms by (auto simp: ParseAgentIntentJSON_def split: if_splits option.splits)
  then have "intent_ok i" by (rule intentFromWire_ok)
  then show ?thesis
    by (simp_all add: intent_ok_def ParseAgentIntentJSON_canonical)
qed

theorem intent_parse_sound_witness:
  "\<exists>text i. ParseAgentIntentJSON text = Inr i \<and> causationHandles i = [''p1'', ''p2''] \<and>
     NewAgentIntent (IntentSpec.truncate i) = Inr i \<and> spec_ok i \<and> ParseAgentIntentJSON (canonical i) = Inr i"
proof -
  obtain i where i: "NewAgentIntent exampleIntentSpec = Inr i" "causationHandles i = [''p1'', ''p2'']"
    using exampleIntent by blast
  have "intent_ok i"
    using NewAgentIntent_again [OF i(1)] spec_ok_intent [OF i(1) exampleIntentSpec_ok] by (simp add: intent_ok_def)
  then have "ParseAgentIntentJSON (canonical i) = Inr i" by (rule ParseAgentIntentJSON_canonical)
  with i intent_parse_sound [of "canonical i" i] show ?thesis by blast
qed

text \<open>
  The shape of an Intent: it names a subject Handling exactly when its consequence acts on one, a
  new Reference key exactly when it publishes, an offered head exactly when it supersedes or retracts;
  a Reference change hands over nothing, a root creates at least one Handling; targets, inputs and
  handles are bounded and without repetition, and the canonical bytes are within their bound.
\<close>

theorem intent_shape:
  assumes "NewAgentIntent spec = Inr i"
  shows "(subjectHandling i \<noteq> [] \<longleftrightarrow> subjectBound (consequence i)) \<and>
    (referenceKey i \<noteq> [] \<longleftrightarrow> consequence i = ConsequencePublishReference) \<and>
    (referenceHead i \<noteq> [] \<longleftrightarrow> consequence i \<in> {ConsequenceSupersedeReference, ConsequenceRetractReference}) \<and>
    (referenceBound (consequence i) \<longrightarrow> successors i = []) \<and>
    (consequence i = ConsequenceCreateHandlings \<longrightarrow> successors i \<noteq> []) \<and>
    distinct (map canonicalKey (successors i)) \<and> length (successors i) \<le> 16 \<and>
    sorted (causationHandles i) \<and> distinct (causationHandles i) \<and> length (causationHandles i) \<le> 16 \<and>
    length (canonical i) \<le> 12288"
proof -
  note N = NewAgentIntent_Inr [OF NewAgentIntent_again [OF assms], simplified]
  note shape = validateIntentShape_def validateRootIntentShape_def validateSubjectIntentShape_def
    validateReferencePublishShape_def validateReferenceSupersedeShape_def validateReferenceRetractShape_def
  have "(subjectHandling i \<noteq> [] \<longleftrightarrow> subjectBound (consequence i)) \<and>
    (referenceKey i \<noteq> [] \<longleftrightarrow> consequence i = ConsequencePublishReference) \<and>
    (referenceHead i \<noteq> [] \<longleftrightarrow> consequence i \<in> {ConsequenceSupersedeReference, ConsequenceRetractReference}) \<and>
    (referenceBound (consequence i) \<longrightarrow> successors i = []) \<and>
    (consequence i = ConsequenceCreateHandlings \<longrightarrow> successors i \<noteq> [])"
    using N(2,3) by (auto simp: shape consequence_defs split: if_splits)
  moreover have "distinct (map canonicalKey (successors i))" "length (successors i) \<le> 16"
    using N(4,6) by (simp_all add: MaxSuccessors_def)
  moreover have "causationHandles i = sort (causationHandles spec)"
    by (subst NewAgentIntent_Inr(11) [OF assms]) (simp add: IntentSpec.defs)
  then have "sorted (causationHandles i)" "distinct (causationHandles i)" "length (causationHandles i) \<le> 16"
    using normalizeHandles_Inr [OF NewAgentIntent_Inr(9) [OF assms]]
      sorted_distinct_adj [of "sort (causationHandles spec)"] by (simp_all add: MaxCausationHandles_def)
  moreover have "canonical i = Marshal (enc_intent (intentToWire i))"
    by (subst NewAgentIntent_Inr(11) [OF assms]) (simp add: IntentSpec.defs)
  then have "length (canonical i) \<le> 12288" using N(10) by (simp add: MaxIntentCanonicalBytes_def)
  ultimately show ?thesis by blast
qed

theorem intent_shape_witness:
  "\<exists>i. NewAgentIntent exampleIntentSpec = Inr i \<and> distinct (causationHandles i) \<and> length (canonical i) \<le> 12288"
  using exampleIntent intent_shape [of exampleIntentSpec] by blast

end
