(* ===== verification/Agency_Bound.thy ===== *)
theory Agency_Bound
  imports Agency_Intent "HOL-Library.Word"
begin

text \<open>
  The machine-owned side of a request (\<^verbatim>\<open>internal/agency/authority.go\<close>, \<^verbatim>\<open>artifact_binding.go\<close>,
  \<^verbatim>\<open>bound_intent.go\<close>, \<^verbatim>\<open>bound_wire.go\<close> and the \<^verbatim>\<open>DeliveryID\<close> of \<^verbatim>\<open>peer_delivery.go\<close>): Attachments,
  subject bindings, Reference expectations, resolved targets and Artifacts, provenance offers, and
  \<^verbatim>\<open>BoundIntent\<close>, which seals an Intent with what its handles stand for. Fences and revisions are
  64-bit words.

  The results: a bound Intent resolves every part of its Intent, one for one and in order; and its
  request digest is a function of the request alone, not of the operation key or of which Attachment of the
  Principal, with the same authority to initiate, carries it, while the encoded request determines everything the request says.
\<close>

section \<open>Machine-owned values\<close>

record Attachment =
  att_id :: AttachmentID
  att_principal :: AgentPrincipalID
  mayInitiate :: bool
  issuedAt :: instant
  expiresAt :: instant

definition NewAttachment ::
  "AttachmentID \<Rightarrow> AgentPrincipalID \<Rightarrow> bool \<Rightarrow> instant \<Rightarrow> instant \<Rightarrow> Attachment result" where
  "NewAttachment i p may issued expiry =
     (if i = [] \<or> p = [] then Inl (ErrInvalid ''attachment'' ''ID and Principal are required'')
      else
        bindE (canonicalTime ''attachment issued time'' issued) (\<lambda>issued.
        bindE (canonicalTime ''attachment expiry'' expiry) (\<lambda>expires.
          if \<not> issued < expires
          then Inl (ErrInvariant ''attachment'' ''expiry must be after issue time'')
          else Inr \<lparr>att_id = i, att_principal = p, mayInitiate = may, issuedAt = issued,
                    expiresAt = expires\<rparr>)))"

record SubjectBinding =
  sub_handle :: OpaqueHandle
  sub_handlingID :: HandlingID
  sub_head :: EventRef
  sub_fence :: "64 word"
  sub_revision :: "64 word"

definition NewSubjectBinding ::
  "OpaqueHandle \<Rightarrow> HandlingID \<Rightarrow> EventRef \<Rightarrow> 64 word \<Rightarrow> 64 word \<Rightarrow> SubjectBinding result" where
  "NewSubjectBinding h i head fence revision =
     (if h = [] \<or> i = [] \<or> refIsZero head \<or> fence = 0
      then Inl (ErrInvalid ''subject binding'' ''handle, Handling, head, and positive fence are required'')
      else Inr \<lparr>sub_handle = h, sub_handlingID = i, sub_head = head, sub_fence = fence, sub_revision = revision\<rparr>)"

record ReferenceExpectation =
  exp_absent :: bool
  exp_handle :: OpaqueHandle
  exp_key :: ReferenceKey
  exp_head :: EventRef

definition ExpectAbsentReference :: "ReferenceKey \<Rightarrow> ReferenceExpectation result" where
  "ExpectAbsentReference k =
     (if k = [] then Inl (ErrInvalid ''Reference expectation'' ''key is required'')
      else Inr \<lparr>exp_absent = True, exp_handle = [], exp_key = k, exp_head = zeroEventRef\<rparr>)"

definition ExpectReferenceHead :: "OpaqueHandle \<Rightarrow> ReferenceKey \<Rightarrow> EventRef \<Rightarrow> ReferenceExpectation result" where
  "ExpectReferenceHead h k head =
     (if h = [] \<or> k = [] \<or> refIsZero head
      then Inl (ErrInvalid ''Reference expectation'' ''handle, key, and head are required'')
      else Inr \<lparr>exp_absent = False, exp_handle = h, exp_key = k, exp_head = head\<rparr>)"

datatype TargetDestination = TargetDestinationInvalid | TargetDestinationLocal | TargetDestinationRemote

record ResolvedTarget =
  requested :: TargetRef
  destination :: TargetDestination
  localPrincipal :: AgentPrincipalID
  remoteRoute :: RouteID
  remoteAlias :: OpaqueHandle

definition ResolveLocalTarget :: "TargetRef \<Rightarrow> AgentPrincipalID \<Rightarrow> ResolvedTarget result" where
  "ResolveLocalTarget req p =
     (if targetIsZero req \<or> p = []
      then Inl (ErrInvalid ''resolved local target'' ''request and Principal are required'')
      else Inr \<lparr>requested = req, destination = TargetDestinationLocal, localPrincipal = p,
                remoteRoute = [], remoteAlias = []\<rparr>)"

definition ResolveRemoteTarget :: "TargetRef \<Rightarrow> RouteID \<Rightarrow> OpaqueHandle \<Rightarrow> ResolvedTarget result" where
  "ResolveRemoteTarget req route a =
     (if targetIsZero req \<or> targetSelf req \<or> route = [] \<or> a = []
      then Inl (ErrInvalid ''resolved remote target'' ''non-self request, route, and alias are required'')
      else Inr \<lparr>requested = req, destination = TargetDestinationRemote, localPrincipal = [],
                remoteRoute = route, remoteAlias = a\<rparr>)"

record ProvenanceOffer =
  prov_handle :: OpaqueHandle
  prov_event :: EventRef

definition NewProvenanceOffer :: "OpaqueHandle \<Rightarrow> EventRef \<Rightarrow> ProvenanceOffer result" where
  "NewProvenanceOffer h e =
     (if h = [] \<or> refIsZero e then Inl (ErrInvalid ''provenance offer'' ''handle and Event are required'')
      else Inr \<lparr>prov_handle = h, prov_event = e\<rparr>)"

section \<open>Artifacts\<close>

record CapturedCandidate =
  cap_operation :: OperationKey
  cap_input :: ArtifactInput
  cap_digest :: Digest

definition NewCapturedCandidate :: "OperationKey \<Rightarrow> ArtifactInput \<Rightarrow> Digest \<Rightarrow> CapturedCandidate result" where
  "NewCapturedCandidate op i d =
     (if op = [] \<or> input_kind i \<noteq> ArtifactInputCandidate \<or> input_handle i = [] \<or> d = zeroDigest
      then Inl (ErrInvalid ''captured candidate'' ''operation, candidate input, and verified digest are required'')
      else Inr \<lparr>cap_operation = op, cap_input = i, cap_digest = d\<rparr>)"

record ViewArtifactOffer =
  off_handle :: OpaqueHandle
  off_digest :: Digest

definition NewViewArtifactOffer :: "OpaqueHandle \<Rightarrow> Digest \<Rightarrow> ViewArtifactOffer result" where
  "NewViewArtifactOffer h d =
     (if h = [] \<or> d = zeroDigest
      then Inl (ErrInvalid ''View Artifact offer'' ''handle and verified digest are required'')
      else Inr \<lparr>off_handle = h, off_digest = d\<rparr>)"

record ResolvedArtifact =
  res_input :: ArtifactInput
  res_digest :: Digest

definition NewResolvedArtifact :: "ArtifactInput \<Rightarrow> Digest \<Rightarrow> ResolvedArtifact result" where
  "NewResolvedArtifact i d =
     (if (input_kind i \<noteq> ArtifactInputCandidate \<and> input_kind i \<noteq> ArtifactInputViewHandle) \<or>
         input_handle i = [] \<or> d = zeroDigest
      then Inl (ErrInvalid ''resolved Artifact'' ''input and verified digest are required'')
      else Inr \<lparr>res_input = i, res_digest = d\<rparr>)"

section \<open>Delivery identities\<close>

text \<open>A \<^verbatim>\<open>DeliveryID\<close> is its digest.\<close>

type_synonym DeliveryID = Digest

definition deliveryString :: "DeliveryID \<Rightarrow> string" where
  "deliveryString d = ''delivery:'' @ hex_encode d"

definition ParseDeliveryID :: "string \<Rightarrow> DeliveryID result" where
  "ParseDeliveryID value =
     (if take 9 value \<noteq> ''delivery:''
      then Inl (ErrInvalid ''DeliveryID'' ''must use delivery:<lowercase-hex>'')
      else case ParseDigest (''sha256:'' @ drop 9 value) of
             Inl e \<Rightarrow> Inl (ErrInvalid ''DeliveryID'' ''must use 64 lowercase hexadecimal characters'')
           | Inr d \<Rightarrow> Inr d)"

lemma is_ascii_deliveryString [simp]: "is_ascii (deliveryString d)"
  by (simp add: deliveryString_def)

lemma deliveryString_inject [simp]: "deliveryString d = deliveryString e \<longleftrightarrow> d = e"
  by (simp add: deliveryString_def)

lemma deliveryString_nonempty [simp]: "deliveryString d \<noteq> []"
  by (simp add: deliveryString_def)

lemma ParseDeliveryID_Inr: "ParseDeliveryID v = Inr d \<longleftrightarrow> digest_ok d \<and> v = deliveryString d"
proof
  assume "ParseDeliveryID v = Inr d"
  then have pre: "take 9 v = ''delivery:''" and d: "ParseDigest (''sha256:'' @ drop 9 v) = Inr d"
    by (auto simp: ParseDeliveryID_def split: if_splits sum.splits)
  have "v = ''delivery:'' @ drop 9 v" using pre by (metis append_take_drop_id)
  moreover have "digest_ok d" "drop 9 v = hex_encode d"
    using d by (auto simp: ParseDigest_Inr digestString_def)
  ultimately show "digest_ok d \<and> v = deliveryString d" by (simp add: deliveryString_def)
next
  assume d: "digest_ok d \<and> v = deliveryString d"
  then have "ParseDigest (''sha256:'' @ hex_encode d) = Inr d"
    by (simp add: ParseDigest_Inr digestString_def)
  with d show "ParseDeliveryID v = Inr d" by (simp add: ParseDeliveryID_def deliveryString_def)
qed

section \<open>Bound Intents\<close>

record BoundIntentSpec =
  spec_intent :: AgentIntent
  spec_operationKey :: OperationKey
  spec_attachment :: Attachment
  spec_viewDigest :: Digest
  spec_subject :: "SubjectBinding option"
  spec_expected :: "ReferenceExpectation option"
  spec_targets :: "ResolvedTarget list"
  spec_artifacts :: "ResolvedArtifact list"
  spec_causation :: "EventRef list"
  spec_correlation :: EventRef
  spec_inReplyTo :: DeliveryID

record BoundIntent =
  b_intent :: AgentIntent
  b_operationKey :: OperationKey
  b_attachment :: Attachment
  b_viewDigest :: Digest
  b_subject :: "SubjectBinding option"
  b_expected :: "ReferenceExpectation option"
  b_targets :: "ResolvedTarget list"
  b_resolved :: "ResolvedArtifact list"
  b_artifacts :: "Digest list"
  b_causation :: "EventRef list"
  b_correlation :: EventRef
  b_inReplyTo :: DeliveryID
  b_canonical :: bytes
  b_digest :: Digest

definition sortDigests :: "Digest list \<Rightarrow> Digest list" where
  "sortDigests values = sort_key digestString values"

definition validateResolvedReference :: "AgentIntent \<Rightarrow> ReferenceExpectation option \<Rightarrow> agencyError option" where
  "validateResolvedReference i expected =
     (case expected of
        None \<Rightarrow> None
      | Some e \<Rightarrow>
          if consequence i = ConsequencePublishReference
          then if \<not> exp_absent e \<or> exp_key e \<noteq> referenceKey i \<or> \<not> refIsZero (exp_head e)
               then Some (ErrInvariant ''BoundIntent Reference'' ''does not bind first publication'')
               else None
          else if consequence i = ConsequenceSupersedeReference \<or> consequence i = ConsequenceRetractReference
          then if exp_absent e \<or> exp_handle e \<noteq> referenceHead i \<or> exp_key e = [] \<or> refIsZero (exp_head e)
               then Some (ErrInvariant ''BoundIntent Reference'' ''does not bind the offered exact head'')
               else None
          else None)"

definition validateResolvedBoundIntent :: "BoundIntentSpec \<Rightarrow> agencyError option" where
  "validateResolvedBoundIntent spec =
     (let i = spec_intent spec; c = consequence i
      in if subjectBound c \<noteq> (spec_subject spec \<noteq> None)
      then Some (ErrInvariant ''BoundIntent subject'' ''must match the closed consequence'')
      else if referenceBound c \<noteq> (spec_expected spec \<noteq> None)
      then Some (ErrInvariant ''BoundIntent Reference'' ''must match the closed consequence'')
      else if (case spec_subject spec of None \<Rightarrow> False | Some s \<Rightarrow>
                 sub_handle s \<noteq> subjectHandling i \<or> sub_handlingID s = [] \<or> refIsZero (sub_head s) \<or> sub_fence s = 0)
      then Some (ErrInvariant ''BoundIntent subject'' ''does not bind the Intent handle'')
      else case validateResolvedReference i (spec_expected spec) of Some e \<Rightarrow> Some e | None \<Rightarrow>
      if length (spec_targets spec) \<noteq> length (successors i)
      then Some (ErrInvariant ''BoundIntent targets'' ''must resolve every requested successor exactly once'')
      else if map requested (spec_targets spec) \<noteq> successors i
      then Some (ErrInvariant ''BoundIntent targets'' ''do not preserve requested successor order'')
      else if length (spec_artifacts spec) \<noteq> length (artifacts i)
      then Some (ErrInvariant ''BoundIntent Artifacts'' ''must resolve every Artifact input exactly once'')
      else if map res_input (spec_artifacts spec) \<noteq> artifacts i \<or>
              list_ex (\<lambda>a. res_digest a = zeroDigest) (spec_artifacts spec)
      then Some (ErrInvariant ''BoundIntent Artifacts'' ''do not bind the requested inputs'')
      else if c = ConsequenceResolveCompleted \<and> length (spec_artifacts spec) = 0
      then Some (ErrInvariant ''completed consequence'' ''requires a verified Artifact'')
      else if length (spec_causation spec) \<noteq> length (causationHandles i)
      then Some (ErrInvariant ''BoundIntent causation'' ''must resolve every provenance handle exactly once'')
      else if refIsZero (spec_correlation spec) \<noteq> (correlationHandle i = [])
      then Some (ErrInvariant ''BoundIntent correlation'' ''must match the Intent correlation handle'')
      else if spec_inReplyTo spec \<noteq> zeroDigest \<and> \<not> isTerminalConsequence c
      then Some (ErrInvariant ''BoundIntent reply'' ''is allowed only for a terminal consequence'')
      else None)"

subsection \<open>The wire form\<close>

record subjectBindingWire =
  sbw_handlingID :: string
  sbw_head :: eventRefWire
  sbw_fence :: "64 word"
  sbw_revision :: "64 word"

record referenceExpectationWire =
  rew_absent :: bool
  rew_key :: string
  rew_head :: "eventRefWire option"

record resolvedTargetWire =
  rtw_destination :: string
  rtw_localPrincipal :: string
  rtw_remoteRoute :: string
  rtw_remoteAlias :: string

definition enc_subjectBinding :: "subjectBindingWire \<Rightarrow> json" where
  "enc_subjectBinding w =
     JObj [(''handling_id'', JStr (sbw_handlingID w)), (''head'', enc_eventRef (sbw_head w)),
           (''fence'', JNat (unat (sbw_fence w))), (''observation_revision'', JNat (unat (sbw_revision w)))]"

definition enc_referenceExpectation :: "referenceExpectationWire \<Rightarrow> json" where
  "enc_referenceExpectation w =
     JObj ((''absent'', JBool (rew_absent w)) # (''key'', JStr (rew_key w)) #
           omitempty ''head'' (rew_head w \<noteq> None) (enc_eventRef (the (rew_head w))))"

definition enc_resolvedTarget :: "resolvedTargetWire \<Rightarrow> json" where
  "enc_resolvedTarget w =
     JObj ((''destination'', JStr (rtw_destination w)) #
           omitempty ''local_principal'' (rtw_localPrincipal w \<noteq> []) (JStr (rtw_localPrincipal w)) @
           omitempty ''remote_route'' (rtw_remoteRoute w \<noteq> []) (JStr (rtw_remoteRoute w)) @
           omitempty ''remote_alias'' (rtw_remoteAlias w \<noteq> []) (JStr (rtw_remoteAlias w)))"

definition subjectWire :: "SubjectBinding \<Rightarrow> subjectBindingWire" where
  "subjectWire s =
     \<lparr>sbw_handlingID = sub_handlingID s, sbw_head = refWire (sub_head s), sbw_fence = sub_fence s,
      sbw_revision = sub_revision s\<rparr>"

definition expectationWire :: "ReferenceExpectation \<Rightarrow> referenceExpectationWire" where
  "expectationWire e =
     \<lparr>rew_absent = exp_absent e, rew_key = exp_key e,
      rew_head = (if refIsZero (exp_head e) then None else Some (refWire (exp_head e)))\<rparr>"

definition destinationText :: "TargetDestination \<Rightarrow> string" where
  "destinationText d = (if d = TargetDestinationRemote then ''remote'' else ''local'')"

definition resolvedWire :: "ResolvedTarget \<Rightarrow> resolvedTargetWire" where
  "resolvedWire t =
     \<lparr>rtw_destination = destinationText (destination t), rtw_localPrincipal = localPrincipal t,
      rtw_remoteRoute = remoteRoute t, rtw_remoteAlias = remoteAlias t\<rparr>"

definition enc_resolved :: "ResolvedArtifact \<Rightarrow> json" where
  "enc_resolved a =
     JObj [(''input'', enc_input (inputToWire (res_input a))), (''digest'', JStr (digestString (res_digest a)))]"

definition requestWire :: "BoundIntent \<Rightarrow> json" where
  "requestWire b =
     JObj ([(''schema_version'', JNat 3), (''source_principal'', JStr (att_principal (b_attachment b))),
            (''may_initiate'', JBool (mayInitiate (b_attachment b))),
            (''view_digest'', JStr (digestString (b_viewDigest b))),
            (''intent'', enc_intent (intentToWire (b_intent b)))] @
           omitempty ''subject'' (b_subject b \<noteq> None) (enc_subjectBinding (subjectWire (the (b_subject b)))) @
           omitempty ''expected_reference'' (b_expected b \<noteq> None) (enc_referenceExpectation (expectationWire (the (b_expected b)))) @
           omitempty ''targets'' (b_targets b \<noteq> []) (JArr (map (enc_resolvedTarget \<circ> resolvedWire) (b_targets b))) @
           omitempty ''artifacts'' (b_resolved b \<noteq> []) (JArr (map enc_resolved (b_resolved b))) @
           omitempty ''causation'' (b_causation b \<noteq> []) (JArr (map (enc_eventRef \<circ> refWire) (b_causation b))) @
           omitempty ''correlation'' (\<not> refIsZero (b_correlation b)) (enc_eventRef (refWire (b_correlation b))) @
           omitempty ''in_reply_to_delivery_id'' (b_inReplyTo b \<noteq> zeroDigest)
             (JStr (deliveryString (b_inReplyTo b))))"

definition boundWire :: "BoundIntent \<Rightarrow> json" where
  "boundWire b =
     JObj [(''schema_version'', JNat 3), (''operation_key'', JStr (b_operationKey b)),
           (''attachment_id'', JStr (att_id (b_attachment b))),
           (''attachment_issued_at'', JStr (RFC3339Nano (issuedAt (b_attachment b)))),
           (''attachment_expires_at'', JStr (RFC3339Nano (expiresAt (b_attachment b)))),
           (''request_digest'', JStr (digestString (b_digest b))), (''request'', requestWire b)]"

definition NewBoundIntent :: "BoundIntentSpec \<Rightarrow> BoundIntent result" where
  "NewBoundIntent spec =
     (if length (canonical (spec_intent spec)) = 0 \<or> spec_operationKey spec = [] \<or>
         att_id (spec_attachment spec) = [] \<or> spec_viewDigest spec = zeroDigest
      then Inl (ErrInvalid ''BoundIntent'' ''Intent, operation, Attachment, and View digest are required'')
      else case validateResolvedBoundIntent spec of Some e \<Rightarrow> Inl e | None \<Rightarrow>
      let sorted_digests = sortDigests (map res_digest (spec_artifacts spec))
      in if \<not> distinct_adj sorted_digests
         then Inl (ErrInvalid ''BoundIntent Artifacts'' ''contains a duplicate digest'')
         else
           let result = \<lparr>b_intent = spec_intent spec, b_operationKey = spec_operationKey spec,
                         b_attachment = spec_attachment spec, b_viewDigest = spec_viewDigest spec,
                         b_subject = spec_subject spec, b_expected = spec_expected spec,
                         b_targets = spec_targets spec, b_resolved = spec_artifacts spec,
                         b_artifacts = sorted_digests, b_causation = spec_causation spec,
                         b_correlation = spec_correlation spec, b_inReplyTo = spec_inReplyTo spec,
                         b_canonical = [], b_digest = zeroDigest\<rparr>;
               result = result\<lparr>b_digest := snd (canonicalJSON (requestWire result))\<rparr>
           in Inr (result\<lparr>b_canonical := fst (canonicalJSON (boundWire result))\<rparr>))"

section \<open>What a bound Intent is\<close>

lemma wire_update [simp]:
  "requestWire (b\<lparr>b_digest := d\<rparr>) = requestWire b" "requestWire (b\<lparr>b_canonical := c\<rparr>) = requestWire b"
  "boundWire (b\<lparr>b_canonical := c\<rparr>) = boundWire b"
  by (simp_all add: requestWire_def boundWire_def)

lemma sealed:
  assumes "b = r\<lparr>b_digest := snd (canonicalJSON (requestWire r)),
                 b_canonical := fst (canonicalJSON (boundWire (r\<lparr>b_digest := snd (canonicalJSON (requestWire r))\<rparr>)))\<rparr>"
  shows "b_digest b = Sum (Marshal (requestWire b))" "b_canonical b = Marshal (boundWire b)"
  by (simp_all add: assms canonicalJSON_def Let_def)

lemma NewBoundIntent_Inr:
  assumes "NewBoundIntent spec = Inr b"
  shows "validateResolvedBoundIntent spec = None" "b_intent b = spec_intent spec"
    "b_operationKey b = spec_operationKey spec" "b_attachment b = spec_attachment spec"
    "b_viewDigest b = spec_viewDigest spec" "b_subject b = spec_subject spec"
    "b_expected b = spec_expected spec" "b_targets b = spec_targets spec"
    "b_resolved b = spec_artifacts spec" "b_artifacts b = sortDigests (map res_digest (spec_artifacts spec))"
    "distinct_adj (b_artifacts b)" "b_causation b = spec_causation spec"
    "b_correlation b = spec_correlation spec" "b_inReplyTo b = spec_inReplyTo spec"
    "b_digest b = Sum (Marshal (requestWire b))" "b_canonical b = Marshal (boundWire b)"
    "b_operationKey b \<noteq> []" "att_id (b_attachment b) \<noteq> []" "b_viewDigest b \<noteq> zeroDigest"
proof -
  note * = assms [unfolded NewBoundIntent_def Let_def guards sum.inject]
  note b = * [THEN conjunct2, THEN conjunct2, THEN conjunct2, symmetric]
  show "validateResolvedBoundIntent spec = None" using * by blast
  show "b_intent b = spec_intent spec" "b_operationKey b = spec_operationKey spec"
    "b_attachment b = spec_attachment spec" "b_viewDigest b = spec_viewDigest spec"
    "b_subject b = spec_subject spec" "b_expected b = spec_expected spec" "b_targets b = spec_targets spec"
    "b_resolved b = spec_artifacts spec" "b_artifacts b = sortDigests (map res_digest (spec_artifacts spec))"
    "b_causation b = spec_causation spec" "b_correlation b = spec_correlation spec"
    "b_inReplyTo b = spec_inReplyTo spec"
    by (simp_all add: b)
  show "b_digest b = Sum (Marshal (requestWire b))" "b_canonical b = Marshal (boundWire b)"
    by (rule sealed [OF b])+
  show "distinct_adj (b_artifacts b)" "b_operationKey b \<noteq> []" "att_id (b_attachment b) \<noteq> []"
    "b_viewDigest b \<noteq> zeroDigest"
    using * by (simp_all add: b)
qed

lemma distinct_sortDigests: "distinct_adj (sortDigests ds) \<Longrightarrow> distinct ds"
proof -
  assume adj: "distinct_adj (sortDigests ds)"
  have "distinct_adj (map digestString (sortDigests ds))"
    using adj by (rule distinct_adj_mapI) (simp add: inj_on_def)
  then have "distinct (map digestString (sortDigests ds))"
    by (rule sorted_distinct_adj [rotated]) (simp add: sortDigests_def)
  then show "distinct ds" by (simp add: sortDigests_def distinct_map)
qed

lemma set_sortDigests [simp]: "set (sortDigests ds) = set ds"
  by (simp add: sortDigests_def)

lemma validateResolvedBoundIntent_None:
  assumes "validateResolvedBoundIntent spec = None"
  defines "i \<equiv> spec_intent spec"
  shows "subjectBound (consequence i) \<longleftrightarrow> spec_subject spec \<noteq> None"
    "referenceBound (consequence i) \<longleftrightarrow> spec_expected spec \<noteq> None"
    "spec_subject spec = Some s \<Longrightarrow> sub_handle s = subjectHandling i \<and> sub_fence s \<noteq> 0 \<and> \<not> refIsZero (sub_head s)"
    "map requested (spec_targets spec) = successors i" "map res_input (spec_artifacts spec) = artifacts i"
    "\<forall>a \<in> set (spec_artifacts spec). res_digest a \<noteq> zeroDigest"
    "consequence i = ConsequenceResolveCompleted \<Longrightarrow> spec_artifacts spec \<noteq> []"
    "length (spec_causation spec) = length (causationHandles i)"
    "refIsZero (spec_correlation spec) \<longleftrightarrow> correlationHandle i = []"
    "spec_inReplyTo spec \<noteq> zeroDigest \<Longrightarrow> isTerminalConsequence (consequence i)"
    "validateResolvedReference i (spec_expected spec) = None"
  using assms(1) unfolding validateResolvedBoundIntent_def Let_def guards i_def
  by (auto simp: list_ex_iff)

section \<open>What the encoded request says\<close>

text \<open>The parts of a bound Intent that went through their constructors.\<close>

definition resolved_ok :: "ResolvedTarget \<Rightarrow> bool" where
  "resolved_ok t \<longleftrightarrow>
     destination t = TargetDestinationLocal \<and> handle_ok (localPrincipal t) \<and> remoteRoute t = [] \<and> remoteAlias t = [] \<or>
     destination t = TargetDestinationRemote \<and> localPrincipal t = [] \<and> handle_ok (remoteRoute t) \<and> handle_ok (remoteAlias t)"

definition bound_ok :: "BoundIntent \<Rightarrow> bool" where
  "bound_ok b \<longleftrightarrow> intent_ok (b_intent b) \<and> handle_ok (att_principal (b_attachment b)) \<and> handle_ok (b_operationKey b) \<and>
     (\<forall>s \<in> set_option (b_subject b). handle_ok (sub_handlingID s) \<and> ref_ok (sub_head s)) \<and>
     (\<forall>e \<in> set_option (b_expected b). key_ok (exp_key e) \<and> (exp_head e = zeroEventRef \<or> ref_ok (exp_head e))) \<and>
     (\<forall>t \<in> set (b_targets b). resolved_ok t) \<and>
     (\<forall>a \<in> set (b_resolved b). input_ok (res_input a) \<and> digest_ok (res_digest a)) \<and>
     (\<forall>r \<in> set (b_causation b). ref_ok r) \<and> (b_correlation b = zeroEventRef \<or> ref_ok (b_correlation b)) \<and>
     length (b_inReplyTo b) = 32"

lemma json_ok_resolved: "resolved_ok t \<Longrightarrow> json_ok (enc_resolvedTarget (resolvedWire t))"
  by (auto simp: resolved_ok_def enc_resolvedTarget_def resolvedWire_def destinationText_def json_simps
      dest: token_ok_valid)

lemma refWire_inject [simp]: "refWire r = refWire r' \<longleftrightarrow> r = r'"
  by (cases r; cases r') (simp add: refWire_def)

lemma enc_eventRef_inject [simp]: "enc_eventRef (refWire r) = enc_eventRef (refWire r') \<longleftrightarrow> r = r'"
  by (metis dec_enc_eventRef option.inject refWire_inject)

lemma json_ok_request:
  assumes "bound_ok b"
  shows "json_ok (requestWire b)"
proof -
  have input: "json_ok (enc_input (inputToWire a))" if "input_ok a" for a
    using that by (auto simp: enc_input_def inputToWire_def input_ok_def dest: token_ok_valid)
  have target: "json_ok (enc_resolvedTarget (resolvedWire t))" if "t \<in> set (b_targets b)" for t
    using assms that by (auto simp: bound_ok_def json_ok_resolved)
  have art: "json_ok (enc_resolved a)" if "a \<in> set (b_resolved b)" for a
    using assms that input by (auto simp: bound_ok_def enc_resolved_def)
  have ref: "json_ok (enc_eventRef (refWire r))" if "r \<in> set (b_causation b)" for r
    using assms that by (auto simp: bound_ok_def json_ok_eventRef)
  show ?thesis
    using assms target art ref json_ok_intent [of "b_intent b"]
    by (auto simp: bound_ok_def intent_ok_def requestWire_def json_simps json_ok_eventRef enc_subjectBinding_def
        subjectWire_def enc_referenceExpectation_def expectationWire_def dest: token_ok_valid)
qed

text \<open>The members of an encoded struct.\<close>

definition member :: "string \<Rightarrow> json \<Rightarrow> json option" where
  "member k j = (case j of JObj kvs \<Rightarrow> map_of kvs k | _ \<Rightarrow> None)"

lemma member_request:
  "member ''source_principal'' (requestWire b) = Some (JStr (att_principal (b_attachment b)))"
  "member ''may_initiate'' (requestWire b) = Some (JBool (mayInitiate (b_attachment b)))"
  "member ''view_digest'' (requestWire b) = Some (JStr (digestString (b_viewDigest b)))"
  "member ''intent'' (requestWire b) = Some (enc_intent (intentToWire (b_intent b)))"
  "member ''subject'' (requestWire b) = map_option (enc_subjectBinding \<circ> subjectWire) (b_subject b)"
  "member ''expected_reference'' (requestWire b) = map_option (enc_referenceExpectation \<circ> expectationWire) (b_expected b)"
  "member ''targets'' (requestWire b) = (if b_targets b = [] then None else Some (JArr (map (enc_resolvedTarget \<circ> resolvedWire) (b_targets b))))"
  "member ''artifacts'' (requestWire b) = (if b_resolved b = [] then None else Some (JArr (map enc_resolved (b_resolved b))))"
  "member ''causation'' (requestWire b) =
     (if b_causation b = [] then None else Some (JArr (map (enc_eventRef \<circ> refWire) (b_causation b))))"
  "member ''correlation'' (requestWire b) =
     (if refIsZero (b_correlation b) then None else Some (enc_eventRef (refWire (b_correlation b))))"
  "member ''in_reply_to_delivery_id'' (requestWire b) =
     (if b_inReplyTo b = zeroDigest then None else Some (JStr (deliveryString (b_inReplyTo b))))"
  by (simp_all add: member_def requestWire_def json_simps option.map_sel map_option_case
      del: map_of_append split: option.split)

lemma JNat_inject [simp]: "JNat m = JNat n \<longleftrightarrow> m = n"
  by (simp add: JNat_def)

definition dec_uint64 :: "json \<Rightarrow> 64 word option" where
  "dec_uint64 j = map_option word_of_nat (dec_uint 64 j)"

lemma dec_uint64_JNat [json_simps]: "dec_uint64 (JNat (unat w)) = Some w"
proof -
  have "unat w < 2 ^ 64" using unsigned_less [where 'a = nat, of w] by simp
  then show ?thesis by (simp add: dec_uint64_def dec_uint_JNat)
qed

definition dec_subjectBinding :: "json \<Rightarrow> subjectBindingWire option" where
  "dec_subjectBinding j =
     do { kvs \<leftarrow> dec_struct [''handling_id'', ''head'', ''fence'', ''observation_revision''] j;
          i \<leftarrow> field [] dec_string ''handling_id'' kvs;
          h \<leftarrow> field \<lparr>wire_id = [], wire_digest = []\<rparr> dec_eventRef ''head'' kvs;
          f \<leftarrow> field 0 dec_uint64 ''fence'' kvs;
          r \<leftarrow> field 0 dec_uint64 ''observation_revision'' kvs;
          Some \<lparr>sbw_handlingID = i, sbw_head = h, sbw_fence = f, sbw_revision = r\<rparr> }"

definition dec_referenceExpectation :: "json \<Rightarrow> referenceExpectationWire option" where
  "dec_referenceExpectation j =
     do { kvs \<leftarrow> dec_struct [''absent'', ''key'', ''head''] j;
          a \<leftarrow> field False dec_bool ''absent'' kvs;
          k \<leftarrow> field [] dec_string ''key'' kvs;
          h \<leftarrow> field None (dec_ptr dec_eventRef) ''head'' kvs;
          Some \<lparr>rew_absent = a, rew_key = k, rew_head = h\<rparr> }"

definition dec_resolvedTarget :: "json \<Rightarrow> resolvedTargetWire option" where
  "dec_resolvedTarget j =
     do { kvs \<leftarrow> dec_struct [''destination'', ''local_principal'', ''remote_route'', ''remote_alias''] j;
          d \<leftarrow> field [] dec_string ''destination'' kvs;
          p \<leftarrow> field [] dec_string ''local_principal'' kvs;
          r \<leftarrow> field [] dec_string ''remote_route'' kvs;
          a \<leftarrow> field [] dec_string ''remote_alias'' kvs;
          Some \<lparr>rtw_destination = d, rtw_localPrincipal = p, rtw_remoteRoute = r, rtw_remoteAlias = a\<rparr> }"

lemma dec_ptr_eventRef [json_simps]: "dec_ptr dec_eventRef (enc_eventRef w) = Some (Some w)"
  using dec_enc_eventRef [of w] by (simp add: dec_ptr_def enc_eventRef_def)

lemma dec_enc_subjectBinding [json_simps]: "dec_subjectBinding (enc_subjectBinding w) = Some w"
  by (cases w) (simp add: dec_subjectBinding_def enc_subjectBinding_def json_simps)

lemma dec_enc_referenceExpectation [json_simps]: "dec_referenceExpectation (enc_referenceExpectation w) = Some w"
  by (cases w; cases "rew_head w") (simp_all add: dec_referenceExpectation_def enc_referenceExpectation_def json_simps)

lemma dec_enc_resolvedTarget [json_simps]: "dec_resolvedTarget (enc_resolvedTarget w) = Some w"
  by (cases w) (simp add: dec_resolvedTarget_def enc_resolvedTarget_def json_simps image_Un)

lemma unique_enc_bound [keys_simps]:
  "unique_keys (enc_eventRef r)" "unique_keys (enc_subjectBinding s)"
  "unique_keys (enc_referenceExpectation e)" "unique_keys (enc_resolvedTarget t)"
  by (simp_all add: enc_eventRef_def enc_subjectBinding_def enc_referenceExpectation_def enc_resolvedTarget_def
      keys_simps)

lemma enc_wire_inject [simp]:
  "enc_subjectBinding s = enc_subjectBinding s' \<longleftrightarrow> s = s'"
  "enc_referenceExpectation e = enc_referenceExpectation e' \<longleftrightarrow> e = e'"
  "enc_resolvedTarget t = enc_resolvedTarget t' \<longleftrightarrow> t = t'"
  by (metis dec_enc_subjectBinding option.inject, metis dec_enc_referenceExpectation option.inject,
      metis dec_enc_resolvedTarget option.inject)

lemma subjectWire_inject:
  "subjectWire s = subjectWire s' \<longleftrightarrow> sub_handlingID s = sub_handlingID s' \<and> sub_head s = sub_head s' \<and>
     sub_fence s = sub_fence s' \<and> sub_revision s = sub_revision s'"
  by (auto simp: subjectWire_def)

lemma enc_resolved_inject:
  assumes "input_ok (res_input a)" "input_ok (res_input a')" "enc_resolved a = enc_resolved a'"
  shows "a = a'"
proof -
  have "enc_input (inputToWire (res_input a)) = enc_input (inputToWire (res_input a'))"
    and d: "res_digest a = res_digest a'"
    using assms(3) by (simp_all add: enc_resolved_def)
  then have "inputToWire (res_input a) = inputToWire (res_input a')" by (metis dec_enc_input option.inject)
  then have "res_input a = res_input a'"
    using parseArtifactInput_wire [OF assms(1)] parseArtifactInput_wire [OF assms(2)] by (metis sum.inject(2))
  with d show ?thesis by (cases a; cases a') simp
qed

lemma map_eq_inj: "map f xs = map f ys \<Longrightarrow> (\<And>x y. x \<in> set xs \<Longrightarrow> y \<in> set ys \<Longrightarrow> f x = f y \<Longrightarrow> x = y) \<Longrightarrow> xs = ys"
  by (induction xs arbitrary: ys) (auto simp: Cons_eq_map_conv)

lemma intentToWire_inject: "intent_ok i \<Longrightarrow> intent_ok j \<Longrightarrow> intentToWire i = intentToWire j \<Longrightarrow> i = j"
  by (metis intentFromWire_toWire sum.inject(2))

section \<open>The properties of bound Intents\<close>

text \<open>The example Intent, bound to a subject, two destinations, one Artifact and two Events.\<close>

definition exampleDigest :: "char \<Rightarrow> Digest" where
  "exampleDigest c = replicate 32 c"

definition exampleRef :: "string \<Rightarrow> EventRef" where
  "exampleRef i = \<lparr>ref_id = i, ref_digest = exampleDigest CHR ''d''\<rparr>"

definition exampleAttachment :: "string \<Rightarrow> Attachment" where
  "exampleAttachment i = \<lparr>att_id = i, att_principal = ''alice'', mayInitiate = False, issuedAt = 0, expiresAt = 10\<rparr>"

definition exampleBoundOf :: "EventRef list \<Rightarrow> AgentIntent \<Rightarrow> BoundIntentSpec" where
  "exampleBoundOf causes i =
     \<lparr>spec_intent = i, spec_operationKey = ''op1'', spec_attachment = exampleAttachment ''att1'',
      spec_viewDigest = exampleDigest CHR ''v'',
      spec_subject = Some \<lparr>sub_handle = ''h1'', sub_handlingID = ''H1'', sub_head = exampleRef ''e1'',
                          sub_fence = 1, sub_revision = 0\<rparr>,
      spec_expected = None,
      spec_targets = [\<lparr>requested = SelfTarget, destination = TargetDestinationLocal, localPrincipal = ''alice'',
                       remoteRoute = [], remoteAlias = []\<rparr>,
                      \<lparr>requested = \<lparr>targetSelf = False, targetAlias = ''bob''\<rparr>, destination = TargetDestinationRemote,
                       localPrincipal = [], remoteRoute = ''r1'', remoteAlias = ''bob''\<rparr>],
      spec_artifacts = [\<lparr>res_input = \<lparr>input_kind = ArtifactInputCandidate, input_handle = ''a1''\<rparr>,
                         res_digest = exampleDigest CHR ''a''\<rparr>],
      spec_causation = causes, spec_correlation = exampleRef ''e1'',
      spec_inReplyTo = zeroDigest\<rparr>"

abbreviation exampleBound :: "AgentIntent \<Rightarrow> BoundIntentSpec" where
  "exampleBound \<equiv> exampleBoundOf [exampleRef ''e1'', exampleRef ''e2'']"

lemma exampleDigest_ok [simp]: "exampleDigest CHR ''d'' \<noteq> zeroDigest" "exampleDigest CHR ''v'' \<noteq> zeroDigest"
  "exampleDigest CHR ''a'' \<noteq> zeroDigest"
  by code_simp+

lemma exampleBoundIntent:
  assumes "NewAgentIntent exampleIntentSpec = Inr i" "k \<noteq> []" "a \<noteq> []" "length cs = 2"
  shows "\<exists>b. NewBoundIntent (exampleBoundOf cs i\<lparr>spec_operationKey := k, spec_attachment := exampleAttachment a\<rparr>) = Inr b"
proof -
  note N = NewAgentIntent_Inr(11) [OF assms(1)]
  have f: "consequence i = ConsequenceAdvanceHandling" "subjectHandling i = ''h1''"
    "successors i = [SelfTarget, \<lparr>targetSelf = False, targetAlias = ''bob''\<rparr>]"
    "artifacts i = [\<lparr>input_kind = ArtifactInputCandidate, input_handle = ''a1''\<rparr>]" "correlationHandle i = ''p1''"
    "length (causationHandles i) = 2" "canonical i = Marshal (enc_intent (intentToWire i))"
    by (subst N, simp add: exampleIntentSpec_def IntentSpec.defs)+
  have "canonical i \<noteq> []"
    using f(7) Marshal_nonempty [OF json_ok_intent [OF spec_ok_intent [OF assms(1) exampleIntentSpec_ok]]] by simp
  then show ?thesis
    using assms f(1-6)
    by (simp add: NewBoundIntent_def validateResolvedBoundIntent_def validateResolvedReference_def Let_def
        exampleBoundOf_def consequence_defs exampleRef_def refIsZero_def sortDigests_def exampleAttachment_def)
qed

lemma exampleBound_same:
  "exampleBound i\<lparr>spec_operationKey := ''op1'', spec_attachment := exampleAttachment ''att1''\<rparr> = exampleBound i"
  by (simp add: exampleBoundOf_def)

text \<open>
  A bound Intent resolves its Intent completely: every requested successor has exactly one
  destination and every Artifact input exactly one digest, in the order of the Intent; a subject and
  an expected Reference are bound exactly when the consequence asks for them, and the subject bound is
  the one the Intent names, at a fence that is not zero; a completed Handling has evidence; the
  Artifact digests are those of the inputs, sorted and without repetition.
\<close>

theorem bound_resolves_intent:
  assumes "NewBoundIntent spec = Inr b"
  shows "map requested (b_targets b) = successors (b_intent b) \<and>
    map res_input (b_resolved b) = artifacts (b_intent b) \<and>
    (subjectBound (consequence (b_intent b)) \<longleftrightarrow> b_subject b \<noteq> None) \<and>
    (referenceBound (consequence (b_intent b)) \<longleftrightarrow> b_expected b \<noteq> None) \<and>
    (\<forall>s. b_subject b = Some s \<longrightarrow> sub_handle s = subjectHandling (b_intent b) \<and> sub_fence s \<noteq> 0) \<and>
    (consequence (b_intent b) = ConsequenceResolveCompleted \<longrightarrow> b_artifacts b \<noteq> []) \<and>
    length (b_causation b) = length (causationHandles (b_intent b)) \<and>
    set (b_artifacts b) = res_digest ` set (b_resolved b) \<and> length (b_artifacts b) = length (b_resolved b) \<and>
    distinct (b_artifacts b) \<and> zeroDigest \<notin> set (b_artifacts b)"
proof -
  note N = NewBoundIntent_Inr [OF assms]
  note V = validateResolvedBoundIntent_None [OF N(1)]
  have art: "b_artifacts b = sortDigests (map res_digest (b_resolved b))" using N(9,10) by simp
  have "distinct (map res_digest (b_resolved b))" using N(11) unfolding art by (rule distinct_sortDigests)
  then have "distinct (b_artifacts b)" by (simp add: art sortDigests_def)
  moreover have len: "length (b_artifacts b) = length (b_resolved b)" by (simp add: art sortDigests_def)
  moreover have "set (b_artifacts b) = res_digest ` set (b_resolved b)" by (simp add: art)
  moreover have "zeroDigest \<notin> set (b_artifacts b)" using V(6) N(9) by (auto simp: art)
  moreover have "b_artifacts b \<noteq> []" if "consequence (b_intent b) = ConsequenceResolveCompleted"
    using V(7) that N(2,9) len by auto
  ultimately show ?thesis using V(1-5,8) N(2,6,7,8,9,12) by auto
qed

theorem bound_resolves_intent_witness:
  "\<exists>i b. NewAgentIntent exampleIntentSpec = Inr i \<and> NewBoundIntent (exampleBound i) = Inr b \<and>
     map requested (b_targets b) = successors (b_intent b) \<and> distinct (b_artifacts b)"
proof -
  obtain i where i: "NewAgentIntent exampleIntentSpec = Inr i" using exampleIntent by blast
  obtain b where b: "NewBoundIntent (exampleBound i) = Inr b"
    using exampleBoundIntent [OF i, of "''op1''" "''att1''" "[exampleRef ''e1'', exampleRef ''e2'']"] by (auto simp: exampleBound_same)
  show ?thesis using i b bound_resolves_intent [OF b] by blast
qed

text \<open>
  (C21) The request digest is the identity of the request across retries: it does not depend on the
  operation key, nor on which Attachment of the same Principal, with the same authority to initiate, carries
  the request or when it expires.
\<close>

theorem request_digest_stable:
  assumes "NewBoundIntent spec = Inr b"
    "NewBoundIntent (spec\<lparr>spec_operationKey := k, spec_attachment := a\<rparr>) = Inr b'"
    "att_principal a = att_principal (spec_attachment spec)" "mayInitiate a = mayInitiate (spec_attachment spec)"
  shows "b_digest b' = b_digest b"
proof -
  note N = NewBoundIntent_Inr [OF assms(1)] and N' = NewBoundIntent_Inr [OF assms(2), simplified]
  have "requestWire b' = requestWire b"
    using N(2-14) N'(2-14) assms(3,4) by (simp add: requestWire_def)
  then show ?thesis using N(15) N'(15) by simp
qed

theorem request_digest_stable_witness:
  "\<exists>i b b'. NewBoundIntent (exampleBound i) = Inr b \<and>
     NewBoundIntent (exampleBound i\<lparr>spec_operationKey := ''op2'', spec_attachment := exampleAttachment ''att2''\<rparr>) = Inr b' \<and>
     b_digest b' = b_digest b"
proof -
  obtain i where i: "NewAgentIntent exampleIntentSpec = Inr i" using exampleIntent by blast
  obtain b where b: "NewBoundIntent (exampleBound i) = Inr b"
    using exampleBoundIntent [OF i, of "''op1''" "''att1''" "[exampleRef ''e1'', exampleRef ''e2'']"] by (auto simp: exampleBound_same)
  obtain b' where b': "NewBoundIntent
      (exampleBound i\<lparr>spec_operationKey := ''op2'', spec_attachment := exampleAttachment ''att2''\<rparr>) = Inr b'"
    using exampleBoundIntent [OF i, of "''op2''" "''att2''" "[exampleRef ''e1'', exampleRef ''e2'']"] by auto
  have "b_digest b' = b_digest b"
    by (rule request_digest_stable [OF b b']) (simp_all add: exampleBoundOf_def exampleAttachment_def)
  with b b' show ?thesis by blast
qed

text \<open>
  The encoded request determines the request: two bound Intents of well-formed parts with the same
  request bytes have the same source, the same Intent, View digest, subject with its head, fence and
  revision, expected Reference, destinations, Artifacts, causation, correlation and reply. So requests
  with one digest differ only if two byte strings collide under SHA-256.
\<close>

theorem request_bytes_determine:
  assumes "bound_ok b" "bound_ok b'" "Marshal (requestWire b) = Marshal (requestWire b')"
  shows "att_principal (b_attachment b) = att_principal (b_attachment b') \<and> b_intent b = b_intent b' \<and>
    mayInitiate (b_attachment b) = mayInitiate (b_attachment b') \<and>
    b_viewDigest b = b_viewDigest b' \<and>
    rel_option (\<lambda>s s'. sub_handlingID s = sub_handlingID s' \<and> sub_head s = sub_head s' \<and>
       sub_fence s = sub_fence s' \<and> sub_revision s = sub_revision s') (b_subject b) (b_subject b') \<and>
    rel_option (\<lambda>e e'. exp_absent e = exp_absent e' \<and> exp_key e = exp_key e') (b_expected b) (b_expected b') \<and>
    map resolvedWire (b_targets b) = map resolvedWire (b_targets b') \<and>
    b_resolved b = b_resolved b' \<and> b_causation b = b_causation b' \<and> b_inReplyTo b = b_inReplyTo b' \<and>
    (b_correlation b = b_correlation b' \<or> refIsZero (b_correlation b) \<and> refIsZero (b_correlation b'))"
proof -
  have eq: "requestWire b = requestWire b'"
    using Marshal_inject [OF json_ok_request [OF assms(1)] json_ok_request [OF assms(2)]] assms(3) by simp
  note m = member_request [of b] and m' = member_request [of b']
  have "enc_intent (intentToWire (b_intent b)) = enc_intent (intentToWire (b_intent b'))"
    using m(4) m'(4) by (simp add: eq)
  then have i: "b_intent b = b_intent b'"
    using assms(1,2) by (intro intentToWire_inject) (simp_all add: bound_ok_def, metis dec_enc_intent option.inject)
  have sub: "rel_option (\<lambda>s s'. subjectWire s = subjectWire s') (b_subject b) (b_subject b')"
    using m(5) m'(5) by (cases "b_subject b"; cases "b_subject b'") (simp_all add: eq)
  have exp: "rel_option (\<lambda>e e'. exp_absent e = exp_absent e' \<and> exp_key e = exp_key e') (b_expected b) (b_expected b')"
    using m(6) m'(6) by (cases "b_expected b"; cases "b_expected b'") (auto simp: eq expectationWire_def)
  have "map (enc_resolvedTarget \<circ> resolvedWire) (b_targets b) = map (enc_resolvedTarget \<circ> resolvedWire) (b_targets b')"
    using m(7) m'(7) by (auto simp: eq split: if_splits)
  then have tgt: "map resolvedWire (b_targets b) = map resolvedWire (b_targets b')"
    by (intro map_eq_inj [of enc_resolvedTarget]) simp_all
  have "map enc_resolved (b_resolved b) = map enc_resolved (b_resolved b')"
    using m(8) m'(8) by (auto simp: eq split: if_splits)
  then have art: "b_resolved b = b_resolved b'"
    by (rule map_eq_inj) (use assms(1,2) in \<open>simp add: bound_ok_def enc_resolved_inject\<close>)
  have "map (enc_eventRef \<circ> refWire) (b_causation b) = map (enc_eventRef \<circ> refWire) (b_causation b')"
    using m(9) m'(9) by (auto simp: eq split: if_splits)
  then have caus: "b_causation b = b_causation b'" by (rule map_eq_inj) simp
  show ?thesis
    using m(1-3,10,11) m'(1-3,10,11) i tgt art caus exp sub unfolding eq subjectWire_inject
    by (auto split: if_splits)
qed

lemma exampleBound_ok:
  assumes "NewAgentIntent exampleIntentSpec = Inr i" "handle_ok k" "\<forall>r \<in> set cs. ref_ok r"
    "NewBoundIntent (exampleBoundOf cs i\<lparr>spec_operationKey := k, spec_attachment := exampleAttachment a\<rparr>) = Inr b"
  shows "bound_ok b"
proof -
  have "intent_ok i"
    using NewAgentIntent_again [OF assms(1)] spec_ok_intent [OF assms(1) exampleIntentSpec_ok] by (simp add: intent_ok_def)
  moreover have "handle_ok ''alice'' \<and> handle_ok ''H1'' \<and> handle_ok ''r1'' \<and> handle_ok ''bob'' \<and> handle_ok ''a1'' \<and>
      ref_ok (exampleRef ''e1'') \<and> ref_ok (exampleRef ''e2'') \<and> digest_ok (exampleDigest CHR ''a'') \<and>
      length zeroDigest = 32"
    by code_simp
  ultimately show ?thesis
    using NewBoundIntent_Inr [OF assms(4)] assms(2,3)
    by (simp add: bound_ok_def exampleBoundOf_def exampleAttachment_def resolved_ok_def input_ok_def)
qed

theorem request_bytes_determine_witness:
  "\<exists>b b'. b_operationKey b \<noteq> b_operationKey b' \<and> Marshal (requestWire b) = Marshal (requestWire b') \<and>
     b_intent b = b_intent b' \<and> b_causation b = b_causation b'"
proof -
  let ?cs = "[exampleRef ''e1'', exampleRef ''e2'']"
  let ?s = "\<lambda>i k. exampleBound i\<lparr>spec_operationKey := k, spec_attachment := exampleAttachment ''att1''\<rparr>"
  obtain i where i: "NewAgentIntent exampleIntentSpec = Inr i" using exampleIntent by blast
  obtain b where b: "NewBoundIntent (?s i ''op1'') = Inr b" using exampleBoundIntent [OF i, of "''op1''" "''att1''" ?cs] by auto
  obtain b' where b': "NewBoundIntent (?s i ''op2'') = Inr b'" using exampleBoundIntent [OF i, of "''op2''" "''att1''" ?cs] by auto
  note N = NewBoundIntent_Inr [OF b] and N' = NewBoundIntent_Inr [OF b']
  have op: "handle_ok ''op1''" "handle_ok ''op2''" "\<forall>r \<in> set ?cs. ref_ok r" by code_simp+
  have "Marshal (requestWire b) = Marshal (requestWire b')"
    using N(2-14) N'(2-14) by (simp add: requestWire_def)
  moreover have "b_operationKey b \<noteq> b_operationKey b'" using N(3) N'(3) by simp
  ultimately show ?thesis
    using request_bytes_determine [OF exampleBound_ok [OF i op(1,3) b] exampleBound_ok [OF i op(2,3) b']] by blast
qed

end
