(* ===== verification/Agency_View.thy ===== *)
theory Agency_View
  imports Agency_Bound "HOL-Library.Multiset"
begin

text \<open>
  The authority behind one Agent View (\<^verbatim>\<open>internal/agency/view_authority.go\<close>, \<^verbatim>\<open>view_authority_wire.go\<close>,
  \<^verbatim>\<open>view_parse.go\<close>) and the decoding of canonical objects all durable readers share
  (\<^verbatim>\<open>canonical_parse.go\<close>).

  A View holds its offers in Go maps, whose order the program never sees: \<^verbatim>\<open>wire\<close> sorts what it takes
  out of them. The model keeps each map as the list of its values in the order of their keys, so that
  equal maps are equal lists and the sorting of \<^verbatim>\<open>wire\<close> is done when an offer is loaded.

  The results: a View is read back from its canonical bytes and the Attachment it belongs to, its
  digest depends on the set of offers and the Principal alone, and every handle resolves to exactly
  what was offered under it.
\<close>

section \<open>Decoding a canonical object\<close>

text \<open>
  \<open>enc\<close> and \<open>dec\<close> stand for the encoding and decoding of the type of \<^verbatim>\<open>destination\<close>. Go matches the
  names of members without regard to case and the model exactly; a text with another spelling is
  refused by both, since its encoding is not the text.
\<close>

definition decodeCanonicalObject ::
  "('w \<Rightarrow> json) \<Rightarrow> (json \<Rightarrow> 'w option) \<Rightarrow> string \<Rightarrow> bytes \<Rightarrow> nat \<Rightarrow> 'w result" where
  "decodeCanonicalObject enc dec fld data maximum =
     (if length data = 0 then Inl (ErrInvalid fld ''must not be empty'')
      else if maximum < length data then Inl (ErrLimit (fld @ '' bytes'') (length data) maximum)
      else case Unmarshal data of None \<Rightarrow> Inl (ErrDecode fld) | Some j \<Rightarrow>
      case rejectDuplicateJSONKeys fld j of Some e \<Rightarrow> Inl e | None \<Rightarrow>
      case dec j of None \<Rightarrow> Inl (ErrDecode fld) | Some w \<Rightarrow>
      if fst (canonicalJSON (enc w)) \<noteq> data then Inl (ErrInvalid fld ''is not the canonical encoding'')
      else Inr w)"

definition requireReconstructedCanonical :: "string \<Rightarrow> bytes \<Rightarrow> bytes \<Rightarrow> agencyError option" where
  "requireReconstructedCanonical fld data reconstructed =
     (if data \<noteq> reconstructed then Some (ErrInvariant fld ''does not match the authenticated authority'')
      else None)"

text \<open>The contract of the encoding of a wire struct, and what every canonical reader gets from it.\<close>

locale canonical_codec =
  fixes enc :: "'w \<Rightarrow> json"
    and dec :: "json \<Rightarrow> 'w option"
    and wire_ok :: "'w \<Rightarrow> bool"
  assumes dec_enc: "wire_ok w \<Longrightarrow> dec (enc w) = Some w"
    and unique: "unique_keys (enc w)"
begin

lemma enc_inject: "wire_ok w \<Longrightarrow> wire_ok w' \<Longrightarrow> enc w = enc w' \<longleftrightarrow> w = w'"
  by (metis dec_enc option.inject)

lemma decode_encode:
  "wire_ok w \<Longrightarrow> json_ok (enc w) \<Longrightarrow> length (Marshal (enc w)) \<le> m \<Longrightarrow>
   decodeCanonicalObject enc dec f (Marshal (enc w)) m = Inr w"
  using Marshal_nonempty [of "enc w"]
  by (simp add: decodeCanonicalObject_def Unmarshal_Marshal rejectDuplicateJSONKeys_def unique dec_enc)

lemma decoded:
  "decodeCanonicalObject enc dec f data m = Inr w \<Longrightarrow> data = Marshal (enc w) \<and> length data \<le> m"
  by (auto simp: decodeCanonicalObject_def split: if_splits option.splits)

end

interpretation intent_codec: canonical_codec enc_intent dec_intent "\<lambda>_. True"
  by unfold_locales (rule dec_enc_intent, rule unique_enc_intent)

text \<open>A struct of two members.\<close>

definition enc_pair :: "string \<Rightarrow> ('a \<Rightarrow> json) \<Rightarrow> string \<Rightarrow> ('b \<Rightarrow> json) \<Rightarrow> 'a \<times> 'b \<Rightarrow> json" where
  "enc_pair k e k' e' p = JObj [(k, e (fst p)), (k', e' (snd p))]"

definition dec_pair ::
  "string \<Rightarrow> 'a \<Rightarrow> (json \<Rightarrow> 'a option) \<Rightarrow> string \<Rightarrow> 'b \<Rightarrow> (json \<Rightarrow> 'b option) \<Rightarrow> json \<Rightarrow> ('a \<times> 'b) option" where
  "dec_pair k z d k' z' d' j =
     do { kvs \<leftarrow> dec_struct [k, k'] j; a \<leftarrow> field z d k kvs; b \<leftarrow> field z' d' k' kvs; Some (a, b) }"

lemma dec_enc_pair [json_simps]:
  "k \<noteq> k' \<Longrightarrow> d (e (fst p)) = Some (fst p) \<Longrightarrow> d' (e' (snd p)) = Some (snd p) \<Longrightarrow>
   dec_pair k z d k' z' d' (enc_pair k e k' e' p) = Some p"
  by (simp add: dec_pair_def enc_pair_def json_simps)

lemma unique_enc_pair [keys_simps]:
  "unique_keys (enc_pair k e k' e' p) \<longleftrightarrow> k \<noteq> k' \<and> unique_keys (e (fst p)) \<and> unique_keys (e' (snd p))"
  by (auto simp: enc_pair_def)

lemma json_ok_pair [json_simps]:
  "json_ok (enc_pair k e k' e' p) \<longleftrightarrow> ValidString k \<and> ValidString k' \<and> json_ok (e (fst p)) \<and> json_ok (e' (snd p))"
  by (auto simp: enc_pair_def)

section \<open>View authority\<close>

definition viewAuthorityVersion :: nat where
  "viewAuthorityVersion = 7"

record MachineViewSpec =
  mv_attachment :: Attachment
  mv_consequences :: "Consequence list"
  mv_subjects :: "SubjectBinding list"
  mv_references :: "ReferenceExpectation list"
  mv_targets :: "ResolvedTarget list"
  mv_replyTo :: OpaqueHandle
  mv_replyTarget :: TargetRef
  mv_replyDelivery :: DeliveryID
  mv_replyPending :: bool
  mv_artifacts :: "ViewArtifactOffer list"
  mv_provenance :: "ProvenanceOffer list"

record ViewAuthority = MachineViewSpec +
  v_canonical :: bytes
  v_digest :: Digest

text \<open>
  The loops that load a map: check an offer, refuse a key that is there already, insert. The last
  argument but one is the map so far.
\<close>

fun loadOffers ::
  "('a \<Rightarrow> agencyError option) \<Rightarrow> ('a \<Rightarrow> string) \<Rightarrow> agencyError \<Rightarrow> 'a list \<Rightarrow> 'a list \<Rightarrow> 'a list result" where
  "loadOffers check key dup dest [] = Inr dest"
| "loadOffers check key dup dest (x # xs) =
     (case check x of Some e \<Rightarrow> Inl e | None \<Rightarrow>
      if key x \<in> key ` set dest then Inl dup
      else loadOffers check key dup (insort_key key x dest) xs)"

definition loadConsequences :: "Consequence list \<Rightarrow> Consequence list result" where
  "loadConsequences =
     loadOffers (\<lambda>c. if \<not> agentDeclarable c
                     then Some (ErrInvalid ''View authority'' ''contains a non-Agent-declarable consequence'')
                     else None)
       consequenceString (ErrInvalid ''View authority'' ''contains a duplicate consequence'') []"

definition loadSubjects :: "SubjectBinding list \<Rightarrow> SubjectBinding list result" where
  "loadSubjects =
     loadOffers (\<lambda>s. if sub_handle s = [] \<or> sub_handlingID s = [] \<or> refIsZero (sub_head s) \<or> sub_fence s = 0
                     then Some (ErrInvalid ''View subject'' ''contains an invalid binding'') else None)
       sub_handle (ErrInvalid ''View subject'' ''contains a duplicate handle'') []"

definition loadReferences :: "ReferenceExpectation list \<Rightarrow> ReferenceExpectation list result" where
  "loadReferences =
     loadOffers (\<lambda>r. if exp_absent r \<or> exp_handle r = [] \<or> exp_key r = [] \<or> refIsZero (exp_head r)
                     then Some (ErrInvalid ''View Reference'' ''must contain an exact locally accepted head'') else None)
       exp_handle (ErrInvalid ''View Reference'' ''contains a duplicate handle'') []"

definition validateResolvedTarget :: "ResolvedTarget \<Rightarrow> Attachment \<Rightarrow> agencyError option" where
  "validateResolvedTarget t a =
     (if targetIsZero (requested t) then Some (ErrInvalid ''View target'' ''requested target is required'')
      else case destination t of
        TargetDestinationLocal \<Rightarrow>
          if localPrincipal t = [] \<or> remoteRoute t \<noteq> [] \<or> remoteAlias t \<noteq> []
          then Some (ErrInvalid ''View target'' ''invalid local resolution'')
          else if targetSelf (requested t) \<and> localPrincipal t \<noteq> att_principal a
          then Some (ErrInvariant ''View target'' ''self must resolve to the Attachment Principal'')
          else None
      | TargetDestinationRemote \<Rightarrow>
          if targetSelf (requested t) \<or> remoteRoute t = [] \<or> remoteAlias t = [] \<or> localPrincipal t \<noteq> []
          then Some (ErrInvalid ''View target'' ''invalid remote resolution'') else None
      | TargetDestinationInvalid \<Rightarrow> Some (ErrInvalid ''View target'' ''unknown destination''))"

definition loadTargets :: "ResolvedTarget list \<Rightarrow> Attachment \<Rightarrow> ResolvedTarget list result" where
  "loadTargets offers a =
     loadOffers (\<lambda>t. validateResolvedTarget t a) (\<lambda>t. canonicalKey (requested t))
       (ErrInvalid ''View targets'' ''contains a duplicate requested target'') [] offers"

definition loadArtifacts :: "ViewArtifactOffer list \<Rightarrow> ViewArtifactOffer list result" where
  "loadArtifacts =
     loadOffers (\<lambda>a. if off_handle a = [] \<or> off_digest a = zeroDigest
                     then Some (ErrInvalid ''View Artifacts'' ''contains an invalid offer'') else None)
       off_handle (ErrInvalid ''View Artifacts'' ''contains a duplicate handle'') []"

definition loadProvenance :: "ProvenanceOffer list \<Rightarrow> ProvenanceOffer list result" where
  "loadProvenance =
     loadOffers (\<lambda>p. if prov_handle p = [] \<or> refIsZero (prov_event p)
                     then Some (ErrInvalid ''View provenance'' ''contains an invalid offer'') else None)
       prov_handle (ErrInvalid ''View provenance'' ''contains a duplicate handle'') []"

definition loadReplyContext ::
  "OpaqueHandle \<Rightarrow> TargetRef \<Rightarrow> DeliveryID \<Rightarrow> SubjectBinding list \<Rightarrow> ResolvedTarget list \<Rightarrow> ProvenanceOffer list \<Rightarrow>
   (OpaqueHandle \<times> TargetRef \<times> DeliveryID) result" where
  "loadReplyContext replyTo target delivery subjects targets provenance =
     (if replyTo = []
      then if \<not> targetIsZero target \<or> delivery \<noteq> zeroDigest
           then Inl (ErrInvalid ''View reply context'' ''target and Delivery require a reply-to offer'')
           else Inr ([], zeroTarget, zeroDigest)
      else if length subjects \<noteq> 1
      then Inl (ErrInvalid ''View reply context'' ''requires one current subject'')
      else if replyTo \<notin> prov_handle ` set provenance
      then Inl (ErrInvariant ''View reply context'' ''reply-to must be one exact provenance offer'')
      else if targetIsZero target
      then if delivery \<noteq> zeroDigest
           then Inl (ErrInvalid ''View reply context'' ''Delivery requires a remote reply target'')
           else Inr (replyTo, zeroTarget, zeroDigest)
      else if delivery = zeroDigest
      then Inl (ErrInvalid ''View reply context'' ''remote reply target requires an exact Delivery'')
      else if targetSelf target
      then Inl (ErrInvalid ''View reply target'' ''must be a remote alias'')
      else case List.find (\<lambda>t. canonicalKey (requested t) = canonicalKey target) targets of
             None \<Rightarrow> Inl (ErrInvariant ''View reply target'' ''must be one exact offered remote target'')
           | Some t \<Rightarrow>
               if destination t \<noteq> TargetDestinationRemote \<or> requested t \<noteq> target
               then Inl (ErrInvariant ''View reply target'' ''must be one exact offered remote target'')
               else Inr (replyTo, target, delivery))"

definition load :: "MachineViewSpec \<Rightarrow> MachineViewSpec result" where
  "load spec =
     bindE (loadConsequences (mv_consequences spec)) (\<lambda>consequences.
     bindE (loadSubjects (mv_subjects spec)) (\<lambda>subjects.
     bindE (loadReferences (mv_references spec)) (\<lambda>references.
     bindE (loadTargets (mv_targets spec) (mv_attachment spec)) (\<lambda>targets.
     bindE (loadArtifacts (mv_artifacts spec)) (\<lambda>artifacts.
     bindE (loadProvenance (mv_provenance spec)) (\<lambda>provenance.
     bindE (loadReplyContext (mv_replyTo spec) (mv_replyTarget spec) (mv_replyDelivery spec)
              subjects targets provenance) (\<lambda>(replyTo, replyTarget, replyDelivery).
       if mv_replyPending spec \<and> length subjects \<noteq> 1
       then Inl (ErrInvalid ''View reply observation'' ''pending state requires one current subject'')
       else Inr \<lparr>mv_attachment = mv_attachment spec, mv_consequences = consequences,
                 mv_subjects = subjects, mv_references = references, mv_targets = targets,
                 mv_replyTo = replyTo, mv_replyTarget = replyTarget, mv_replyDelivery = replyDelivery,
                 mv_replyPending = mv_replyPending spec, mv_artifacts = artifacts,
                 mv_provenance = provenance\<rparr>)))))))"

definition validateSubjectOfferBound :: "SubjectBinding list \<Rightarrow> agencyError option" where
  "validateSubjectOfferBound offers =
     (if length offers \<le> 1 then None
      else if \<not> distinct (map sub_handle offers)
      then Some (ErrInvalid ''View subjects'' ''contains a duplicate handle'')
      else Some (ErrLimit ''View subjects'' (length offers) 1))"

subsection \<open>The wire form\<close>

record machineViewWire =
  mvw_version :: nat
  mvw_principal :: string
  mvw_mayInitiate :: bool
  mvw_consequences :: "string list"
  mvw_subjects :: "(string \<times> subjectBindingWire) list"
  mvw_references :: "(string \<times> referenceExpectationWire) list"
  mvw_targets :: "(targetWire \<times> resolvedTargetWire) list"
  mvw_replyTo :: string
  mvw_replyTarget :: "targetWire option"
  mvw_replyDelivery :: string
  mvw_replyPending :: bool
  mvw_artifacts :: "(string \<times> string) list"
  mvw_provenance :: "(string \<times> eventRefWire) list"

definition viewWire :: "'a MachineViewSpec_scheme \<Rightarrow> machineViewWire" where
  "viewWire v =
     \<lparr>mvw_version = viewAuthorityVersion, mvw_principal = att_principal (mv_attachment v),
      mvw_mayInitiate = mayInitiate (mv_attachment v),
      mvw_consequences = map consequenceString (mv_consequences v),
      mvw_subjects = map (\<lambda>s. (sub_handle s, subjectWire s)) (mv_subjects v),
      mvw_references = map (\<lambda>r. (exp_handle r, \<lparr>rew_absent = False, rew_key = exp_key r,
                                  rew_head = Some (refWire (exp_head r))\<rparr>)) (mv_references v),
      mvw_targets = map (\<lambda>t. (targetToWire (requested t), resolvedWire t)) (mv_targets v),
      mvw_replyTo = mv_replyTo v,
      mvw_replyTarget = (if targetIsZero (mv_replyTarget v) then None
                         else Some \<lparr>wire_self = False, wire_alias = targetAlias (mv_replyTarget v)\<rparr>),
      mvw_replyDelivery = (if mv_replyDelivery v = zeroDigest then [] else deliveryString (mv_replyDelivery v)),
      mvw_replyPending = mv_replyPending v,
      mvw_artifacts = map (\<lambda>a. (off_handle a, digestString (off_digest a))) (mv_artifacts v),
      mvw_provenance = map (\<lambda>p. (prov_handle p, refWire (prov_event p))) (mv_provenance v)\<rparr>"

abbreviation "enc_viewSubject \<equiv> enc_pair ''handle'' JStr ''binding'' enc_subjectBinding"
abbreviation "enc_viewReference \<equiv> enc_pair ''handle'' JStr ''head'' enc_referenceExpectation"
abbreviation "enc_viewTarget \<equiv> enc_pair ''requested'' enc_target ''resolved'' enc_resolvedTarget"
abbreviation "enc_viewArtifact \<equiv> enc_pair ''handle'' JStr ''digest'' JStr"
abbreviation "enc_viewProvenance \<equiv> enc_pair ''handle'' JStr ''event'' enc_eventRef"

definition enc_view :: "machineViewWire \<Rightarrow> json" where
  "enc_view w =
     JObj ((''schema_version'', JNat (mvw_version w)) # (''source_principal'', JStr (mvw_principal w)) #
           (''may_initiate'', JBool (mvw_mayInitiate w)) #
           omitempty ''consequences'' (mvw_consequences w \<noteq> []) (enc_strings (mvw_consequences w)) @
           omitempty ''subjects'' (mvw_subjects w \<noteq> []) (JArr (map enc_viewSubject (mvw_subjects w))) @
           omitempty ''references'' (mvw_references w \<noteq> []) (JArr (map enc_viewReference (mvw_references w))) @
           omitempty ''targets'' (mvw_targets w \<noteq> []) (JArr (map enc_viewTarget (mvw_targets w))) @
           omitempty ''reply_to'' (mvw_replyTo w \<noteq> []) (JStr (mvw_replyTo w)) @
           omitempty ''reply_target'' (mvw_replyTarget w \<noteq> None) (enc_target (the (mvw_replyTarget w))) @
           omitempty ''reply_delivery_id'' (mvw_replyDelivery w \<noteq> []) (JStr (mvw_replyDelivery w)) @
           (''reply_observation_pending'', JBool (mvw_replyPending w)) #
           omitempty ''artifacts'' (mvw_artifacts w \<noteq> []) (JArr (map enc_viewArtifact (mvw_artifacts w))) @
           omitempty ''provenance'' (mvw_provenance w \<noteq> []) (JArr (map enc_viewProvenance (mvw_provenance w))))"

definition viewHandleCount :: "MachineViewSpec \<Rightarrow> nat" where
  "viewHandleCount spec =
     length (mv_subjects spec) + length (mv_references spec) + length (mv_artifacts spec) +
     length (mv_provenance spec) + length (filter (\<lambda>t. \<not> targetSelf (requested t)) (mv_targets spec))"

definition NewViewAuthority :: "MachineViewSpec \<Rightarrow> ViewAuthority result" where
  "NewViewAuthority spec =
     (if att_id (mv_attachment spec) = [] then Inl (ErrInvalid ''View authority'' ''Attachment is required'')
      else if MaxViewConsequences < length (mv_consequences spec)
      then Inl (ErrLimit ''View consequences'' (length (mv_consequences spec)) MaxViewConsequences)
      else case validateSubjectOfferBound (mv_subjects spec) of Some e \<Rightarrow> Inl e | None \<Rightarrow>
      if MaxViewTargets < length (mv_targets spec)
      then Inl (ErrLimit ''View targets'' (length (mv_targets spec)) MaxViewTargets)
      else if MaxViewHandles < viewHandleCount spec
      then Inl (ErrLimit ''View handles'' (viewHandleCount spec) MaxViewHandles)
      else
        bindE (load spec) (\<lambda>view.
          let canonical_digest = canonicalJSON (enc_view (viewWire view))
          in if MaxViewCanonicalBytes < length (fst canonical_digest)
             then Inl (ErrLimit ''View canonical bytes'' (length (fst canonical_digest)) MaxViewCanonicalBytes)
             else Inr (MachineViewSpec.extend view
                         \<lparr>v_canonical = fst canonical_digest, v_digest = snd canonical_digest\<rparr>)))"

subsection \<open>Looking up what was offered\<close>

definition ResolveOfferedArtifact :: "ViewAuthority \<Rightarrow> OpaqueHandle \<Rightarrow> Digest result" where
  "ResolveOfferedArtifact v h =
     (if h = [] then Inl (ErrInvalid ''View Artifact read'' ''handle is required'')
      else case List.find (\<lambda>a. off_handle a = h) (mv_artifacts v) of
             None \<Rightarrow> Inl (ErrInvariant ''View Artifact read'' ''handle was not offered by the View'')
           | Some a \<Rightarrow>
               if off_handle a \<noteq> h \<or> off_digest a = zeroDigest
               then Inl (ErrInvariant ''View Artifact read'' ''handle was not offered by the View'')
               else Inr (off_digest a))"

definition Allows :: "ViewAuthority \<Rightarrow> Consequence \<Rightarrow> bool" where
  "Allows v c \<longleftrightarrow> c \<in> set (mv_consequences v)"

definition ResolveSubject :: "ViewAuthority \<Rightarrow> OpaqueHandle \<Rightarrow> SubjectBinding option" where
  "ResolveSubject v h = (if h = [] then None else List.find (\<lambda>s. sub_handle s = h) (mv_subjects v))"

definition ResolveReference :: "ViewAuthority \<Rightarrow> OpaqueHandle \<Rightarrow> ReferenceExpectation option" where
  "ResolveReference v h = (if h = [] then None else List.find (\<lambda>r. exp_handle r = h) (mv_references v))"

definition ResolveTarget :: "ViewAuthority \<Rightarrow> TargetRef \<Rightarrow> ResolvedTarget option" where
  "ResolveTarget v t =
     (if targetIsZero t then None
      else List.find (\<lambda>x. canonicalKey (requested x) = canonicalKey t) (mv_targets v))"

definition ResolveProvenance :: "ViewAuthority \<Rightarrow> OpaqueHandle \<Rightarrow> EventRef option" where
  "ResolveProvenance v h =
     (if h = [] then None
      else map_option prov_event (List.find (\<lambda>p. prov_handle p = h) (mv_provenance v)))"

definition ReplyContext :: "ViewAuthority \<Rightarrow> (OpaqueHandle \<times> TargetRef \<times> DeliveryID) option" where
  "ReplyContext v =
     (if mv_replyTo v = [] then None else Some (mv_replyTo v, mv_replyTarget v, mv_replyDelivery v))"

section \<open>Reading a View\<close>

definition viewKeys :: "string list" where
  "viewKeys = [''schema_version'', ''source_principal'', ''may_initiate'', ''consequences'', ''subjects'',
     ''references'', ''targets'', ''reply_to'', ''reply_target'', ''reply_delivery_id'',
     ''reply_observation_pending'', ''artifacts'', ''provenance'']"

definition zeroEventRefWire :: eventRefWire where
  "zeroEventRefWire = \<lparr>wire_id = [], wire_digest = []\<rparr>"

definition dec_view :: "json \<Rightarrow> machineViewWire option" where
  "dec_view j =
     do { kvs \<leftarrow> dec_struct viewKeys j;
          ver \<leftarrow> field 0 (dec_uint 63) ''schema_version'' kvs;
          p \<leftarrow> field [] dec_string ''source_principal'' kvs;
          m \<leftarrow> field False dec_bool ''may_initiate'' kvs;
          cs \<leftarrow> field [] (dec_list dec_string) ''consequences'' kvs;
          ss \<leftarrow> field [] (dec_list (dec_pair ''handle'' [] dec_string ''binding''
                   \<lparr>sbw_handlingID = [], sbw_head = zeroEventRefWire, sbw_fence = 0, sbw_revision = 0\<rparr>
                   dec_subjectBinding)) ''subjects'' kvs;
          rs \<leftarrow> field [] (dec_list (dec_pair ''handle'' [] dec_string ''head''
                   \<lparr>rew_absent = False, rew_key = [], rew_head = None\<rparr> dec_referenceExpectation)) ''references'' kvs;
          ts \<leftarrow> field [] (dec_list (dec_pair ''requested'' \<lparr>wire_self = False, wire_alias = []\<rparr> dec_target ''resolved''
                   \<lparr>rtw_destination = [], rtw_localPrincipal = [], rtw_remoteRoute = [], rtw_remoteAlias = []\<rparr>
                   dec_resolvedTarget)) ''targets'' kvs;
          rt \<leftarrow> field [] dec_string ''reply_to'' kvs;
          rg \<leftarrow> field None (dec_ptr dec_target) ''reply_target'' kvs;
          rd \<leftarrow> field [] dec_string ''reply_delivery_id'' kvs;
          rp \<leftarrow> field False dec_bool ''reply_observation_pending'' kvs;
          as \<leftarrow> field [] (dec_list (dec_pair ''handle'' [] dec_string ''digest'' [] dec_string)) ''artifacts'' kvs;
          ps \<leftarrow> field [] (dec_list (dec_pair ''handle'' [] dec_string ''event'' zeroEventRefWire dec_eventRef))
                   ''provenance'' kvs;
          Some \<lparr>mvw_version = ver, mvw_principal = p, mvw_mayInitiate = m, mvw_consequences = cs,
                mvw_subjects = ss, mvw_references = rs, mvw_targets = ts, mvw_replyTo = rt,
                mvw_replyTarget = rg, mvw_replyDelivery = rd, mvw_replyPending = rp, mvw_artifacts = as,
                mvw_provenance = ps\<rparr> }"

definition parseViewConsequences :: "string list \<Rightarrow> Consequence list result" where
  "parseViewConsequences = mapE parseConsequence"

definition parseViewSubject :: "string \<times> subjectBindingWire \<Rightarrow> SubjectBinding result" where
  "parseViewSubject w =
     bindE (NewOpaqueHandle (fst w)) (\<lambda>h.
     bindE (NewHandlingID (sbw_handlingID (snd w))) (\<lambda>i.
     bindE (parseEventRef (sbw_head (snd w))) (\<lambda>head.
     NewSubjectBinding h i head (sbw_fence (snd w)) (sbw_revision (snd w)))))"

definition parseViewSubjects :: "(string \<times> subjectBindingWire) list \<Rightarrow> SubjectBinding list result" where
  "parseViewSubjects = mapE parseViewSubject"

definition parseViewReference :: "string \<times> referenceExpectationWire \<Rightarrow> ReferenceExpectation result" where
  "parseViewReference w =
     (case rew_head (snd w) of
        None \<Rightarrow> Inl (ErrInvalid ''View Reference'' ''must contain an exact locally accepted head'')
      | Some headWire \<Rightarrow>
          if rew_absent (snd w)
          then Inl (ErrInvalid ''View Reference'' ''must contain an exact locally accepted head'')
          else
            bindE (NewOpaqueHandle (fst w)) (\<lambda>h.
            bindE (NewReferenceKey (rew_key (snd w))) (\<lambda>k.
            bindE (parseEventRef headWire) (\<lambda>head.
            ExpectReferenceHead h k head))))"

definition parseViewReferences :: "(string \<times> referenceExpectationWire) list \<Rightarrow> ReferenceExpectation list result" where
  "parseViewReferences = mapE parseViewReference"

definition parseResolvedTarget :: "TargetRef \<Rightarrow> resolvedTargetWire \<Rightarrow> ResolvedTarget result" where
  "parseResolvedTarget req w =
     (if rtw_destination w = ''local''
      then if rtw_remoteRoute w \<noteq> [] \<or> rtw_remoteAlias w \<noteq> []
           then Inl (ErrInvalid ''View local target'' ''must not contain remote authority'')
           else bindE (NewAgentPrincipalID (rtw_localPrincipal w)) (\<lambda>p. ResolveLocalTarget req p)
      else if rtw_destination w = ''remote''
      then if rtw_localPrincipal w \<noteq> []
           then Inl (ErrInvalid ''View remote target'' ''must not contain local authority'')
           else
             bindE (NewRouteID (rtw_remoteRoute w)) (\<lambda>route.
             bindE (NewOpaqueHandle (rtw_remoteAlias w)) (\<lambda>a.
             ResolveRemoteTarget req route a))
      else Inl (ErrInvalid ''View target destination'' ''must be local or remote''))"

definition parseTarget :: "targetWire \<Rightarrow> TargetRef result" where
  "parseTarget = parseTargetWith ''View requested target''"

definition parseViewTarget :: "targetWire \<times> resolvedTargetWire \<Rightarrow> ResolvedTarget result" where
  "parseViewTarget w = bindE (parseTarget (fst w)) (\<lambda>req. parseResolvedTarget req (snd w))"

definition parseViewTargets :: "(targetWire \<times> resolvedTargetWire) list \<Rightarrow> ResolvedTarget list result" where
  "parseViewTargets = mapE parseViewTarget"

definition parseViewArtifact :: "string \<times> string \<Rightarrow> ViewArtifactOffer result" where
  "parseViewArtifact w =
     bindE (NewOpaqueHandle (fst w)) (\<lambda>h. bindE (ParseDigest (snd w)) (\<lambda>d. NewViewArtifactOffer h d))"

definition parseViewArtifacts :: "(string \<times> string) list \<Rightarrow> ViewArtifactOffer list result" where
  "parseViewArtifacts = mapE parseViewArtifact"

definition parseViewProvenance1 :: "string \<times> eventRefWire \<Rightarrow> ProvenanceOffer result" where
  "parseViewProvenance1 w =
     bindE (NewOpaqueHandle (fst w)) (\<lambda>h. bindE (parseEventRef (snd w)) (\<lambda>e. NewProvenanceOffer h e))"

definition parseViewProvenance :: "(string \<times> eventRefWire) list \<Rightarrow> ProvenanceOffer list result" where
  "parseViewProvenance = mapE parseViewProvenance1"

definition parseViewReplyTarget :: "targetWire option \<Rightarrow> TargetRef result" where
  "parseViewReplyTarget w =
     (case w of None \<Rightarrow> Inr zeroTarget
      | Some tw \<Rightarrow>
          bindE (parseTarget tw) (\<lambda>t.
            if targetSelf t then Inl (ErrInvalid ''View reply target'' ''must be a remote alias'') else Inr t))"

definition machineViewSpecFromWire :: "machineViewWire \<Rightarrow> Attachment \<Rightarrow> MachineViewSpec result" where
  "machineViewSpecFromWire w a =
     bindE (parseViewConsequences (mvw_consequences w)) (\<lambda>cs.
     bindE (parseViewSubjects (mvw_subjects w)) (\<lambda>ss.
     bindE (parseViewReferences (mvw_references w)) (\<lambda>rs.
     bindE (parseViewTargets (mvw_targets w)) (\<lambda>ts.
     bindE (if mvw_replyTo w \<noteq> [] then NewOpaqueHandle (mvw_replyTo w) else Inr []) (\<lambda>rt.
     bindE (parseViewReplyTarget (mvw_replyTarget w)) (\<lambda>rg.
     bindE (if mvw_replyDelivery w \<noteq> [] then ParseDeliveryID (mvw_replyDelivery w) else Inr zeroDigest) (\<lambda>rd.
     bindE (parseViewArtifacts (mvw_artifacts w)) (\<lambda>as.
     bindE (parseViewProvenance (mvw_provenance w)) (\<lambda>ps.
     Inr \<lparr>mv_attachment = a, mv_consequences = cs, mv_subjects = ss, mv_references = rs, mv_targets = ts,
          mv_replyTo = rt, mv_replyTarget = rg, mv_replyDelivery = rd,
          mv_replyPending = mvw_replyPending w, mv_artifacts = as, mv_provenance = ps\<rparr>)))))))))"

definition ParseViewAuthorityCanonicalJSON :: "bytes \<Rightarrow> Attachment \<Rightarrow> ViewAuthority result" where
  "ParseViewAuthorityCanonicalJSON data a =
     bindE (decodeCanonicalObject enc_view dec_view ''View authority JSON'' data MaxViewCanonicalBytes) (\<lambda>w.
       if mvw_version w \<noteq> viewAuthorityVersion
       then Inl (ErrInvalid ''View authority schema version'' ''is unsupported'')
       else
         bindE (NewAgentPrincipalID (mvw_principal w)) (\<lambda>p.
           if att_id a = [] \<or> p \<noteq> att_principal a \<or> mvw_mayInitiate w \<noteq> mayInitiate a
           then Inl (ErrInvariant ''View authority Attachment'' ''Principal or initiation authority differs'')
           else
             bindE (machineViewSpecFromWire w a) (\<lambda>spec.
             bindE (NewViewAuthority spec) (\<lambda>view.
               case requireReconstructedCanonical ''View authority JSON'' data (v_canonical view) of
                 Some e \<Rightarrow> Inl e
               | None \<Rightarrow> Inr view))))"

section \<open>Loading\<close>

lemma sort_key_unique:
  assumes "mset ys = mset xs" "distinct (map f xs)" "sorted (map f ys)"
  shows "ys = sort_key f xs"
proof -
  have m: "mset (map f ys) = mset (map f (sort_key f xs))" using assms(1) by simp
  have "map f ys = map f (sort_key f xs)"
    using assms(2,3) m by (metis mset_eq_setD mset_eq_imp_distinct_iff mset_map mset_sort
        sorted_distinct_set_unique sorted_sort_key)
  moreover have "inj_on f (set ys \<union> set (sort_key f xs))"
    using assms(1,2) mset_eq_setD [OF assms(1)] by (simp add: distinct_map)
  ultimately show ?thesis using inj_on_map_eq_map by blast
qed

lemma sort_key_mset: "mset xs = mset ys \<Longrightarrow> distinct (map f xs) \<Longrightarrow> sort_key f xs = sort_key f ys"
  by (metis mset_eq_imp_distinct_iff mset_map mset_sort sort_key_unique sorted_sort_key)

lemma sort_key_again [simp]: "sort_key f (sort_key f xs) = sort_key f xs"
  by (simp add: sort_key_id_if_sorted)

lemma distinct_map_sort_key [simp]: "distinct (map f (sort_key g xs)) \<longleftrightarrow> distinct (map f xs)"
  by (metis mset_eq_imp_distinct_iff mset_map mset_sort)

lemma length_filter_sort_key [simp]: "length (filter P (sort_key g xs)) = length (filter P xs)"
  by (metis mset_filter mset_sort size_mset)

lemma loadOffers_fold:
  "loadOffers check key dup dest xs = Inr m \<longleftrightarrow>
     (\<forall>x \<in> set xs. check x = None) \<and> distinct (map key xs) \<and> (\<forall>x \<in> set xs. key x \<notin> key ` set dest) \<and>
     m = fold (insort_key key) xs dest"
proof (induction check key dup dest xs rule: loadOffers.induct)
  case (2 check key dup dest x xs)
  show ?case
  proof (cases "check x = None \<and> key x \<notin> key ` set dest")
    case True
    with 2 show ?thesis by (auto simp: set_insort_key image_iff)
  qed (auto split: option.splits)
qed auto

lemma fold_insort_key:
  "sorted (map f dest) \<Longrightarrow> sorted (map f (fold (insort_key f) xs dest)) \<and> mset (fold (insort_key f) xs dest) = mset xs + mset dest"
  by (induction xs arbitrary: dest) (simp_all add: sorted_insort_key)

lemma loadOffers_Inr:
  "loadOffers check key dup [] xs = Inr m \<longleftrightarrow>
     (\<forall>x \<in> set xs. check x = None) \<and> distinct (map key xs) \<and> m = sort_key key xs"
  using fold_insort_key [of key "[]" xs] sort_key_unique [of "fold (insort_key key) xs []" xs key]
  by (auto simp: loadOffers_fold)

lemma targetIsZero_iff: "targetIsZero t \<longleftrightarrow> t = zeroTarget"
  by (cases t) (simp add: targetIsZero_def zeroTarget_def)

lemma loadReplyContext_same:
  "loadReplyContext rt tg rd ss ts ps = Inr r \<Longrightarrow> r = (rt, tg, rd)"
  by (auto simp: loadReplyContext_def targetIsZero_iff split: if_splits option.splits)

text \<open>The View a specification loads: its lists in the order of their keys.\<close>

definition sortView :: "MachineViewSpec \<Rightarrow> MachineViewSpec" where
  "sortView spec = spec\<lparr>mv_consequences := sort_key consequenceString (mv_consequences spec),
     mv_subjects := sort_key sub_handle (mv_subjects spec),
     mv_references := sort_key exp_handle (mv_references spec),
     mv_targets := sort_key (\<lambda>t. canonicalKey (requested t)) (mv_targets spec),
     mv_artifacts := sort_key off_handle (mv_artifacts spec),
     mv_provenance := sort_key prov_handle (mv_provenance spec)\<rparr>"

definition load_ok :: "MachineViewSpec \<Rightarrow> bool" where
  "load_ok spec \<longleftrightarrow>
     (\<forall>c \<in> set (mv_consequences spec). agentDeclarable c) \<and> distinct (map consequenceString (mv_consequences spec)) \<and>
     (\<forall>s \<in> set (mv_subjects spec). sub_handle s \<noteq> [] \<and> sub_handlingID s \<noteq> [] \<and> \<not> refIsZero (sub_head s) \<and> sub_fence s \<noteq> 0) \<and>
     distinct (map sub_handle (mv_subjects spec)) \<and>
     (\<forall>r \<in> set (mv_references spec). \<not> exp_absent r \<and> exp_handle r \<noteq> [] \<and> exp_key r \<noteq> [] \<and> \<not> refIsZero (exp_head r)) \<and>
     distinct (map exp_handle (mv_references spec)) \<and>
     (\<forall>t \<in> set (mv_targets spec). validateResolvedTarget t (mv_attachment spec) = None) \<and>
     distinct (map (\<lambda>t. canonicalKey (requested t)) (mv_targets spec)) \<and>
     (\<forall>a \<in> set (mv_artifacts spec). off_handle a \<noteq> [] \<and> off_digest a \<noteq> zeroDigest) \<and>
     distinct (map off_handle (mv_artifacts spec)) \<and>
     (\<forall>p \<in> set (mv_provenance spec). prov_handle p \<noteq> [] \<and> \<not> refIsZero (prov_event p)) \<and>
     distinct (map prov_handle (mv_provenance spec)) \<and>
     loadReplyContext (mv_replyTo spec) (mv_replyTarget spec) (mv_replyDelivery spec) (mv_subjects (sortView spec))
       (mv_targets (sortView spec)) (mv_provenance (sortView spec)) =
       Inr (mv_replyTo spec, mv_replyTarget spec, mv_replyDelivery spec) \<and>
     (mv_replyPending spec \<longrightarrow> length (mv_subjects spec) = 1)"

lemma if_Some_None: "(if c then Some e else None) = None \<longleftrightarrow> \<not> c"
  by simp

lemma load_Inr: "load spec = Inr v \<longleftrightarrow> load_ok spec \<and> v = sortView spec"
proof -
  have reply: "loadReplyContext a b c ss ts ps = Inr r \<longleftrightarrow>
      r = (a, b, c) \<and> loadReplyContext a b c ss ts ps = Inr (a, b, c)" for a b c ss ts ps r
    using loadReplyContext_same by blast
  show ?thesis
    unfolding load_def loadConsequences_def loadSubjects_def loadReferences_def loadTargets_def loadArtifacts_def
      loadProvenance_def guards loadOffers_Inr if_Some_None
    apply (subst reply)
    by (cases spec) (auto simp: load_ok_def sortView_def)
qed

lemma sortView_again [simp]: "sortView (sortView spec) = sortView spec"
  by (simp add: sortView_def)

lemma load_ok_sortView [simp]: "load_ok (sortView spec) \<longleftrightarrow> load_ok spec"
proof -
  have [simp]: "mv_replyTo (sortView spec) = mv_replyTo spec" "mv_replyTarget (sortView spec) = mv_replyTarget spec"
    "mv_replyDelivery (sortView spec) = mv_replyDelivery spec" "mv_replyPending (sortView spec) = mv_replyPending spec"
    "mv_attachment (sortView spec) = mv_attachment spec"
    by (simp_all add: sortView_def)
  show ?thesis
    unfolding load_ok_def sortView_again by (simp add: sortView_def)
qed

definition view_bounds :: "MachineViewSpec \<Rightarrow> bool" where
  "view_bounds spec \<longleftrightarrow> att_id (mv_attachment spec) \<noteq> [] \<and> length (mv_consequences spec) \<le> MaxViewConsequences \<and>
     length (mv_subjects spec) \<le> 1 \<and> length (mv_targets spec) \<le> MaxViewTargets \<and>
     viewHandleCount spec \<le> MaxViewHandles"

lemma view_bounds_sortView [simp]: "view_bounds (sortView spec) \<longleftrightarrow> view_bounds spec"
  by (simp add: view_bounds_def viewHandleCount_def sortView_def)

lemma NewViewAuthority_Inr:
  "NewViewAuthority spec = Inr v \<longleftrightarrow> view_bounds spec \<and> load_ok spec \<and>
     length (Marshal (enc_view (viewWire (sortView spec)))) \<le> MaxViewCanonicalBytes \<and>
     v = MachineViewSpec.extend (sortView spec)
           \<lparr>v_canonical = Marshal (enc_view (viewWire (sortView spec))),
            v_digest = Sum (Marshal (enc_view (viewWire (sortView spec))))\<rparr>"
  unfolding NewViewAuthority_def guards Let_def load_Inr view_bounds_def validateSubjectOfferBound_def
  by (auto simp: not_less)

section \<open>Reading back what was written\<close>

text \<open>The parts of a View went through their constructors.\<close>

definition view_ok :: "'a MachineViewSpec_scheme \<Rightarrow> bool" where
  "view_ok v \<longleftrightarrow> handle_ok (att_principal (mv_attachment v)) \<and>
     (\<forall>s \<in> set (mv_subjects v). handle_ok (sub_handle s) \<and> handle_ok (sub_handlingID s) \<and> ref_ok (sub_head s)) \<and>
     (\<forall>r \<in> set (mv_references v). handle_ok (exp_handle r) \<and> key_ok (exp_key r) \<and> ref_ok (exp_head r)) \<and>
     (\<forall>t \<in> set (mv_targets v). target_ok (requested t) \<and> optional handle_ok (localPrincipal t) \<and>
        optional handle_ok (remoteRoute t) \<and> optional handle_ok (remoteAlias t)) \<and>
     optional handle_ok (mv_replyTo v) \<and> (mv_replyTarget v = zeroTarget \<or> target_ok (mv_replyTarget v)) \<and>
     length (mv_replyDelivery v) = 32 \<and>
     (\<forall>a \<in> set (mv_artifacts v). handle_ok (off_handle a) \<and> digest_ok (off_digest a)) \<and>
     (\<forall>p \<in> set (mv_provenance v). handle_ok (prov_handle p) \<and> ref_ok (prov_event p))"

lemma view_ok_sortView: "view_ok (sortView spec) \<longleftrightarrow> view_ok spec"
  by (simp add: view_ok_def sortView_def)

lemma dec_ptr_target [json_simps]: "dec_ptr dec_target (enc_target w) = Some (Some w)"
  using dec_enc_target [of w] by (simp add: dec_ptr_def enc_target_def)

lemma dec_enc_view_pairs [json_simps]:
  "dec_pair ''handle'' [] dec_string ''binding'' z dec_subjectBinding (enc_viewSubject a) = Some a"
  "dec_pair ''handle'' [] dec_string ''head'' z' dec_referenceExpectation (enc_viewReference b) = Some b"
  "dec_pair ''requested'' z1 dec_target ''resolved'' z2 dec_resolvedTarget (enc_viewTarget c) = Some c"
  "dec_pair ''handle'' [] dec_string ''digest'' [] dec_string (enc_viewArtifact d) = Some d"
  "dec_pair ''handle'' [] dec_string ''event'' z3 dec_eventRef (enc_viewProvenance e) = Some e"
  by (rule dec_enc_pair; simp add: json_simps)+

lemma field_view:
  assumes "enc_view w = JObj kvs" "mvw_version w < 2 ^ 63"
  shows "field 0 (dec_uint 63) ''schema_version'' kvs = Some (mvw_version w)"
    "field [] dec_string ''source_principal'' kvs = Some (mvw_principal w)"
    "field False dec_bool ''may_initiate'' kvs = Some (mvw_mayInitiate w)"
    "field [] (dec_list dec_string) ''consequences'' kvs = Some (mvw_consequences w)"
    "field [] (dec_list (dec_pair ''handle'' [] dec_string ''binding'' zs dec_subjectBinding)) ''subjects'' kvs = Some (mvw_subjects w)"
    "field [] (dec_list (dec_pair ''handle'' [] dec_string ''head'' zr dec_referenceExpectation)) ''references'' kvs = Some (mvw_references w)"
    "field [] (dec_list (dec_pair ''requested'' zt dec_target ''resolved'' zt' dec_resolvedTarget)) ''targets'' kvs = Some (mvw_targets w)"
    "field [] dec_string ''reply_to'' kvs = Some (mvw_replyTo w)"
    "field None (dec_ptr dec_target) ''reply_target'' kvs = Some (mvw_replyTarget w)"
    "field [] dec_string ''reply_delivery_id'' kvs = Some (mvw_replyDelivery w)"
    "field False dec_bool ''reply_observation_pending'' kvs = Some (mvw_replyPending w)"
    "field [] (dec_list (dec_pair ''handle'' [] dec_string ''digest'' [] dec_string)) ''artifacts'' kvs = Some (mvw_artifacts w)"
    "field [] (dec_list (dec_pair ''handle'' [] dec_string ''event'' ze dec_eventRef)) ''provenance'' kvs = Some (mvw_provenance w)"
  using assms(2) by (simp_all add: assms(1) [unfolded enc_view_def json.inject, symmetric] json_simps dec_enc_strings)

lemma keys_view: "enc_view w = JObj kvs \<Longrightarrow> set (map fst kvs) \<subseteq> set viewKeys"
  by (simp only: enc_view_def json.inject, hypsubst) (simp add: json_simps image_Un viewKeys_def)

lemma dec_enc_view: "mvw_version w < 2 ^ 63 \<Longrightarrow> dec_view (enc_view w) = Some w"
proof -
  assume v: "mvw_version w < 2 ^ 63"
  obtain kvs where kvs: "enc_view w = JObj kvs" by (simp add: enc_view_def)
  have "dec_struct viewKeys (enc_view w) = Some kvs"
    using keys_view [OF kvs] by (simp add: dec_struct_def kvs)
  then show ?thesis
    unfolding dec_view_def by (simp add: field_view [OF kvs v])
qed

lemma unique_enc_view: "unique_keys (enc_view w)"
  by (simp add: enc_view_def enc_strings_def keys_simps)

interpretation view_codec: canonical_codec enc_view dec_view "\<lambda>w. mvw_version w < 2 ^ 63"
  by unfold_locales (rule dec_enc_view, assumption, rule unique_enc_view)

lemma target_ok_valid: "target_ok t \<Longrightarrow> ValidString (targetAlias t)"
  by (auto simp: target_ok_def dest: token_ok_valid split: if_splits)

lemma json_ok_view:
  assumes "view_ok v"
  shows "json_ok (enc_view (viewWire v))"
proof -
  have ref: "json_ok (enc_eventRef (refWire r))" if "ref_ok r" for r by (rule json_ok_eventRef [OF that])
  have s: "json_ok (enc_viewSubject (sub_handle s, subjectWire s))" if "s \<in> set (mv_subjects v)" for s
    using assms that by (auto simp: view_ok_def json_simps enc_subjectBinding_def subjectWire_def ref dest: token_ok_valid)
  have r: "json_ok (enc_viewReference (exp_handle r, \<lparr>rew_absent = False, rew_key = exp_key r, rew_head = Some (refWire (exp_head r))\<rparr>))"
    if "r \<in> set (mv_references v)" for r
    using assms that by (auto simp: view_ok_def json_simps enc_referenceExpectation_def ref dest: token_ok_valid)
  have t: "json_ok (enc_viewTarget (targetToWire (requested t), resolvedWire t))" if "t \<in> set (mv_targets v)" for t
    using assms that
    by (auto simp: view_ok_def json_simps enc_target_def targetToWire_def enc_resolvedTarget_def
        resolvedWire_def destinationText_def dest: target_ok_valid optional_valid)
  have a: "json_ok (enc_viewArtifact (off_handle a, digestString (off_digest a)))" if "a \<in> set (mv_artifacts v)" for a
    using assms that by (auto simp: view_ok_def json_simps dest: token_ok_valid)
  have p: "json_ok (enc_viewProvenance (prov_handle p, refWire (prov_event p)))" if "p \<in> set (mv_provenance v)" for p
    using assms that by (auto simp: view_ok_def json_simps ref dest: token_ok_valid)
  have valid: "ValidString (att_principal (mv_attachment v))" "ValidString (mv_replyTo v)"
    "ValidString (targetAlias (mv_replyTarget v))"
    using assms by (auto simp: view_ok_def zeroTarget_def dest: token_ok_valid optional_valid target_ok_valid)
  have "list_all json_ok (map enc_viewSubject (mvw_subjects (viewWire v)))"
    "list_all json_ok (map enc_viewReference (mvw_references (viewWire v)))"
    "list_all json_ok (map enc_viewTarget (mvw_targets (viewWire v)))"
    "list_all json_ok (map enc_viewArtifact (mvw_artifacts (viewWire v)))"
    "list_all json_ok (map enc_viewProvenance (mvw_provenance (viewWire v)))"
    using s r t a p by (simp_all add: viewWire_def list_all_iff)
  moreover have "json_ok (enc_strings (mvw_consequences (viewWire v)))"
    by (simp add: viewWire_def enc_strings_def list_all_iff consequenceString_plain)
  moreover have "mvw_replyTarget (viewWire v) \<noteq> None \<longrightarrow> json_ok (enc_target (the (mvw_replyTarget (viewWire v))))"
    using valid(3) by (simp add: viewWire_def enc_target_def json_simps)
  moreover have "ValidString (mvw_principal (viewWire v))" "ValidString (mvw_replyTo (viewWire v))"
    "ValidString (mvw_replyDelivery (viewWire v))"
    using valid by (simp_all add: viewWire_def)
  ultimately show ?thesis
    unfolding enc_view_def by (simp add: json_simps)
qed

lemma parse_view_parts:
  "s \<in> set (mv_subjects v) \<Longrightarrow> view_ok v \<Longrightarrow> sub_fence s \<noteq> 0 \<Longrightarrow> parseViewSubject (sub_handle s, subjectWire s) = Inr s"
  "a \<in> set (mv_artifacts v) \<Longrightarrow> view_ok v \<Longrightarrow> parseViewArtifact (off_handle a, digestString (off_digest a)) = Inr a"
  "p \<in> set (mv_provenance v) \<Longrightarrow> view_ok v \<Longrightarrow> parseViewProvenance1 (prov_handle p, refWire (prov_event p)) = Inr p"
  "r \<in> set (mv_references v) \<Longrightarrow> view_ok v \<Longrightarrow> \<not> exp_absent r \<Longrightarrow>
     parseViewReference (exp_handle r, \<lparr>rew_absent = False, rew_key = exp_key r, rew_head = Some (refWire (exp_head r))\<rparr>) = Inr r"
  by (auto simp: view_ok_def parseViewSubject_def parseViewArtifact_def parseViewProvenance1_def parseViewReference_def
      subjectWire_def guards constructor_Inr parseEventRef_Inr NewSubjectBinding_def NewViewArtifactOffer_def
      NewProvenanceOffer_def ExpectReferenceHead_def digest_ok_def dest!: bspec dest: token_okD ref_ok_nonzero)

lemma parse_view_target:
  assumes "target_ok (requested t)" "optional handle_ok (localPrincipal t)" "optional handle_ok (remoteRoute t)"
    "optional handle_ok (remoteAlias t)" "validateResolvedTarget t a = None"
  shows "parseViewTarget (targetToWire (requested t), resolvedWire t) = Inr t"
proof -
  have req: "parseTarget (targetToWire (requested t)) = Inr (requested t)"
    unfolding parseTarget_def by (rule parseTargetWith_wire [OF assms(1)])
  show ?thesis
    using assms(2-5) req
    by (cases t; cases "destination t")
      (auto simp: parseViewTarget_def parseResolvedTarget_def resolvedWire_def destinationText_def optional_def
        validateResolvedTarget_def guards constructor_Inr ResolveLocalTarget_def ResolveRemoteTarget_def
        split: if_splits)
qed

lemma parse_view_reply:
  assumes "loadReplyContext rt tg rd ss ts ps = Inr r" "tg = zeroTarget \<or> target_ok tg" "length rd = 32"
  shows "parseViewReplyTarget (if targetIsZero tg then None else Some \<lparr>wire_self = False, wire_alias = targetAlias tg\<rparr>) = Inr tg"
    "(if (if rd = zeroDigest then [] else deliveryString rd) \<noteq> []
      then ParseDeliveryID (if rd = zeroDigest then [] else deliveryString rd) else Inr zeroDigest) = Inr rd"
proof -
  have "\<not> targetSelf tg" if "\<not> targetIsZero tg"
    using assms(1) that by (auto simp: loadReplyContext_def split: if_splits)
  moreover have "parseTarget (targetToWire tg) = Inr tg" if "\<not> targetIsZero tg"
    unfolding parseTarget_def using assms(2) that by (intro parseTargetWith_wire) (auto simp: targetIsZero_iff)
  ultimately show "parseViewReplyTarget
      (if targetIsZero tg then None else Some \<lparr>wire_self = False, wire_alias = targetAlias tg\<rparr>) = Inr tg"
    by (auto simp: parseViewReplyTarget_def targetIsZero_iff targetToWire_def)
  show "(if (if rd = zeroDigest then [] else deliveryString rd) \<noteq> []
      then ParseDeliveryID (if rd = zeroDigest then [] else deliveryString rd) else Inr zeroDigest) = Inr rd"
    using assms(3) by (simp add: ParseDeliveryID_Inr digest_ok_def)
qed

lemma machineViewSpecFromWire_wire:
  assumes "view_ok v" "load_ok v"
  shows "machineViewSpecFromWire (viewWire v) (mv_attachment v) = Inr v"
proof -
  have "parseViewConsequences (map consequenceString (mv_consequences v)) = Inr (mv_consequences v)"
    unfolding parseViewConsequences_def
    by (rule mapE_map) (use assms(2) in \<open>auto simp: load_ok_def parseConsequence_Inr consequence_defs\<close>)
  moreover have "parseViewSubjects (map (\<lambda>s. (sub_handle s, subjectWire s)) (mv_subjects v)) = Inr (mv_subjects v)"
    unfolding parseViewSubjects_def
    by (rule mapE_map) (use assms in \<open>auto simp: load_ok_def intro!: parse_view_parts\<close>)
  moreover have "parseViewReferences (map (\<lambda>r. (exp_handle r, \<lparr>rew_absent = False, rew_key = exp_key r,
      rew_head = Some (refWire (exp_head r))\<rparr>)) (mv_references v)) = Inr (mv_references v)"
    unfolding parseViewReferences_def
    by (rule mapE_map) (use assms in \<open>auto simp: load_ok_def intro!: parse_view_parts\<close>)
  moreover have "parseViewTargets (map (\<lambda>t. (targetToWire (requested t), resolvedWire t)) (mv_targets v)) = Inr (mv_targets v)"
    unfolding parseViewTargets_def
    by (rule mapE_map, rule parse_view_target [of _ "mv_attachment v"])
      (use assms in \<open>auto simp: load_ok_def view_ok_def\<close>)
  moreover have "parseViewArtifacts (map (\<lambda>a. (off_handle a, digestString (off_digest a))) (mv_artifacts v)) = Inr (mv_artifacts v)"
    unfolding parseViewArtifacts_def
    by (rule mapE_map) (use assms in \<open>auto intro!: parse_view_parts\<close>)
  moreover have "parseViewProvenance (map (\<lambda>p. (prov_handle p, refWire (prov_event p))) (mv_provenance v)) = Inr (mv_provenance v)"
    unfolding parseViewProvenance_def
    by (rule mapE_map) (use assms in \<open>auto intro!: parse_view_parts\<close>)
  moreover have "(if mv_replyTo v \<noteq> [] then NewOpaqueHandle (mv_replyTo v) else Inr []) = Inr (mv_replyTo v)"
    using assms(1) by (auto simp: view_ok_def optional_def constructor_Inr)
  moreover have reply: "loadReplyContext (mv_replyTo v) (mv_replyTarget v) (mv_replyDelivery v) (mv_subjects (sortView v))
      (mv_targets (sortView v)) (mv_provenance (sortView v)) = Inr (mv_replyTo v, mv_replyTarget v, mv_replyDelivery v)"
    using assms(2) by (simp add: load_ok_def)
  ultimately show ?thesis
    using parse_view_reply [OF reply] assms(1)
    unfolding machineViewSpecFromWire_def viewWire_def machineViewWire.simps view_ok_def by simp
qed

section \<open>The properties of Views\<close>

text \<open>A View that offers a Handling to advance, two targets, an Artifact and two Events.\<close>

definition exampleView :: "string \<Rightarrow> MachineViewSpec" where
  "exampleView att =
     \<lparr>mv_attachment = exampleAttachment att,
      mv_consequences = [ConsequenceResolveDeclined, ConsequenceAdvanceHandling],
      mv_subjects = [\<lparr>sub_handle = ''h1'', sub_handlingID = ''H1'', sub_head = exampleRef ''e1'',
                      sub_fence = 1, sub_revision = 0\<rparr>],
      mv_references = [],
      mv_targets = [\<lparr>requested = SelfTarget, destination = TargetDestinationLocal, localPrincipal = ''alice'',
                     remoteRoute = [], remoteAlias = []\<rparr>,
                    \<lparr>requested = \<lparr>targetSelf = False, targetAlias = ''bob''\<rparr>, destination = TargetDestinationRemote,
                     localPrincipal = [], remoteRoute = ''r1'', remoteAlias = ''bob''\<rparr>],
      mv_replyTo = [], mv_replyTarget = zeroTarget, mv_replyDelivery = zeroDigest, mv_replyPending = False,
      mv_artifacts = [\<lparr>off_handle = ''a9'', off_digest = exampleDigest CHR ''a''\<rparr>],
      mv_provenance = [\<lparr>prov_handle = ''p1'', prov_event = exampleRef ''e1''\<rparr>,
                       \<lparr>prov_handle = ''p2'', prov_event = exampleRef ''e2''\<rparr>]\<rparr>"

lemma exampleView_ok: "view_ok (exampleView ''att1'')"
  by code_simp

lemma exampleViewAuthority: "\<exists>v. NewViewAuthority (exampleView ''att1'') = Inr v"
proof -
  have "length (Marshal (enc_view (viewWire (sortView (exampleView ''att1''))))) \<le> MaxViewCanonicalBytes"
    by code_simp
  moreover have "view_bounds (exampleView ''att1'') \<and> load_ok (exampleView ''att1'')"
    by code_simp
  ultimately show ?thesis by (simp add: NewViewAuthority_Inr)
qed

text \<open>
  (C22) Round trip: the View a constructor made of well-formed parts is read back, offer for offer, from
  its canonical bytes and the Attachment it belongs to.
\<close>

theorem view_json_roundtrip:
  assumes "NewViewAuthority spec = Inr v" "view_ok spec"
  shows "ParseViewAuthorityCanonicalJSON (v_canonical v) (mv_attachment spec) = Inr v"
proof -
  let ?s = "sortView spec"
  note N = assms(1) [unfolded NewViewAuthority_Inr]
  have can: "v_canonical v = Marshal (enc_view (viewWire ?s))" using N by (simp add: MachineViewSpec.defs)
  have ok: "view_ok ?s" using assms(2) by (simp add: view_ok_sortView)
  have att: "mv_attachment ?s = mv_attachment spec" by (simp add: sortView_def)
  have "decodeCanonicalObject enc_view dec_view ''View authority JSON'' (v_canonical v) MaxViewCanonicalBytes = Inr (viewWire ?s)"
    unfolding can using N json_ok_view [OF ok]
    by (intro view_codec.decode_encode) (simp_all add: viewWire_def viewAuthorityVersion_def)
  moreover have "machineViewSpecFromWire (viewWire ?s) (mv_attachment spec) = Inr ?s"
    using machineViewSpecFromWire_wire [OF ok] N att by simp
  moreover have "NewViewAuthority ?s = Inr v"
    using N unfolding NewViewAuthority_Inr by simp
  moreover have "NewAgentPrincipalID (mvw_principal (viewWire ?s)) = Inr (att_principal (mv_attachment spec))"
    using assms(2) att by (simp add: viewWire_def constructor_Inr view_ok_def)
  moreover have "att_id (mv_attachment spec) \<noteq> []" using N by (simp add: view_bounds_def)
  ultimately show ?thesis
    by (simp add: ParseViewAuthorityCanonicalJSON_def requireReconstructedCanonical_def viewWire_def att)
qed

theorem view_json_roundtrip_witness:
  "\<exists>v. NewViewAuthority (exampleView ''att1'') = Inr v \<and>
     ParseViewAuthorityCanonicalJSON (v_canonical v) (exampleAttachment ''att1'') = Inr v"
proof -
  obtain v where v: "NewViewAuthority (exampleView ''att1'') = Inr v" using exampleViewAuthority by blast
  have "mv_attachment (exampleView ''att1'') = exampleAttachment ''att1''" by (simp add: exampleView_def)
  with v view_json_roundtrip [OF v exampleView_ok] show ?thesis by simp
qed

text \<open>
  The digest of a View binds the Principal, the initiation authority and the set of offers: neither
  the order in which the offers were listed nor the Attachment that carries the View matters.
\<close>

theorem view_digest_of_offers:
  assumes "NewViewAuthority spec = Inr v" "NewViewAuthority spec' = Inr v'"
    "att_principal (mv_attachment spec') = att_principal (mv_attachment spec)"
    "mayInitiate (mv_attachment spec') = mayInitiate (mv_attachment spec)"
    "mset (mv_consequences spec') = mset (mv_consequences spec)" "mset (mv_subjects spec') = mset (mv_subjects spec)"
    "mset (mv_references spec') = mset (mv_references spec)" "mset (mv_targets spec') = mset (mv_targets spec)"
    "mset (mv_artifacts spec') = mset (mv_artifacts spec)" "mset (mv_provenance spec') = mset (mv_provenance spec)"
    "mv_replyTo spec' = mv_replyTo spec" "mv_replyTarget spec' = mv_replyTarget spec"
    "mv_replyDelivery spec' = mv_replyDelivery spec" "mv_replyPending spec' = mv_replyPending spec"
  shows "v_digest v' = v_digest v \<and> v_canonical v' = v_canonical v"
proof -
  have "load_ok spec'" using assms(2) by (simp add: NewViewAuthority_Inr)
  then have "viewWire (sortView spec') = viewWire (sortView spec)"
    using assms(3,4,11-14) sort_key_mset [OF assms(5), of consequenceString] sort_key_mset [OF assms(6), of sub_handle]
      sort_key_mset [OF assms(7), of exp_handle] sort_key_mset [OF assms(8), of "\<lambda>t. canonicalKey (requested t)"]
      sort_key_mset [OF assms(9), of off_handle] sort_key_mset [OF assms(10), of prov_handle]
    by (simp add: viewWire_def sortView_def load_ok_def)
  then show ?thesis using assms(1,2) by (simp add: NewViewAuthority_Inr MachineViewSpec.defs)
qed

text \<open>The same offers in another order, for another Attachment.\<close>

definition exampleView2 :: MachineViewSpec where
  "exampleView2 = (exampleView ''att2'')\<lparr>mv_targets := rev (mv_targets (exampleView ''att2'')),
     mv_provenance := rev (mv_provenance (exampleView ''att2''))\<rparr>"

lemma exampleView2Authority: "\<exists>v. NewViewAuthority exampleView2 = Inr v"
proof -
  have "length (Marshal (enc_view (viewWire (sortView exampleView2)))) \<le> MaxViewCanonicalBytes"
    by code_simp
  moreover have "view_bounds exampleView2 \<and> load_ok exampleView2"
    by code_simp
  ultimately show ?thesis by (simp add: NewViewAuthority_Inr)
qed

theorem view_digest_of_offers_witness:
  "\<exists>v v'. NewViewAuthority (exampleView ''att1'') = Inr v \<and> NewViewAuthority exampleView2 = Inr v' \<and>
     mv_targets exampleView2 \<noteq> mv_targets (exampleView ''att1'') \<and> v_digest v' = v_digest v"
proof -
  obtain v where v: "NewViewAuthority (exampleView ''att1'') = Inr v" using exampleViewAuthority by blast
  obtain v' where v': "NewViewAuthority exampleView2 = Inr v'" using exampleView2Authority by blast
  have "v_digest v' = v_digest v \<and> v_canonical v' = v_canonical v"
    by (rule view_digest_of_offers [OF v v'])
      (simp_all add: exampleView2_def exampleView_def exampleAttachment_def)
  moreover have "mv_targets exampleView2 \<noteq> mv_targets (exampleView ''att1'')"
    by (simp add: exampleView2_def exampleView_def)
  ultimately show ?thesis using v v' by blast
qed

lemma find_distinct: "distinct (map f xs) \<Longrightarrow> List.find (\<lambda>x. f x = k) xs = Some y \<longleftrightarrow> y \<in> set xs \<and> f y = k"
  by (induction xs) auto

text \<open>
  (C23) A handle resolves to exactly what was offered under it: a subject, Reference, Event or Artifact is
  found under a handle if and only if the specification offered it under that handle, and a target if
  and only if it was offered for that request.
\<close>

theorem view_resolves_offers:
  assumes "NewViewAuthority spec = Inr v"
  shows "(ResolveSubject v h = Some s \<longleftrightarrow> s \<in> set (mv_subjects spec) \<and> sub_handle s = h) \<and>
    (ResolveReference v h = Some r \<longleftrightarrow> r \<in> set (mv_references spec) \<and> exp_handle r = h) \<and>
    (ResolveProvenance v h = Some e \<longleftrightarrow> (\<exists>p \<in> set (mv_provenance spec). prov_handle p = h \<and> prov_event p = e)) \<and>
    (ResolveOfferedArtifact v h = Inr d \<longleftrightarrow> (\<exists>a \<in> set (mv_artifacts spec). off_handle a = h \<and> off_digest a = d)) \<and>
    (ResolveTarget v t = Some u \<longleftrightarrow> u \<in> set (mv_targets spec) \<and> canonicalKey (requested u) = canonicalKey t \<and> \<not> targetIsZero t) \<and>
    (Allows v c \<longleftrightarrow> c \<in> set (mv_consequences spec))"
proof -
  note N = assms [unfolded NewViewAuthority_Inr]
  have load: "load_ok spec" and v: "v = MachineViewSpec.extend (sortView spec)
      \<lparr>v_canonical = Marshal (enc_view (viewWire (sortView spec))), v_digest = Sum (Marshal (enc_view (viewWire (sortView spec))))\<rparr>"
    using N by simp_all
  note f = find_distinct
  have "ResolveSubject v h = Some s \<longleftrightarrow> s \<in> set (mv_subjects spec) \<and> sub_handle s = h"
    using load by (auto simp: v MachineViewSpec.defs sortView_def ResolveSubject_def load_ok_def f)
  moreover have "ResolveReference v h = Some r \<longleftrightarrow> r \<in> set (mv_references spec) \<and> exp_handle r = h"
    using load by (auto simp: v MachineViewSpec.defs sortView_def ResolveReference_def load_ok_def f)
  moreover have "ResolveProvenance v h = Some e \<longleftrightarrow> (\<exists>p \<in> set (mv_provenance spec). prov_handle p = h \<and> prov_event p = e)"
    using load by (auto simp: v MachineViewSpec.defs sortView_def ResolveProvenance_def load_ok_def f)
  moreover have "ResolveOfferedArtifact v h = Inr d \<longleftrightarrow> (\<exists>a \<in> set (mv_artifacts spec). off_handle a = h \<and> off_digest a = d)"
  proof -
    have nz: "\<And>a. a \<in> set (mv_artifacts spec) \<Longrightarrow> off_handle a \<noteq> [] \<and> off_digest a \<noteq> zeroDigest"
      using load by (auto simp: load_ok_def)
    have found: "List.find (\<lambda>a. off_handle a = h) (mv_artifacts v) = Some y \<longleftrightarrow> y \<in> set (mv_artifacts spec) \<and> off_handle y = h" for y
      using load f [of off_handle "sort_key off_handle (mv_artifacts spec)" h y]
      by (simp add: v MachineViewSpec.defs sortView_def load_ok_def)
    show ?thesis
    proof (cases "List.find (\<lambda>a. off_handle a = h) (mv_artifacts v)")
      case None
      with found show ?thesis by (auto simp: ResolveOfferedArtifact_def)
    next
      case (Some a)
      then have "\<exists>!a. a \<in> set (mv_artifacts spec) \<and> off_handle a = h" by (metis found option.inject)
      with Some nz found [of a] show ?thesis by (auto simp: ResolveOfferedArtifact_def)
    qed
  qed
  moreover have "ResolveTarget v t = Some u \<longleftrightarrow> u \<in> set (mv_targets spec) \<and> canonicalKey (requested u) = canonicalKey t \<and> \<not> targetIsZero t"
    using load f [of "\<lambda>t. canonicalKey (requested t)"
        "sort_key (\<lambda>t. canonicalKey (requested t)) (mv_targets spec)" "canonicalKey t" u]
    by (auto simp: v MachineViewSpec.defs sortView_def ResolveTarget_def load_ok_def)
  moreover have "Allows v c \<longleftrightarrow> c \<in> set (mv_consequences spec)"
    by (simp add: v MachineViewSpec.defs sortView_def Allows_def)
  ultimately show ?thesis by blast
qed

theorem view_resolves_offers_witness:
  "\<exists>v. NewViewAuthority (exampleView ''att1'') = Inr v \<and>
     ResolveProvenance v ''p2'' = Some (exampleRef ''e2'') \<and> \<not> Allows v ConsequenceResolveCompleted"
proof -
  obtain v where v: "NewViewAuthority (exampleView ''att1'') = Inr v" using exampleViewAuthority by blast
  with view_resolves_offers [OF v, of "''p2''" _ _ "exampleRef ''e2''"] view_resolves_offers [OF v, where c = ConsequenceResolveCompleted]
  show ?thesis by (auto simp: exampleView_def)
qed

end
