(* ===== verification/Agency_Event.thy ===== *)
theory Agency_Event
  imports Agency_View
begin

text \<open>
  Accepted Events (\<^verbatim>\<open>internal/agency/event_receipt.go\<close>, \<^verbatim>\<open>event_parse.go\<close>): the stamp, the constructor
  from a bound Intent, the canonical encoding, and the reader that reconstructs an Event from it. The
  normalization of Artifact digests is that of \<^verbatim>\<open>peer_delivery.go\<close>.

  The results: every well-formed request becomes an Event that fits its bound; an Event is read back
  from its bytes when its causes are distinct, up to the View handles that its encoding leaves out; and
  an Event that cites one cause twice is written by the constructor and refused by the reader.
\<close>

section \<open>Events\<close>

definition eventSchemaVersion :: nat where "eventSchemaVersion = 3"
definition MaxEventCanonicalBytes :: nat where "MaxEventCanonicalBytes = 32 * 1024"
definition MaxPeerCausalDepth :: "16 word" where "MaxPeerCausalDepth = 32"

record EventStamp =
  st_id :: EventID
  st_acceptedAt :: instant
  st_sequence :: "64 word"
  st_depth :: "16 word"

record Event =
  e_id :: EventID
  e_acceptedAt :: instant
  e_sequence :: "64 word"
  e_depth :: "16 word"
  e_source :: AgentPrincipalID
  e_operationKey :: OperationKey
  e_requestDigest :: Digest
  e_kind :: SemanticLabel
  e_payload :: SemanticPayload
  e_consequence :: Consequence
  e_subject :: "SubjectBinding option"
  e_expected :: "ReferenceExpectation option"
  e_targets :: "ResolvedTarget list"
  e_artifacts :: "Digest list"
  e_causation :: "EventRef list"
  e_correlation :: EventRef
  e_inReplyTo :: DeliveryID
  e_canonical :: bytes
  e_digest :: Digest

subsection \<open>The wire form\<close>

record eventMachineWire =
  emw_id :: string
  emw_acceptedAt :: string
  emw_sequence :: "64 word"
  emw_depth :: "16 word"
  emw_source :: string
  emw_operationKey :: string
  emw_requestDigest :: string
  emw_consequence :: string
  emw_subject :: "subjectBindingWire option"
  emw_expected :: "referenceExpectationWire option"
  emw_targets :: "resolvedTargetWire list"
  emw_inReplyTo :: string

record eventEvidenceWire =
  eew_artifacts :: "string list"
  eew_causation :: "eventRefWire list"
  eew_correlation :: "eventRefWire option"

record eventWire =
  ew_version :: nat
  ew_machine :: eventMachineWire
  ew_semantic :: "string \<times> string"
  ew_evidence :: eventEvidenceWire

definition eventToWire :: "Event \<Rightarrow> eventWire" where
  "eventToWire e =
     \<lparr>ew_version = eventSchemaVersion,
      ew_machine =
        \<lparr>emw_id = e_id e, emw_acceptedAt = RFC3339Nano (e_acceptedAt e), emw_sequence = e_sequence e,
         emw_depth = e_depth e, emw_source = e_source e, emw_operationKey = e_operationKey e,
         emw_requestDigest = digestString (e_requestDigest e),
         emw_consequence = consequenceString (e_consequence e),
         emw_subject = map_option subjectWire (e_subject e),
         emw_expected = map_option expectationWire (e_expected e),
         emw_targets = map resolvedWire (e_targets e),
         emw_inReplyTo = (if e_inReplyTo e = zeroDigest then [] else deliveryString (e_inReplyTo e))\<rparr>,
      ew_semantic = (e_kind e, e_payload e),
      ew_evidence =
        \<lparr>eew_artifacts = map digestString (e_artifacts e), eew_causation = map refWire (e_causation e),
         eew_correlation = (if refIsZero (e_correlation e) then None else Some (refWire (e_correlation e)))\<rparr>\<rparr>"

definition enc_machine :: "eventMachineWire \<Rightarrow> json" where
  "enc_machine w =
     JObj ((''event_id'', JStr (emw_id w)) # (''accepted_at'', JStr (emw_acceptedAt w)) #
           (''origin_sequence'', JNat (unat (emw_sequence w))) # (''causal_depth'', JNat (unat (emw_depth w))) #
           (''source_principal'', JStr (emw_source w)) # (''operation_key'', JStr (emw_operationKey w)) #
           (''request_digest'', JStr (emw_requestDigest w)) # (''consequence'', JStr (emw_consequence w)) #
           omitempty ''subject'' (emw_subject w \<noteq> None) (enc_subjectBinding (the (emw_subject w))) @
           omitempty ''expected_reference'' (emw_expected w \<noteq> None)
             (enc_referenceExpectation (the (emw_expected w))) @
           omitempty ''targets'' (emw_targets w \<noteq> []) (JArr (map enc_resolvedTarget (emw_targets w))) @
           omitempty ''in_reply_to_delivery_id'' (emw_inReplyTo w \<noteq> []) (JStr (emw_inReplyTo w)))"

abbreviation "enc_semantic \<equiv> enc_pair ''kind'' JStr ''payload'' JStr"

definition enc_evidence :: "eventEvidenceWire \<Rightarrow> json" where
  "enc_evidence w =
     JObj (omitempty ''artifacts'' (eew_artifacts w \<noteq> []) (enc_strings (eew_artifacts w)) @
           omitempty ''causation'' (eew_causation w \<noteq> []) (JArr (map enc_eventRef (eew_causation w))) @
           omitempty ''correlation'' (eew_correlation w \<noteq> None) (enc_eventRef (the (eew_correlation w))))"

definition enc_event :: "eventWire \<Rightarrow> json" where
  "enc_event w =
     JObj [(''schema_version'', JNat (ew_version w)), (''machine'', enc_machine (ew_machine w)),
           (''semantic'', enc_semantic (ew_semantic w)), (''evidence'', enc_evidence (ew_evidence w))]"

definition sealEvent :: "Event \<Rightarrow> Event result" where
  "sealEvent e =
     (let canonical_digest = canonicalJSON (enc_event (eventToWire e))
      in if MaxEventCanonicalBytes < length (fst canonical_digest)
         then Inl (ErrLimit ''Event canonical bytes'' (length (fst canonical_digest)) MaxEventCanonicalBytes)
         else Inr (e\<lparr>e_canonical := fst canonical_digest, e_digest := snd canonical_digest\<rparr>))"

definition eventOf :: "BoundIntent \<Rightarrow> EventStamp \<Rightarrow> Event" where
  "eventOf request stamp =
     \<lparr>e_id = st_id stamp, e_acceptedAt = st_acceptedAt stamp, e_sequence = st_sequence stamp,
      e_depth = st_depth stamp, e_source = att_principal (b_attachment request),
      e_operationKey = b_operationKey request, e_requestDigest = b_digest request,
      e_kind = kind (b_intent request), e_payload = payload (b_intent request),
      e_consequence = consequence (b_intent request), e_subject = b_subject request,
      e_expected = b_expected request, e_targets = b_targets request, e_artifacts = b_artifacts request,
      e_causation = b_causation request, e_correlation = b_correlation request,
      e_inReplyTo = b_inReplyTo request, e_canonical = [], e_digest = zeroDigest\<rparr>"

definition NewEvent :: "BoundIntent \<Rightarrow> EventStamp \<Rightarrow> Event result" where
  "NewEvent request stamp =
     (if length (b_canonical request) = 0 \<or> b_operationKey request = [] \<or> b_digest request = zeroDigest \<or>
         st_id stamp = [] \<or> st_sequence stamp = 0 \<or> MaxPeerCausalDepth < st_depth stamp
      then Inl (ErrInvalid ''Event'' ''complete request, ID, and positive origin sequence are required'')
      else
        bindE (canonicalTime ''Event accepted time'' (st_acceptedAt stamp)) (\<lambda>acceptedAt.
          sealEvent (eventOf request (stamp\<lparr>st_acceptedAt := acceptedAt\<rparr>))))"

definition eventRef :: "Event \<Rightarrow> EventRef" where
  "eventRef e = \<lparr>ref_id = e_id e, ref_digest = e_digest e\<rparr>"

section \<open>Reading an Event\<close>

definition machineKeys :: "string list" where
  "machineKeys = [''event_id'', ''accepted_at'', ''origin_sequence'', ''causal_depth'', ''source_principal'',
     ''operation_key'', ''request_digest'', ''consequence'', ''subject'', ''expected_reference'', ''targets'',
     ''in_reply_to_delivery_id'']"

definition dec_uint16 :: "json \<Rightarrow> 16 word option" where
  "dec_uint16 j = map_option word_of_nat (dec_uint 16 j)"

definition dec_machine :: "json \<Rightarrow> eventMachineWire option" where
  "dec_machine j =
     do { kvs \<leftarrow> dec_struct machineKeys j;
          i \<leftarrow> field [] dec_string ''event_id'' kvs;
          t \<leftarrow> field [] dec_string ''accepted_at'' kvs;
          s \<leftarrow> field 0 dec_uint64 ''origin_sequence'' kvs;
          d \<leftarrow> field 0 dec_uint16 ''causal_depth'' kvs;
          p \<leftarrow> field [] dec_string ''source_principal'' kvs;
          k \<leftarrow> field [] dec_string ''operation_key'' kvs;
          r \<leftarrow> field [] dec_string ''request_digest'' kvs;
          c \<leftarrow> field [] dec_string ''consequence'' kvs;
          sb \<leftarrow> field None (dec_ptr dec_subjectBinding) ''subject'' kvs;
          er \<leftarrow> field None (dec_ptr dec_referenceExpectation) ''expected_reference'' kvs;
          ts \<leftarrow> field [] (dec_list dec_resolvedTarget) ''targets'' kvs;
          rp \<leftarrow> field [] dec_string ''in_reply_to_delivery_id'' kvs;
          Some \<lparr>emw_id = i, emw_acceptedAt = t, emw_sequence = s, emw_depth = d, emw_source = p,
                emw_operationKey = k, emw_requestDigest = r, emw_consequence = c, emw_subject = sb,
                emw_expected = er, emw_targets = ts, emw_inReplyTo = rp\<rparr> }"

definition dec_evidence :: "json \<Rightarrow> eventEvidenceWire option" where
  "dec_evidence j =
     do { kvs \<leftarrow> dec_struct [''artifacts'', ''causation'', ''correlation''] j;
          as \<leftarrow> field [] (dec_list dec_string) ''artifacts'' kvs;
          cs \<leftarrow> field [] (dec_list dec_eventRef) ''causation'' kvs;
          co \<leftarrow> field None (dec_ptr dec_eventRef) ''correlation'' kvs;
          Some \<lparr>eew_artifacts = as, eew_causation = cs, eew_correlation = co\<rparr> }"

definition zeroMachineWire :: eventMachineWire where
  "zeroMachineWire =
     \<lparr>emw_id = [], emw_acceptedAt = [], emw_sequence = 0, emw_depth = 0, emw_source = [],
      emw_operationKey = [], emw_requestDigest = [], emw_consequence = [], emw_subject = None,
      emw_expected = None, emw_targets = [], emw_inReplyTo = []\<rparr>"

definition dec_event :: "json \<Rightarrow> eventWire option" where
  "dec_event j =
     do { kvs \<leftarrow> dec_struct [''schema_version'', ''machine'', ''semantic'', ''evidence''] j;
          v \<leftarrow> field 0 (dec_uint 63) ''schema_version'' kvs;
          m \<leftarrow> field zeroMachineWire dec_machine ''machine'' kvs;
          s \<leftarrow> field ([], []) (dec_pair ''kind'' [] dec_string ''payload'' [] dec_string) ''semantic'' kvs;
          e \<leftarrow> field \<lparr>eew_artifacts = [], eew_causation = [], eew_correlation = None\<rparr> dec_evidence ''evidence'' kvs;
          Some \<lparr>ew_version = v, ew_machine = m, ew_semantic = s, ew_evidence = e\<rparr> }"

text \<open>\<^verbatim>\<open>parseCanonicalEventTime\<close> and \<^verbatim>\<open>parseCanonicalReceiptTime\<close>, which differ in the name of the field.\<close>

definition parseCanonicalTime :: "string \<Rightarrow> string \<Rightarrow> instant result" where
  "parseCanonicalTime fld value =
     (case parseInstant value of
        None \<Rightarrow> Inl (ErrInvalid fld ''must use RFC3339Nano'')
      | Some parsed \<Rightarrow>
          bindE (canonicalTime fld parsed) (\<lambda>canonical.
            if value \<noteq> RFC3339Nano canonical
            then Inl (ErrInvalid fld ''must use canonical UTC RFC3339Nano'')
            else Inr canonical))"

definition parseEventSubject :: "subjectBindingWire option \<Rightarrow> SubjectBinding option result" where
  "parseEventSubject wire =
     (case wire of None \<Rightarrow> Inr None | Some w \<Rightarrow>
        bindE (NewHandlingID (sbw_handlingID w)) (\<lambda>handling.
        bindE (parseEventRef (sbw_head w)) (\<lambda>head.
          if sbw_fence w = 0 then Inl (ErrInvalid ''Event subject fence'' ''must be positive'')
          else Inr (Some \<lparr>sub_handle = [], sub_handlingID = handling, sub_head = head,
                          sub_fence = sbw_fence w, sub_revision = sbw_revision w\<rparr>))))"

definition parseEventReference :: "referenceExpectationWire option \<Rightarrow> ReferenceExpectation option result" where
  "parseEventReference wire =
     (case wire of None \<Rightarrow> Inr None | Some w \<Rightarrow>
        bindE (NewReferenceKey (rew_key w)) (\<lambda>key.
          if rew_absent w
          then if rew_head w \<noteq> None
               then Inl (ErrInvalid ''Event absent Reference'' ''must not contain a head'')
               else Inr (Some \<lparr>exp_absent = True, exp_handle = [], exp_key = key, exp_head = zeroEventRef\<rparr>)
          else case rew_head w of
                 None \<Rightarrow> Inl (ErrInvalid ''Event exact Reference'' ''requires a head'')
               | Some hw \<Rightarrow>
                   bindE (parseEventRef hw) (\<lambda>head.
                   Inr (Some \<lparr>exp_absent = False, exp_handle = [], exp_key = key, exp_head = head\<rparr>))))"

text \<open>The loops that convert the elements of a list and refuse a repetition of what \<open>key\<close> reads.\<close>

fun parseDistinct :: "('w \<Rightarrow> 'a result) \<Rightarrow> ('a \<Rightarrow> 'k) \<Rightarrow> agencyError \<Rightarrow> 'k list \<Rightarrow> 'w list \<Rightarrow> 'a list result" where
  "parseDistinct f key dup seen [] = Inr []"
| "parseDistinct f key dup seen (w # ws) =
     bindE (f w) (\<lambda>x.
       if key x \<in> set seen then Inl dup
       else bindE (parseDistinct f key dup (key x # seen) ws) (\<lambda>xs. Inr (x # xs)))"

definition destinationKey :: "ResolvedTarget \<Rightarrow> TargetDestination \<times> AgentPrincipalID \<times> RouteID \<times> OpaqueHandle" where
  "destinationKey t = (destination t, localPrincipal t, remoteRoute t, remoteAlias t)"

definition parseEventTarget :: "resolvedTargetWire \<Rightarrow> ResolvedTarget result" where
  "parseEventTarget w =
     (if rtw_destination w = ''local''
      then if rtw_remoteRoute w \<noteq> [] \<or> rtw_remoteAlias w \<noteq> []
           then Inl (ErrInvalid ''Event local target'' ''must not contain remote authority'')
           else bindE (NewAgentPrincipalID (rtw_localPrincipal w)) (\<lambda>p.
                Inr \<lparr>requested = zeroTarget, destination = TargetDestinationLocal, localPrincipal = p,
                     remoteRoute = [], remoteAlias = []\<rparr>)
      else if rtw_destination w = ''remote''
      then if rtw_localPrincipal w \<noteq> []
           then Inl (ErrInvalid ''Event remote target'' ''must not contain local authority'')
           else
             bindE (NewRouteID (rtw_remoteRoute w)) (\<lambda>route.
             bindE (NewOpaqueHandle (rtw_remoteAlias w)) (\<lambda>a.
             Inr \<lparr>requested = zeroTarget, destination = TargetDestinationRemote, localPrincipal = [],
                  remoteRoute = route, remoteAlias = a\<rparr>))
      else Inl (ErrInvalid ''Event target'' ''must be local or remote''))"

definition parseEventTargets :: "resolvedTargetWire list \<Rightarrow> ResolvedTarget list result" where
  "parseEventTargets wires =
     (if MaxSuccessors < length wires then Inl (ErrLimit ''Event targets'' (length wires) MaxSuccessors)
      else parseDistinct parseEventTarget destinationKey
             (ErrInvalid ''Event targets'' ''contains a duplicate resolved destination'') [] wires)"

definition normalizePeerArtifacts :: "Digest list \<Rightarrow> Digest list result" where
  "normalizePeerArtifacts values =
     (if MaxArtifactInputs < length values
      then Inl (ErrLimit ''PeerDelivery Artifacts'' (length values) MaxArtifactInputs)
      else let result = sortDigests values
           in if zeroDigest \<in> set result \<or> \<not> distinct_adj result
              then Inl (ErrInvalid ''PeerDelivery Artifacts'' ''contains a zero or duplicate digest'')
              else Inr result)"

definition parseEventArtifacts :: "string list \<Rightarrow> Digest list result" where
  "parseEventArtifacts values =
     bindE (mapE (\<lambda>v. case ParseDigest v of Inl e \<Rightarrow> Inl (ErrWrapped ''Event Artifact'' e) | Inr d \<Rightarrow> Inr d) values)
       normalizePeerArtifacts"

definition parseEventCausation :: "eventRefWire list \<Rightarrow> EventRef list result" where
  "parseEventCausation wires =
     (if MaxCausationHandles < length wires
      then Inl (ErrLimit ''Event causation'' (length wires) MaxCausationHandles)
      else parseDistinct
             (\<lambda>w. case parseEventRef w of Inl e \<Rightarrow> Inl (ErrWrapped ''Event causation'' e) | Inr r \<Rightarrow> Inr r)
             (\<lambda>r. r) (ErrInvalid ''Event causation'' ''contains a duplicate Event reference'') [] wires)"

definition parseOptionalEventRef :: "string \<Rightarrow> eventRefWire option \<Rightarrow> EventRef result" where
  "parseOptionalEventRef fld wire =
     (case wire of None \<Rightarrow> Inr zeroEventRef | Some w \<Rightarrow>
        case parseEventRef w of Inl e \<Rightarrow> Inl (ErrWrapped fld e) | Inr r \<Rightarrow> Inr r)"

definition localTargets :: "ResolvedTarget list \<Rightarrow> nat" where
  "localTargets ts = length (filter (\<lambda>t. destination t = TargetDestinationLocal) ts)"

definition remoteTargets :: "ResolvedTarget list \<Rightarrow> nat" where
  "remoteTargets ts = length (filter (\<lambda>t. destination t = TargetDestinationRemote) ts)"

definition resolutionShape :: "Event \<Rightarrow> agencyError option" where
  "resolutionShape e =
     (if e_subject e = None \<or> e_expected e \<noteq> None
      then Some (ErrInvariant ''Event handling resolution'' ''requires a subject and no Reference'')
      else if e_consequence e = ConsequenceResolveCompleted \<and> length (e_artifacts e) = 0
      then Some (ErrInvariant ''Event completed resolution'' ''requires a verified Artifact'')
      else if e_inReplyTo e \<noteq> zeroDigest
      then if length (e_targets e) \<noteq> 1 \<or> remoteTargets (e_targets e) \<noteq> 1 \<or> refIsZero (e_correlation e)
           then Some (ErrInvariant ''Event terminal reply'' ''requires one remote target and correlation'')
           else None
      else if 0 < remoteTargets (e_targets e) \<and> localTargets (e_targets e) = 0
      then Some (ErrInvariant ''Event handling resolution'' ''remote delegation requires a local responsibility anchor'')
      else None)"

definition referenceShape :: "string \<Rightarrow> string \<Rightarrow> bool \<Rightarrow> nat \<Rightarrow> Event \<Rightarrow> agencyError option" where
  "referenceShape fld problem absent n e =
     (if e_subject e \<noteq> None \<or> (case e_expected e of None \<Rightarrow> True | Some x \<Rightarrow> exp_absent x \<noteq> absent) \<or>
         length (e_targets e) \<noteq> 0 \<or> length (e_artifacts e) \<noteq> n \<or> e_inReplyTo e \<noteq> zeroDigest
      then Some (ErrInvariant fld problem) else None)"

definition observationShape :: "Event \<Rightarrow> agencyError option" where
  "observationShape e =
     (if e_subject e \<noteq> None \<or> e_expected e \<noteq> None \<or> length (e_targets e) \<noteq> 0 \<or> e_inReplyTo e = zeroDigest \<or>
         refIsZero (e_correlation e) \<or> length (e_causation e) \<noteq> 1 \<or> e_depth e = 0
      then Some (ErrInvariant ''Event observation'' ''requires one direct cause, correlation, and reply binding only'')
      else case ParseDeliveryID (e_operationKey e) of
        Inl x \<Rightarrow> Some (ErrInvariant ''Event observation operation'' ''must be the authenticated Delivery ID'')
      | Inr d \<Rightarrow>
          if e_consequence e = ConsequenceObserveCompleted \<and> length (e_artifacts e) = 0
          then Some (ErrInvariant ''Event completed observation'' ''requires a verified Artifact'')
          else None)"

definition consequenceShape :: "Event \<Rightarrow> agencyError option" where
  "consequenceShape e =
     (case e_consequence e of
        ConsequenceCreateHandlings \<Rightarrow>
          if e_subject e \<noteq> None \<or> e_expected e \<noteq> None \<or> length (e_targets e) = 0 \<or> e_inReplyTo e \<noteq> zeroDigest
          then Some (ErrInvariant ''Event handling.create'' ''requires targets and no subject, Reference, or reply binding'')
          else if 0 < remoteTargets (e_targets e) \<and> localTargets (e_targets e) = 0
          then Some (ErrInvariant ''Event handling.create'' ''remote delegation requires a local responsibility anchor'')
          else None
      | ConsequenceAdvanceHandling \<Rightarrow>
          if e_subject e = None \<or> e_expected e \<noteq> None \<or> e_inReplyTo e \<noteq> zeroDigest
          then Some (ErrInvariant ''Event handling.advance'' ''requires a subject and no Reference or reply binding'')
          else None
      | ConsequenceResolveCompleted \<Rightarrow> resolutionShape e
      | ConsequenceResolveDeclined \<Rightarrow> resolutionShape e
      | ConsequenceResolveUnresolved \<Rightarrow> resolutionShape e
      | ConsequencePublishReference \<Rightarrow>
          referenceShape ''Event reference.publish'' ''requires one absent key and one Artifact only'' True 1 e
      | ConsequenceSupersedeReference \<Rightarrow>
          referenceShape ''Event reference.supersede'' ''requires one exact head and one Artifact only'' False 1 e
      | ConsequenceRetractReference \<Rightarrow>
          referenceShape ''Event reference.retract'' ''requires one exact head and no Artifact'' False 0 e
      | ConsequenceObserveCompleted \<Rightarrow> observationShape e
      | ConsequenceObserveDeclined \<Rightarrow> observationShape e
      | ConsequenceObserveUnresolved \<Rightarrow> observationShape e
      | ConsequenceInvalid \<Rightarrow> Some (ErrInvalid ''Event consequence'' ''is not closed''))"

definition validateParsedEventShape :: "Event \<Rightarrow> agencyError option" where
  "validateParsedEventShape e =
     (case consequenceShape e of Some x \<Rightarrow> Some x | None \<Rightarrow>
      if e_inReplyTo e \<noteq> zeroDigest \<and> \<not> isTerminalConsequence (e_consequence e) \<and> \<not> observation (e_consequence e)
      then Some (ErrInvariant ''Event reply binding'' ''is allowed only for terminal replies'')
      else None)"

definition eventFromWire :: "eventWire \<Rightarrow> Event result" where
  "eventFromWire w =
     (let m = ew_machine w
      in if ew_version w \<noteq> eventSchemaVersion then Inl (ErrInvalid ''Event schema version'' ''is unsupported'')
      else
        bindE (NewEventID (emw_id m)) (\<lambda>i.
        bindE (parseCanonicalTime ''Event accepted time'' (emw_acceptedAt m)) (\<lambda>acceptedAt.
        if emw_sequence m = 0 then Inl (ErrInvalid ''Event origin sequence'' ''must be positive'')
        else if MaxPeerCausalDepth < emw_depth m
        then Inl (ErrLimit ''Event causal depth'' (unat (emw_depth m)) (unat MaxPeerCausalDepth))
        else
        bindE (NewAgentPrincipalID (emw_source m)) (\<lambda>source.
        bindE (NewOperationKey (emw_operationKey m)) (\<lambda>operation.
        bindE (ParseDigest (emw_requestDigest m)) (\<lambda>requestDigest.
        bindE (parseConsequence (emw_consequence m)) (\<lambda>c.
        bindE (NewSemanticLabel (fst (ew_semantic w))) (\<lambda>k.
        bindE (NewSemanticPayload (snd (ew_semantic w))) (\<lambda>p.
        bindE (parseEventSubject (emw_subject m)) (\<lambda>subject.
        bindE (parseEventReference (emw_expected m)) (\<lambda>expected.
        bindE (parseEventTargets (emw_targets m)) (\<lambda>targets.
        bindE (parseEventArtifacts (eew_artifacts (ew_evidence w))) (\<lambda>arts.
        bindE (parseEventCausation (eew_causation (ew_evidence w))) (\<lambda>causation.
        bindE (parseOptionalEventRef ''Event correlation'' (eew_correlation (ew_evidence w))) (\<lambda>correlation.
        bindE (if emw_inReplyTo m \<noteq> [] then ParseDeliveryID (emw_inReplyTo m) else Inr zeroDigest) (\<lambda>inReplyTo.
          let event = \<lparr>e_id = i, e_acceptedAt = acceptedAt, e_sequence = emw_sequence m, e_depth = emw_depth m,
                       e_source = source, e_operationKey = operation, e_requestDigest = requestDigest,
                       e_kind = k, e_payload = p, e_consequence = c, e_subject = subject, e_expected = expected,
                       e_targets = targets, e_artifacts = arts, e_causation = causation,
                       e_correlation = correlation, e_inReplyTo = inReplyTo, e_canonical = [],
                       e_digest = zeroDigest\<rparr>
          in case validateParsedEventShape event of Some x \<Rightarrow> Inl x | None \<Rightarrow> sealEvent event))))))))))))))))"

definition ParseEventCanonicalJSON :: "bytes \<Rightarrow> Event result" where
  "ParseEventCanonicalJSON data =
     bindE (decodeCanonicalObject enc_event dec_event ''Event JSON'' data MaxEventCanonicalBytes) (\<lambda>w.
     bindE (eventFromWire w) (\<lambda>event.
       case requireReconstructedCanonical ''Event JSON'' data (e_canonical event) of
         Some x \<Rightarrow> Inl x
       | None \<Rightarrow> Inr event))"

section \<open>The encoding\<close>

lemma dec_uint16_JNat [json_simps]: "dec_uint16 (JNat (unat w)) = Some w"
proof -
  have "unat w < 2 ^ 16" using unsigned_less [where 'a = nat, of w] by simp
  then show ?thesis by (simp add: dec_uint16_def dec_uint_JNat)
qed

lemma dec_ptr_bound [json_simps]:
  "dec_ptr dec_subjectBinding (enc_subjectBinding s) = Some (Some s)"
  "dec_ptr dec_referenceExpectation (enc_referenceExpectation e) = Some (Some e)"
  using dec_enc_subjectBinding [of s] dec_enc_referenceExpectation [of e]
  by (simp_all add: dec_ptr_def enc_subjectBinding_def enc_referenceExpectation_def)

lemma field_machine:
  assumes "enc_machine w = JObj kvs"
  shows "field [] dec_string ''event_id'' kvs = Some (emw_id w)"
    "field [] dec_string ''accepted_at'' kvs = Some (emw_acceptedAt w)"
    "field 0 dec_uint64 ''origin_sequence'' kvs = Some (emw_sequence w)"
    "field 0 dec_uint16 ''causal_depth'' kvs = Some (emw_depth w)"
    "field [] dec_string ''source_principal'' kvs = Some (emw_source w)"
    "field [] dec_string ''operation_key'' kvs = Some (emw_operationKey w)"
    "field [] dec_string ''request_digest'' kvs = Some (emw_requestDigest w)"
    "field [] dec_string ''consequence'' kvs = Some (emw_consequence w)"
    "field None (dec_ptr dec_subjectBinding) ''subject'' kvs = Some (emw_subject w)"
    "field None (dec_ptr dec_referenceExpectation) ''expected_reference'' kvs = Some (emw_expected w)"
    "field [] (dec_list dec_resolvedTarget) ''targets'' kvs = Some (emw_targets w)"
    "field [] dec_string ''in_reply_to_delivery_id'' kvs = Some (emw_inReplyTo w)"
  by (simp_all add: assms [unfolded enc_machine_def json.inject, symmetric] json_simps)

lemma keys_machine: "enc_machine w = JObj kvs \<Longrightarrow> set (map fst kvs) \<subseteq> set machineKeys"
  by (simp only: enc_machine_def json.inject, hypsubst) (simp add: json_simps image_Un machineKeys_def)

lemma dec_enc_machine [json_simps]: "dec_machine (enc_machine w) = Some w"
proof -
  obtain kvs where kvs: "enc_machine w = JObj kvs" by (simp add: enc_machine_def)
  have "dec_struct machineKeys (enc_machine w) = Some kvs"
    using keys_machine [OF kvs] by (simp add: dec_struct_def kvs)
  then show ?thesis unfolding dec_machine_def by (simp add: field_machine [OF kvs])
qed

lemma dec_enc_evidence [json_simps]: "dec_evidence (enc_evidence w) = Some w"
  by (cases w; cases "eew_correlation w")
    (simp_all add: dec_evidence_def enc_evidence_def json_simps image_Un)

lemma dec_enc_event: "ew_version w < 2 ^ 63 \<Longrightarrow> dec_event (enc_event w) = Some w"
  by (cases w) (simp add: dec_event_def enc_event_def json_simps)

lemma unique_enc_event: "unique_keys (enc_event w)"
  by (simp add: enc_event_def enc_machine_def enc_evidence_def enc_strings_def keys_simps)

interpretation event_codec: canonical_codec enc_event dec_event "\<lambda>w. ew_version w < 2 ^ 63"
  by unfold_locales (rule dec_enc_event, assumption, rule unique_enc_event)

text \<open>The parts of an Event went through their constructors.\<close>

definition event_ok :: "Event \<Rightarrow> bool" where
  "event_ok e \<longleftrightarrow> handle_ok (e_id e) \<and> time_ok (e_acceptedAt e) \<and> e_sequence e \<noteq> 0 \<and>
     e_depth e \<le> MaxPeerCausalDepth \<and> handle_ok (e_source e) \<and> handle_ok (e_operationKey e) \<and>
     digest_ok (e_requestDigest e) \<and> label_ok (e_kind e) \<and> payload_ok (e_payload e) \<and>
     e_consequence e \<noteq> ConsequenceInvalid \<and>
     (\<forall>s. e_subject e = Some s \<longrightarrow> handle_ok (sub_handlingID s) \<and> ref_ok (sub_head s) \<and> sub_fence s \<noteq> 0) \<and>
     (\<forall>x. e_expected e = Some x \<longrightarrow> key_ok (exp_key x) \<and>
        (if exp_absent x then exp_head x = zeroEventRef else ref_ok (exp_head x))) \<and>
     (\<forall>t \<in> set (e_targets e). resolved_ok t) \<and>
     length (e_targets e) \<le> MaxSuccessors \<and>
     (\<forall>d \<in> set (e_artifacts e). digest_ok d) \<and> length (e_artifacts e) \<le> MaxArtifactInputs \<and>
     distinct (e_artifacts e) \<and> e_artifacts e = sortDigests (e_artifacts e) \<and>
     (\<forall>r \<in> set (e_causation e). ref_ok r) \<and> length (e_causation e) \<le> MaxCausationHandles \<and>
     (e_correlation e = zeroEventRef \<or> ref_ok (e_correlation e)) \<and> length (e_inReplyTo e) = 32"

lemma json_ok_event:
  assumes "event_ok e"
  shows "json_ok (enc_event (eventToWire e))"
proof -
  have ref: "json_ok (enc_eventRef (refWire r))" if "ref_ok r" for r by (rule json_ok_eventRef [OF that])
  have t: "json_ok (enc_resolvedTarget (resolvedWire t))" if "t \<in> set (e_targets e)" for t
    using assms that by (auto simp: event_ok_def json_ok_resolved)
  have s: "json_ok (enc_subjectBinding (subjectWire s))" if "e_subject e = Some s" for s
    using assms that by (auto simp: event_ok_def enc_subjectBinding_def subjectWire_def json_simps ref dest: token_ok_valid)
  have x: "json_ok (enc_referenceExpectation (expectationWire x))" if "e_expected e = Some x" for x
    using assms that
    by (auto simp: event_ok_def enc_referenceExpectation_def expectationWire_def json_simps ref dest: token_ok_valid split: if_splits)
  have m: "json_ok (enc_machine (ew_machine (eventToWire e)))"
    using assms t s x
    by (auto simp: enc_machine_def eventToWire_def json_simps event_ok_def consequenceString_plain dest: token_ok_valid)
  have "json_ok (enc_evidence (ew_evidence (eventToWire e)))"
    using assms by (auto simp: enc_evidence_def eventToWire_def enc_strings_def json_simps event_ok_def ref)
  moreover have "ValidString (e_kind e)" "ValidString (e_payload e)"
    using assms by (auto simp: event_ok_def payload_ok_def dest: token_ok_valid)
  ultimately show ?thesis using m by (simp add: enc_event_def json_simps eventToWire_def)
qed

section \<open>Reading back what was written\<close>

lemma parseDistinct_Inr:
  "parseDistinct f key dup seen ws = Inr xs \<longleftrightarrow>
     mapE f ws = Inr xs \<and> distinct (map key xs) \<and> (\<forall>x \<in> set xs. key x \<notin> set seen)"
proof (induction f key dup seen ws arbitrary: xs rule: parseDistinct.induct)
  case (2 f key dup seen w ws)
  show ?case
  proof (cases "f w")
    case (Inr x)
    have IH: "parseDistinct f key dup (key x # seen) ws = Inr ys \<longleftrightarrow>
        mapE f ws = Inr ys \<and> distinct (map key ys) \<and> (\<forall>y \<in> set ys. key y \<notin> set (key x # seen))"
      if "key x \<notin> set seen" for ys
      using 2 Inr that by blast
    show ?thesis
    proof (cases "key x \<in> set seen")
      case False
      show ?thesis by (cases xs) (auto simp: Inr False bindE_Inr IH [OF False] image_iff)
    qed (auto simp: Inr bindE_Inr)
  qed simp
qed auto

text \<open>What the encoding of an Event leaves out: the View handles of its subject, Reference and targets.\<close>

definition stripEvent :: "Event \<Rightarrow> Event" where
  "stripEvent e = e\<lparr>e_subject := map_option (\<lambda>s. s\<lparr>sub_handle := []\<rparr>) (e_subject e),
     e_expected := map_option (\<lambda>x. x\<lparr>exp_handle := []\<rparr>) (e_expected e),
     e_targets := map (\<lambda>t. t\<lparr>requested := zeroTarget\<rparr>) (e_targets e)\<rparr>"

lemma strip_simps [simp]:
  "subjectWire (s\<lparr>sub_handle := h\<rparr>) = subjectWire s" "expectationWire (x\<lparr>exp_handle := h\<rparr>) = expectationWire x"
  "resolvedWire (t\<lparr>requested := r\<rparr>) = resolvedWire t" "destinationKey (t\<lparr>requested := r\<rparr>) = destinationKey t"
  by (simp_all add: subjectWire_def expectationWire_def resolvedWire_def destinationKey_def)

lemma strip_fields [simp]:
  "e_consequence (stripEvent e) = e_consequence e" "e_subject (stripEvent e) = None \<longleftrightarrow> e_subject e = None"
  "e_expected (stripEvent e) = None \<longleftrightarrow> e_expected e = None"
  "(case e_expected (stripEvent e) of None \<Rightarrow> True | Some x \<Rightarrow> exp_absent x \<noteq> a) \<longleftrightarrow>
   (case e_expected e of None \<Rightarrow> True | Some x \<Rightarrow> exp_absent x \<noteq> a)"
  "length (e_targets (stripEvent e)) = length (e_targets e)" "e_artifacts (stripEvent e) = e_artifacts e"
  "e_targets (stripEvent e) = [] \<longleftrightarrow> e_targets e = []"
  "localTargets (e_targets (stripEvent e)) = localTargets (e_targets e)"
  "remoteTargets (e_targets (stripEvent e)) = remoteTargets (e_targets e)"
  "e_causation (stripEvent e) = e_causation e" "e_correlation (stripEvent e) = e_correlation e"
  "e_inReplyTo (stripEvent e) = e_inReplyTo e" "e_depth (stripEvent e) = e_depth e"
  "e_operationKey (stripEvent e) = e_operationKey e"
  by (simp_all add: stripEvent_def localTargets_def remoteTargets_def filter_map comp_def split: option.splits)

lemma parse_event_subject:
  "handle_ok (sub_handlingID s) \<Longrightarrow> ref_ok (sub_head s) \<Longrightarrow> sub_fence s \<noteq> 0 \<Longrightarrow>
     parseEventSubject (Some (subjectWire s)) = Inr (Some (s\<lparr>sub_handle := []\<rparr>))"
  by (cases s) (simp add: parseEventSubject_def subjectWire_def guards constructor_Inr parseEventRef_Inr)

lemma parse_event_reference:
  assumes "key_ok (exp_key x)" "if exp_absent x then exp_head x = zeroEventRef else ref_ok (exp_head x)"
  shows "parseEventReference (Some (expectationWire x)) = Inr (Some (x\<lparr>exp_handle := []\<rparr>))"
proof (cases "exp_absent x")
  case True
  with assms show ?thesis
    by (cases x) (simp add: parseEventReference_def expectationWire_def guards constructor_Inr)
next
  case False
  with assms ref_ok_nonzero [of "exp_head x"] show ?thesis
    by (cases x) (simp add: parseEventReference_def expectationWire_def guards constructor_Inr parseEventRef_Inr)
qed

lemma parse_event_target: "resolved_ok t \<Longrightarrow> parseEventTarget (resolvedWire t) = Inr (t\<lparr>requested := zeroTarget\<rparr>)"
  by (cases t) (auto simp: parseEventTarget_def resolvedWire_def destinationText_def resolved_ok_def guards constructor_Inr)

lemmas parse_event_parts = parse_event_subject parse_event_reference parse_event_target

lemma parseCanonicalTime_ok: "time_ok t \<Longrightarrow> parseCanonicalTime f (RFC3339Nano t) = Inr t"
  by (simp add: parseCanonicalTime_def parse_time_ok guards canonicalTime_Inr)

lemma sealEvent_Inr:
  "sealEvent e = Inr e' \<longleftrightarrow> length (Marshal (enc_event (eventToWire e))) \<le> MaxEventCanonicalBytes \<and>
     e' = e\<lparr>e_canonical := Marshal (enc_event (eventToWire e)), e_digest := Sum (Marshal (enc_event (eventToWire e)))\<rparr>"
  by (auto simp: sealEvent_def Let_def)

lemma eventToWire_strip [simp]:
  "eventToWire (stripEvent e) = eventToWire e"
  "eventToWire (e\<lparr>e_canonical := c, e_digest := d\<rparr>) = eventToWire e"
  "eventToWire (e\<lparr>e_canonical := c\<rparr>) = eventToWire e" "eventToWire (e\<lparr>e_digest := d\<rparr>) = eventToWire e"
  by (simp_all add: eventToWire_def stripEvent_def option.map_comp comp_def)

lemma distinct_adj_distinct: "distinct xs \<Longrightarrow> distinct_adj xs"
  by (induction xs rule: induct_list012) auto

lemma parseEventArtifacts_ok:
  assumes "\<forall>d \<in> set ds. digest_ok d" "length ds \<le> MaxArtifactInputs" "distinct ds" "ds = sortDigests ds"
  shows "parseEventArtifacts (map digestString ds) = Inr ds"
proof -
  have "mapE (\<lambda>v. case ParseDigest v of Inl e \<Rightarrow> Inl (ErrWrapped ''Event Artifact'' e) | Inr d \<Rightarrow> Inr d)
      (map digestString ds) = Inr ds"
  proof (rule mapE_map)
    fix d assume "d \<in> set ds"
    then have "ParseDigest (digestString d) = Inr d" using assms(1) by (simp add: ParseDigest_Inr)
    then show "(case ParseDigest (digestString d) of Inl e \<Rightarrow> Inl (ErrWrapped ''Event Artifact'' e) | Inr d \<Rightarrow> Inr d) = Inr d"
      by simp
  qed
  moreover have "normalizePeerArtifacts ds = Inr ds"
    using assms distinct_adj_distinct [OF assms(3)]
    by (auto simp: normalizePeerArtifacts_def Let_def digest_ok_def simp flip: assms(4))
  ultimately show ?thesis by (simp add: parseEventArtifacts_def)
qed

lemma parse_causation1: "ref_ok r \<Longrightarrow> (case parseEventRef (refWire r) of Inl e \<Rightarrow> Inl (ErrWrapped f e) | Inr r \<Rightarrow> Inr r) = Inr r"
proof -
  assume "ref_ok r"
  then have "parseEventRef (refWire r) = Inr r" by (simp add: parseEventRef_Inr)
  then show ?thesis by simp
qed

lemma parseEventCausation_ok:
  assumes "\<forall>r \<in> set rs. ref_ok r" "length rs \<le> MaxCausationHandles"
  shows "parseEventCausation (map refWire rs) = Inr xs \<longleftrightarrow> xs = rs \<and> distinct rs"
proof -
  have "mapE (\<lambda>w. case parseEventRef w of Inl e \<Rightarrow> Inl (ErrWrapped ''Event causation'' e) | Inr r \<Rightarrow> Inr r)
      (map refWire rs) = Inr rs"
    by (rule mapE_map) (use assms(1) in \<open>simp add: parse_causation1\<close>)
  then show ?thesis using assms(2) by (auto simp: parseEventCausation_def parseDistinct_Inr)
qed

lemma parseEventTargets_ok:
  assumes "\<forall>t \<in> set ts. resolved_ok t" "length ts \<le> MaxSuccessors" "distinct (map destinationKey ts)"
  shows "parseEventTargets (map resolvedWire ts) = Inr (map (\<lambda>t. t\<lparr>requested := zeroTarget\<rparr>) ts)"
proof -
  have "mapE parseEventTarget (map resolvedWire ts) = Inr (map (\<lambda>t. t\<lparr>requested := zeroTarget\<rparr>) ts)"
    using assms(1) by (induction ts) (simp_all add: parse_event_parts)
  moreover have "map destinationKey (map (\<lambda>t. t\<lparr>requested := zeroTarget\<rparr>) ts) = map destinationKey ts"
    by simp
  ultimately show ?thesis using assms(2,3) unfolding parseEventTargets_def
    by (simp add: parseDistinct_Inr del: map_map)
qed

lemma seal_fields:
  "e_consequence (e\<lparr>e_canonical := c, e_digest := d\<rparr>) = e_consequence e"
  "e_subject (e\<lparr>e_canonical := c, e_digest := d\<rparr>) = e_subject e"
  "e_expected (e\<lparr>e_canonical := c, e_digest := d\<rparr>) = e_expected e"
  "e_targets (e\<lparr>e_canonical := c, e_digest := d\<rparr>) = e_targets e"
  "e_artifacts (e\<lparr>e_canonical := c, e_digest := d\<rparr>) = e_artifacts e"
  "e_causation (e\<lparr>e_canonical := c, e_digest := d\<rparr>) = e_causation e"
  "e_correlation (e\<lparr>e_canonical := c, e_digest := d\<rparr>) = e_correlation e"
  "e_inReplyTo (e\<lparr>e_canonical := c, e_digest := d\<rparr>) = e_inReplyTo e"
  "e_depth (e\<lparr>e_canonical := c, e_digest := d\<rparr>) = e_depth e"
  "e_operationKey (e\<lparr>e_canonical := c, e_digest := d\<rparr>) = e_operationKey e"
  by simp_all

lemmas shape_defs = validateParsedEventShape_def consequenceShape_def resolutionShape_def referenceShape_def
  observationShape_def

lemma validate_strip [simp]:
  "validateParsedEventShape (stripEvent e) = validateParsedEventShape e"
  "validateParsedEventShape (e\<lparr>e_canonical := c, e_digest := d\<rparr>) = validateParsedEventShape e"
  unfolding shape_defs strip_fields seal_fields by (rule refl)+

lemma eventFromWire_toWire:
  assumes "event_ok e" "distinct (map destinationKey (e_targets e))"
  shows "eventFromWire (eventToWire e) = Inr x \<longleftrightarrow> distinct (e_causation e) \<and>
     validateParsedEventShape e = None \<and> sealEvent (stripEvent (e\<lparr>e_canonical := [], e_digest := zeroDigest\<rparr>)) = Inr x"
proof -
  have ok: "handle_ok (e_id e)" "time_ok (e_acceptedAt e)" "e_sequence e \<noteq> 0" "\<not> MaxPeerCausalDepth < e_depth e"
    "handle_ok (e_source e)" "handle_ok (e_operationKey e)" "digest_ok (e_requestDigest e)" "label_ok (e_kind e)"
    "payload_ok (e_payload e)" "e_consequence e \<noteq> ConsequenceInvalid"
    using assms(1) by (auto simp: event_ok_def)
  have new: "NewEventID (e_id e) = Inr (e_id e)" "NewAgentPrincipalID (e_source e) = Inr (e_source e)"
    "NewOperationKey (e_operationKey e) = Inr (e_operationKey e)"
    "ParseDigest (digestString (e_requestDigest e)) = Inr (e_requestDigest e)"
    "NewSemanticLabel (e_kind e) = Inr (e_kind e)" "NewSemanticPayload (e_payload e) = Inr (e_payload e)"
    "parseConsequence (consequenceString (e_consequence e)) = Inr (e_consequence e)"
    using ok by (simp_all add: constructor_Inr parseConsequence_Inr)
  have sub: "parseEventSubject (map_option subjectWire (e_subject e)) = Inr (map_option (\<lambda>s. s\<lparr>sub_handle := []\<rparr>) (e_subject e))"
    using assms(1) by (cases "e_subject e") (simp add: parseEventSubject_def, simp add: event_ok_def parse_event_parts)
  have exp: "parseEventReference (map_option expectationWire (e_expected e)) = Inr (map_option (\<lambda>x. x\<lparr>exp_handle := []\<rparr>) (e_expected e))"
    using assms(1) by (cases "e_expected e") (simp add: parseEventReference_def, simp add: event_ok_def parse_event_parts)
  have tgt: "parseEventTargets (map resolvedWire (e_targets e)) = Inr (map (\<lambda>t. t\<lparr>requested := zeroTarget\<rparr>) (e_targets e))"
    using assms by (intro parseEventTargets_ok) (simp_all add: event_ok_def)
  have art: "parseEventArtifacts (map digestString (e_artifacts e)) = Inr (e_artifacts e)"
    using assms by (intro parseEventArtifacts_ok) (simp_all add: event_ok_def)
  have cor: "parseOptionalEventRef ''Event correlation'' (if refIsZero (e_correlation e) then None else Some (refWire (e_correlation e))) = Inr (e_correlation e)"
    using assms(1) ref_ok_nonzero [of "e_correlation e"]
    by (auto simp: event_ok_def parseOptionalEventRef_def parse_causation1)
  have rep: "(if (if e_inReplyTo e = zeroDigest then [] else deliveryString (e_inReplyTo e)) \<noteq> []
      then ParseDeliveryID (if e_inReplyTo e = zeroDigest then [] else deliveryString (e_inReplyTo e)) else Inr zeroDigest) = Inr (e_inReplyTo e)"
    using assms(1) by (simp add: ParseDeliveryID_Inr digest_ok_def event_ok_def)
  have caus: "parseEventCausation (map refWire (e_causation e)) = Inr xs \<longleftrightarrow> xs = e_causation e \<and> distinct (e_causation e)" for xs
    using assms(1) by (intro parseEventCausation_ok) (simp_all add: event_ok_def)
  have shape: "validateParsedEventShape (stripEvent (e\<lparr>e_canonical := [], e_digest := zeroDigest\<rparr>)) = validateParsedEventShape e"
    by (simp only: validate_strip)
  have event: "\<lparr>e_id = e_id e, e_acceptedAt = e_acceptedAt e, e_sequence = e_sequence e, e_depth = e_depth e,
      e_source = e_source e, e_operationKey = e_operationKey e, e_requestDigest = e_requestDigest e, e_kind = e_kind e,
      e_payload = e_payload e, e_consequence = e_consequence e, e_subject = map_option (\<lambda>s. s\<lparr>sub_handle := []\<rparr>) (e_subject e),
      e_expected = map_option (\<lambda>x. x\<lparr>exp_handle := []\<rparr>) (e_expected e),
      e_targets = map (\<lambda>t. t\<lparr>requested := zeroTarget\<rparr>) (e_targets e), e_artifacts = e_artifacts e,
      e_causation = e_causation e, e_correlation = e_correlation e, e_inReplyTo = e_inReplyTo e, e_canonical = [],
      e_digest = zeroDigest\<rparr> = stripEvent (e\<lparr>e_canonical := [], e_digest := zeroDigest\<rparr>)"
    by (simp add: stripEvent_def)
  show ?thesis
    unfolding eventFromWire_def Let_def eventToWire_def eventWire.simps eventMachineWire.simps eventEvidenceWire.simps
      fst_conv snd_conv new sub exp tgt art cor rep parseCanonicalTime_ok [OF ok(2)] bindE_simps guards
    by (auto simp: ok(3,4) caus shape event)
qed

section \<open>An Event fits its bound\<close>

lemma length_marshal_elems: "(\<And>j. j \<in> set js \<Longrightarrow> length (Marshal j) \<le> b) \<Longrightarrow> length (marshal_elems js) \<le> length js * (b + 1)"
proof (induction js)
  case (Cons j js)
  then have "length (Marshal j) \<le> b" "length (marshal_elems js) \<le> length js * (b + 1)" by simp_all
  then show ?case by (cases "js = []") (simp_all add: marshal_elems_Cons)
qed simp

lemma length_Marshal_JArr:
  "(\<And>j. j \<in> set js \<Longrightarrow> length (Marshal j) \<le> b) \<Longrightarrow> length js \<le> n \<Longrightarrow> length (Marshal (JArr js)) \<le> 2 + n * (b + 1)"
  using length_marshal_elems [of js b] mult_le_mono1 [of "length js" n "b + 1"] by simp

definition members_bound :: "(string \<times> json) list \<Rightarrow> nat" where
  "members_bound kvs = sum_list (map (\<lambda>(k, j). length (escape k) + length (Marshal j) + 4) kvs)"

lemma length_Marshal_JObj: "length (Marshal (JObj kvs)) \<le> 2 + members_bound kvs"
proof -
  have "length (marshal_members kvs) \<le> members_bound kvs"
  proof (induction kvs)
    case (Cons p kvs)
    then show ?case by (cases p; cases "kvs = []") (simp_all add: members_bound_def marshal_members_Cons)
  qed (simp add: members_bound_def)
  then show ?thesis by simp
qed

lemma members_bound_simps:
  "members_bound [] = 0" "members_bound ((k, j) # kvs) = length (escape k) + length (Marshal j) + 4 + members_bound kvs"
  "members_bound (xs @ ys) = members_bound xs + members_bound ys"
  by (simp_all add: members_bound_def)

lemma members_bound_omitempty:
  "(c \<Longrightarrow> length (Marshal v) \<le> b) \<Longrightarrow> members_bound (omitempty k c v) \<le> length (escape k) + b + 4"
  by (simp add: members_bound_def omitempty_def)

lemma length_Marshal_token: "token_ok m l v \<Longrightarrow> length (Marshal (JStr v)) \<le> m + 2"
  by (simp add: token_okD)

lemma escape_hex [simp]: "escape (hex_encode bs) = hex_encode bs"
proof -
  have "plain c" if "is_lower_hex c" for c
    using that by (auto simp: is_lower_hex_def plain_def isASCIILetter_def isASCIIDigit_def is_digit_def)
  then show ?thesis using escape_plain hex_encode_chars by blast
qed

lemma length_Marshal_digest: "length d = 32 \<Longrightarrow> length (Marshal (JStr (digestString d))) = 73"
  "length d = 32 \<Longrightarrow> length (Marshal (JStr (deliveryString d))) = 75"
  by (simp_all add: digestString_def deliveryString_def esc_ascii_def)

lemma length_decimal: "n < 10 ^ k \<Longrightarrow> 0 < k \<Longrightarrow> length (decimal n) \<le> k"
proof (induction n arbitrary: k rule: decimal.induct)
  case (1 n)
  show ?case
  proof (cases "n < 10")
    case False
    then have k: "1 < k" using "1.prems" by (cases "k = 1") auto
    then have "n div 10 < 10 ^ (k - 1)"
      using "1.prems"(1) by (cases k) (simp_all add: div_less_iff_less_mult mult.commute)
    then show ?thesis using "1.IH" [OF False, of "k - 1"] k False by (subst decimal.simps) simp
  qed (use 1 in \<open>simp add: decimal.simps\<close>)
qed

lemma length_Marshal_word: "length (Marshal (JNat (unat (w :: 64 word)))) \<le> 20" "length (Marshal (JNat (unat (v :: 16 word)))) \<le> 5"
proof -
  have "unat w < 10 ^ 20" "unat v < 10 ^ 5"
    using unsigned_less [where 'a = nat, of w] unsigned_less [where 'a = nat, of v] by simp_all
  then show "length (Marshal (JNat (unat w))) \<le> 20" "length (Marshal (JNat (unat v))) \<le> 5"
    by (simp_all add: JNat_def length_decimal)
qed

lemma token_length: "handle_ok v \<Longrightarrow> length (escape v) \<le> 192" "key_ok v \<Longrightarrow> length (escape v) \<le> 160"
  "label_ok v \<Longrightarrow> length (escape v) \<le> 96"
  by (auto dest: token_okD(2,3) simp: bound_defs) (metis token_okD(2,3))+

lemma digest_length: "length d = 32 \<Longrightarrow> length (escape (digestString d)) = 71"
  "length d = 32 \<Longrightarrow> length (escape (deliveryString d)) = 73"
  by (simp_all add: digestString_def deliveryString_def esc_ascii_def)

lemma size_ref: "ref_ok r \<Longrightarrow> length (Marshal (enc_eventRef (refWire r))) \<le> 285"
  using length_Marshal_JObj [of "[(''id'', JStr (ref_id r)), (''digest'', JStr (digestString (ref_digest r)))]"]
    token_length(1) [of "ref_id r"] digest_length [of "ref_digest r"]
  by (simp add: enc_eventRef_def refWire_def ref_ok_def digest_ok_def members_bound_simps esc_ascii_def)

lemma size_subject:
  "handle_ok (sub_handlingID s) \<Longrightarrow> ref_ok (sub_head s) \<Longrightarrow> length (Marshal (enc_subjectBinding (subjectWire s))) \<le> 577"
  using length_Marshal_JObj [of "[(''handling_id'', JStr (sub_handlingID s)), (''head'', enc_eventRef (refWire (sub_head s))),
      (''fence'', JNat (unat (sub_fence s))), (''observation_revision'', JNat (unat (sub_revision s)))]"]
    token_length(1) [of "sub_handlingID s"] size_ref [of "sub_head s"]
    length_Marshal_word(1) [of "sub_fence s"] length_Marshal_word(1) [of "sub_revision s"]
  by (simp add: enc_subjectBinding_def subjectWire_def members_bound_simps esc_ascii_def del: Marshal.simps(6))

lemma members_omit: "(p \<Longrightarrow> length (Marshal j) \<le> b) \<Longrightarrow> members_bound (omitempty k p j) \<le> length (escape k) + b + 4"
  by (simp add: members_bound_simps omitempty_def)

lemma size_expectation:
  assumes "key_ok (exp_key x)" "if exp_absent x then exp_head x = zeroEventRef else ref_ok (exp_head x)"
  shows "length (Marshal (enc_referenceExpectation (expectationWire x))) \<le> 479"
proof -
  have "members_bound (omitempty ''head'' (rew_head (expectationWire x) \<noteq> None)
      (enc_eventRef (the (rew_head (expectationWire x))))) \<le> length (escape ''head'') + 285 + 4"
    by (rule members_omit) (use assms size_ref in \<open>auto simp: expectationWire_def split: if_splits\<close>)
  then show ?thesis
    using length_Marshal_JObj [of "(''absent'', JBool (exp_absent x)) # (''key'', JStr (exp_key x)) #
        omitempty ''head'' (rew_head (expectationWire x) \<noteq> None) (enc_eventRef (the (rew_head (expectationWire x))))"]
      token_length(2) [OF assms(1)]
    by (simp add: enc_referenceExpectation_def members_bound_simps esc_ascii_def del: Marshal.simps(6))
      (simp add: expectationWire_def)
qed

lemma size_target:
  assumes "resolved_ok t"
  shows "length (Marshal (enc_resolvedTarget (resolvedWire t))) \<le> 658"
proof -
  have "members_bound (omitempty ''local_principal'' (localPrincipal t \<noteq> []) (JStr (localPrincipal t))) \<le> length (escape ''local_principal'') + 194 + 4"
    "members_bound (omitempty ''remote_route'' (remoteRoute t \<noteq> []) (JStr (remoteRoute t))) \<le> length (escape ''remote_route'') + 194 + 4"
    "members_bound (omitempty ''remote_alias'' (remoteAlias t \<noteq> []) (JStr (remoteAlias t))) \<le> length (escape ''remote_alias'') + 194 + 4"
    by (rule members_omit; use assms token_length(1) in \<open>auto simp: resolved_ok_def\<close>)+
  moreover have "length (escape (destinationText (destination t))) \<le> 6"
    by (simp add: destinationText_def esc_ascii_def)
  ultimately show ?thesis
    unfolding enc_resolvedTarget_def resolvedWire_def
    by (intro order_trans [OF length_Marshal_JObj]) (simp add: members_bound_simps esc_ascii_def)
qed

lemma size_evidence:
  assumes "event_ok e"
  shows "length (Marshal (enc_evidence (ew_evidence (eventToWire e)))) \<le> 5500"
proof -
  have "length (Marshal (JArr (map JStr (map digestString (e_artifacts e))))) \<le> 2 + 8 * (73 + 1)"
    by (rule length_Marshal_JArr) (use assms in \<open>auto simp: event_ok_def digest_ok_def digest_length MaxArtifactInputs_def\<close>)
  then have 1: "members_bound (omitempty ''artifacts'' (map digestString (e_artifacts e) \<noteq> []) (enc_strings (map digestString (e_artifacts e))))
      \<le> length (escape ''artifacts'') + 594 + 4"
    by (intro members_omit) (simp add: enc_strings_def)
  have "length (Marshal (JArr (map enc_eventRef (map refWire (e_causation e))))) \<le> 2 + 16 * (285 + 1)"
    by (rule length_Marshal_JArr) (use assms size_ref in \<open>auto simp: event_ok_def MaxCausationHandles_def\<close>)
  then have 2: "members_bound (omitempty ''causation'' (map refWire (e_causation e) \<noteq> []) (JArr (map enc_eventRef (map refWire (e_causation e)))))
      \<le> length (escape ''causation'') + 4578 + 4"
    by (intro members_omit) simp
  have 3: "members_bound (omitempty ''correlation'' (eew_correlation (ew_evidence (eventToWire e)) \<noteq> None)
      (enc_eventRef (the (eew_correlation (ew_evidence (eventToWire e)))))) \<le> length (escape ''correlation'') + 285 + 4"
    by (rule members_omit) (use assms size_ref [of "e_correlation e"] in \<open>auto simp: event_ok_def eventToWire_def split: if_splits\<close>)
  show ?thesis
    unfolding enc_evidence_def
    by (rule order_trans [OF length_Marshal_JObj], use 1 2 3 in
        \<open>simp add: eventToWire_def members_bound_simps esc_ascii_def del: map_map\<close>)
qed

lemma length_RFC3339Nano_escape: "length (escape (RFC3339Nano t)) \<le> 180"
  using length_escape [of "RFC3339Nano t"] length_RFC3339Nano [of t] by simp

lemma size_machine:
  assumes "event_ok e"
  shows "length (Marshal (enc_machine (ew_machine (eventToWire e)))) \<le> 12800"
proof -
  let ?m = "ew_machine (eventToWire e)"
  have tok: "length (escape (e_id e)) \<le> 192" "length (escape (e_source e)) \<le> 192" "length (escape (e_operationKey e)) \<le> 192"
    "length (escape (digestString (e_requestDigest e))) \<le> 71"
    using assms by (auto simp: event_ok_def token_length digest_length digest_ok_def)
  have con: "length (escape (consequenceString (e_consequence e))) \<le> 28"
    by (cases "e_consequence e") (simp_all add: esc_ascii_def)
  have 1: "members_bound (omitempty ''subject'' (emw_subject ?m \<noteq> None) (enc_subjectBinding (the (emw_subject ?m)))) \<le> length (escape ''subject'') + 577 + 4"
    by (rule members_omit) (use assms size_subject in \<open>auto simp: event_ok_def eventToWire_def\<close>)
  have 2: "members_bound (omitempty ''expected_reference'' (emw_expected ?m \<noteq> None) (enc_referenceExpectation (the (emw_expected ?m)))) \<le> length (escape ''expected_reference'') + 479 + 4"
    by (rule members_omit) (use assms size_expectation in \<open>auto simp: event_ok_def eventToWire_def\<close>)
  have "length (Marshal (JArr (map enc_resolvedTarget (emw_targets ?m)))) \<le> 2 + 16 * (658 + 1)"
    by (rule length_Marshal_JArr) (use assms size_target in \<open>auto simp: event_ok_def eventToWire_def MaxSuccessors_def\<close>)
  then have 3: "members_bound (omitempty ''targets'' (emw_targets ?m \<noteq> []) (JArr (map enc_resolvedTarget (emw_targets ?m)))) \<le> length (escape ''targets'') + 10546 + 4"
    by (intro members_omit) simp
  have 4: "members_bound (omitempty ''in_reply_to_delivery_id'' (emw_inReplyTo ?m \<noteq> []) (JStr (emw_inReplyTo ?m))) \<le> length (escape ''in_reply_to_delivery_id'') + 75 + 4"
    by (rule members_omit) (use assms in \<open>auto simp: event_ok_def eventToWire_def digest_length split: if_splits\<close>)
  show ?thesis
    unfolding enc_machine_def
    by (rule order_trans [OF length_Marshal_JObj],
        use 1 2 3 4 tok con length_RFC3339Nano_escape [of "e_acceptedAt e"] length_Marshal_word(1) [of "e_sequence e"]
          length_Marshal_word(2) [of "e_depth e"] in
        \<open>simp add: members_bound_simps esc_ascii_def\<close>) (simp add: eventToWire_def)
qed

lemma event_fits:
  assumes "event_ok e"
  shows "length (Marshal (enc_event (eventToWire e))) \<le> MaxEventCanonicalBytes"
proof -
  have "length (escape (e_kind e)) \<le> 96" "length (escape (e_payload e)) \<le> 4096"
    using assms by (auto simp: event_ok_def token_length payload_ok_def MaxSemanticPayloadBytes_def)
  then have "length (Marshal (enc_semantic (e_kind e, e_payload e))) \<le> 4300"
    unfolding enc_pair_def by (intro order_trans [OF length_Marshal_JObj]) (simp add: members_bound_simps esc_ascii_def)
  moreover have "ew_semantic (eventToWire e) = (e_kind e, e_payload e)" "ew_version (eventToWire e) = 3"
    by (simp_all add: eventToWire_def eventSchemaVersion_def)
  moreover have "length (Marshal (JNat 3)) = 1" by (simp add: JNat_def decimal.simps)
  ultimately show ?thesis
    unfolding enc_event_def MaxEventCanonicalBytes_def
    by (intro order_trans [OF length_Marshal_JObj])
      (use size_machine [OF assms] size_evidence [OF assms] in \<open>simp add: members_bound_simps esc_ascii_def\<close>)
qed

section \<open>The properties of Events\<close>

text \<open>A bound Intent as its constructor leaves it.\<close>

definition request_ok :: "BoundIntent \<Rightarrow> bool" where
  "request_ok b \<longleftrightarrow> bound_ok b \<and> b_canonical b \<noteq> [] \<and> length (b_digest b) = 32 \<and>
     (\<forall>s. b_subject b = Some s \<longrightarrow> sub_fence s \<noteq> 0) \<and>
     (\<forall>x. b_expected b = Some x \<longrightarrow> (if exp_absent x then exp_head x = zeroEventRef else ref_ok (exp_head x))) \<and>
     length (b_targets b) \<le> MaxSuccessors \<and> length (b_artifacts b) \<le> MaxArtifactInputs \<and>
     distinct (b_artifacts b) \<and> b_artifacts b = sortDigests (b_artifacts b) \<and> (\<forall>d \<in> set (b_artifacts b). digest_ok d) \<and>
     length (b_causation b) \<le> MaxCausationHandles"

lemma NewBoundIntent_request_ok:
  assumes "NewBoundIntent spec = Inr b" "bound_ok b"
  shows "request_ok b"
proof -
  note N = NewBoundIntent_Inr [OF assms(1)]
  note V = validateResolvedBoundIntent_None [OF N(1)]
  have i: "NewAgentIntent (IntentSpec.truncate (b_intent b)) = Inr (b_intent b)"
    using assms(2) by (simp add: bound_ok_def intent_ok_def)
  note I = NewAgentIntent_Inr [OF i, simplified]
  have "length (b_targets b) \<le> MaxSuccessors"
    using I(4) V(4) N(2,8) by (metis length_map)
  moreover have art: "b_artifacts b = sortDigests (map res_digest (b_resolved b))" using N(9,10) by simp
  moreover have "length (b_artifacts b) \<le> MaxArtifactInputs"
    using I(7) V(5) N(2,9) art by (metis length_map length_sort sortDigests_def)
  moreover have "distinct (b_artifacts b)"
    using distinct_sortDigests [of "map res_digest (b_resolved b)"] N(11) art by (simp add: sortDigests_def)
  moreover have "sortDigests (b_artifacts b) = b_artifacts b" by (simp add: art sortDigests_def)
  moreover have "length (b_causation b) \<le> MaxCausationHandles"
    using V(8) N(2,12) normalizeHandles_Inr [OF I(9)] by simp
  moreover have "\<forall>d \<in> set (b_artifacts b). digest_ok d"
    using assms(2) by (auto simp: art bound_ok_def)
  moreover have "sub_fence s \<noteq> 0" if "b_subject b = Some s" for s
    using V(3) [of s] that N(6) by simp
  moreover have "if exp_absent x then exp_head x = zeroEventRef else ref_ok (exp_head x)" if "b_expected b = Some x" for x
    using V(2,11) N(2,7) that assms(2) ref_ok_nonzero [of "exp_head x"]
    by (auto simp: validateResolvedReference_def bound_ok_def consequence_defs split: if_splits)
  moreover have "b_canonical b \<noteq> []" using N(16) by (simp add: boundWire_def)
  moreover have "length (b_digest b) = 32" using N(15) by simp
  ultimately show ?thesis using assms(2) by (simp add: request_ok_def)
qed

definition stamp_ok :: "EventStamp \<Rightarrow> bool" where
  "stamp_ok st \<longleftrightarrow> handle_ok (st_id st) \<and> time_ok (st_acceptedAt st) \<and> st_sequence st \<noteq> 0 \<and> st_depth st \<le> MaxPeerCausalDepth"

lemma eventOf_ok:
  assumes "request_ok b" "b_digest b \<noteq> zeroDigest" "stamp_ok st"
  shows "event_ok (eventOf b st)"
proof -
  have i: "intent_ok (b_intent b)" using assms(1) by (simp add: request_ok_def bound_ok_def)
  then have new: "NewAgentIntent (IntentSpec.truncate (b_intent b)) = Inr (b_intent b)" and "spec_ok (b_intent b)"
    by (simp_all add: intent_ok_def)
  then have "label_ok (kind (b_intent b))" "payload_ok (payload (b_intent b))" "consequence (b_intent b) \<noteq> ConsequenceInvalid"
    using NewAgentIntent_Inr(1,2) [OF new] by (auto simp: spec_ok_def optional_def consequence_defs)
  then show ?thesis
    using assms by (auto simp: event_ok_def eventOf_def request_ok_def bound_ok_def stamp_ok_def digest_ok_def)
qed

lemma NewEvent_Inr:
  "request_ok b \<Longrightarrow> NewEvent b st = Inr e \<longleftrightarrow>
     b_operationKey b \<noteq> [] \<and> b_digest b \<noteq> zeroDigest \<and> st_id st \<noteq> [] \<and> time_ok (st_acceptedAt st) \<and> st_sequence st \<noteq> 0 \<and>
     st_depth st \<le> MaxPeerCausalDepth \<and> sealEvent (eventOf b st) = Inr e"
  unfolding NewEvent_def guards by (auto simp: canonicalTime_Inr request_ok_def not_less)

lemma NewEvent_ex:
  assumes "request_ok b" "b_digest b \<noteq> zeroDigest" "stamp_ok st"
  shows "\<exists>e. NewEvent b st = Inr e"
proof -
  have "length (Marshal (enc_event (eventToWire (eventOf b st)))) \<le> MaxEventCanonicalBytes"
    by (rule event_fits [OF eventOf_ok [OF assms]])
  moreover have "b_operationKey b \<noteq> []" "st_id st \<noteq> []"
    using assms by (auto simp: request_ok_def bound_ok_def stamp_ok_def dest: token_okD)
  ultimately show ?thesis using assms by (auto simp: NewEvent_Inr sealEvent_Inr stamp_ok_def)
qed

lemma event_reads_back:
  assumes "NewEvent b st = Inr e" "request_ok b" "stamp_ok st" "distinct (map destinationKey (b_targets b))"
    "distinct (b_causation b)" "validateParsedEventShape (eventOf b st) = None"
  shows "ParseEventCanonicalJSON (e_canonical e) = Inr (stripEvent e)"
proof -
  let ?e = "eventOf b st"
  have seal: "sealEvent ?e = Inr e" and dig: "b_digest b \<noteq> zeroDigest" using assms(1,2) by (simp_all add: NewEvent_Inr)
  have ok: "event_ok ?e" by (rule eventOf_ok [OF assms(2) dig assms(3)])
  have e: "e = ?e\<lparr>e_canonical := Marshal (enc_event (eventToWire ?e)), e_digest := Sum (Marshal (enc_event (eventToWire ?e)))\<rparr>"
    using seal by (simp add: sealEvent_Inr)
  have can: "e_canonical e = Marshal (enc_event (eventToWire ?e))" by (subst e) simp
  have "decodeCanonicalObject enc_event dec_event ''Event JSON'' (e_canonical e) MaxEventCanonicalBytes = Inr (eventToWire ?e)"
    unfolding can using json_ok_event [OF ok] event_fits [OF ok]
    by (intro event_codec.decode_encode) (simp_all add: eventToWire_def eventSchemaVersion_def)
  moreover have "eventFromWire (eventToWire ?e) = Inr (stripEvent e)"
  proof -
    have "sealEvent (stripEvent (?e\<lparr>e_canonical := [], e_digest := zeroDigest\<rparr>)) = Inr (stripEvent e)"
      unfolding sealEvent_Inr eventToWire_strip using event_fits [OF ok] by (simp, subst e, simp add: stripEvent_def)
    then show ?thesis
      using assms(4-6) eventFromWire_toWire [OF ok] by (simp add: eventOf_def)
  qed
  moreover have "e_canonical (stripEvent e) = e_canonical e" by (simp add: stripEvent_def)
  ultimately show ?thesis by (simp add: ParseEventCanonicalJSON_def requireReconstructedCanonical_def)
qed

text \<open>The example request, citing the Events given, under a fixed digest.\<close>

definition exampleStamp :: EventStamp where
  "exampleStamp = \<lparr>st_id = ''ev7'', st_acceptedAt = 5, st_sequence = 7, st_depth = 1\<rparr>"

lemma exampleStamp_ok: "stamp_ok exampleStamp"
  by code_simp

lemma exampleRequest:
  assumes "length cs = 2" "\<forall>r \<in> set cs. ref_ok r"
  shows "\<exists>b. request_ok b \<and> b_digest b \<noteq> zeroDigest \<and> distinct (map destinationKey (b_targets b)) \<and> b_causation b = cs \<and>
    consequence (b_intent b) = ConsequenceAdvanceHandling \<and> b_subject b \<noteq> None \<and> b_expected b = None \<and> b_inReplyTo b = zeroDigest"
proof -
  obtain i where i: "NewAgentIntent exampleIntentSpec = Inr i" using exampleIntent by blast
  have h: "handle_ok ''op1''" by code_simp
  obtain b where b: "NewBoundIntent (exampleBoundOf cs i\<lparr>spec_operationKey := ''op1'', spec_attachment := exampleAttachment ''att1''\<rparr>) = Inr b"
    using exampleBoundIntent [OF i, of "''op1''" "''att1''" cs] assms by auto
  have ok: "request_ok b" by (rule NewBoundIntent_request_ok [OF b exampleBound_ok [OF i h assms(2) b]])
  have "consequence i = ConsequenceAdvanceHandling"
    by (subst NewAgentIntent_Inr(11) [OF i]) (simp add: exampleIntentSpec_def IntentSpec.defs)
  moreover have "request_ok (b\<lparr>b_digest := exampleDigest CHR ''d''\<rparr>)"
    using ok by (simp add: request_ok_def bound_ok_def exampleDigest_def)
  ultimately show ?thesis
    using NewBoundIntent_Inr [OF b]
    by (intro exI [of _ "b\<lparr>b_digest := exampleDigest CHR ''d''\<rparr>"]) (simp add: exampleBoundOf_def destinationKey_def)
qed

lemma exampleRefs_ok: "\<forall>r \<in> set [exampleRef ''e1'', exampleRef ''e2'']. ref_ok r"
  by code_simp

text \<open>
  (C26) No Event is lost to its bound: every well-formed request under a proper stamp becomes an Event
  whose canonical bytes fit the 32 KiB an Event may have, and the Event keeps the request's operation,
  digest, consequence, targets, Artifacts and causes.
\<close>

theorem event_of_request:
  assumes "request_ok b" "b_digest b \<noteq> zeroDigest" "stamp_ok st"
  shows "\<exists>e. NewEvent b st = Inr e \<and> length (e_canonical e) \<le> 32768 \<and> e_operationKey e = b_operationKey b \<and>
     e_requestDigest e = b_digest b \<and> e_consequence e = consequence (b_intent b) \<and> e_targets e = b_targets b \<and>
     e_artifacts e = b_artifacts b \<and> e_causation e = b_causation b \<and> e_digest e = Sum (e_canonical e)"
proof -
  have fits: "length (Marshal (enc_event (eventToWire (eventOf b st)))) \<le> MaxEventCanonicalBytes"
    by (rule event_fits [OF eventOf_ok [OF assms]])
  have "b_operationKey b \<noteq> []" "st_id st \<noteq> []"
    using assms by (auto simp: request_ok_def bound_ok_def stamp_ok_def dest: token_okD)
  then show ?thesis
    using assms fits by (auto simp: NewEvent_Inr sealEvent_Inr stamp_ok_def eventOf_def MaxEventCanonicalBytes_def)
qed

theorem event_of_request_witness:
  "\<exists>b e. request_ok b \<and> NewEvent b exampleStamp = Inr e \<and> length (e_canonical e) \<le> 32768 \<and> e_causation e = b_causation b"
  using exampleRequest [OF _ exampleRefs_ok] event_of_request [OF _ _ exampleStamp_ok] by fastforce

text \<open>
  (C27) Round trip: an Event of a well-formed request whose destinations and causes are distinct, and whose
  shape its consequence allows, is read back from its canonical bytes; the handles of the View the
  request was made from, which the encoding leaves out, are the only difference.
\<close>

theorem event_json_roundtrip:
  assumes "NewEvent b st = Inr e" "request_ok b" "stamp_ok st" "distinct (map destinationKey (b_targets b))"
    "distinct (b_causation b)" "validateParsedEventShape e = None"
  shows "ParseEventCanonicalJSON (e_canonical e) = Inr (stripEvent e)"
proof -
  have "sealEvent (eventOf b st) = Inr e" using assms(1,2) by (simp add: NewEvent_Inr)
  then have e: "e = eventOf b st\<lparr>e_canonical := e_canonical e, e_digest := e_digest e\<rparr>"
    by (simp add: sealEvent_Inr)
  have "validateParsedEventShape (eventOf b st) = None" using assms(6) by (subst (asm) e) (simp only: validate_strip)
  then show ?thesis by (rule event_reads_back [OF assms(1-5)])
qed

theorem event_json_roundtrip_witness:
  "\<exists>b e. NewEvent b exampleStamp = Inr e \<and> length (e_causation e) = 2 \<and> ParseEventCanonicalJSON (e_canonical e) = Inr (stripEvent e)"
proof -
  let ?cs = "[exampleRef ''e1'', exampleRef ''e2'']"
  obtain b where b: "request_ok b" "b_digest b \<noteq> zeroDigest" "distinct (map destinationKey (b_targets b))"
    "b_causation b = ?cs" "consequence (b_intent b) = ConsequenceAdvanceHandling" "b_subject b \<noteq> None" "b_expected b = None"
    "b_inReplyTo b = zeroDigest"
    using exampleRequest [OF _ exampleRefs_ok] by auto
  have fits: "length (Marshal (enc_event (eventToWire (eventOf b exampleStamp)))) \<le> MaxEventCanonicalBytes"
    by (rule event_fits [OF eventOf_ok [OF b(1,2) exampleStamp_ok]])
  have "b_operationKey b \<noteq> []" using b(1) by (auto simp: request_ok_def bound_ok_def dest: token_okD)
  then obtain e where e: "NewEvent b exampleStamp = Inr e" and seal: "sealEvent (eventOf b exampleStamp) = Inr e"
    using exampleStamp_ok b(1,2) fits by (auto simp: NewEvent_Inr sealEvent_Inr stamp_ok_def dest: token_okD)
  have "validateParsedEventShape e = None" "e_causation e = ?cs"
    using seal b(4-8) by (auto simp: sealEvent_Inr eventOf_def shape_defs)
  moreover have "distinct ?cs" by (simp add: exampleRef_def)
  ultimately show ?thesis
    using e event_json_roundtrip [OF e b(1) exampleStamp_ok b(3)] b(4) by (intro exI [of _ b] exI [of _ e]) simp
qed

text \<open>
  (C28) An Event that cites one cause twice cannot be read back: \<open>NewEvent\<close> seals a request whose causes
  repeat (two handles of a View may stand for one Event), and the reader then refuses the stored bytes.
\<close>

theorem event_repeated_cause_unreadable:
  assumes "NewEvent b st = Inr e" "request_ok b" "stamp_ok st" "distinct (map destinationKey (b_targets b))"
    "\<not> distinct (b_causation b)"
  shows "\<exists>err. ParseEventCanonicalJSON (e_canonical e) = Inl err"
proof -
  let ?e = "eventOf b st"
  have seal: "sealEvent ?e = Inr e" and dig: "b_digest b \<noteq> zeroDigest" using assms(1,2) by (simp_all add: NewEvent_Inr)
  have ok: "event_ok ?e" by (rule eventOf_ok [OF assms(2) dig assms(3)])
  have can: "e_canonical e = Marshal (enc_event (eventToWire ?e))" using seal by (auto simp: sealEvent_Inr)
  have "decodeCanonicalObject enc_event dec_event ''Event JSON'' (e_canonical e) MaxEventCanonicalBytes = Inr (eventToWire ?e)"
    unfolding can using json_ok_event [OF ok] event_fits [OF ok]
    by (intro event_codec.decode_encode) (simp_all add: eventToWire_def eventSchemaVersion_def)
  moreover have "eventFromWire (eventToWire ?e) \<noteq> Inr x" for x
    using assms(4,5) eventFromWire_toWire [OF ok] by (simp add: eventOf_def)
  ultimately show ?thesis by (cases "eventFromWire (eventToWire ?e)") (auto simp: ParseEventCanonicalJSON_def)
qed

theorem event_repeated_cause_unreadable_witness:
  "\<exists>b e err. NewEvent b exampleStamp = Inr e \<and> e_causation e = [exampleRef ''e1'', exampleRef ''e1''] \<and>
     ParseEventCanonicalJSON (e_canonical e) = Inl err"
proof -
  let ?cs = "[exampleRef ''e1'', exampleRef ''e1'']"
  obtain b where b: "request_ok b" "b_digest b \<noteq> zeroDigest" "distinct (map destinationKey (b_targets b))" "b_causation b = ?cs"
    using exampleRequest [of ?cs] exampleRefs_ok by auto
  have fits: "length (Marshal (enc_event (eventToWire (eventOf b exampleStamp)))) \<le> MaxEventCanonicalBytes"
    by (rule event_fits [OF eventOf_ok [OF b(1,2) exampleStamp_ok]])
  have "b_operationKey b \<noteq> []" using b(1) by (auto simp: request_ok_def bound_ok_def dest: token_okD)
  then obtain e where e: "NewEvent b exampleStamp = Inr e" and seal: "sealEvent (eventOf b exampleStamp) = Inr e"
    using exampleStamp_ok b(1,2) fits by (auto simp: NewEvent_Inr sealEvent_Inr stamp_ok_def dest: token_okD)
  have "e_causation e = ?cs" using seal b(4) by (auto simp: sealEvent_Inr eventOf_def)
  with e event_repeated_cause_unreadable [OF e b(1) exampleStamp_ok b(3)] b(4) show ?thesis by auto
qed

end
