(* ===== verification/Agency_Delivery.thy ===== *)
theory Agency_Delivery
  imports Agency_Event "HOL-Library.Product_Lexorder"
begin

text \<open>
  Deliveries to peers (\<^verbatim>\<open>internal/agency/peer_delivery.go\<close>, \<^verbatim>\<open>peer_delivery_parse.go\<close>): the content of the
  signed envelope that carries one Event to one target of another machine, its identity, which binds the
  origin Event, the enrolled route and the target, its canonical encoding, and the reader, which
  reconstructs the identity under the route the envelope came in on.

  The results: a delivery is read back from its bytes under its route; and what is read has the identity
  of the route it was read under, so an envelope made for one route is not a delivery of another.
\<close>

section \<open>Deliveries\<close>

definition MaxPeerDeliveryCanonicalBytes :: nat where "MaxPeerDeliveryCanonicalBytes = 32 * 1024"
definition MaxPeerDeliveryTTL :: duration where "MaxPeerDeliveryTTL = 24 * (60 * minute)"
definition peerDeliveryIDDomain :: string where "peerDeliveryIDDomain = ''mnemon.peer-delivery-id.v1''"
definition peerDeliveryEnvelopeDomain :: string where "peerDeliveryEnvelopeDomain = ''mnemon.peer-delivery-envelope.v1''"
definition peerDeliverySignatureDomain :: string where "peerDeliverySignatureDomain = ''mnemon.peer-delivery-signature.v1''"

record PeerDeliverySpec =
  pd_originEvent :: EventRef
  pd_originSequence :: "64 word"
  pd_originAcceptedAt :: instant
  pd_originSource :: AgentPrincipalID
  pd_originConsequence :: Consequence
  pd_originTargetCount :: "8 word"
  pd_originCausation :: "EventRef list"
  pd_originCorrelation :: EventRef
  pd_inReplyTo :: DeliveryID
  pd_targetAlias :: OpaqueHandle
  pd_kind :: SemanticLabel
  pd_payload :: SemanticPayload
  pd_artifacts :: "Digest list"
  pd_depth :: "16 word"
  pd_expiresAt :: instant

text \<open>A delivery has the fields of its specification, normalized, and three more.\<close>

record PeerDelivery = PeerDeliverySpec +
  pd_id :: DeliveryID
  pd_canonical :: bytes
  pd_envelope :: Digest

subsection \<open>The wire form\<close>

record peerDeliveryOriginWire =
  pow_event :: eventRefWire
  pow_sequence :: "64 word"
  pow_acceptedAt :: string
  pow_source :: string
  pow_consequence :: string
  pow_targetCount :: "8 word"
  pow_causation :: "eventRefWire list"
  pow_correlation :: "eventRefWire option"

record peerDeliveryWire =
  pw_version :: nat
  pw_id :: string
  pw_origin :: peerDeliveryOriginWire
  pw_targetAlias :: string
  pw_kind :: string
  pw_payload :: string
  pw_artifacts :: "string list"
  pw_inReplyTo :: string
  pw_depth :: "16 word"
  pw_expiresAt :: string

definition enc_origin :: "peerDeliveryOriginWire \<Rightarrow> json" where
  "enc_origin w =
     JObj ((''event'', enc_eventRef (pow_event w)) # (''sequence'', JNat (unat (pow_sequence w))) #
           (''accepted_at'', JStr (pow_acceptedAt w)) # (''source_principal'', JStr (pow_source w)) #
           (''consequence'', JStr (pow_consequence w)) # (''target_count'', JNat (unat (pow_targetCount w))) #
           omitempty ''causation'' (pow_causation w \<noteq> []) (JArr (map enc_eventRef (pow_causation w))) @
           omitempty ''correlation'' (pow_correlation w \<noteq> None) (enc_eventRef (the (pow_correlation w))))"

definition enc_delivery :: "peerDeliveryWire \<Rightarrow> json" where
  "enc_delivery w =
     JObj ((''schema_version'', JNat (pw_version w)) # (''delivery_id'', JStr (pw_id w)) #
           (''origin'', enc_origin (pw_origin w)) # (''target_alias'', JStr (pw_targetAlias w)) #
           (''kind'', JStr (pw_kind w)) # (''payload'', JStr (pw_payload w)) #
           omitempty ''artifacts'' (pw_artifacts w \<noteq> []) (enc_strings (pw_artifacts w)) @
           omitempty ''in_reply_to_delivery_id'' (pw_inReplyTo w \<noteq> []) (JStr (pw_inReplyTo w)) @
           [(''causal_depth'', JNat (unat (pw_depth w))), (''expires_at'', JStr (pw_expiresAt w))])"

definition deliveryWire :: "PeerDelivery \<Rightarrow> peerDeliveryWire" where
  "deliveryWire d =
     \<lparr>pw_version = 3, pw_id = deliveryString (pd_id d),
      pw_origin =
        \<lparr>pow_event = refWire (pd_originEvent d), pow_sequence = pd_originSequence d,
         pow_acceptedAt = RFC3339Nano (pd_originAcceptedAt d), pow_source = pd_originSource d,
         pow_consequence = consequenceString (pd_originConsequence d), pow_targetCount = pd_originTargetCount d,
         pow_causation = map refWire (pd_originCausation d),
         pow_correlation = (if refIsZero (pd_originCorrelation d) then None else Some (refWire (pd_originCorrelation d)))\<rparr>,
      pw_targetAlias = pd_targetAlias d, pw_kind = pd_kind d, pw_payload = pd_payload d,
      pw_artifacts = map digestString (pd_artifacts d),
      pw_inReplyTo = (if pd_inReplyTo d = zeroDigest then [] else deliveryString (pd_inReplyTo d)),
      pw_depth = pd_depth d, pw_expiresAt = RFC3339Nano (pd_expiresAt d)\<rparr>"

subsection \<open>The constructor\<close>

definition domainSeparatedDigest :: "string \<Rightarrow> bytes \<Rightarrow> Digest" where
  "domainSeparatedDigest domain value = Sum (domain @ [CHR 0x00] @ value)"

definition validatePeerDeliveryRequiredShape :: "('a) PeerDeliverySpec_scheme \<Rightarrow> agencyError option" where
  "validatePeerDeliveryRequiredShape spec =
     (if refIsZero (pd_originEvent spec) \<or> pd_originSequence spec = 0 \<or> pd_originSource spec = [] \<or>
         \<not> agentDeclarable (pd_originConsequence spec) \<or> pd_originTargetCount spec = 0 \<or>
         MaxSuccessors < unat (pd_originTargetCount spec) \<or> pd_targetAlias spec = [] \<or>
         pd_kind spec = [] \<or> pd_depth spec = 0
      then Some (ErrInvalid ''PeerDelivery''
                  ''complete origin effect, target, semantic kind, and positive depth are required'')
      else
        let soleTargetTerminal = isTerminalConsequence (pd_originConsequence spec) \<and> pd_originTargetCount spec = 1
        in if soleTargetTerminal \<and> (refIsZero (pd_originCorrelation spec) \<or> pd_inReplyTo spec = zeroDigest)
           then Some (ErrInvariant ''PeerDelivery terminal reply''
                       ''single-target terminal origin requires correlation and in-reply-to Delivery'')
           else if \<not> soleTargetTerminal \<and> pd_inReplyTo spec \<noteq> zeroDigest
           then Some (ErrInvariant ''PeerDelivery terminal reply''
                       ''in-reply-to Delivery is forbidden outside a single-target terminal origin'')
           else None)"

text \<open>The order of \<^verbatim>\<open>eventRefLess\<close>.\<close>

definition eventRefOrder :: "EventRef \<Rightarrow> string \<times> string" where
  "eventRefOrder r = (ref_id r, digestString (ref_digest r))"

definition normalizePeerCausation :: "EventRef \<Rightarrow> EventRef list \<Rightarrow> EventRef \<Rightarrow> EventRef list result" where
  "normalizePeerCausation origin values correlation =
     (if MaxCausationHandles < length values
      then Inl (ErrLimit ''PeerDelivery origin causation'' (length values) MaxCausationHandles)
      else let result = sort_key eventRefOrder values
           in if (\<exists>r \<in> set result. refIsZero r \<or> r = origin) \<or> \<not> distinct_adj result
              then Inl (ErrInvalid ''PeerDelivery origin causation'' ''contains a zero, self, or duplicate Event reference'')
              else if \<not> refIsZero correlation \<and> correlation = origin
              then Inl (ErrInvalid ''PeerDelivery origin correlation'' ''must not refer to the origin Event itself'')
              else Inr result)"

definition enc_deliveryID :: "RouteID \<Rightarrow> EventRef \<Rightarrow> OpaqueHandle \<Rightarrow> json" where
  "enc_deliveryID route origin target =
     JObj [(''schema_version'', JNat 1), (''origin_event'', enc_eventRef (refWire origin)),
           (''enrolled_route'', JStr route), (''target_alias'', JStr target)]"

definition deriveDeliveryID :: "RouteID \<Rightarrow> EventRef \<Rightarrow> OpaqueHandle \<Rightarrow> DeliveryID result" where
  "deriveDeliveryID route origin target =
     (if route = [] \<or> refIsZero origin \<or> target = []
      then Inl (ErrInvalid ''DeliveryID derivation'' ''route, origin Event, and target alias are required'')
      else Inr (domainSeparatedDigest peerDeliveryIDDomain (fst (canonicalJSON (enc_deliveryID route origin target)))))"

definition deliveryOf :: "('a) PeerDeliverySpec_scheme \<Rightarrow> DeliveryID \<Rightarrow> EventRef list \<Rightarrow> Digest list \<Rightarrow> PeerDelivery" where
  "deliveryOf spec ident causes digests =
     \<lparr>pd_originEvent = pd_originEvent spec, pd_originSequence = pd_originSequence spec,
      pd_originAcceptedAt = pd_originAcceptedAt spec, pd_originSource = pd_originSource spec,
      pd_originConsequence = pd_originConsequence spec, pd_originTargetCount = pd_originTargetCount spec,
      pd_originCausation = causes, pd_originCorrelation = pd_originCorrelation spec,
      pd_inReplyTo = pd_inReplyTo spec, pd_targetAlias = pd_targetAlias spec, pd_kind = pd_kind spec,
      pd_payload = pd_payload spec, pd_artifacts = digests, pd_depth = pd_depth spec,
      pd_expiresAt = pd_expiresAt spec, pd_id = ident, pd_canonical = [], pd_envelope = zeroDigest\<rparr>"

definition NewPeerDelivery :: "RouteID \<Rightarrow> ('a) PeerDeliverySpec_scheme \<Rightarrow> PeerDelivery result" where
  "NewPeerDelivery enrolledRoute spec =
     (if enrolledRoute = [] then Inl (ErrInvalid ''PeerDelivery route context'' ''enrolled route is required'')
      else case validatePeerDeliveryRequiredShape spec of Some e \<Rightarrow> Inl e | None \<Rightarrow>
      if MaxPeerCausalDepth < pd_depth spec
      then Inl (ErrLimit ''PeerDelivery causal depth'' (unat (pd_depth spec)) (unat MaxPeerCausalDepth))
      else
        bindE (canonicalTime ''PeerDelivery origin accepted time'' (pd_originAcceptedAt spec)) (\<lambda>originAcceptedAt.
        bindE (canonicalTime ''PeerDelivery expiry'' (pd_expiresAt spec)) (\<lambda>expiresAt.
        if \<not> originAcceptedAt < expiresAt
        then Inl (ErrInvariant ''PeerDelivery expiry'' ''must be after origin Event acceptance'')
        else if MaxPeerDeliveryTTL < expiresAt - originAcceptedAt
        then Inl (ErrLimit ''PeerDelivery TTL'' (nat (expiresAt - originAcceptedAt)) (nat MaxPeerDeliveryTTL))
        else
          bindE (normalizePeerCausation (pd_originEvent spec) (pd_originCausation spec) (pd_originCorrelation spec)) (\<lambda>causation.
          bindE (normalizePeerArtifacts (pd_artifacts spec)) (\<lambda>artifacts.
          bindE (deriveDeliveryID enrolledRoute (pd_originEvent spec) (pd_targetAlias spec)) (\<lambda>ident.
            let delivery = (deliveryOf spec ident causation artifacts)
                             \<lparr>pd_originAcceptedAt := originAcceptedAt, pd_expiresAt := expiresAt\<rparr>;
                canonical = fst (canonicalJSON (enc_delivery (deliveryWire delivery)))
            in if MaxPeerDeliveryCanonicalBytes < length canonical
               then Inl (ErrLimit ''PeerDelivery canonical bytes'' (length canonical) MaxPeerDeliveryCanonicalBytes)
               else Inr (delivery\<lparr>pd_canonical := canonical,
                           pd_envelope := domainSeparatedDigest peerDeliveryEnvelopeDomain canonical\<rparr>)))))))"

definition RequiresTerminalReplyMatch :: "PeerDelivery \<Rightarrow> bool" where
  "RequiresTerminalReplyMatch delivery \<longleftrightarrow> pd_inReplyTo delivery \<noteq> zeroDigest"

definition signingMessage :: "string \<Rightarrow> Digest \<Rightarrow> bytes" where
  "signingMessage domain digest = domain @ [CHR 0x00] @ digestString digest"

definition SigningMessage :: "PeerDelivery \<Rightarrow> bytes" where
  "SigningMessage delivery =
     (if pd_envelope delivery = zeroDigest then []
      else signingMessage peerDeliverySignatureDomain (pd_envelope delivery))"

section \<open>Reading a delivery\<close>

definition dec_uint8 :: "json \<Rightarrow> 8 word option" where
  "dec_uint8 j = map_option word_of_nat (dec_uint 8 j)"

definition dec_origin :: "json \<Rightarrow> peerDeliveryOriginWire option" where
  "dec_origin j =
     do { kvs \<leftarrow> dec_struct [''event'', ''sequence'', ''accepted_at'', ''source_principal'', ''consequence'',
                  ''target_count'', ''causation'', ''correlation''] j;
          e \<leftarrow> field \<lparr>wire_id = [], wire_digest = []\<rparr> dec_eventRef ''event'' kvs;
          s \<leftarrow> field 0 dec_uint64 ''sequence'' kvs;
          t \<leftarrow> field [] dec_string ''accepted_at'' kvs;
          p \<leftarrow> field [] dec_string ''source_principal'' kvs;
          c \<leftarrow> field [] dec_string ''consequence'' kvs;
          n \<leftarrow> field 0 dec_uint8 ''target_count'' kvs;
          cs \<leftarrow> field [] (dec_list dec_eventRef) ''causation'' kvs;
          co \<leftarrow> field None (dec_ptr dec_eventRef) ''correlation'' kvs;
          Some \<lparr>pow_event = e, pow_sequence = s, pow_acceptedAt = t, pow_source = p, pow_consequence = c,
                pow_targetCount = n, pow_causation = cs, pow_correlation = co\<rparr> }"

definition zeroOriginWire :: peerDeliveryOriginWire where
  "zeroOriginWire =
     \<lparr>pow_event = \<lparr>wire_id = [], wire_digest = []\<rparr>, pow_sequence = 0, pow_acceptedAt = [], pow_source = [],
      pow_consequence = [], pow_targetCount = 0, pow_causation = [], pow_correlation = None\<rparr>"

definition dec_delivery :: "json \<Rightarrow> peerDeliveryWire option" where
  "dec_delivery j =
     do { kvs \<leftarrow> dec_struct [''schema_version'', ''delivery_id'', ''origin'', ''target_alias'', ''kind'', ''payload'',
                  ''artifacts'', ''in_reply_to_delivery_id'', ''causal_depth'', ''expires_at''] j;
          v \<leftarrow> field 0 (dec_uint 63) ''schema_version'' kvs;
          i \<leftarrow> field [] dec_string ''delivery_id'' kvs;
          or \<leftarrow> field zeroOriginWire dec_origin ''origin'' kvs;
          a \<leftarrow> field [] dec_string ''target_alias'' kvs;
          k \<leftarrow> field [] dec_string ''kind'' kvs;
          p \<leftarrow> field [] dec_string ''payload'' kvs;
          as \<leftarrow> field [] (dec_list dec_string) ''artifacts'' kvs;
          r \<leftarrow> field [] dec_string ''in_reply_to_delivery_id'' kvs;
          d \<leftarrow> field 0 dec_uint16 ''causal_depth'' kvs;
          t \<leftarrow> field [] dec_string ''expires_at'' kvs;
          Some \<lparr>pw_version = v, pw_id = i, pw_origin = or, pw_targetAlias = a, pw_kind = k, pw_payload = p,
                pw_artifacts = as, pw_inReplyTo = r, pw_depth = d, pw_expiresAt = t\<rparr> }"

definition parsePeerEventRef :: "string \<Rightarrow> eventRefWire \<Rightarrow> EventRef result" where
  "parsePeerEventRef fld wire =
     (case parseEventRef wire of Inl e \<Rightarrow> Inl (ErrWrapped fld e) | Inr r \<Rightarrow> Inr r)"

definition parsePeerEventRefs :: "string \<Rightarrow> eventRefWire list \<Rightarrow> EventRef list result" where
  "parsePeerEventRefs fld wires = mapE (parsePeerEventRef fld) wires"

definition parsePeerOptionalEventRef :: "string \<Rightarrow> eventRefWire option \<Rightarrow> EventRef result" where
  "parsePeerOptionalEventRef fld wire = (case wire of None \<Rightarrow> Inr zeroEventRef | Some w \<Rightarrow> parsePeerEventRef fld w)"

definition parsePeerDigests :: "string list \<Rightarrow> Digest list result" where
  "parsePeerDigests values = mapE ParseDigest values"

definition peerDeliveryFromWire :: "peerDeliveryWire \<Rightarrow> RouteID \<Rightarrow> PeerDelivery result" where
  "peerDeliveryFromWire wire enrolledRoute =
     (let origin = pw_origin wire
      in if pw_version wire \<noteq> 3 then Inl (ErrInvalid ''PeerDelivery schema version'' ''must be 3'')
      else
        bindE (ParseDeliveryID (pw_id wire)) (\<lambda>encodedID.
        bindE (parsePeerEventRef ''PeerDelivery origin Event'' (pow_event origin)) (\<lambda>originEvent.
        bindE (parseCanonicalTime ''PeerDelivery origin accepted time'' (pow_acceptedAt origin)) (\<lambda>originAcceptedAt.
        bindE (NewAgentPrincipalID (pow_source origin)) (\<lambda>originSource.
        bindE (parseConsequence (pow_consequence origin)) (\<lambda>originConsequence.
        bindE (parsePeerEventRefs ''PeerDelivery origin causation'' (pow_causation origin)) (\<lambda>causation.
        bindE (parsePeerOptionalEventRef ''PeerDelivery origin correlation'' (pow_correlation origin)) (\<lambda>correlation.
        bindE (if pw_inReplyTo wire \<noteq> [] then ParseDeliveryID (pw_inReplyTo wire) else Inr zeroDigest) (\<lambda>inReplyTo.
        bindE (NewOpaqueHandle (pw_targetAlias wire)) (\<lambda>target.
        bindE (NewSemanticLabel (pw_kind wire)) (\<lambda>label.
        bindE (NewSemanticPayload (pw_payload wire)) (\<lambda>text.
        bindE (parsePeerDigests (pw_artifacts wire)) (\<lambda>artifacts.
        bindE (parseCanonicalTime ''PeerDelivery expiry'' (pw_expiresAt wire)) (\<lambda>expiresAt.
        bindE (NewPeerDelivery enrolledRoute
                \<lparr>pd_originEvent = originEvent, pd_originSequence = pow_sequence origin,
                 pd_originAcceptedAt = originAcceptedAt, pd_originSource = originSource,
                 pd_originConsequence = originConsequence, pd_originTargetCount = pow_targetCount origin,
                 pd_originCausation = causation, pd_originCorrelation = correlation, pd_inReplyTo = inReplyTo,
                 pd_targetAlias = target, pd_kind = label, pd_payload = text, pd_artifacts = artifacts,
                 pd_depth = pw_depth wire, pd_expiresAt = expiresAt\<rparr>) (\<lambda>delivery.
        if pd_id delivery \<noteq> encodedID
        then Inl (ErrInvariant ''PeerDelivery ID'' ''does not match authenticated route and envelope identity'')
        else Inr delivery)))))))))))))))"

definition ParsePeerDeliveryCanonicalJSON :: "bytes \<Rightarrow> RouteID \<Rightarrow> PeerDelivery result" where
  "ParsePeerDeliveryCanonicalJSON data enrolledRoute =
     (if enrolledRoute = [] then Inl (ErrInvalid ''PeerDelivery route context'' ''enrolled route is required'')
      else
        bindE (decodeCanonicalObject enc_delivery dec_delivery ''PeerDelivery JSON'' data MaxPeerDeliveryCanonicalBytes) (\<lambda>wire.
        bindE (peerDeliveryFromWire wire enrolledRoute) (\<lambda>delivery.
          case requireReconstructedCanonical ''PeerDelivery JSON'' data (pd_canonical delivery) of
            Some x \<Rightarrow> Inl x
          | None \<Rightarrow> Inr delivery)))"

text \<open>\<^verbatim>\<open>ParsedPeerDelivery.valid\<close>.\<close>

definition parsedValid :: "PeerDelivery \<Rightarrow> bool" where
  "parsedValid d \<longleftrightarrow> pd_id d \<noteq> zeroDigest \<and> pd_envelope d \<noteq> zeroDigest \<and> 0 < length (pd_canonical d) \<and>
     pd_canonical d = fst (canonicalJSON (enc_delivery (deliveryWire d))) \<and>
     pd_envelope d = domainSeparatedDigest peerDeliveryEnvelopeDomain (pd_canonical d)"

section \<open>The encoding\<close>

lemma dec_uint8_JNat [json_simps]: "dec_uint8 (JNat (unat w)) = Some w"
proof -
  have "unat w < 2 ^ 8" using unsigned_less [where 'a = nat, of w] by simp
  then show ?thesis by (simp add: dec_uint8_def dec_uint_JNat)
qed

lemma dec_enc_origin [json_simps]: "dec_origin (enc_origin w) = Some w"
  by (cases w; cases "pow_correlation w") (simp_all add: dec_origin_def enc_origin_def json_simps image_Un)

lemma dec_enc_delivery: "pw_version w < 2 ^ 63 \<Longrightarrow> dec_delivery (enc_delivery w) = Some w"
  by (cases w) (simp add: dec_delivery_def enc_delivery_def json_simps image_Un dec_enc_strings)

lemma unique_enc_delivery: "unique_keys (enc_delivery w)"
  by (simp add: enc_delivery_def enc_origin_def enc_strings_def keys_simps)

interpretation delivery_codec: canonical_codec enc_delivery dec_delivery "\<lambda>w. pw_version w < 2 ^ 63"
  by unfold_locales (rule dec_enc_delivery, assumption, rule unique_enc_delivery)

text \<open>The parts of a delivery went through their constructors.\<close>

definition delivery_typed :: "('a) PeerDeliverySpec_scheme \<Rightarrow> bool" where
  "delivery_typed d \<longleftrightarrow> ref_ok (pd_originEvent d) \<and> handle_ok (pd_originSource d) \<and> (\<forall>r \<in> set (pd_originCausation d). ref_ok r) \<and>
     (pd_originCorrelation d = zeroEventRef \<or> ref_ok (pd_originCorrelation d)) \<and> length (pd_inReplyTo d) = 32 \<and>
     handle_ok (pd_targetAlias d) \<and> label_ok (pd_kind d) \<and> payload_ok (pd_payload d) \<and> (\<forall>a \<in> set (pd_artifacts d). digest_ok a)"

lemma NewPeerDelivery_Inr:
  "NewPeerDelivery route spec = Inr d \<longleftrightarrow> route \<noteq> [] \<and> validatePeerDeliveryRequiredShape spec = None \<and> pd_depth spec \<le> MaxPeerCausalDepth \<and>
     time_ok (pd_originAcceptedAt spec) \<and> time_ok (pd_expiresAt spec) \<and> pd_originAcceptedAt spec < pd_expiresAt spec \<and>
     pd_expiresAt spec - pd_originAcceptedAt spec \<le> MaxPeerDeliveryTTL \<and>
     (\<exists>cs as i. normalizePeerCausation (pd_originEvent spec) (pd_originCausation spec) (pd_originCorrelation spec) = Inr cs \<and>
        normalizePeerArtifacts (pd_artifacts spec) = Inr as \<and> deriveDeliveryID route (pd_originEvent spec) (pd_targetAlias spec) = Inr i \<and>
        length (Marshal (enc_delivery (deliveryWire (deliveryOf spec i cs as)))) \<le> MaxPeerDeliveryCanonicalBytes \<and>
        d = (deliveryOf spec i cs as)\<lparr>pd_canonical := Marshal (enc_delivery (deliveryWire (deliveryOf spec i cs as))),
              pd_envelope := domainSeparatedDigest peerDeliveryEnvelopeDomain (Marshal (enc_delivery (deliveryWire (deliveryOf spec i cs as))))\<rparr>)"
proof -
  have same: "(deliveryOf spec i cs as)\<lparr>pd_originAcceptedAt := pd_originAcceptedAt spec, pd_expiresAt := pd_expiresAt spec\<rparr> =
      deliveryOf spec i cs as" for i cs as
    by (simp add: deliveryOf_def)
  show ?thesis
    by (auto simp: NewPeerDelivery_def bindE_Inr canonicalTime_Inr Let_def same not_less split: if_splits option.splits)
qed

lemma sort_key_idem: "sort_key f (sort_key f xs) = sort_key f xs"
  by (rule sort_key_id_if_sorted) simp

lemma normalize_idem:
  "normalizePeerCausation o' values co = Inr cs \<Longrightarrow> normalizePeerCausation o' cs co = Inr cs"
  "normalizePeerArtifacts ds = Inr as \<Longrightarrow> normalizePeerArtifacts as = Inr as"
  by (auto simp: normalizePeerCausation_def normalizePeerArtifacts_def sortDigests_def Let_def sort_key_idem split: if_splits)

lemma normalize_set:
  "normalizePeerCausation o' values co = Inr cs \<Longrightarrow> set cs = set values"
  "normalizePeerArtifacts ds = Inr as \<Longrightarrow> set as = set ds"
  by (auto simp: normalizePeerCausation_def normalizePeerArtifacts_def sortDigests_def Let_def split: if_splits)

lemma deliveryWire_update [simp]:
  "deliveryWire (d\<lparr>pd_canonical := c, pd_envelope := e\<rparr>) = deliveryWire d"
  by (simp add: deliveryWire_def)

text \<open>What was made is a specification of itself.\<close>

lemma NewPeerDelivery_again:
  assumes "NewPeerDelivery route spec = Inr d"
  shows "NewPeerDelivery route (PeerDeliverySpec.truncate d) = Inr d"
proof -
  obtain cs as i where n: "normalizePeerCausation (pd_originEvent spec) (pd_originCausation spec) (pd_originCorrelation spec) = Inr cs"
      "normalizePeerArtifacts (pd_artifacts spec) = Inr as" "deriveDeliveryID route (pd_originEvent spec) (pd_targetAlias spec) = Inr i"
    and fits: "length (Marshal (enc_delivery (deliveryWire (deliveryOf spec i cs as)))) \<le> MaxPeerDeliveryCanonicalBytes"
    and d: "d = (deliveryOf spec i cs as)\<lparr>pd_canonical := Marshal (enc_delivery (deliveryWire (deliveryOf spec i cs as))),
              pd_envelope := domainSeparatedDigest peerDeliveryEnvelopeDomain (Marshal (enc_delivery (deliveryWire (deliveryOf spec i cs as))))\<rparr>"
    using assms unfolding NewPeerDelivery_Inr by blast
  have "deliveryOf (PeerDeliverySpec.truncate d) i cs as = deliveryOf spec i cs as"
    by (simp add: d deliveryOf_def PeerDeliverySpec.defs)
  moreover have "validatePeerDeliveryRequiredShape (PeerDeliverySpec.truncate d) = validatePeerDeliveryRequiredShape spec"
    by (simp add: d deliveryOf_def PeerDeliverySpec.defs validatePeerDeliveryRequiredShape_def)
  ultimately show ?thesis
    using assms normalize_idem(1) [OF n(1)] normalize_idem(2) [OF n(2)] n(3) fits d unfolding NewPeerDelivery_Inr
    by (intro conjI exI [of _ cs] exI [of _ as] exI [of _ i]) (simp_all add: deliveryOf_def PeerDeliverySpec.defs)
qed

lemma json_ok_delivery:
  assumes "delivery_typed d" "length (pd_id d) = 32"
  shows "json_ok (enc_delivery (deliveryWire d))"
proof -
  have ref: "json_ok (enc_eventRef (refWire r))" if "ref_ok r" for r by (rule json_ok_eventRef [OF that])
  have "json_ok (enc_origin (pw_origin (deliveryWire d)))"
    using assms(1) by (auto simp: enc_origin_def deliveryWire_def delivery_typed_def json_simps ref consequenceString_plain dest: token_ok_valid)
  moreover have "ValidString (pd_targetAlias d)" "ValidString (pd_kind d)" "ValidString (pd_payload d)"
    using assms(1) by (auto simp: delivery_typed_def payload_ok_def dest: token_ok_valid)
  ultimately show ?thesis by (auto simp: enc_delivery_def json_simps) (auto simp: deliveryWire_def enc_strings_def json_simps)
qed

subsection \<open>Its length\<close>

lemma size_origin:
  assumes "delivery_typed d" "length (pd_originCausation d) \<le> MaxCausationHandles"
  shows "length (Marshal (enc_origin (pw_origin (deliveryWire d)))) \<le> 6000"
proof -
  let ?o = "pw_origin (deliveryWire d)"
  have src: "length (escape (pd_originSource d)) \<le> 192" "length (Marshal (enc_eventRef (refWire (pd_originEvent d)))) \<le> 285"
    using assms(1) by (auto simp: delivery_typed_def token_length size_ref)
  have con: "length (escape (consequenceString (pd_originConsequence d))) \<le> 28"
    by (cases "pd_originConsequence d") (simp_all add: esc_ascii_def)
  have "length (Marshal (JArr (map enc_eventRef (map refWire (pd_originCausation d))))) \<le> 2 + 16 * (285 + 1)"
    by (rule length_Marshal_JArr) (use assms size_ref in \<open>auto simp: delivery_typed_def MaxCausationHandles_def\<close>)
  then have 1: "members_bound (omitempty ''causation'' (pow_causation ?o \<noteq> []) (JArr (map enc_eventRef (pow_causation ?o))))
      \<le> length (escape ''causation'') + 4578 + 4"
    by (intro members_omit) (simp add: deliveryWire_def)
  have 2: "members_bound (omitempty ''correlation'' (pow_correlation ?o \<noteq> None) (enc_eventRef (the (pow_correlation ?o))))
      \<le> length (escape ''correlation'') + 285 + 4"
    by (rule members_omit) (use assms size_ref [of "pd_originCorrelation d"] in \<open>auto simp: delivery_typed_def deliveryWire_def split: if_splits\<close>)
  have 3: "length (Marshal (JNat (unat (pd_originTargetCount d)))) \<le> 20"
  proof -
    have "unat (pd_originTargetCount d) < 10 ^ 20" using unsigned_less [where 'a = nat, of "pd_originTargetCount d"] by simp
    then show ?thesis by (simp add: JNat_def length_decimal)
  qed
  show ?thesis
    unfolding enc_origin_def
    by (rule order_trans [OF length_Marshal_JObj],
        use 1 2 3 src con length_RFC3339Nano_escape [of "pd_originAcceptedAt d"] length_Marshal_word(1) [of "pd_originSequence d"] in
        \<open>simp add: members_bound_simps esc_ascii_def\<close>) (simp add: deliveryWire_def)
qed

text \<open>No delivery of well-formed parts exceeds its bound.\<close>

lemma delivery_fits:
  assumes "delivery_typed d" "length (pd_originCausation d) \<le> MaxCausationHandles" "length (pd_artifacts d) \<le> MaxArtifactInputs"
    "length (pd_id d) = 32"
  shows "length (Marshal (enc_delivery (deliveryWire d))) \<le> MaxPeerDeliveryCanonicalBytes"
proof -
  have tok: "length (escape (pd_kind d)) \<le> 96" "length (escape (pd_payload d)) \<le> 4096" "length (escape (pd_targetAlias d)) \<le> 192"
    "length (escape (deliveryString (pd_id d))) \<le> 73"
    using assms by (auto simp: delivery_typed_def token_length payload_ok_def MaxSemanticPayloadBytes_def digest_length)
  have "length (Marshal (JArr (map JStr (map digestString (pd_artifacts d))))) \<le> 2 + 8 * (73 + 1)"
    by (rule length_Marshal_JArr) (use assms in \<open>auto simp: delivery_typed_def digest_ok_def digest_length MaxArtifactInputs_def\<close>)
  then have 1: "members_bound (omitempty ''artifacts'' (map digestString (pd_artifacts d) \<noteq> []) (enc_strings (map digestString (pd_artifacts d))))
      \<le> length (escape ''artifacts'') + 594 + 4"
    by (intro members_omit) (simp add: enc_strings_def)
  have 2: "members_bound (omitempty ''in_reply_to_delivery_id'' (pw_inReplyTo (deliveryWire d) \<noteq> []) (JStr (pw_inReplyTo (deliveryWire d))))
      \<le> length (escape ''in_reply_to_delivery_id'') + 75 + 4"
    by (rule members_omit) (use assms in \<open>auto simp: delivery_typed_def deliveryWire_def digest_length split: if_splits\<close>)
  have v: "length (Marshal (JNat 3)) = 1" by (simp add: JNat_def decimal.simps)
  show ?thesis
    unfolding enc_delivery_def MaxPeerDeliveryCanonicalBytes_def
    by (rule order_trans [OF length_Marshal_JObj],
        use 1 2 v tok size_origin [OF assms(1,2)] length_RFC3339Nano_escape [of "pd_expiresAt d"] length_Marshal_word(2) [of "pd_depth d"] in
        \<open>simp add: members_bound_simps esc_ascii_def del: map_map\<close>) (simp add: deliveryWire_def)
qed

section \<open>The properties of deliveries\<close>

lemma parsePeerEventRef_ok: "ref_ok r \<Longrightarrow> parsePeerEventRef f (refWire r) = Inr r"
  unfolding parsePeerEventRef_def by (rule parse_causation1)

lemma peerDeliveryFromWire_wire:
  assumes "delivery_typed d" "digest_ok (pd_id d)" "NewPeerDelivery route (PeerDeliverySpec.truncate d) = Inr d"
  shows "peerDeliveryFromWire (deliveryWire d) route = Inr d"
proof -
  have times: "time_ok (pd_originAcceptedAt d)" "time_ok (pd_expiresAt d)" "pd_originConsequence d \<noteq> ConsequenceInvalid"
    using assms(3) by (auto simp: NewPeerDelivery_Inr PeerDeliverySpec.defs validatePeerDeliveryRequiredShape_def
        consequence_defs closedConsequences_def split: if_splits)
  have new: "NewAgentPrincipalID (pd_originSource d) = Inr (pd_originSource d)" "NewOpaqueHandle (pd_targetAlias d) = Inr (pd_targetAlias d)"
    "NewSemanticLabel (pd_kind d) = Inr (pd_kind d)" "NewSemanticPayload (pd_payload d) = Inr (pd_payload d)"
    "parseConsequence (consequenceString (pd_originConsequence d)) = Inr (pd_originConsequence d)"
    "ParseDeliveryID (deliveryString (pd_id d)) = Inr (pd_id d)"
    using assms(1,2) times(3) by (simp_all add: delivery_typed_def constructor_Inr parseConsequence_Inr ParseDeliveryID_Inr)
  have caus: "parsePeerEventRefs f (map refWire (pd_originCausation d)) = Inr (pd_originCausation d)" for f
    unfolding parsePeerEventRefs_def using assms(1) by (intro mapE_map) (simp add: delivery_typed_def parsePeerEventRef_ok)
  have arts: "parsePeerDigests (map digestString (pd_artifacts d)) = Inr (pd_artifacts d)"
    unfolding parsePeerDigests_def using assms(1) by (intro mapE_map) (simp add: delivery_typed_def ParseDigest_Inr)
  have cor: "parsePeerOptionalEventRef f (if refIsZero (pd_originCorrelation d) then None else Some (refWire (pd_originCorrelation d))) =
      Inr (pd_originCorrelation d)" for f
    using assms(1) ref_ok_nonzero [of "pd_originCorrelation d"]
    by (auto simp: delivery_typed_def parsePeerOptionalEventRef_def parsePeerEventRef_ok)
  have rep: "(if (if pd_inReplyTo d = zeroDigest then [] else deliveryString (pd_inReplyTo d)) \<noteq> []
      then ParseDeliveryID (if pd_inReplyTo d = zeroDigest then [] else deliveryString (pd_inReplyTo d)) else Inr zeroDigest) = Inr (pd_inReplyTo d)"
    using assms(1) by (simp add: ParseDeliveryID_Inr digest_ok_def delivery_typed_def)
  have origin: "parsePeerEventRef f (refWire (pd_originEvent d)) = Inr (pd_originEvent d)" for f
    using assms(1) by (simp add: delivery_typed_def parsePeerEventRef_ok)
  show ?thesis
    unfolding peerDeliveryFromWire_def deliveryWire_def Let_def peerDeliveryWire.simps peerDeliveryOriginWire.simps
      rep new origin caus cor arts parseCanonicalTime_ok [OF times(1)] parseCanonicalTime_ok [OF times(2)]
    using assms(3) by (simp add: PeerDeliverySpec.defs)
qed

text \<open>A delivery made from well-formed parts is read back, unless its identity is the zero digest.\<close>

lemma delivery_read_back:
  assumes "NewPeerDelivery route spec = Inr d" "delivery_typed spec"
  shows "ParsePeerDeliveryCanonicalJSON (pd_canonical d) route =
    (if pd_id d = zeroDigest then Inl (ErrInvalid ''DeliveryID'' ''must use 64 lowercase hexadecimal characters'') else Inr d)"
proof -
  obtain cs as i where n: "normalizePeerCausation (pd_originEvent spec) (pd_originCausation spec) (pd_originCorrelation spec) = Inr cs"
      "normalizePeerArtifacts (pd_artifacts spec) = Inr as" "deriveDeliveryID route (pd_originEvent spec) (pd_targetAlias spec) = Inr i"
    and fits: "length (Marshal (enc_delivery (deliveryWire (deliveryOf spec i cs as)))) \<le> MaxPeerDeliveryCanonicalBytes"
    and d: "d = (deliveryOf spec i cs as)\<lparr>pd_canonical := Marshal (enc_delivery (deliveryWire (deliveryOf spec i cs as))),
              pd_envelope := domainSeparatedDigest peerDeliveryEnvelopeDomain (Marshal (enc_delivery (deliveryWire (deliveryOf spec i cs as))))\<rparr>"
    and route: "route \<noteq> []"
    using assms(1) unfolding NewPeerDelivery_Inr by blast
  have i: "length i = 32" using n(3) by (auto simp: deriveDeliveryID_def domainSeparatedDigest_def split: if_splits)
  have typed: "delivery_typed d" "pd_id d = i"
    using assms(2) normalize_set(1) [OF n(1)] normalize_set(2) [OF n(2)] by (simp_all add: d deliveryOf_def delivery_typed_def)
  have wire: "deliveryWire d = deliveryWire (deliveryOf spec i cs as)" "pd_canonical d = Marshal (enc_delivery (deliveryWire d))"
    by (simp_all add: d)
  have decode: "decodeCanonicalObject enc_delivery dec_delivery ''PeerDelivery JSON'' (pd_canonical d) MaxPeerDeliveryCanonicalBytes
      = Inr (deliveryWire d)"
    unfolding wire(2) using json_ok_delivery [OF typed(1)] i typed(2) fits
    by (intro delivery_codec.decode_encode) (simp_all add: wire(1), simp add: deliveryWire_def)
  show ?thesis
  proof (cases "i = zeroDigest")
    case True
    have "ParseDeliveryID (deliveryString zeroDigest) = Inl (ErrInvalid ''DeliveryID'' ''must use 64 lowercase hexadecimal characters'')"
      by code_simp
    then have "peerDeliveryFromWire (deliveryWire d) route = Inl (ErrInvalid ''DeliveryID'' ''must use 64 lowercase hexadecimal characters'')"
      by (simp add: peerDeliveryFromWire_def deliveryWire_def typed(2) True)
    then show ?thesis using route by (simp add: ParsePeerDeliveryCanonicalJSON_def decode typed(2) True)
  next
    case False
    then have "peerDeliveryFromWire (deliveryWire d) route = Inr d"
      using typed i NewPeerDelivery_again [OF assms(1)] by (intro peerDeliveryFromWire_wire) (simp_all add: digest_ok_def)
    then show ?thesis
      using route False typed(2) by (simp add: ParsePeerDeliveryCanonicalJSON_def decode requireReconstructedCanonical_def)
  qed
qed

lemma NewPeerDelivery_typed: "NewPeerDelivery route spec = Inr d \<Longrightarrow> delivery_typed spec \<Longrightarrow> delivery_typed d"
  by (auto simp: NewPeerDelivery_Inr delivery_typed_def deliveryOf_def dest!: normalize_set)

lemma parsePeerEventRef_Inr: "parsePeerEventRef f w = Inr r \<longleftrightarrow> w = refWire r \<and> ref_ok r"
proof (cases "parseEventRef w")
  case (Inl e)
  then show ?thesis using parseEventRef_Inr [of w r] by (auto simp: parsePeerEventRef_def)
next
  case (Inr q)
  then show ?thesis using parseEventRef_Inr [of w r] by (auto simp: parsePeerEventRef_def)
qed

lemma parsed_typed:
  assumes "peerDeliveryFromWire w route = Inr d"
  shows "\<exists>spec :: PeerDeliverySpec. NewPeerDelivery route spec = Inr d \<and> delivery_typed spec"
proof -
  have refs: "r \<in> set rs \<Longrightarrow> ref_ok r" if "mapE (parsePeerEventRef f) ws = Inr rs" for f ws rs r
    using mapE_mem [OF that] by (auto simp: parsePeerEventRef_Inr)
  have digests: "x \<in> set ds \<Longrightarrow> digest_ok x" if "mapE ParseDigest vs = Inr ds" for vs ds x
    using mapE_mem [OF that] by (auto simp: ParseDigest_Inr)
  have optional: "parsePeerOptionalEventRef f ow = Inr r \<Longrightarrow> r = zeroEventRef \<or> ref_ok r" for f ow r
    by (auto simp: parsePeerOptionalEventRef_def parsePeerEventRef_Inr split: option.splits)
  have reply: "(if v \<noteq> [] then ParseDeliveryID v else Inr zeroDigest) = Inr i \<Longrightarrow> length i = 32" for v i
    by (auto simp: ParseDeliveryID_Inr digest_ok_def zeroDigest_def split: if_splits)
  obtain e t p c cs co r a k x as u where ps: "parsePeerEventRef ''PeerDelivery origin Event'' (pow_event (pw_origin w)) = Inr e"
    "NewAgentPrincipalID (pow_source (pw_origin w)) = Inr p"
    "parsePeerEventRefs ''PeerDelivery origin causation'' (pow_causation (pw_origin w)) = Inr cs"
    "parsePeerOptionalEventRef ''PeerDelivery origin correlation'' (pow_correlation (pw_origin w)) = Inr co"
    "(if pw_inReplyTo w \<noteq> [] then ParseDeliveryID (pw_inReplyTo w) else Inr zeroDigest) = Inr r"
    "NewOpaqueHandle (pw_targetAlias w) = Inr a" "NewSemanticLabel (pw_kind w) = Inr k" "NewSemanticPayload (pw_payload w) = Inr x"
    "parsePeerDigests (pw_artifacts w) = Inr as"
    and new: "NewPeerDelivery route \<lparr>pd_originEvent = e, pd_originSequence = pow_sequence (pw_origin w), pd_originAcceptedAt = t,
       pd_originSource = p, pd_originConsequence = c, pd_originTargetCount = pow_targetCount (pw_origin w),
       pd_originCausation = cs, pd_originCorrelation = co, pd_inReplyTo = r, pd_targetAlias = a, pd_kind = k, pd_payload = x,
       pd_artifacts = as, pd_depth = pw_depth w, pd_expiresAt = u\<rparr> = Inr d" (is "NewPeerDelivery route ?spec = _")
    using assms unfolding peerDeliveryFromWire_def Let_def guards by blast
  have "ref_ok e" "handle_ok p" "handle_ok a" "label_ok k" "payload_ok x" "length r = 32"
    using ps(1,2,6-8) reply [OF ps(5)] by (simp_all add: parsePeerEventRef_Inr constructor_Inr)
  moreover have "\<forall>q \<in> set cs. ref_ok q" "\<forall>q \<in> set as. digest_ok q" "co = zeroEventRef \<or> ref_ok co"
    using refs ps(3) digests ps(9) optional [OF ps(4)] by (auto simp: parsePeerEventRefs_def parsePeerDigests_def)
  ultimately have "delivery_typed ?spec" by (simp add: delivery_typed_def)
  with new show ?thesis by blast
qed

lemma delivery_exact:
  "ParsePeerDeliveryCanonicalJSON data route = Inr d \<longleftrightarrow>
     NewPeerDelivery route (PeerDeliverySpec.truncate d) = Inr d \<and> delivery_typed d \<and> pd_id d \<noteq> zeroDigest \<and> data = pd_canonical d"
  (is "?parse \<longleftrightarrow> ?made")
proof
  assume ?made
  then have "delivery_typed (PeerDeliverySpec.truncate d)" by (simp add: delivery_typed_def PeerDeliverySpec.defs)
  then show ?parse using \<open>?made\<close> delivery_read_back [of route "PeerDeliverySpec.truncate d" d] by simp
next
  assume ?parse
  then obtain w where w: "peerDeliveryFromWire w route = Inr d" "data = pd_canonical d"
    by (auto simp: ParsePeerDeliveryCanonicalJSON_def bindE_Inr requireReconstructedCanonical_def split: if_splits)
  obtain spec :: PeerDeliverySpec where spec: "NewPeerDelivery route spec = Inr d" "delivery_typed spec" using parsed_typed [OF w(1)] by blast
  have "pd_id d \<noteq> zeroDigest" using delivery_read_back [OF spec] \<open>?parse\<close> w(2) by (auto split: if_splits)
  then show ?made using NewPeerDelivery_again [OF spec(1)] NewPeerDelivery_typed [OF spec] w(2) by simp
qed

text \<open>
  (C24) The reader of deliveries is exact. Bytes are accepted under a route, as a delivery, exactly when the delivery
  is one the constructor makes under that very route - so its identity is the one derived from the route, the
  origin Event and the target, it lives for a positive time of at most a day, and it is at most thirty-two hops
  deep - its parts are well formed, its identity is not the zero digest, and the bytes are its canonical encoding.
\<close>

theorem delivery_reader_exact:
  "ParsePeerDeliveryCanonicalJSON data route = Inr d \<longleftrightarrow>
     NewPeerDelivery route (PeerDeliverySpec.truncate d) = Inr d \<and> delivery_typed d \<and> pd_id d \<noteq> zeroDigest \<and> data = pd_canonical d"
  by (rule delivery_exact)

end
