(* ===== verification/Agency_Peer_Event.thy ===== *)
theory Agency_Peer_Event
  imports Agency_Delivery
begin

text \<open>
  Events of peers (\<^verbatim>\<open>internal/agency/verified_peer_delivery.go\<close>, \<^verbatim>\<open>peer_event.go\<close>): a delivery with the evidence
  that its Artifacts were read and matched, and the local Event that is made of it once the authority has
  decided its effect.
\<close>

section \<open>Verified deliveries\<close>

definition MaxPeerArtifactBytes :: int where "MaxPeerArtifactBytes = 4 * 1024 * 1024"

record VerifiedPeerArtifact =
  vp_digest :: Digest
  vp_size :: int
  vp_verifiedAt :: instant

definition NewVerifiedPeerArtifact :: "Digest \<Rightarrow> int \<Rightarrow> instant \<Rightarrow> VerifiedPeerArtifact result" where
  "NewVerifiedPeerArtifact digest byteSize verifiedAt =
     (if digest = zeroDigest \<or> byteSize < 0 \<or> MaxPeerArtifactBytes < byteSize
      then Inl (ErrInvalid ''verified peer Artifact'' ''nonzero digest and bounded byte size are required'')
      else
        bindE (canonicalTime ''verified peer Artifact time'' verifiedAt) (\<lambda>canonicalVerifiedAt.
        Inr \<lparr>vp_digest = digest, vp_size = byteSize, vp_verifiedAt = canonicalVerifiedAt\<rparr>))"

record VerifiedPeerDelivery =
  vd_delivery :: PeerDelivery
  vd_source :: AgentPrincipalID
  vd_target :: AgentPrincipalID
  vd_artifacts :: "VerifiedPeerArtifact list"

text \<open>The loop over the sorted Artifacts and the digests they must have; \<open>previous\<close> is the digest before.\<close>

fun matchPeerArtifacts :: "Digest option \<Rightarrow> VerifiedPeerArtifact list \<Rightarrow> Digest list \<Rightarrow> agencyError option" where
  "matchPeerArtifacts previous [] required = None"
| "matchPeerArtifacts previous (a # rest) required =
     (if vp_digest a = zeroDigest \<or> vp_size a < 0 \<or> MaxPeerArtifactBytes < vp_size a \<or> vp_verifiedAt a = zeroTime
      then Some (ErrInvalid ''VerifiedPeerDelivery Artifacts'' ''contains incomplete verification metadata'')
      else if previous = Some (vp_digest a)
      then Some (ErrInvalid ''VerifiedPeerDelivery Artifacts'' ''contains a duplicate digest'')
      else case required of
        [] \<Rightarrow> None
      | d # ds \<Rightarrow>
          if vp_digest a \<noteq> d
          then Some (ErrInvariant ''VerifiedPeerDelivery Artifacts'' ''verified set must exactly match delivery refs'')
          else matchPeerArtifacts (Some (vp_digest a)) rest ds)"

definition requireCompletePeerArtifacts :: "Digest list \<Rightarrow> VerifiedPeerArtifact list \<Rightarrow> VerifiedPeerArtifact list result" where
  "requireCompletePeerArtifacts required given =
     (if length given \<noteq> length required
      then Inl (ErrInvariant ''VerifiedPeerDelivery Artifacts'' ''verified set must exactly match delivery refs'')
      else
        let result = sort_key (\<lambda>a. digestString (vp_digest a)) given
        in case matchPeerArtifacts None result required of Some e \<Rightarrow> Inl e | None \<Rightarrow> Inr result)"

definition NewVerifiedPeerDelivery ::
  "PeerDelivery \<Rightarrow> AgentPrincipalID \<Rightarrow> AgentPrincipalID \<Rightarrow> VerifiedPeerArtifact list \<Rightarrow> VerifiedPeerDelivery result" where
  "NewVerifiedPeerDelivery parsed localSource localTarget given =
     (if \<not> parsedValid parsed \<or> localSource = [] \<or> localTarget = []
      then Inl (ErrInvalid ''VerifiedPeerDelivery'' ''parsed delivery and machine-resolved local source and target are required'')
      else
        bindE (requireCompletePeerArtifacts (pd_artifacts parsed) given) (\<lambda>verified.
        if RequiresTerminalReplyMatch parsed \<and> pd_originConsequence parsed = ConsequenceResolveCompleted \<and> length verified = 0
        then Inl (ErrInvariant ''VerifiedPeerDelivery completed reply'' ''requires a verified Artifact'')
        else Inr \<lparr>vd_delivery = parsed, vd_source = localSource, vd_target = localTarget, vd_artifacts = verified\<rparr>))"

section \<open>The local Event\<close>

definition peerEventInputs :: "VerifiedPeerDelivery \<Rightarrow> (PeerDelivery \<times> Digest list) result" where
  "peerEventInputs verified =
     (let delivery = vd_delivery verified
      in if vd_source verified = [] \<or> vd_target verified = [] \<or> \<not> parsedValid delivery
         then Inl (ErrInvalid ''peer Event'' ''complete verified Delivery authority is required'')
         else
           bindE (requireCompletePeerArtifacts (pd_artifacts delivery) (vd_artifacts verified)) (\<lambda>verifiedArtifacts.
           Inr (delivery, map vp_digest verifiedArtifacts)))"

definition validateDecidedPeerEffect :: "PeerDelivery \<Rightarrow> AgentPrincipalID \<Rightarrow> Consequence \<Rightarrow> ResolvedTarget list \<Rightarrow> agencyError option" where
  "validateDecidedPeerEffect delivery localTarget c targets =
     (if c \<notin> {ConsequenceCreateHandlings, ConsequenceObserveCompleted, ConsequenceObserveDeclined, ConsequenceObserveUnresolved}
      then Some (ErrInvalid ''peer Event consequence'' ''must be a closed inbound effect'')
      else if 1 < length targets then Some (ErrLimit ''peer Event targets'' (length targets) 1)
      else if list_ex (\<lambda>target. destination target \<noteq> TargetDestinationLocal \<or> localPrincipal target \<noteq> localTarget \<or>
                targetSelf (requested target) \<or> targetAlias (requested target) \<noteq> pd_targetAlias delivery \<or>
                remoteRoute target \<noteq> [] \<or> remoteAlias target \<noteq> []) targets
      then Some (ErrInvariant ''peer Event target'' ''must be the exact receiver-resolved local target'')
      else None)"

definition NewPeerEvent :: "VerifiedPeerDelivery \<Rightarrow> EventStamp \<Rightarrow> Consequence \<Rightarrow> ResolvedTarget list \<Rightarrow> Event result" where
  "NewPeerEvent verified stamp c targets =
     bindE (peerEventInputs verified) (\<lambda>(delivery, digests).
     if st_id stamp = [] \<or> st_sequence stamp = 0
     then Inl (ErrInvalid ''peer Event'' ''machine Event ID and positive local origin sequence are required'')
     else if st_depth stamp \<noteq> pd_depth delivery
     then Inl (ErrInvariant ''peer Event causal depth'' ''must equal the verified Delivery depth'')
     else
       bindE (canonicalTime ''peer Event accepted time'' (st_acceptedAt stamp)) (\<lambda>acceptedAt.
       bindE (NewOperationKey (deliveryString (pd_id delivery))) (\<lambda>operationKey.
       case validateDecidedPeerEffect delivery (vd_target verified) c targets of Some e \<Rightarrow> Inl e | None \<Rightarrow>
         let event =
           \<lparr>e_id = st_id stamp, e_acceptedAt = acceptedAt, e_sequence = st_sequence stamp, e_depth = pd_depth delivery,
            e_source = vd_source verified, e_operationKey = operationKey, e_requestDigest = pd_envelope delivery,
            e_kind = pd_kind delivery, e_payload = pd_payload delivery, e_consequence = c, e_subject = None, e_expected = None,
            e_targets = targets, e_artifacts = digests, e_causation = [pd_originEvent delivery],
            e_correlation = pd_originCorrelation delivery, e_inReplyTo = pd_inReplyTo delivery,
            e_canonical = [], e_digest = zeroDigest\<rparr>
         in case validateParsedEventShape event of Some e \<Rightarrow> Inl e | None \<Rightarrow> sealEvent event)))"

end
