(* ===== verification/Authority_Bind.thy ===== *)
theory Authority_Bind
  imports Agency_Event
begin

text \<open>
  The authority cut (\<^verbatim>\<open>internal/agency/authority/bind.go\<close>): \<^verbatim>\<open>bindIntent\<close> turns the opaque handles of an
  Intent into machine identities, fences, routes and digests, and takes every one of them from the
  sealed View the Agent was shown or from the candidates captured for the operation.

  The results: an Intent is bound to nothing the View did not offer; binding succeeds exactly when
  every handle was offered, and what it builds is well formed, so that the Event of the request can be
  stored and read back; a request that leaves the machine keeps a local Handling open unless it is the
  reply the View asks for.
\<close>

section \<open>Binding\<close>

definition bindInvalid :: "string \<Rightarrow> agencyError" where
  "bindInvalid problem = ErrInvalid ''Intent binding'' problem"

definition bindInvariant :: "string \<Rightarrow> agencyError" where
  "bindInvariant problem = ErrInvariant ''Intent binding'' problem"

definition terminalConsequence :: "Consequence \<Rightarrow> bool" where
  "terminalConsequence value \<longleftrightarrow>
     value = ConsequenceResolveCompleted \<or> value = ConsequenceResolveDeclined \<or>
     value = ConsequenceResolveUnresolved"

definition bindSubjectOrReference ::
  "ViewAuthority \<Rightarrow> AgentIntent \<Rightarrow> (SubjectBinding option \<times> ReferenceExpectation option) result" where
  "bindSubjectOrReference view intent =
     (let c = consequence intent
      in if c = ConsequenceAdvanceHandling \<or> c = ConsequenceResolveCompleted \<or>
            c = ConsequenceResolveDeclined \<or> c = ConsequenceResolveUnresolved
      then case ResolveSubject view (subjectHandling intent) of
             None \<Rightarrow> Inl (bindInvariant ''subject handle was not offered by the View'')
           | Some s \<Rightarrow> Inr (Some s, None)
      else if c = ConsequencePublishReference
      then bindE (ExpectAbsentReference (referenceKey intent)) (\<lambda>expected. Inr (None, Some expected))
      else if c = ConsequenceSupersedeReference \<or> c = ConsequenceRetractReference
      then case ResolveReference view (referenceHead intent) of
             None \<Rightarrow> Inl (bindInvariant ''Reference head was not offered by the View'')
           | Some expected \<Rightarrow> Inr (None, Some expected)
      else Inr (None, None))"

record targetDestination =
  td_kind :: TargetDestination
  td_principal :: AgentPrincipalID
  td_route :: RouteID
  td_alias :: OpaqueHandle

definition targetDestinationOf :: "ResolvedTarget \<Rightarrow> targetDestination" where
  "targetDestinationOf t =
     \<lparr>td_kind = destination t, td_principal = localPrincipal t, td_route = remoteRoute t, td_alias = remoteAlias t\<rparr>"

text \<open>The loop over the requested successors; \<open>seen\<close> holds the destinations met before.\<close>

fun bindTargetsFrom ::
  "ViewAuthority \<Rightarrow> targetDestination set \<Rightarrow> TargetRef list \<Rightarrow> ResolvedTarget list result" where
  "bindTargetsFrom view seen [] = Inr []"
| "bindTargetsFrom view seen (target # rest) =
     (case ResolveTarget view target of
        None \<Rightarrow> Inl (bindInvariant ''successor target was not offered by the View'')
      | Some resolved \<Rightarrow>
          if targetDestinationOf resolved \<in> seen
          then Inl (bindInvariant ''successors resolve to a duplicate destination'')
          else bindE (bindTargetsFrom view (insert (targetDestinationOf resolved) seen) rest)
                 (\<lambda>result. Inr (resolved # result)))"

definition bindTargets :: "ViewAuthority \<Rightarrow> TargetRef list \<Rightarrow> ResolvedTarget list result" where
  "bindTargets view targets = bindTargetsFrom view {} targets"

text \<open>The captured candidates by handle. The map is the list of its values, the last one inserted first.\<close>

definition capturedAt :: "CapturedCandidate list \<Rightarrow> OpaqueHandle \<Rightarrow> CapturedCandidate option" where
  "capturedAt captured h = List.find (\<lambda>c. input_handle (cap_input c) = h) captured"

fun captureCandidates ::
  "OperationKey \<Rightarrow> CapturedCandidate list \<Rightarrow> CapturedCandidate list \<Rightarrow> CapturedCandidate list result" where
  "captureCandidates operation captured [] = Inr captured"
| "captureCandidates operation captured (candidate # rest) =
     (let input = cap_input candidate
      in if cap_operation candidate \<noteq> operation \<or> input_kind input \<noteq> ArtifactInputCandidate \<or>
            input_handle input = [] \<or> cap_digest candidate = zeroDigest
      then Inl (bindInvalid ''candidate capture is incomplete or belongs to another operation'')
      else if capturedAt captured (input_handle input) \<noteq> None
      then Inl (bindInvalid ''candidate captures contain a duplicate handle'')
      else captureCandidates operation (candidate # captured) rest)"

text \<open>The digest of one Artifact input, and whether it used a candidate.\<close>

definition bindArtifactDigest ::
  "ViewAuthority \<Rightarrow> CapturedCandidate list \<Rightarrow> ArtifactInput \<Rightarrow> (Digest \<times> nat) result" where
  "bindArtifactDigest view captured input =
     (case input_kind input of
        ArtifactInputCandidate \<Rightarrow>
          (case capturedAt captured (input_handle input) of
             None \<Rightarrow> Inl (bindInvariant ''Artifact candidate was not captured for this operation'')
           | Some candidate \<Rightarrow>
               if cap_input candidate \<noteq> input
               then Inl (bindInvariant ''Artifact candidate was not captured for this operation'')
               else Inr (cap_digest candidate, 1))
      | ArtifactInputViewHandle \<Rightarrow>
          bindE (ResolveOfferedArtifact view (input_handle input)) (\<lambda>digest. Inr (digest, 0))
      | ArtifactInputInvalid \<Rightarrow> Inl (bindInvalid ''Artifact input kind is invalid''))"

fun bindArtifactInputs ::
  "ViewAuthority \<Rightarrow> CapturedCandidate list \<Rightarrow> nat \<Rightarrow> ArtifactInput list \<Rightarrow> (ResolvedArtifact list \<times> nat) result" where
  "bindArtifactInputs view captured usedCandidates [] = Inr ([], usedCandidates)"
| "bindArtifactInputs view captured usedCandidates (input # rest) =
     bindE (bindArtifactDigest view captured input) (\<lambda>(digest, used).
     bindE (NewResolvedArtifact input digest) (\<lambda>resolved.
     bindE (bindArtifactInputs view captured (usedCandidates + used) rest) (\<lambda>(result, usedCandidates).
       Inr (resolved # result, usedCandidates))))"

definition bindArtifacts ::
  "ViewAuthority \<Rightarrow> ArtifactInput list \<Rightarrow> OperationKey \<Rightarrow> CapturedCandidate list \<Rightarrow> ResolvedArtifact list result" where
  "bindArtifacts view inputs operation candidates =
     bindE (captureCandidates operation [] candidates) (\<lambda>captured.
     bindE (bindArtifactInputs view captured 0 inputs) (\<lambda>(result, usedCandidates).
       if usedCandidates \<noteq> length captured
       then Inl (bindInvariant ''candidate captures contain an unused input'')
       else Inr result))"

definition bindProvenance ::
  "ViewAuthority \<Rightarrow> OpaqueHandle list \<Rightarrow> OpaqueHandle \<Rightarrow> (EventRef list \<times> EventRef) result" where
  "bindProvenance view handles correlation =
     bindE (mapE (\<lambda>h. case ResolveProvenance view h of
                        None \<Rightarrow> Inl (bindInvariant ''causation handle was not offered by the View'')
                      | Some e \<Rightarrow> Inr e) handles) (\<lambda>causation.
     if correlation = [] then Inr (causation, zeroEventRef)
     else case ResolveProvenance view correlation of
            None \<Rightarrow> Inl (bindInvariant ''correlation handle was not offered by the View'')
          | Some event \<Rightarrow> Inr (causation, event))"

definition exactReply :: "ViewAuthority \<Rightarrow> AgentIntent \<Rightarrow> ResolvedTarget list \<Rightarrow> EventRef \<Rightarrow> bool" where
  "exactReply view intent targets correlation =
     (case ReplyContext view of None \<Rightarrow> False | Some (replyTo, replyTarget, delivery) \<Rightarrow>
        if targetIsZero replyTarget \<or> delivery = zeroDigest \<or> length targets \<noteq> 1 \<or>
           \<not> terminalConsequence (consequence intent) \<or> correlationHandle intent \<noteq> replyTo \<or>
           refIsZero correlation \<or> destination (hd targets) \<noteq> TargetDestinationRemote \<or>
           requested (hd targets) \<noteq> replyTarget
        then False
        else ResolveProvenance view replyTo = Some correlation)"

definition requireLocalResponsibility ::
  "ViewAuthority \<Rightarrow> AgentIntent \<Rightarrow> ResolvedTarget list \<Rightarrow> EventRef \<Rightarrow> agencyError option" where
  "requireLocalResponsibility view intent targets correlation =
     (let isRemote = list_ex (\<lambda>t. destination t = TargetDestinationRemote) targets;
          isLocal = list_ex (\<lambda>t. destination t = TargetDestinationLocal) targets;
          c = consequence intent
      in if \<not> isRemote \<or> c = ConsequenceAdvanceHandling \<or> exactReply view intent targets correlation
      then None
      else if (c = ConsequenceCreateHandlings \<or> terminalConsequence c) \<and> \<not> isLocal
      then Some (bindInvariant ''remote request must leave one causal local Handling open'')
      else None)"

definition bindIntent ::
  "ViewAuthority \<Rightarrow> AgentIntent \<Rightarrow> OperationKey \<Rightarrow> CapturedCandidate list \<Rightarrow> BoundIntent result" where
  "bindIntent view intent operation candidates =
     (if operation = [] \<or> length (canonical intent) = 0 \<or> v_digest view = zeroDigest
      then Inl (bindInvalid ''complete Intent, operation, and sealed View are required'')
      else if \<not> Allows view (consequence intent)
      then Inl (bindInvariant ''consequence was not offered by the View'')
      else if consequence intent = ConsequenceCreateHandlings \<and> \<not> mayInitiate (mv_attachment view)
      then Inl (bindInvariant ''Attachment may not initiate root responsibility'')
      else
        bindE (bindSubjectOrReference view intent) (\<lambda>(subject, expectedReference).
        bindE (bindTargets view (successors intent)) (\<lambda>targets.
        bindE (bindArtifacts view (artifacts intent) operation candidates) (\<lambda>artifacts.
        bindE (bindProvenance view (causationHandles intent) (correlationHandle intent)) (\<lambda>(causation, correlation).
        case requireLocalResponsibility view intent targets correlation of Some e \<Rightarrow> Inl e | None \<Rightarrow>
        let replyDelivery = (if exactReply view intent targets correlation
                             then (case ReplyContext view of None \<Rightarrow> zeroDigest | Some (_, _, delivery) \<Rightarrow> delivery)
                             else zeroDigest)
        in NewBoundIntent
             \<lparr>spec_intent = intent, spec_operationKey = operation, spec_attachment = mv_attachment view,
              spec_viewDigest = v_digest view, spec_subject = subject, spec_expected = expectedReference,
              spec_targets = targets, spec_artifacts = artifacts, spec_causation = causation,
              spec_correlation = correlation, spec_inReplyTo = replyDelivery\<rparr>)))))"

section \<open>What each part binds\<close>

lemma bindE_pair: "bindE m (\<lambda>(a, b). f a b) = Inr y \<longleftrightarrow> (\<exists>a b. m = Inr (a, b) \<and> f a b = Inr y)"
  by (auto simp: bindE_Inr)

lemma bindTargetsFrom_Inr:
  "bindTargetsFrom v S ts = Inr us \<longleftrightarrow>
     list_all2 (\<lambda>t u. ResolveTarget v t = Some u) ts us \<and> distinct (map targetDestinationOf us) \<and>
     targetDestinationOf ` set us \<inter> S = {}"
proof (induction v S ts arbitrary: us rule: bindTargetsFrom.induct)
  case (2 v S t ts)
  then show ?case
    by (cases us) (auto simp: bindE_Inr split: option.splits)
qed auto

lemma bindTargets_Inr:
  "bindTargets v ts = Inr us \<longleftrightarrow>
     list_all2 (\<lambda>t u. ResolveTarget v t = Some u) ts us \<and> distinct (map targetDestinationOf us)"
  by (simp add: bindTargets_def bindTargetsFrom_Inr)

text \<open>A candidate that was captured for an operation.\<close>

definition captured_for :: "OperationKey \<Rightarrow> CapturedCandidate \<Rightarrow> bool" where
  "captured_for op c \<longleftrightarrow> cap_operation c = op \<and> input_kind (cap_input c) = ArtifactInputCandidate \<and>
     input_handle (cap_input c) \<noteq> [] \<and> cap_digest c \<noteq> zeroDigest"

abbreviation "cap_handle c \<equiv> input_handle (cap_input c)"

lemma capturedAt_None: "capturedAt cs h = None \<longleftrightarrow> h \<notin> cap_handle ` set cs"
  by (auto simp: capturedAt_def find_None_iff)

lemma capturedAt_Some: "distinct (map cap_handle cs) \<Longrightarrow> capturedAt cs h = Some c \<longleftrightarrow> c \<in> set cs \<and> cap_handle c = h"
  unfolding capturedAt_def by (rule find_distinct)

lemma captureCandidates_Inr:
  "captureCandidates op acc cs = Inr out \<longleftrightarrow>
     out = rev cs @ acc \<and> (\<forall>c \<in> set cs. captured_for op c) \<and> distinct (map cap_handle cs) \<and>
     cap_handle ` set cs \<inter> cap_handle ` set acc = {}"
proof (induction op acc cs rule: captureCandidates.induct)
  case (2 op acc c cs)
  then show ?case
    unfolding captureCandidates.simps Let_def guards
    by (auto simp: captured_for_def capturedAt_None)
qed auto

text \<open>An Artifact input and what it is resolved to.\<close>

definition artifact_from ::
  "ViewAuthority \<Rightarrow> CapturedCandidate list \<Rightarrow> ArtifactInput \<Rightarrow> ResolvedArtifact \<Rightarrow> bool" where
  "artifact_from v cs i r \<longleftrightarrow> res_input r = i \<and> input_handle i \<noteq> [] \<and> res_digest r \<noteq> zeroDigest \<and>
     (input_kind i = ArtifactInputCandidate \<and> (\<exists>c \<in> set cs. cap_input c = i \<and> cap_digest c = res_digest r) \<or>
      input_kind i = ArtifactInputViewHandle \<and> ResolveOfferedArtifact v (input_handle i) = Inr (res_digest r))"

abbreviation "is_candidate i \<equiv> input_kind i = ArtifactInputCandidate"

lemma bindArtifactDigest_Inr:
  assumes "distinct (map cap_handle cs)"
  shows "bindArtifactDigest v cs i = Inr (d, n) \<and> NewResolvedArtifact i d = Inr r \<longleftrightarrow>
    artifact_from v cs i r \<and> d = res_digest r \<and> n = (if is_candidate i then 1 else 0)"
proof (cases "input_kind i")
  case ArtifactInputCandidate
  show ?thesis
  proof (cases "capturedAt cs (input_handle i)")
    case None
    then have "\<not> (\<exists>c \<in> set cs. cap_input c = i)" unfolding capturedAt_None by auto
    with None ArtifactInputCandidate show ?thesis
      by (auto simp: bindArtifactDigest_def artifact_from_def)
  next
    case (Some c)
    then have c: "c \<in> set cs" "cap_handle c = input_handle i"
      and unique: "\<And>c'. c' \<in> set cs \<Longrightarrow> cap_input c' = i \<Longrightarrow> c' = c"
      using capturedAt_Some [OF assms] by (auto, metis option.inject)
    from Some ArtifactInputCandidate show ?thesis
      by (cases r) (auto simp: bindArtifactDigest_def artifact_from_def NewResolvedArtifact_def
          split: if_splits dest: unique intro: c)
  qed
qed (cases r, auto simp: bindArtifactDigest_def artifact_from_def NewResolvedArtifact_def bindE_Inr split: if_splits)+

lemma bindArtifactInputs_Inr:
  assumes "distinct (map cap_handle cs)"
  shows "bindArtifactInputs v cs k is = Inr (rs, n) \<longleftrightarrow>
    list_all2 (artifact_from v cs) is rs \<and> n = k + length (filter is_candidate is)"
proof (induction "is" arbitrary: k rs n)
  case (Cons i "is")
  have "bindArtifactInputs v cs k (i # is) = Inr (rs, n) \<longleftrightarrow>
      (\<exists>d u r rs'. (bindArtifactDigest v cs i = Inr (d, u) \<and> NewResolvedArtifact i d = Inr r) \<and>
        bindArtifactInputs v cs (k + u) is = Inr (rs', n) \<and> rs = r # rs')"
    by (auto simp: bindE_pair bindE_Inr)
  also have "\<dots> \<longleftrightarrow> list_all2 (artifact_from v cs) (i # is) rs \<and> n = k + length (filter is_candidate (i # is))"
    unfolding bindArtifactDigest_Inr [OF assms] Cons.IH by (cases rs) auto
  finally show ?case .
qed auto

lemma bindArtifacts_Inr:
  "bindArtifacts v is op cs = Inr rs \<longleftrightarrow>
     (\<forall>c \<in> set cs. captured_for op c) \<and> distinct (map cap_handle cs) \<and>
     list_all2 (artifact_from v cs) is rs \<and> length (filter is_candidate is) = length cs"
proof -
  have rev: "artifact_from v (rev cs) = artifact_from v cs" by (simp add: artifact_from_def fun_eq_iff)
  have "bindArtifacts v is op cs = Inr rs \<longleftrightarrow>
     (\<forall>c \<in> set cs. captured_for op c) \<and> distinct (map cap_handle cs) \<and>
     bindArtifactInputs v (rev cs) 0 is = Inr (rs, length cs)"
    unfolding bindArtifacts_def bindE_pair bindE_Inr captureCandidates_Inr guards by auto
  also have "\<dots> \<longleftrightarrow> (\<forall>c \<in> set cs. captured_for op c) \<and> distinct (map cap_handle cs) \<and>
     list_all2 (artifact_from v cs) is rs \<and> length (filter is_candidate is) = length cs"
    using bindArtifactInputs_Inr [of "rev cs" v 0 "is" rs "length cs"] by (auto simp: rev rev_map [symmetric])
  finally show ?thesis .
qed

lemma bindProvenance_Inr:
  "bindProvenance v hs h = Inr (es, e) \<longleftrightarrow>
     list_all2 (\<lambda>h e. ResolveProvenance v h = Some e) hs es \<and>
     (if h = [] then e = zeroEventRef else ResolveProvenance v h = Some e)"
proof -
  have one: "(case ResolveProvenance v h of None \<Rightarrow> Inl x | Some e \<Rightarrow> Inr e) = Inr e \<longleftrightarrow> ResolveProvenance v h = Some e"
    for h x e by (cases "ResolveProvenance v h") auto
  show ?thesis
    unfolding bindProvenance_def bindE_Inr mapE_Inr one by (auto split: option.splits)
qed

lemma bindSubjectOrReference_Inr:
  "bindSubjectOrReference v i = Inr (s, x) \<longleftrightarrow>
     (if subjectBound (consequence i) then x = None \<and> s = ResolveSubject v (subjectHandling i) \<and> s \<noteq> None
      else s = None \<and>
       (if consequence i = ConsequencePublishReference
        then referenceKey i \<noteq> [] \<and>
          x = Some \<lparr>exp_absent = True, exp_handle = [], exp_key = referenceKey i, exp_head = zeroEventRef\<rparr>
        else if referenceBound (consequence i) then x = ResolveReference v (referenceHead i) \<and> x \<noteq> None
        else x = None))"
  by (cases "consequence i")
    (auto simp: bindSubjectOrReference_def consequence_defs ExpectAbsentReference_def bindE_Inr split: option.splits)

lemma terminalConsequence_eq: "terminalConsequence = isTerminalConsequence"
  by (simp add: fun_eq_iff terminalConsequence_def isTerminalConsequence_def)

text \<open>The Delivery a bound Intent answers.\<close>

definition answered :: "ViewAuthority \<Rightarrow> AgentIntent \<Rightarrow> ResolvedTarget list \<Rightarrow> EventRef \<Rightarrow> DeliveryID" where
  "answered v i ts e = (if exactReply v i ts e then mv_replyDelivery v else zeroDigest)"

lemma answered_eq:
  "(if exactReply v i ts e then (case ReplyContext v of None \<Rightarrow> zeroDigest | Some (_, _, d) \<Rightarrow> d) else zeroDigest) =
   answered v i ts e"
  by (auto simp: answered_def exactReply_def ReplyContext_def)

lemma bindIntent_Inr:
  "bindIntent v i op cs = Inr b \<longleftrightarrow>
     op \<noteq> [] \<and> canonical i \<noteq> [] \<and> v_digest v \<noteq> zeroDigest \<and> Allows v (consequence i) \<and>
     (consequence i = ConsequenceCreateHandlings \<longrightarrow> mayInitiate (mv_attachment v)) \<and>
     (\<exists>s x ts as es e.
        bindSubjectOrReference v i = Inr (s, x) \<and> bindTargets v (successors i) = Inr ts \<and>
        bindArtifacts v (artifacts i) op cs = Inr as \<and>
        bindProvenance v (causationHandles i) (correlationHandle i) = Inr (es, e) \<and>
        requireLocalResponsibility v i ts e = None \<and>
        NewBoundIntent
          \<lparr>spec_intent = i, spec_operationKey = op, spec_attachment = mv_attachment v, spec_viewDigest = v_digest v,
           spec_subject = s, spec_expected = x, spec_targets = ts, spec_artifacts = as, spec_causation = es,
           spec_correlation = e, spec_inReplyTo = answered v i ts e\<rparr> = Inr b)"
  unfolding bindIntent_def Let_def answered_eq guards split_paired_Ex prod.case by auto

section \<open>Sealed Views\<close>

text \<open>What holds of every View its constructor made from well-formed parts.\<close>

definition view_sealed :: "ViewAuthority \<Rightarrow> bool" where
  "view_sealed v \<longleftrightarrow> view_ok v \<and> load_ok (MachineViewSpec.truncate v) \<and> att_id (mv_attachment v) \<noteq> []"

lemma NewViewAuthority_sealed: "NewViewAuthority spec = Inr v \<Longrightarrow> view_ok spec \<Longrightarrow> view_sealed v"
proof -
  assume new: "NewViewAuthority spec = Inr v" and ok: "view_ok spec"
  have "MachineViewSpec.truncate v = sortView spec"
    using new by (simp add: NewViewAuthority_Inr MachineViewSpec.defs)
  moreover have "mv_attachment (sortView spec) = mv_attachment spec" by (simp add: sortView_def)
  moreover have "view_ok v \<longleftrightarrow> view_ok (MachineViewSpec.truncate v)" by (simp add: view_ok_def MachineViewSpec.defs)
  moreover have "mv_attachment v = mv_attachment (MachineViewSpec.truncate v)" by (simp add: MachineViewSpec.defs)
  ultimately show ?thesis
    using new ok by (simp add: view_sealed_def view_ok_sortView NewViewAuthority_Inr view_bounds_def)
qed

lemma find_SomeD: "List.find P xs = Some x \<Longrightarrow> x \<in> set xs \<and> P x"
  by (auto simp: find_Some_iff)

lemma view_fields [simp]:
  "mv_subjects (MachineViewSpec.truncate v) = mv_subjects v" "mv_references (MachineViewSpec.truncate v) = mv_references v"
  "mv_targets (MachineViewSpec.truncate v) = mv_targets v" "mv_provenance (MachineViewSpec.truncate v) = mv_provenance v"
  "mv_artifacts (MachineViewSpec.truncate v) = mv_artifacts v" "mv_attachment (MachineViewSpec.truncate v) = mv_attachment v"
  by (simp_all add: MachineViewSpec.defs)

text \<open>What a lookup finds in a sealed View is well formed.\<close>

lemma sealed_subject:
  assumes "view_sealed v" "ResolveSubject v h = Some s"
  shows "sub_handle s = h \<and> handle_ok (sub_handlingID s) \<and> ref_ok (sub_head s) \<and> sub_fence s \<noteq> 0 \<and>
    sub_handlingID s \<noteq> [] \<and> \<not> refIsZero (sub_head s)"
  using assms find_SomeD [of "\<lambda>s. sub_handle s = h" "mv_subjects v" s]
  by (auto simp: view_sealed_def view_ok_def load_ok_def ResolveSubject_def split: if_splits)

lemma sealed_reference:
  assumes "view_sealed v" "ResolveReference v h = Some x"
  shows "exp_handle x = h \<and> \<not> exp_absent x \<and> key_ok (exp_key x) \<and> ref_ok (exp_head x) \<and> exp_key x \<noteq> [] \<and>
    \<not> refIsZero (exp_head x)"
  using assms find_SomeD [of "\<lambda>s. exp_handle s = h" "mv_references v" x]
  by (auto simp: view_sealed_def view_ok_def load_ok_def ResolveReference_def split: if_splits)

lemma sealed_provenance:
  assumes "view_sealed v" "ResolveProvenance v h = Some e"
  shows "ref_ok e \<and> \<not> refIsZero e"
proof -
  obtain p where "p \<in> set (mv_provenance v)" "prov_event p = e"
    using assms(2) by (auto simp: ResolveProvenance_def split: if_splits dest: find_SomeD)
  then show ?thesis using assms(1) by (auto simp: view_sealed_def view_ok_def load_ok_def)
qed

lemma sealed_artifact:
  assumes "view_sealed v" "ResolveOfferedArtifact v h = Inr d"
  shows "digest_ok d"
proof -
  obtain a where "a \<in> set (mv_artifacts v)" "off_digest a = d"
    using assms(2) by (auto simp: ResolveOfferedArtifact_def split: if_splits option.splits dest: find_SomeD)
  then show ?thesis using assms(1) by (auto simp: view_sealed_def view_ok_def)
qed

lemma canonicalKey_inject: "target_ok t \<Longrightarrow> target_ok u \<Longrightarrow> canonicalKey t = canonicalKey u \<longleftrightarrow> t = u"
  by (cases t; cases u) (auto simp: target_ok_def canonicalKey_def split: if_splits)

lemma sealed_target:
  assumes "view_sealed v" "ResolveTarget v t = Some u" "target_ok t"
  shows "requested u = t \<and> resolved_ok u"
proof -
  have u: "u \<in> set (mv_targets v)" "canonicalKey (requested u) = canonicalKey t"
    using assms(2) find_SomeD [of "\<lambda>x. canonicalKey (requested x) = canonicalKey t" "mv_targets v" u]
    by (auto simp: ResolveTarget_def split: if_splits)
  then have ok: "target_ok (requested u)" "optional handle_ok (localPrincipal u)" "optional handle_ok (remoteRoute u)"
    "optional handle_ok (remoteAlias u)" and valid: "validateResolvedTarget u (mv_attachment v) = None"
    using assms(1) by (auto simp: view_sealed_def view_ok_def load_ok_def)
  then show ?thesis
    using canonicalKey_inject [OF ok(1) assms(3)] u(2)
    by (auto simp: resolved_ok_def validateResolvedTarget_def optional_def split: if_splits TargetDestination.splits)
qed

text \<open>What a well-formed Intent asks for.\<close>

lemmas intent_shapes = validateIntentShape_def validateRootIntentShape_def validateSubjectIntentShape_def
  validateReferencePublishShape_def validateReferenceSupersedeShape_def validateReferenceRetractShape_def

lemma intent_ok_parts:
  assumes "intent_ok i"
  shows "validateIntentShape (IntentSpec.truncate i) = None" "agentDeclarable (consequence i)" "canonical i \<noteq> []"
    "\<forall>t \<in> set (successors i). target_ok t" "\<forall>a \<in> set (artifacts i). input_ok a"
    "optional key_ok (referenceKey i)"
proof -
  have new: "NewAgentIntent (IntentSpec.truncate i) = Inr i" and ok: "spec_ok i" using assms by (simp_all add: intent_ok_def)
  note N = NewAgentIntent_Inr [OF new, simplified]
  show "validateIntentShape (IntentSpec.truncate i) = None" "agentDeclarable (consequence i)" by (fact N(3) N(2))+
  show "\<forall>t \<in> set (successors i). target_ok t" using N(5) ok by (auto simp: spec_ok_def targetIsZero_iff)
  show "\<forall>a \<in> set (artifacts i). input_ok a"
    using checkArtifactInputs_None [OF N(8)] ok by (auto simp: spec_ok_def optional_def input_ok_def)
  show "optional key_ok (referenceKey i)" using ok by (simp add: spec_ok_def)
  have "canonical i = Marshal (enc_intent (intentToWire i))" by (subst N(11)) (simp add: IntentSpec.defs)
  then show "canonical i \<noteq> []" using Marshal_nonempty [OF json_ok_intent [OF ok]] by simp
qed

section \<open>What binding builds\<close>

abbreviation bound_spec where
  "bound_spec v i op s x ts as es e \<equiv>
     \<lparr>spec_intent = i, spec_operationKey = op, spec_attachment = mv_attachment v, spec_viewDigest = v_digest v,
      spec_subject = s, spec_expected = x, spec_targets = ts, spec_artifacts = as, spec_causation = es,
      spec_correlation = e, spec_inReplyTo = answered v i ts e\<rparr>"

lemma exactReply_terminal: "exactReply v i ts e \<Longrightarrow> isTerminalConsequence (consequence i)"
  by (auto simp: exactReply_def terminalConsequence_eq split: option.splits if_splits)

lemma sealed_targets:
  assumes "view_sealed v" "intent_ok i" "list_all2 (\<lambda>t u. ResolveTarget v t = Some u) (successors i) ts"
  shows "map requested ts = successors i \<and> (\<forall>t \<in> set ts. resolved_ok t)"
proof -
  have "list_all2 (\<lambda>t u. requested u = t \<and> resolved_ok u) (successors i) ts"
    using assms(3) by (rule list.rel_mono_strong) (use sealed_target [OF assms(1)] intent_ok_parts(4) [OF assms(2)] in blast)
  then show ?thesis by (induction rule: list_all2_induct) auto
qed

lemma artifacts_from:
  assumes "list_all2 (artifact_from v cs) is as"
  shows "map res_input as = is \<and> (\<forall>a \<in> set as. res_digest a \<noteq> zeroDigest)"
  using assms by (induction rule: list_all2_induct) (auto simp: artifact_from_def)

lemma bound_spec_valid:
  assumes "view_sealed v" "intent_ok i" "bindSubjectOrReference v i = Inr (s, x)"
    "bindTargets v (successors i) = Inr ts" "bindArtifacts v (artifacts i) op cs = Inr as"
    "bindProvenance v (causationHandles i) (correlationHandle i) = Inr (es, e)"
  shows "validateResolvedBoundIntent (bound_spec v i op s x ts as es e) = None \<longleftrightarrow>
    (consequence i = ConsequenceResolveCompleted \<longrightarrow> artifacts i \<noteq> [])"
proof -
  note S = assms(3) [unfolded bindSubjectOrReference_Inr]
  have subj: "subjectBound (consequence i) \<longleftrightarrow> s \<noteq> None" "referenceBound (consequence i) \<longleftrightarrow> x \<noteq> None"
    using S by (auto simp: consequence_defs split: if_splits)
  have bound: "sub_handle z = subjectHandling i \<and> sub_handlingID z \<noteq> [] \<and> \<not> refIsZero (sub_head z) \<and> sub_fence z \<noteq> 0" if "s = Some z" for z
    using S that sealed_subject [OF assms(1), of "subjectHandling i" z] by (auto split: if_splits)
  have ref: "validateResolvedReference i x = None"
    using S sealed_reference [OF assms(1), of "referenceHead i"]
    by (auto simp: validateResolvedReference_def consequence_defs zeroEventRef_def refIsZero_def split: if_splits option.splits)
  have tgt: "map requested ts = successors i"
    using assms(4) sealed_targets [OF assms(1,2)] by (simp add: bindTargets_Inr)
  have art: "map res_input as = artifacts i" "\<forall>a \<in> set as. res_digest a \<noteq> zeroDigest"
    using assms(5) artifacts_from [of v cs "artifacts i" as] by (auto simp: bindArtifacts_Inr)
  have cause: "length es = length (causationHandles i)" "refIsZero e \<longleftrightarrow> correlationHandle i = []"
    using assms(6) sealed_provenance [OF assms(1), of "correlationHandle i" e]
    by (auto simp: bindProvenance_Inr list_all2_lengthD refIsZero_def zeroEventRef_def split: if_splits)
  have reply: "answered v i ts e = zeroDigest \<or> isTerminalConsequence (consequence i)"
    by (auto simp: answered_def exactReply_terminal split: if_splits)
  have len: "length ts = length (successors i)" "length as = length (artifacts i)" "as = [] \<longleftrightarrow> artifacts i = []"
    using tgt art(1) by (metis length_map, metis length_map, metis map_is_Nil_conv)
  show ?thesis
    unfolding validateResolvedBoundIntent_def Let_def guards
    using subj bound ref tgt art cause reply len
    by (cases s) (simp_all add: list_ex_iff)
qed

lemma bind_bound_ok:
  assumes "view_sealed v" "intent_ok i" "handle_ok op" "\<forall>c \<in> set cs. digest_ok (cap_digest c)"
    "bindIntent v i op cs = Inr b"
  shows "bound_ok b"
proof -
  obtain s x ts as es e where parts: "bindSubjectOrReference v i = Inr (s, x)" "bindTargets v (successors i) = Inr ts"
      "bindArtifacts v (artifacts i) op cs = Inr as" "bindProvenance v (causationHandles i) (correlationHandle i) = Inr (es, e)"
    and b: "NewBoundIntent (bound_spec v i op s x ts as es e) = Inr b"
    using assms(5) unfolding bindIntent_Inr by blast
  note N = NewBoundIntent_Inr [OF b, simplified]
  have "\<forall>z \<in> set_option s. handle_ok (sub_handlingID z) \<and> ref_ok (sub_head z)"
    using parts(1) sealed_subject [OF assms(1), of "subjectHandling i"] by (auto simp: bindSubjectOrReference_Inr split: if_splits)
  moreover have "\<forall>z \<in> set_option x. key_ok (exp_key z) \<and> (exp_head z = zeroEventRef \<or> ref_ok (exp_head z))"
    using parts(1) sealed_reference [OF assms(1), of "referenceHead i"] intent_ok_parts(6) [OF assms(2)]
    by (auto simp: bindSubjectOrReference_Inr optional_def split: if_splits)
  moreover have "\<forall>t \<in> set ts. resolved_ok t"
    using parts(2) sealed_targets [OF assms(1,2), of ts] by (simp add: bindTargets_Inr)
  moreover have "\<forall>a \<in> set as. input_ok (res_input a) \<and> digest_ok (res_digest a)"
  proof -
    have "list_all2 (\<lambda>i a. res_input a = i \<and> digest_ok (res_digest a)) (artifacts i) as"
      using parts(3) sealed_artifact [OF assms(1)] assms(4)
      by (fastforce simp: bindArtifacts_Inr artifact_from_def elim!: list.rel_mono_strong)
    then show ?thesis using intent_ok_parts(5) [OF assms(2)]
      by (force simp: list_all2_conv_all_nth in_set_conv_nth)
  qed
  moreover have "\<forall>r \<in> set es. ref_ok r"
    using parts(4) sealed_provenance [OF assms(1)] by (force simp: bindProvenance_Inr list_all2_conv_all_nth in_set_conv_nth)
  moreover have "e = zeroEventRef \<or> ref_ok e"
    using parts(4) sealed_provenance [OF assms(1), of "correlationHandle i" e] by (auto simp: bindProvenance_Inr split: if_splits)
  moreover have "length (answered v i ts e) = 32" "handle_ok (att_principal (mv_attachment v))"
    using assms(1) by (simp_all add: view_sealed_def view_ok_def answered_def zeroDigest_def)
  ultimately show ?thesis using N(2-14) assms(2,3) by (simp add: bound_ok_def)
qed

lemma exactReply_targets:
  assumes "exactReply v i ts e"
  shows "length ts = 1 \<and> remoteTargets ts = 1 \<and> \<not> refIsZero e"
  using assms by (cases ts) (auto simp: exactReply_def remoteTargets_def split: option.splits if_splits)

lemma requireLocalResponsibility_None:
  assumes "requireLocalResponsibility v i ts e = None" "\<not> exactReply v i ts e"
    "consequence i = ConsequenceCreateHandlings \<or> isTerminalConsequence (consequence i)"
  shows "remoteTargets ts = 0 \<or> 0 < localTargets ts"
  using assms
  by (auto simp: requireLocalResponsibility_def remoteTargets_def localTargets_def Let_def terminalConsequence_eq
      list_ex_iff filter_empty_conv isTerminalConsequence_def split: if_splits)

text \<open>The Event of a bound Intent has the shape its consequence requires.\<close>

lemma bind_event_shape:
  assumes "view_sealed v" "intent_ok i" "bindIntent v i op cs = Inr b"
  shows "validateParsedEventShape (eventOf b st) = None"
proof -
  obtain s x ts as es e where parts: "bindSubjectOrReference v i = Inr (s, x)" "bindTargets v (successors i) = Inr ts"
      "bindArtifacts v (artifacts i) op cs = Inr as" "requireLocalResponsibility v i ts e = None"
    and b: "NewBoundIntent (bound_spec v i op s x ts as es e) = Inr b"
    using assms(3) unfolding bindIntent_Inr by blast
  note N = NewBoundIntent_Inr [OF b, simplified]
  note I = intent_ok_parts(1,2) [OF assms(2), unfolded intent_shapes, simplified]
  have ev: "e_consequence (eventOf b st) = consequence i" "e_subject (eventOf b st) = s" "e_expected (eventOf b st) = x"
    "e_targets (eventOf b st) = ts" "e_inReplyTo (eventOf b st) = answered v i ts e" "e_correlation (eventOf b st) = e"
    "length (e_artifacts (eventOf b st)) = length as"
    using N by (simp_all add: eventOf_def sortDigests_def)
  have len: "length ts = length (successors i)" "length as = length (artifacts i)"
    using parts(2,3) by (auto simp: bindTargets_Inr bindArtifacts_Inr dest: list_all2_lengthD)
  have absent: "\<not> exp_absent z" if "ResolveReference v (referenceHead i) = Some z" for z
    using sealed_reference [OF assms(1) that] by simp
  have sx: "s \<noteq> None \<longleftrightarrow> subjectBound (consequence i)" "x \<noteq> None \<longleftrightarrow> referenceBound (consequence i)"
    "\<forall>z. x = Some z \<longrightarrow> (exp_absent z \<longleftrightarrow> consequence i = ConsequencePublishReference)"
    using parts(1) absent by (auto simp: bindSubjectOrReference_Inr consequence_defs split: if_splits)
  have done_: "as \<noteq> []" if "consequence i = ConsequenceResolveCompleted"
    using validateResolvedBoundIntent_None(7) [OF N(1)] that by simp
  have reply: "answered v i ts e \<noteq> zeroDigest \<Longrightarrow> isTerminalConsequence (consequence i)"
    by (auto simp: answered_def exactReply_terminal split: if_splits)
  have loc: "remoteTargets ts = 0 \<or> 0 < localTargets ts"
    if "answered v i ts e = zeroDigest" "consequence i = ConsequenceCreateHandlings \<or> isTerminalConsequence (consequence i)"
  proof (cases "exactReply v i ts e")
    case True
    then show ?thesis using that(1) by (auto simp: answered_def exactReply_def ReplyContext_def split: if_splits)
  next
    case False
    then show ?thesis by (rule requireLocalResponsibility_None [OF parts(4) _ that(2)])
  qed
  show ?thesis
  proof (cases "answered v i ts e = zeroDigest")
    case True
    show ?thesis
      using True I sx done_ loc len
      unfolding validateParsedEventShape_def consequenceShape_def ev
      by (cases "consequence i") (auto simp: resolutionShape_def referenceShape_def ev consequence_defs split: if_splits)
  next
    case False
    then have "exactReply v i ts e" by (auto simp: answered_def split: if_splits)
    with False reply exactReply_targets [of v i ts e] sx done_ show ?thesis
      unfolding validateParsedEventShape_def consequenceShape_def ev
      by (cases "consequence i") (auto simp: resolutionShape_def ev consequence_defs split: if_splits)
  qed
qed

lemma NewBoundIntent_ex:
  "(\<exists>b. NewBoundIntent spec = Inr b) \<longleftrightarrow>
     canonical (spec_intent spec) \<noteq> [] \<and> spec_operationKey spec \<noteq> [] \<and> att_id (spec_attachment spec) \<noteq> [] \<and>
     spec_viewDigest spec \<noteq> zeroDigest \<and> validateResolvedBoundIntent spec = None \<and>
     distinct (map res_digest (spec_artifacts spec))"
proof -
  have "distinct_adj (sortDigests ds) \<longleftrightarrow> distinct ds" for ds
    using distinct_sortDigests [of ds] distinct_adj_distinct [of "sortDigests ds"] by (auto simp: sortDigests_def)
  then show ?thesis unfolding NewBoundIntent_def Let_def guards by auto
qed

lemma bindIntent_ex:
  assumes "view_sealed v" "intent_ok i" "op \<noteq> []" "v_digest v \<noteq> zeroDigest" "Allows v (consequence i)"
    "consequence i = ConsequenceCreateHandlings \<Longrightarrow> mayInitiate (mv_attachment v)"
    "bindSubjectOrReference v i = Inr (s, x)" "bindTargets v (successors i) = Inr ts"
    "bindArtifacts v (artifacts i) op cs = Inr as" "bindProvenance v (causationHandles i) (correlationHandle i) = Inr (es, e)"
    "requireLocalResponsibility v i ts e = None" "consequence i = ConsequenceResolveCompleted \<Longrightarrow> artifacts i \<noteq> []"
    "distinct (map res_digest as)"
  shows "\<exists>b. bindIntent v i op cs = Inr b \<and> b_targets b = ts \<and> b_causation b = es \<and> b_inReplyTo b = answered v i ts e"
proof -
  obtain b where b: "NewBoundIntent (bound_spec v i op s x ts as es e) = Inr b"
    using bound_spec_valid [OF assms(1,2,7-10)] NewBoundIntent_ex [of "bound_spec v i op s x ts as es e"]
      intent_ok_parts(3) [OF assms(2)] assms by (auto simp: view_sealed_def)
  then have "bindIntent v i op cs = Inr b"
    unfolding bindIntent_Inr using assms intent_ok_parts(3) [OF assms(2)] by blast
  then show ?thesis using NewBoundIntent_Inr(8,12,14) [OF b] by auto
qed

section \<open>The properties of binding\<close>

text \<open>The example View with a digest, and the candidate the example Intent names.\<close>

definition exampleSealed :: ViewAuthority where
  "exampleSealed = MachineViewSpec.extend (sortView (exampleView ''att1''))
     \<lparr>v_canonical = ''{}'', v_digest = exampleDigest CHR ''v''\<rparr>"

definition exampleCandidate :: CapturedCandidate where
  "exampleCandidate = \<lparr>cap_operation = ''op1'',
     cap_input = \<lparr>input_kind = ArtifactInputCandidate, input_handle = ''a1''\<rparr>, cap_digest = exampleDigest CHR ''a''\<rparr>"

lemma exampleSealed_ok: "view_sealed exampleSealed"
proof -
  have "view_ok (exampleView ''att1'')" "load_ok (exampleView ''att1'')" by code_simp+
  moreover have "view_ok exampleSealed \<longleftrightarrow> view_ok (sortView (exampleView ''att1''))"
    by (simp add: view_ok_def exampleSealed_def MachineViewSpec.defs)
  moreover have "att_id (mv_attachment exampleSealed) \<noteq> []" by code_simp
  moreover have "MachineViewSpec.truncate exampleSealed = sortView (exampleView ''att1'')"
    by (simp add: exampleSealed_def MachineViewSpec.defs)
  ultimately show ?thesis by (simp add: view_sealed_def view_ok_sortView)
qed

lemma exampleIntent_parts:
  assumes "NewAgentIntent exampleIntentSpec = Inr i"
  shows "intent_ok i" "consequence i = ConsequenceAdvanceHandling" "subjectHandling i = ''h1''"
    "successors i = [SelfTarget, \<lparr>targetSelf = False, targetAlias = ''bob''\<rparr>]"
    "artifacts i = [\<lparr>input_kind = ArtifactInputCandidate, input_handle = ''a1''\<rparr>]"
    "causationHandles i = [''p1'', ''p2'']" "correlationHandle i = ''p1''" "canonical i \<noteq> []"
proof -
  show ok: "intent_ok i"
    using NewAgentIntent_again [OF assms] spec_ok_intent [OF assms exampleIntentSpec_ok] by (simp add: intent_ok_def)
  show "canonical i \<noteq> []" by (rule intent_ok_parts(3) [OF ok])
  show "causationHandles i = [''p1'', ''p2'']" using exampleIntent assms by auto
  show "consequence i = ConsequenceAdvanceHandling" "subjectHandling i = ''h1''"
    "successors i = [SelfTarget, \<lparr>targetSelf = False, targetAlias = ''bob''\<rparr>]"
    "artifacts i = [\<lparr>input_kind = ArtifactInputCandidate, input_handle = ''a1''\<rparr>]" "correlationHandle i = ''p1''"
    by (subst NewAgentIntent_Inr(11) [OF assms], simp add: exampleIntentSpec_def IntentSpec.defs)+
qed

lemma exampleBinding:
  assumes "NewAgentIntent exampleIntentSpec = Inr i"
  shows "\<exists>b. bindIntent exampleSealed i ''op1'' [exampleCandidate] = Inr b \<and>
    b_causation b = [exampleRef ''e1'', exampleRef ''e2'']"
proof -
  let ?s = "hd (mv_subjects (exampleView ''att1''))" and ?ts = "mv_targets (exampleView ''att1'')"
  let ?as = "[\<lparr>res_input = \<lparr>input_kind = ArtifactInputCandidate, input_handle = ''a1''\<rparr>, res_digest = exampleDigest CHR ''a''\<rparr>]"
  let ?es = "[exampleRef ''e1'', exampleRef ''e2'']" and ?e = "exampleRef ''e1''"
  note i = exampleIntent_parts [OF assms]
  have "ResolveSubject exampleSealed ''h1'' = Some ?s" by code_simp
  then have subject: "bindSubjectOrReference exampleSealed i = Inr (Some ?s, None)"
    by (simp add: bindSubjectOrReference_Inr i consequence_defs)
  have targets: "bindTargets exampleSealed (successors i) = Inr ?ts" unfolding i by code_simp
  have arts: "bindArtifacts exampleSealed (artifacts i) ''op1'' [exampleCandidate] = Inr ?as" unfolding i by code_simp
  have prov: "bindProvenance exampleSealed (causationHandles i) (correlationHandle i) = Inr (?es, ?e)" unfolding i by code_simp
  have loc: "requireLocalResponsibility exampleSealed i ?ts ?e = None" by (simp add: requireLocalResponsibility_def i)
  have "v_digest exampleSealed \<noteq> zeroDigest" "Allows exampleSealed (consequence i)" unfolding i by code_simp+
  then show ?thesis
    using bindIntent_ex [OF exampleSealed_ok i(1) _ _ _ _ subject targets arts prov loc] by (simp add: i) blast
qed

text \<open>
  (C31) The authority cut: an Intent is bound to nothing but what the View offered. The consequence is one
  the View allows, a root needs the authority to initiate; subject, Reference head, destinations and
  causes are those the View holds under the handles of the Intent, every Artifact is a candidate captured
  for this very operation or one the View offers, the Attachment and the View digest are the View's, and
  a first publication expects an absent key.
\<close>

theorem bind_within_view:
  assumes "bindIntent v i op cs = Inr b"
  shows "b_intent b = i \<and> b_operationKey b = op \<and> b_attachment b = mv_attachment v \<and> b_viewDigest b = v_digest v \<and>
    Allows v (consequence i) \<and> (consequence i = ConsequenceCreateHandlings \<longrightarrow> mayInitiate (mv_attachment v)) \<and>
    b_subject b = (if subjectBound (consequence i) then ResolveSubject v (subjectHandling i) else None) \<and>
    b_expected b = (if consequence i = ConsequencePublishReference
      then Some \<lparr>exp_absent = True, exp_handle = [], exp_key = referenceKey i, exp_head = zeroEventRef\<rparr>
      else if referenceBound (consequence i) then ResolveReference v (referenceHead i) else None) \<and>
    map Some (b_targets b) = map (ResolveTarget v) (successors i) \<and>
    map Some (b_causation b) = map (ResolveProvenance v) (causationHandles i) \<and>
    (if correlationHandle i = [] then b_correlation b = zeroEventRef
     else ResolveProvenance v (correlationHandle i) = Some (b_correlation b)) \<and>
    (\<forall>a \<in> set (b_resolved b).
       ResolveOfferedArtifact v (input_handle (res_input a)) = Inr (res_digest a) \<or>
       \<lparr>cap_operation = op, cap_input = res_input a, cap_digest = res_digest a\<rparr> \<in> set cs)"
proof -
  obtain s x ts as es e where parts: "bindSubjectOrReference v i = Inr (s, x)" "bindTargets v (successors i) = Inr ts"
      "bindArtifacts v (artifacts i) op cs = Inr as" "bindProvenance v (causationHandles i) (correlationHandle i) = Inr (es, e)"
    and b: "NewBoundIntent (bound_spec v i op s x ts as es e) = Inr b"
    using assms unfolding bindIntent_Inr by blast
  note N = NewBoundIntent_Inr [OF b, simplified]
  have some: "list_all2 (\<lambda>x y. f x = Some y) xs ys \<longleftrightarrow> map Some ys = map f xs" for f :: "'a \<Rightarrow> 'b option" and xs ys
    by (induction xs arbitrary: ys) (auto simp: list_all2_Cons1 Cons_eq_map_conv)
  have "ResolveOfferedArtifact v (input_handle (res_input a)) = Inr (res_digest a) \<or>
      \<lparr>cap_operation = op, cap_input = res_input a, cap_digest = res_digest a\<rparr> \<in> set cs" if a: "a \<in> set as" for a
  proof -
    obtain j where "artifact_from v cs j a" "\<forall>c \<in> set cs. captured_for op c"
      using parts(3) a by (auto simp: bindArtifacts_Inr list_all2_conv_all_nth in_set_conv_nth)
    moreover have "\<lparr>cap_operation = op, cap_input = cap_input c, cap_digest = cap_digest c\<rparr> = c" if "captured_for op c" for c :: CapturedCandidate
      using that by (cases c) (simp add: captured_for_def)
    ultimately show ?thesis by (auto simp: artifact_from_def) metis
  qed
  moreover have "s = (if subjectBound (consequence i) then ResolveSubject v (subjectHandling i) else None) \<and>
    x = (if consequence i = ConsequencePublishReference
      then Some \<lparr>exp_absent = True, exp_handle = [], exp_key = referenceKey i, exp_head = zeroEventRef\<rparr>
      else if referenceBound (consequence i) then ResolveReference v (referenceHead i) else None)"
    using parts(1) by (cases "consequence i") (auto simp: bindSubjectOrReference_Inr consequence_defs)
  ultimately show ?thesis
    using assms parts N(2-14)
    unfolding bindIntent_Inr bindTargets_Inr bindProvenance_Inr some by auto
qed

theorem bind_within_view_witness:
  "\<exists>i b. NewAgentIntent exampleIntentSpec = Inr i \<and> bindIntent exampleSealed i ''op1'' [exampleCandidate] = Inr b \<and>
     b_subject b = ResolveSubject exampleSealed ''h1'' \<and> b_viewDigest b = exampleDigest CHR ''v''"
proof -
  obtain i where i: "NewAgentIntent exampleIntentSpec = Inr i" using exampleIntent by blast
  obtain b where b: "bindIntent exampleSealed i ''op1'' [exampleCandidate] = Inr b" using exampleBinding [OF i] by blast
  have "subjectBound ConsequenceAdvanceHandling" "v_digest exampleSealed = exampleDigest CHR ''v''" by code_simp+
  with i b bind_within_view [OF b] exampleIntent_parts [OF i] show ?thesis by auto
qed

lemma map_Some_list_all2: "list_all2 (\<lambda>x y. f x = Some y) xs ys \<longleftrightarrow> (\<forall>x \<in> set xs. f x \<noteq> None) \<and> ys = map (the \<circ> f) xs"
  by (induction xs arbitrary: ys) (auto simp: list_all2_Cons1)

text \<open>
  (C32) Binding is refused only for cause. With a sealed View and a well-formed Intent it succeeds exactly
  when the View allows the consequence and holds everything the Intent names, the successors go to
  different places, the captured candidates belong to the operation and are all used, no two Artifacts
  have one digest, a completion brings evidence, and responsibility stays local where it must. So the
  checks \<^verbatim>\<open>NewBoundIntent\<close> repeats never refuse what the binder resolved.
\<close>

theorem bind_complete:
  assumes "view_sealed v" "intent_ok i"
  shows "(\<exists>b. bindIntent v i op cs = Inr b) \<longleftrightarrow>
    op \<noteq> [] \<and> v_digest v \<noteq> zeroDigest \<and> Allows v (consequence i) \<and>
    (consequence i = ConsequenceCreateHandlings \<longrightarrow> mayInitiate (mv_attachment v)) \<and>
    (subjectBound (consequence i) \<longrightarrow> ResolveSubject v (subjectHandling i) \<noteq> None) \<and>
    (consequence i \<in> {ConsequenceSupersedeReference, ConsequenceRetractReference} \<longrightarrow>
       ResolveReference v (referenceHead i) \<noteq> None) \<and>
    (\<forall>t \<in> set (successors i). ResolveTarget v t \<noteq> None) \<and>
    distinct (map (targetDestinationOf \<circ> the \<circ> ResolveTarget v) (successors i)) \<and>
    (\<forall>h \<in> set (causationHandles i). ResolveProvenance v h \<noteq> None) \<and>
    (correlationHandle i \<noteq> [] \<longrightarrow> ResolveProvenance v (correlationHandle i) \<noteq> None) \<and>
    (\<forall>c \<in> set cs. captured_for op c) \<and> distinct (map cap_handle cs) \<and>
    length (filter is_candidate (artifacts i)) = length cs \<and>
    (\<exists>as. list_all2 (artifact_from v cs) (artifacts i) as \<and> distinct (map res_digest as)) \<and>
    (consequence i = ConsequenceResolveCompleted \<longrightarrow> artifacts i \<noteq> []) \<and>
    requireLocalResponsibility v i (map (the \<circ> ResolveTarget v) (successors i))
      (if correlationHandle i = [] then zeroEventRef else the (ResolveProvenance v (correlationHandle i))) = None"
    (is "_ \<longleftrightarrow> ?R")
proof -
  let ?ts = "map (the \<circ> ResolveTarget v) (successors i)"
  let ?e = "if correlationHandle i = [] then zeroEventRef else the (ResolveProvenance v (correlationHandle i))"
  have subj: "(\<exists>s x. bindSubjectOrReference v i = Inr (s, x)) \<longleftrightarrow>
      (subjectBound (consequence i) \<longrightarrow> ResolveSubject v (subjectHandling i) \<noteq> None) \<and>
      (consequence i \<in> {ConsequenceSupersedeReference, ConsequenceRetractReference} \<longrightarrow>
       ResolveReference v (referenceHead i) \<noteq> None)"
    using intent_ok_parts(1,2) [OF assms(2)]
    by (cases "consequence i") (auto simp: bindSubjectOrReference_Inr consequence_defs intent_shapes split: if_splits)
  have tgt: "bindTargets v (successors i) = Inr ts \<longleftrightarrow> (\<forall>t \<in> set (successors i). ResolveTarget v t \<noteq> None) \<and>
      distinct (map (targetDestinationOf \<circ> the \<circ> ResolveTarget v) (successors i)) \<and> ts = ?ts" for ts
    by (auto simp: bindTargets_Inr map_Some_list_all2 comp_assoc)
  have prov: "(\<exists>es. bindProvenance v (causationHandles i) (correlationHandle i) = Inr (es, e)) \<longleftrightarrow>
      (\<forall>h \<in> set (causationHandles i). ResolveProvenance v h \<noteq> None) \<and>
      (correlationHandle i \<noteq> [] \<longrightarrow> ResolveProvenance v (correlationHandle i) \<noteq> None) \<and> e = ?e" for e
    by (auto simp: bindProvenance_Inr map_Some_list_all2)
  have new: "(\<exists>b. NewBoundIntent (bound_spec v i op s x ts as es e) = Inr b) \<longleftrightarrow>
      op \<noteq> [] \<and> v_digest v \<noteq> zeroDigest \<and> (consequence i = ConsequenceResolveCompleted \<longrightarrow> artifacts i \<noteq> []) \<and>
      distinct (map res_digest as)"
    if "bindSubjectOrReference v i = Inr (s, x)" "bindTargets v (successors i) = Inr ts"
      "bindArtifacts v (artifacts i) op cs = Inr as" "bindProvenance v (causationHandles i) (correlationHandle i) = Inr (es, e)"
    for s x ts as es e
    using bound_spec_valid [OF assms that] intent_ok_parts(3) [OF assms(2)] assms(1)
    by (simp add: NewBoundIntent_ex view_sealed_def)
  have "(\<exists>b. bindIntent v i op cs = Inr b) \<longleftrightarrow>
      op \<noteq> [] \<and> v_digest v \<noteq> zeroDigest \<and> Allows v (consequence i) \<and>
      (consequence i = ConsequenceCreateHandlings \<longrightarrow> mayInitiate (mv_attachment v)) \<and>
      (\<exists>s x. bindSubjectOrReference v i = Inr (s, x)) \<and>
      (\<exists>ts e. bindTargets v (successors i) = Inr ts \<and>
        (\<exists>es. bindProvenance v (causationHandles i) (correlationHandle i) = Inr (es, e)) \<and>
        requireLocalResponsibility v i ts e = None) \<and>
      (\<exists>as. bindArtifacts v (artifacts i) op cs = Inr as \<and> distinct (map res_digest as)) \<and>
      (consequence i = ConsequenceResolveCompleted \<longrightarrow> artifacts i \<noteq> [])"
    unfolding bindIntent_Inr using new intent_ok_parts(3) [OF assms(2)] by blast
  also have "\<dots> \<longleftrightarrow> ?R" unfolding subj tgt prov bindArtifacts_Inr by blast
  finally show ?thesis .
qed

theorem bind_complete_witness:
  "\<exists>i. NewAgentIntent exampleIntentSpec = Inr i \<and> (\<exists>b. bindIntent exampleSealed i ''op1'' [exampleCandidate] = Inr b) \<and>
     (\<nexists>b. bindIntent exampleSealed i ''op2'' [exampleCandidate] = Inr b)"
proof -
  obtain i where i: "NewAgentIntent exampleIntentSpec = Inr i" using exampleIntent by blast
  note ok = exampleIntent_parts [OF i]
  have "\<not> captured_for ''op2'' exampleCandidate" by code_simp
  then have "\<nexists>b. bindIntent exampleSealed i ''op2'' [exampleCandidate] = Inr b"
    using bind_complete [OF exampleSealed_ok ok(1), of "''op2''" "[exampleCandidate]"] by simp
  with i exampleBinding [OF i] show ?thesis by blast
qed

lemma bind_destinations:
  assumes "bindIntent v i op cs = Inr b"
  shows "distinct (map targetDestinationOf (b_targets b))"
proof -
  obtain s x ts as es e where "bindTargets v (successors i) = Inr ts"
    and b: "NewBoundIntent (bound_spec v i op s x ts as es e) = Inr b"
    using assms unfolding bindIntent_Inr by blast
  then show ?thesis using NewBoundIntent_Inr(8) [OF b] by (simp add: bindTargets_Inr)
qed

text \<open>
  (C33) From the View to the log: an Intent bound under a sealed View becomes an Event under every proper
  stamp, and the reader of the log gives that Event back from its bytes, with the View's handles dropped.
  The provisos are that the causes are different Events and that SHA-256 does not give the request the
  zero digest, which stands for no digest.
\<close>

theorem bound_intent_readable:
  assumes "view_sealed v" "intent_ok i" "handle_ok op" "\<forall>c \<in> set cs. digest_ok (cap_digest c)"
    "bindIntent v i op cs = Inr b" "distinct (b_causation b)" "stamp_ok st"
  shows "b_digest b = zeroDigest \<or>
    (\<exists>e. NewEvent b st = Inr e \<and> ParseEventCanonicalJSON (e_canonical e) = Inr (stripEvent e))"
proof (cases "b_digest b = zeroDigest")
  case False
  obtain s x ts as es e' where b: "NewBoundIntent (bound_spec v i op s x ts as es e') = Inr b"
    using assms(5) unfolding bindIntent_Inr by blast
  have ok: "request_ok b" by (rule NewBoundIntent_request_ok [OF b bind_bound_ok [OF assms(1-5)]])
  have "distinct (map destinationKey (b_targets b))"
    using bind_destinations [OF assms(5)]
    by (auto simp: distinct_map inj_on_def destinationKey_def targetDestinationOf_def)
  moreover obtain e where "NewEvent b st = Inr e" using NewEvent_ex [OF ok False assms(7)] by blast
  ultimately show ?thesis
    using event_reads_back [OF _ ok assms(7) _ assms(6) bind_event_shape [OF assms(1,2,5)]] by blast
qed simp

theorem bound_intent_readable_witness:
  "\<exists>i b. NewAgentIntent exampleIntentSpec = Inr i \<and> bindIntent exampleSealed i ''op1'' [exampleCandidate] = Inr b \<and>
     (b_digest b = zeroDigest \<or>
      (\<exists>e. NewEvent b exampleStamp = Inr e \<and> ParseEventCanonicalJSON (e_canonical e) = Inr (stripEvent e)))"
proof -
  obtain i where i: "NewAgentIntent exampleIntentSpec = Inr i" using exampleIntent by blast
  obtain b where b: "bindIntent exampleSealed i ''op1'' [exampleCandidate] = Inr b"
    "b_causation b = [exampleRef ''e1'', exampleRef ''e2'']" using exampleBinding [OF i] by blast
  have "handle_ok ''op1''" "\<forall>c \<in> set [exampleCandidate]. digest_ok (cap_digest c)" by code_simp+
  moreover have "distinct (b_causation b)" by (simp add: b(2) exampleRef_def)
  ultimately show ?thesis
    using i b bound_intent_readable [OF exampleSealed_ok exampleIntent_parts(1) [OF i] _ _ b(1) _ exampleStamp_ok] by blast
qed

text \<open>
  (C34) Responsibility never leaves the machine unanswered: when a new root or a resolution goes to another
  machine, the same request keeps a local Handling open, or it is the reply the View asks for. A request
  is marked as a reply only then: to the Delivery, the target and the correlation of the View's reply
  context, with that target alone. No two successors go to one destination.
\<close>

theorem bind_keeps_responsibility:
  assumes "bindIntent v i op cs = Inr b"
  shows "distinct (map targetDestinationOf (b_targets b)) \<and>
    ((consequence i = ConsequenceCreateHandlings \<or> isTerminalConsequence (consequence i)) \<and>
       (\<exists>t \<in> set (b_targets b). destination t = TargetDestinationRemote) \<longrightarrow>
       (\<exists>t \<in> set (b_targets b). destination t = TargetDestinationLocal) \<or> b_inReplyTo b \<noteq> zeroDigest) \<and>
    (b_inReplyTo b \<noteq> zeroDigest \<longrightarrow> b_inReplyTo b = mv_replyDelivery v \<and> isTerminalConsequence (consequence i) \<and>
       map requested (b_targets b) = [mv_replyTarget v] \<and> destination (hd (b_targets b)) = TargetDestinationRemote \<and>
       correlationHandle i = mv_replyTo v \<and> ResolveProvenance v (mv_replyTo v) = Some (b_correlation b))"
proof -
  obtain s x ts as es e where loc: "requireLocalResponsibility v i ts e = None"
    and b: "NewBoundIntent (bound_spec v i op s x ts as es e) = Inr b"
    using assms unfolding bindIntent_Inr by blast
  note N = NewBoundIntent_Inr [OF b, simplified]
  have reply: "exactReply v i ts e \<Longrightarrow> mv_replyDelivery v \<noteq> zeroDigest \<and> isTerminalConsequence (consequence i) \<and>
      map requested ts = [mv_replyTarget v] \<and> destination (hd ts) = TargetDestinationRemote \<and>
      correlationHandle i = mv_replyTo v \<and> ResolveProvenance v (mv_replyTo v) = Some e"
    by (auto simp: exactReply_def ReplyContext_def terminalConsequence_eq length_Suc_conv split: if_splits)
  have "(\<exists>t \<in> set ts. destination t = TargetDestinationLocal) \<or> exactReply v i ts e"
    if "consequence i = ConsequenceCreateHandlings \<or> isTerminalConsequence (consequence i)"
      "\<exists>t \<in> set ts. destination t = TargetDestinationRemote"
    using requireLocalResponsibility_None [OF loc _ that(1)] that(2)
    by (auto simp: remoteTargets_def localTargets_def filter_empty_conv)
  with reply bind_destinations [OF assms] show ?thesis
    unfolding N(8,13,14) by (auto simp: answered_def)
qed

text \<open>A View that asks for the reply to a Delivery, and an Intent that gives it.\<close>

definition exampleReplySealed :: ViewAuthority where
  "exampleReplySealed = exampleSealed\<lparr>mv_replyTo := ''p1'',
     mv_replyTarget := \<lparr>targetSelf = False, targetAlias = ''bob''\<rparr>, mv_replyDelivery := exampleDigest CHR ''r''\<rparr>"

definition exampleReplySpec :: IntentSpec where
  "exampleReplySpec = exampleIntentSpec\<lparr>consequence := ConsequenceResolveDeclined,
     successors := [\<lparr>targetSelf = False, targetAlias = ''bob''\<rparr>], artifacts := [], causationHandles := []\<rparr>"

lemma exampleReply:
  "\<exists>i. NewAgentIntent exampleReplySpec = Inr i \<and> intent_ok i \<and> consequence i = ConsequenceResolveDeclined \<and>
     subjectHandling i = ''h1'' \<and> successors i = [\<lparr>targetSelf = False, targetAlias = ''bob''\<rparr>] \<and> artifacts i = [] \<and>
     causationHandles i = [] \<and> correlationHandle i = ''p1''"
proof -
  have "length (Marshal (enc_intent (intentToWire exampleReplySpec))) \<le> MaxIntentCanonicalBytes" by code_simp
  moreover have "kind exampleReplySpec \<noteq> [] \<and> agentDeclarable (consequence exampleReplySpec) \<and>
      validateIntentShape exampleReplySpec = None \<and> length (successors exampleReplySpec) \<le> MaxSuccessors \<and>
      list_all (\<lambda>t. \<not> targetIsZero t) (successors exampleReplySpec) \<and>
      distinct (map canonicalKey (successors exampleReplySpec)) \<and>
      length (artifacts exampleReplySpec) \<le> MaxArtifactInputs \<and>
      checkArtifactInputs {} (artifacts exampleReplySpec) = None \<and>
      normalizeHandles ''Intent causation'' (causationHandles exampleReplySpec) MaxCausationHandles = Inr []"
    by code_simp
  moreover have "exampleReplySpec\<lparr>causationHandles := []\<rparr> = exampleReplySpec" by (simp add: exampleReplySpec_def)
  ultimately obtain i where i: "NewAgentIntent exampleReplySpec = Inr i"
    using NewAgentIntent_InrI [of exampleReplySpec "[]"] by auto
  have "spec_ok exampleReplySpec" by code_simp
  then have "intent_ok i" using NewAgentIntent_again [OF i] spec_ok_intent [OF i] by (simp add: intent_ok_def)
  moreover have "consequence i = ConsequenceResolveDeclined" "subjectHandling i = ''h1''"
    "successors i = [\<lparr>targetSelf = False, targetAlias = ''bob''\<rparr>]" "artifacts i = []" "causationHandles i = []" "correlationHandle i = ''p1''"
    by (subst NewAgentIntent_Inr(11) [OF i], simp add: exampleReplySpec_def exampleIntentSpec_def IntentSpec.defs)+
  ultimately show ?thesis using i by blast
qed

lemma exampleReplySealed_ok: "view_sealed exampleReplySealed"
proof -
  have "view_ok exampleReplySealed" "load_ok (MachineViewSpec.truncate exampleReplySealed)"
    "att_id (mv_attachment exampleReplySealed) \<noteq> []"
    unfolding exampleReplySealed_def exampleSealed_def by code_simp+
  then show ?thesis by (simp add: view_sealed_def)
qed

theorem bind_keeps_responsibility_witness:
  "\<exists>i b. NewAgentIntent exampleReplySpec = Inr i \<and> bindIntent exampleReplySealed i ''op1'' [] = Inr b \<and>
     b_inReplyTo b = exampleDigest CHR ''r'' \<and> correlationHandle i = mv_replyTo exampleReplySealed \<and>
     map requested (b_targets b) = [mv_replyTarget exampleReplySealed]"
proof -
  obtain i where new: "NewAgentIntent exampleReplySpec = Inr i" and i: "intent_ok i"
      "consequence i = ConsequenceResolveDeclined" "subjectHandling i = ''h1''"
      "successors i = [\<lparr>targetSelf = False, targetAlias = ''bob''\<rparr>]" "artifacts i = []" "causationHandles i = []" "correlationHandle i = ''p1''"
    using exampleReply by blast
  let ?ts = "tl (mv_targets (exampleView ''att1''))" and ?e = "exampleRef ''e1''"
  have "ResolveSubject exampleReplySealed ''h1'' = Some (hd (mv_subjects (exampleView ''att1'')))" by code_simp
  then have subject: "bindSubjectOrReference exampleReplySealed i = Inr (Some (hd (mv_subjects (exampleView ''att1''))), None)"
    by (simp add: bindSubjectOrReference_Inr i consequence_defs)
  have targets: "bindTargets exampleReplySealed (successors i) = Inr ?ts" unfolding i by code_simp
  have arts: "bindArtifacts exampleReplySealed (artifacts i) ''op1'' [] = Inr []" unfolding i by code_simp
  have prov: "bindProvenance exampleReplySealed (causationHandles i) (correlationHandle i) = Inr ([], ?e)" unfolding i by code_simp
  have "ReplyContext exampleReplySealed = Some (''p1'', \<lparr>targetSelf = False, targetAlias = ''bob''\<rparr>, exampleDigest CHR ''r'')"
    "ResolveProvenance exampleReplySealed ''p1'' = Some ?e" "\<not> refIsZero ?e" "exampleDigest CHR ''r'' \<noteq> zeroDigest"
    "?ts = [\<lparr>requested = \<lparr>targetSelf = False, targetAlias = ''bob''\<rparr>, destination = TargetDestinationRemote,
       localPrincipal = [], remoteRoute = ''r1'', remoteAlias = ''bob''\<rparr>]"
    by code_simp+
  then have exact: "exactReply exampleReplySealed i ?ts ?e"
    by (simp add: exactReply_def i terminalConsequence_def targetIsZero_def)
  then have loc: "requireLocalResponsibility exampleReplySealed i ?ts ?e = None"
    by (simp add: requireLocalResponsibility_def)
  have "v_digest exampleReplySealed \<noteq> zeroDigest" "Allows exampleReplySealed (consequence i)" unfolding i by code_simp+
  then obtain b where b: "bindIntent exampleReplySealed i ''op1'' [] = Inr b"
      and reply: "b_inReplyTo b = answered exampleReplySealed i ?ts ?e"
    using bindIntent_ex [OF exampleReplySealed_ok i(1) _ _ _ _ subject targets arts prov loc] by (simp add: i) blast
  have "b_inReplyTo b = exampleDigest CHR ''r''" by (simp add: reply answered_def exact) (simp add: exampleReplySealed_def)
  moreover have "exampleDigest CHR ''r'' \<noteq> zeroDigest" by code_simp
  ultimately show ?thesis using new b bind_keeps_responsibility [OF b] by auto
qed

end
