(* ===== verification/Agency_Receipt.thy ===== *)
theory Agency_Receipt
  imports Agency_Event
begin

text \<open>
  Receipts (\<^verbatim>\<open>internal/agency/event_receipt.go\<close>, \<^verbatim>\<open>receipt_parse.go\<close>, \<^verbatim>\<open>agent_receipt.go\<close>): the durable
  outcome of one operation, its canonical encoding and reader, and the projection an Agent is shown.

  The results: every Receipt the constructors make is read back exactly from its bytes, so a replay
  returns what was recorded; and every such Receipt can be shown to an Agent, in a projection that says
  no more than the outcome, whether it is a replay, and the diagnostic of a refusal.
\<close>

section \<open>Receipts\<close>

definition MaxReceiptCanonicalBytes :: nat where "MaxReceiptCanonicalBytes = 4 * 1024"
definition MaxAgentReceiptCanonicalBytes :: nat where "MaxAgentReceiptCanonicalBytes = 4 * 1024"

datatype ReceiptOutcome = ReceiptOutcomeInvalid | ReceiptOutcomeAccepted | ReceiptOutcomeRejected

definition outcomeString :: "ReceiptOutcome \<Rightarrow> string" where
  "outcomeString o' =
     (case o' of ReceiptOutcomeAccepted \<Rightarrow> ''accepted'' | ReceiptOutcomeRejected \<Rightarrow> ''rejected''
      | ReceiptOutcomeInvalid \<Rightarrow> [])"

record Receipt =
  r_operationKey :: OperationKey
  r_requestDigest :: Digest
  r_outcome :: ReceiptOutcome
  r_recordedAt :: instant
  r_event :: EventRef
  r_code :: SemanticLabel
  r_diagnostic :: string
  r_canonical :: bytes
  r_digest :: Digest

record receiptWire =
  rw_version :: nat
  rw_operationKey :: string
  rw_requestDigest :: string
  rw_outcome :: string
  rw_recordedAt :: string
  rw_event :: "eventRefWire option"
  rw_code :: string
  rw_diagnostic :: string

definition receiptToWire :: "Receipt \<Rightarrow> receiptWire" where
  "receiptToWire r =
     \<lparr>rw_version = 1, rw_operationKey = r_operationKey r, rw_requestDigest = digestString (r_requestDigest r),
      rw_outcome = outcomeString (r_outcome r), rw_recordedAt = RFC3339Nano (r_recordedAt r),
      rw_event = (if refIsZero (r_event r) then None else Some (refWire (r_event r))),
      rw_code = r_code r, rw_diagnostic = r_diagnostic r\<rparr>"

definition enc_receipt :: "receiptWire \<Rightarrow> json" where
  "enc_receipt w =
     JObj ((''schema_version'', JNat (rw_version w)) # (''operation_key'', JStr (rw_operationKey w)) #
           (''request_digest'', JStr (rw_requestDigest w)) # (''outcome'', JStr (rw_outcome w)) #
           (''recorded_at'', JStr (rw_recordedAt w)) #
           omitempty ''event'' (rw_event w \<noteq> None) (enc_eventRef (the (rw_event w))) @
           omitempty ''code'' (rw_code w \<noteq> []) (JStr (rw_code w)) @
           omitempty ''diagnostic'' (rw_diagnostic w \<noteq> []) (JStr (rw_diagnostic w)))"

definition newReceipt ::
  "BoundIntent \<Rightarrow> ReceiptOutcome \<Rightarrow> EventRef \<Rightarrow> SemanticLabel \<Rightarrow> string \<Rightarrow> instant \<Rightarrow> Receipt result" where
  "newReceipt request outcome event label diagnostic recordedAt =
     (if b_operationKey request = [] \<or> b_digest request = zeroDigest
      then Inl (ErrInvalid ''Receipt'' ''complete request authority is required'')
      else
        bindE (canonicalTime ''Receipt recorded time'' recordedAt) (\<lambda>recorded.
          let receipt = \<lparr>r_operationKey = b_operationKey request, r_requestDigest = b_digest request,
                         r_outcome = outcome, r_recordedAt = recorded, r_event = event, r_code = label,
                         r_diagnostic = diagnostic, r_canonical = [], r_digest = zeroDigest\<rparr>;
              canonical_digest = canonicalJSON (enc_receipt (receiptToWire receipt))
          in Inr (receipt\<lparr>r_canonical := fst canonical_digest, r_digest := snd canonical_digest\<rparr>)))"

definition NewAcceptedReceipt :: "BoundIntent \<Rightarrow> Event \<Rightarrow> instant \<Rightarrow> Receipt result" where
  "NewAcceptedReceipt request event recordedAt =
     bindE (canonicalTime ''Receipt recorded time'' recordedAt) (\<lambda>recorded.
       if b_operationKey request = [] \<or> b_digest request = zeroDigest \<or>
          e_operationKey event \<noteq> b_operationKey request \<or> e_requestDigest event \<noteq> b_digest request \<or>
          e_digest event = zeroDigest
       then Inl (ErrInvariant ''accepted Receipt'' ''Event must be the accepted result of the exact operation'')
       else if recorded < e_acceptedAt event
       then Inl (ErrInvariant ''accepted Receipt'' ''recorded time must not precede Event acceptance'')
       else newReceipt request ReceiptOutcomeAccepted (eventRef event) [] [] recorded)"

definition NewRejectedReceipt :: "BoundIntent \<Rightarrow> SemanticLabel \<Rightarrow> string \<Rightarrow> instant \<Rightarrow> Receipt result" where
  "NewRejectedReceipt request label diagnostic recordedAt =
     (if label = [] then Inl (ErrInvalid ''rejected Receipt'' ''diagnostic code is required'')
      else if MaxDiagnosticBytes < length diagnostic
      then Inl (ErrLimit ''Receipt diagnostic'' (length diagnostic) MaxDiagnosticBytes)
      else case NewSemanticPayload diagnostic of
        Inl e \<Rightarrow> Inl (ErrInvalid ''Receipt diagnostic'' ''must be valid UTF-8 without NUL'')
      | Inr p \<Rightarrow> newReceipt request ReceiptOutcomeRejected zeroEventRef label diagnostic recordedAt)"

section \<open>Reading a Receipt\<close>

definition dec_receipt :: "json \<Rightarrow> receiptWire option" where
  "dec_receipt j =
     do { kvs \<leftarrow> dec_struct [''schema_version'', ''operation_key'', ''request_digest'', ''outcome'', ''recorded_at'',
                  ''event'', ''code'', ''diagnostic''] j;
          v \<leftarrow> field 0 (dec_uint 63) ''schema_version'' kvs;
          k \<leftarrow> field [] dec_string ''operation_key'' kvs;
          d \<leftarrow> field [] dec_string ''request_digest'' kvs;
          o' \<leftarrow> field [] dec_string ''outcome'' kvs;
          t \<leftarrow> field [] dec_string ''recorded_at'' kvs;
          e \<leftarrow> field None (dec_ptr dec_eventRef) ''event'' kvs;
          c \<leftarrow> field [] dec_string ''code'' kvs;
          g \<leftarrow> field [] dec_string ''diagnostic'' kvs;
          Some \<lparr>rw_version = v, rw_operationKey = k, rw_requestDigest = d, rw_outcome = o', rw_recordedAt = t,
                rw_event = e, rw_code = c, rw_diagnostic = g\<rparr> }"

definition receiptFromWire :: "receiptWire \<Rightarrow> Receipt result" where
  "receiptFromWire w =
     (if rw_version w \<noteq> 1 then Inl (ErrInvalid ''Receipt schema version'' ''must be 1'')
      else
        bindE (NewOperationKey (rw_operationKey w)) (\<lambda>operationKey.
        bindE (ParseDigest (rw_requestDigest w)) (\<lambda>requestDigest.
        bindE (parseCanonicalTime ''Receipt recorded time'' (rw_recordedAt w)) (\<lambda>recordedAt.
          let receipt = \<lparr>r_operationKey = operationKey, r_requestDigest = requestDigest,
                         r_outcome = ReceiptOutcomeInvalid, r_recordedAt = recordedAt, r_event = zeroEventRef,
                         r_code = [], r_diagnostic = [], r_canonical = [], r_digest = zeroDigest\<rparr>
          in if rw_outcome w = ''accepted''
             then case rw_event w of
                    None \<Rightarrow> Inl (ErrInvalid ''accepted Receipt'' ''requires one Event and no rejection fields'')
                  | Some ew \<Rightarrow>
                      if rw_code w \<noteq> [] \<or> rw_diagnostic w \<noteq> []
                      then Inl (ErrInvalid ''accepted Receipt'' ''requires one Event and no rejection fields'')
                      else bindE (parseEventRef ew) (\<lambda>event.
                           Inr (receipt\<lparr>r_outcome := ReceiptOutcomeAccepted, r_event := event\<rparr>))
             else if rw_outcome w = ''rejected''
             then if rw_event w \<noteq> None \<or> rw_code w = []
                  then Inl (ErrInvalid ''rejected Receipt'' ''requires a code and no Event'')
                  else bindE (NewSemanticLabel (rw_code w)) (\<lambda>label.
                       if MaxDiagnosticBytes < length (rw_diagnostic w)
                       then Inl (ErrLimit ''Receipt diagnostic'' (length (rw_diagnostic w)) MaxDiagnosticBytes)
                       else bindE (NewSemanticPayload (rw_diagnostic w)) (\<lambda>p.
                            Inr (receipt\<lparr>r_outcome := ReceiptOutcomeRejected, r_code := label,
                                         r_diagnostic := rw_diagnostic w\<rparr>)))
             else Inl (ErrInvalid ''Receipt outcome'' ''must be accepted or rejected'')))))"

definition ParseReceiptCanonicalJSON :: "bytes \<Rightarrow> Receipt result" where
  "ParseReceiptCanonicalJSON data =
     (if length data = 0 then Inl (ErrInvalid ''Receipt JSON'' ''must not be empty'')
      else if MaxReceiptCanonicalBytes < length data
      then Inl (ErrLimit ''Receipt JSON bytes'' (length data) MaxReceiptCanonicalBytes)
      else case Unmarshal data of None \<Rightarrow> Inl (ErrDecode ''Receipt JSON'') | Some j \<Rightarrow>
      case rejectDuplicateJSONKeys ''Receipt JSON'' j of Some e \<Rightarrow> Inl e | None \<Rightarrow>
      case dec_receipt j of None \<Rightarrow> Inl (ErrDecode ''Receipt'') | Some w \<Rightarrow>
      bindE (receiptFromWire w) (\<lambda>receipt.
        let canonical_digest = canonicalJSON (enc_receipt (receiptToWire receipt))
        in if fst canonical_digest \<noteq> data
           then Inl (ErrInvalid ''Receipt JSON'' ''is not the canonical Receipt encoding'')
           else Inr (receipt\<lparr>r_canonical := fst canonical_digest, r_digest := snd canonical_digest\<rparr>)))"

section \<open>What an Agent is shown\<close>

record AgentReceipt =
  ar_outcome :: ReceiptOutcome
  ar_replayed :: bool
  ar_diagnostic :: string
  ar_canonical :: bytes

definition enc_agentReceipt :: "string \<Rightarrow> bool \<Rightarrow> string \<Rightarrow> json" where
  "enc_agentReceipt outcome replayed diagnostic =
     JObj ((''schema'', JStr ''mnemon.agent.receipt'') # (''version'', JNat 1) #
           (''outcome'', JStr outcome) # (''replayed'', JBool replayed) #
           omitempty ''diagnostic'' (diagnostic \<noteq> []) (JStr diagnostic))"

definition ProjectAgentReceipt :: "Receipt \<Rightarrow> bool \<Rightarrow> AgentReceipt result" where
  "ProjectAgentReceipt receipt replayed =
     (case ParseReceiptCanonicalJSON (r_canonical receipt) of
        Inl e \<Rightarrow> Inl (ErrInvariant ''Agent Receipt'' ''source Receipt is not an intact canonical value'')
      | Inr parsed \<Rightarrow>
          if r_digest parsed \<noteq> r_digest receipt
          then Inl (ErrInvariant ''Agent Receipt'' ''source Receipt is not an intact canonical value'')
          else
            let canonicalBytes = fst (canonicalJSON (enc_agentReceipt (outcomeString (r_outcome receipt)) replayed
                  (if r_outcome receipt = ReceiptOutcomeRejected then r_diagnostic receipt else [])))
            in if MaxAgentReceiptCanonicalBytes < length canonicalBytes
               then Inl (ErrLimit ''Agent Receipt canonical bytes'' (length canonicalBytes) MaxAgentReceiptCanonicalBytes)
               else Inr \<lparr>ar_outcome = r_outcome receipt, ar_replayed = replayed,
                         ar_diagnostic = r_diagnostic receipt, ar_canonical = canonicalBytes\<rparr>)"

section \<open>Reading back what was recorded\<close>

lemma dec_enc_receipt: "rw_version w < 2 ^ 63 \<Longrightarrow> dec_receipt (enc_receipt w) = Some w"
  by (cases w; cases "rw_event w") (simp_all add: dec_receipt_def enc_receipt_def json_simps image_Un)

lemma unique_enc_receipt: "unique_keys (enc_receipt w)"
  by (simp add: enc_receipt_def keys_simps)

interpretation receipt_codec: canonical_codec enc_receipt dec_receipt "\<lambda>w. rw_version w < 2 ^ 63"
  by unfold_locales (rule dec_enc_receipt, assumption, rule unique_enc_receipt)

definition receipt_ok :: "Receipt \<Rightarrow> bool" where
  "receipt_ok r \<longleftrightarrow> handle_ok (r_operationKey r) \<and> digest_ok (r_requestDigest r) \<and> time_ok (r_recordedAt r) \<and>
     (r_outcome r = ReceiptOutcomeAccepted \<and> ref_ok (r_event r) \<and> r_code r = [] \<and> r_diagnostic r = [] \<or>
      r_outcome r = ReceiptOutcomeRejected \<and> r_event r = zeroEventRef \<and> label_ok (r_code r) \<and>
        payload_ok (r_diagnostic r) \<and> length (r_diagnostic r) \<le> MaxDiagnosticBytes) \<and>
     r_canonical r = Marshal (enc_receipt (receiptToWire r)) \<and> r_digest r = Sum (r_canonical r)"

lemma receipt_ok_valid:
  assumes "receipt_ok r"
  shows "json_ok (enc_receipt (receiptToWire r))" "length (r_canonical r) \<le> MaxReceiptCanonicalBytes"
proof -
  have tok: "ValidString (r_operationKey r)" "length (escape (r_operationKey r)) \<le> 192"
    "length (escape (digestString (r_requestDigest r))) \<le> 71"
    using assms by (auto simp: receipt_ok_def token_length digest_length digest_ok_def dest: token_ok_valid)
  have out: "is_ascii (outcomeString (r_outcome r))" "length (escape (outcomeString (r_outcome r))) \<le> 8"
    by (cases "r_outcome r"; simp add: outcomeString_def esc_ascii_def)+
  have ev: "rw_event (receiptToWire r) \<noteq> None \<Longrightarrow> ref_ok (r_event r) \<and> rw_event (receiptToWire r) = Some (refWire (r_event r))"
    using assms by (auto simp: receipt_ok_def receiptToWire_def split: if_splits)
  have code: "r_code r = [] \<or> label_ok (r_code r)" and diag: "ValidString (r_diagnostic r)" "length (r_diagnostic r) \<le> 512"
    using assms by (auto simp: receipt_ok_def payload_ok_def MaxDiagnosticBytes_def)
  have "json_ok (enc_eventRef (the (rw_event (receiptToWire r))))" if "rw_event (receiptToWire r) \<noteq> None"
    using ev [OF that] json_ok_eventRef by simp
  then show "json_ok (enc_receipt (receiptToWire r))"
    using tok out code diag
    by (auto simp: enc_receipt_def json_simps dest: token_ok_valid) (auto simp: receiptToWire_def dest: token_ok_valid)
  have 1: "members_bound (omitempty ''event'' (rw_event (receiptToWire r) \<noteq> None) (enc_eventRef (the (rw_event (receiptToWire r)))))
      \<le> length (escape ''event'') + 285 + 4"
    by (rule members_omit) (use ev size_ref in auto)
  have 2: "members_bound (omitempty ''code'' (r_code r \<noteq> []) (JStr (r_code r))) \<le> length (escape ''code'') + 98 + 4"
    by (rule members_omit) (use code token_length(3) in auto)
  have 3: "members_bound (omitempty ''diagnostic'' (r_diagnostic r \<noteq> []) (JStr (r_diagnostic r))) \<le> length (escape ''diagnostic'') + 3074 + 4"
    by (rule members_omit) (use diag length_escape [of "r_diagnostic r"] in simp)
  have "r_canonical r = Marshal (enc_receipt (receiptToWire r))" using assms by (simp add: receipt_ok_def)
  moreover have "length (Marshal (JNat 1)) = 1" by (simp add: JNat_def decimal.simps)
  ultimately show "length (r_canonical r) \<le> MaxReceiptCanonicalBytes"
    unfolding enc_receipt_def
    by (simp only:, intro order_trans [OF length_Marshal_JObj])
      (use 1 2 3 tok out length_RFC3339Nano_escape [of "r_recordedAt r"] in
        \<open>simp add: members_bound_simps esc_ascii_def MaxReceiptCanonicalBytes_def\<close>, simp add: receiptToWire_def)
qed

lemma receiptFromWire_toWire:
  assumes "receipt_ok r"
  shows "receiptFromWire (receiptToWire r) = Inr (r\<lparr>r_canonical := [], r_digest := zeroDigest\<rparr>)"
proof -
  have new: "NewOperationKey (r_operationKey r) = Inr (r_operationKey r)"
    "ParseDigest (digestString (r_requestDigest r)) = Inr (r_requestDigest r)"
    "parseCanonicalTime ''Receipt recorded time'' (RFC3339Nano (r_recordedAt r)) = Inr (r_recordedAt r)"
    using assms by (auto simp: receipt_ok_def constructor_Inr parseCanonicalTime_ok)
  consider (acc) "r_outcome r = ReceiptOutcomeAccepted" "ref_ok (r_event r)" "r_code r = []" "r_diagnostic r = []"
    | (rej) "r_outcome r = ReceiptOutcomeRejected" "r_event r = zeroEventRef" "label_ok (r_code r)"
        "payload_ok (r_diagnostic r)" "length (r_diagnostic r) \<le> MaxDiagnosticBytes"
    using assms by (auto simp: receipt_ok_def)
  then show ?thesis
  proof cases
    case acc
    then have "parseEventRef (refWire (r_event r)) = Inr (r_event r)" "\<not> refIsZero (r_event r)"
      by (simp_all add: parseEventRef_Inr ref_ok_nonzero)
    with acc show ?thesis by (simp add: receiptFromWire_def receiptToWire_def new outcomeString_def)
  next
    case rej
    then have "NewSemanticLabel (r_code r) = Inr (r_code r)" "NewSemanticPayload (r_diagnostic r) = Inr (r_diagnostic r)"
      "r_code r \<noteq> []"
      by (auto simp: constructor_Inr dest: token_okD)
    with rej show ?thesis by (simp add: receiptFromWire_def receiptToWire_def new outcomeString_def)
  qed
qed

lemma receiptToWire_update [simp]:
  "receiptToWire (r\<lparr>r_canonical := c, r_digest := d\<rparr>) = receiptToWire r"
  by (simp add: receiptToWire_def)

lemma ParseReceiptCanonicalJSON_ok:
  assumes "receipt_ok r"
  shows "ParseReceiptCanonicalJSON (r_canonical r) = Inr r"
proof -
  note v = receipt_ok_valid [OF assms]
  have can: "r_canonical r = Marshal (enc_receipt (receiptToWire r))" "r_digest r = Sum (r_canonical r)"
    using assms by (simp_all add: receipt_ok_def)
  have "dec_receipt (enc_receipt (receiptToWire r)) = Some (receiptToWire r)"
    by (rule dec_enc_receipt) (simp add: receiptToWire_def)
  moreover have "r_canonical r \<noteq> []" using Marshal_nonempty [OF v(1)] can by simp
  moreover have "r\<lparr>r_canonical := Marshal (enc_receipt (receiptToWire r)),
      r_digest := Sum (Marshal (enc_receipt (receiptToWire r)))\<rparr> = r"
    by (rule Receipt.equality) (simp_all add: can)
  ultimately show ?thesis
    using v(2) unfolding ParseReceiptCanonicalJSON_def
    by (simp add: can(1) Unmarshal_Marshal [OF v(1)] rejectDuplicateJSONKeys_def unique_enc_receipt
        receiptFromWire_toWire [OF assms])
qed

lemma newReceipt_ok:
  assumes "newReceipt b o' ev c d t = Inr r" "request_ok b"
    "o' = ReceiptOutcomeAccepted \<and> ref_ok ev \<and> c = [] \<and> d = [] \<or>
     o' = ReceiptOutcomeRejected \<and> ev = zeroEventRef \<and> label_ok c \<and> payload_ok d \<and> length d \<le> MaxDiagnosticBytes"
  shows "receipt_ok r"
proof -
  let ?r = "\<lparr>r_operationKey = b_operationKey b, r_requestDigest = b_digest b, r_outcome = o', r_recordedAt = t,
    r_event = ev, r_code = c, r_diagnostic = d, r_canonical = [], r_digest = zeroDigest\<rparr>"
  have t: "time_ok t" "b_digest b \<noteq> zeroDigest"
    and r: "r = ?r\<lparr>r_canonical := Marshal (enc_receipt (receiptToWire ?r)), r_digest := Sum (Marshal (enc_receipt (receiptToWire ?r)))\<rparr>"
    using assms(1) unfolding newReceipt_def guards Let_def canonicalTime_Inr canonicalJSON_simps by auto
  have wire: "receiptToWire r = receiptToWire ?r" unfolding r by (rule receiptToWire_update)
  have "handle_ok (b_operationKey b)" "digest_ok (b_digest b)"
    using assms(2) t by (simp_all add: request_ok_def bound_ok_def digest_ok_def)
  then show ?thesis
    unfolding receipt_ok_def wire using assms(3) t by (simp add: r)
qed

lemma NewAcceptedReceipt_ok:
  assumes "NewAcceptedReceipt b e t = Inr r" "request_ok b" "handle_ok (e_id e)" "length (e_digest e) = 32"
  shows "receipt_ok r"
  using assms unfolding NewAcceptedReceipt_def guards
  by (auto intro: newReceipt_ok simp: eventRef_def ref_ok_def digest_ok_def)

lemma NewRejectedReceipt_ok:
  assumes "NewRejectedReceipt b c d t = Inr r" "request_ok b" "label_ok c"
  shows "receipt_ok r"
  using assms unfolding NewRejectedReceipt_def guards
  by (auto intro: newReceipt_ok simp: constructor_Inr split: sum.splits)

section \<open>The properties of Receipts\<close>

text \<open>
  (C29) Replay returns what was recorded: whatever Receipt the constructors made for a well-formed
  request, accepted or refused, fits the bound of a Receipt and is read back, field for field, from its
  canonical bytes.
\<close>

theorem receipt_json_roundtrip:
  assumes "request_ok b"
    "NewAcceptedReceipt b e t = Inr r \<and> handle_ok (e_id e) \<and> length (e_digest e) = 32 \<or>
     NewRejectedReceipt b c d t = Inr r \<and> label_ok c"
  shows "ParseReceiptCanonicalJSON (r_canonical r) = Inr r"
  using assms NewAcceptedReceipt_ok NewRejectedReceipt_ok by (blast intro: ParseReceiptCanonicalJSON_ok)

lemma exampleRejected: "\<exists>b r. request_ok b \<and> NewRejectedReceipt b ''stale_view'' ''the View is stale'' 9 = Inr r"
proof -
  obtain b where b: "request_ok b" "b_digest b \<noteq> zeroDigest"
    using exampleRequest [OF _ exampleRefs_ok] by auto
  have "payload_ok ''the View is stale''" "(9 :: int) = 9 \<and> time_ok 9" by code_simp+
  then have "NewSemanticPayload ''the View is stale'' = Inr ''the View is stale''"
    "canonicalTime ''Receipt recorded time'' 9 = Inr 9"
    by (simp_all add: constructor_Inr canonicalTime_Inr)
  moreover have "b_operationKey b \<noteq> []" using b by (auto simp: request_ok_def bound_ok_def dest: token_okD)
  ultimately show ?thesis
    using b by (auto simp: NewRejectedReceipt_def newReceipt_def MaxDiagnosticBytes_def Let_def)
qed

theorem receipt_json_roundtrip_witness:
  "\<exists>b r. NewRejectedReceipt b ''stale_view'' ''the View is stale'' 9 = Inr r \<and> ParseReceiptCanonicalJSON (r_canonical r) = Inr r"
proof -
  obtain b r where r: "request_ok b" "NewRejectedReceipt b ''stale_view'' ''the View is stale'' 9 = Inr r"
    using exampleRejected by blast
  have "label_ok ''stale_view''" by code_simp
  with r show ?thesis
    using receipt_json_roundtrip [of b undefined 9 r "''stale_view''" "''the View is stale''"] by blast
qed

text \<open>
  (C30) What an Agent is shown: every Receipt the constructors made can be projected, within the bound,
  and the bytes shown are a function of the outcome, the replay flag and the diagnostic alone. They
  carry neither the operation, nor the request digest, nor a time, nor an Event.
\<close>

theorem agent_receipt_projection:
  assumes "receipt_ok r"
  shows "\<exists>a. ProjectAgentReceipt r replayed = Inr a \<and> ar_outcome a = r_outcome r \<and> ar_replayed a = replayed \<and>
     ar_diagnostic a = r_diagnostic r \<and> length (ar_canonical a) \<le> 4096 \<and>
     ar_canonical a = Marshal (enc_agentReceipt (outcomeString (r_outcome r)) replayed (r_diagnostic r))"
proof -
  have diag: "(if r_outcome r = ReceiptOutcomeRejected then r_diagnostic r else []) = r_diagnostic r"
    "length (r_diagnostic r) \<le> 512"
    using assms by (auto simp: receipt_ok_def MaxDiagnosticBytes_def)
  have 1: "members_bound (omitempty ''diagnostic'' (r_diagnostic r \<noteq> []) (JStr (r_diagnostic r))) \<le> length (escape ''diagnostic'') + 3074 + 4"
    by (rule members_omit) (use diag length_escape [of "r_diagnostic r"] in simp)
  have "length (escape (outcomeString (r_outcome r))) \<le> 8"
    by (cases "r_outcome r"; simp add: outcomeString_def esc_ascii_def)
  moreover have "length (Marshal (JNat 1)) = 1" by (simp add: JNat_def decimal.simps)
  ultimately have "length (Marshal (enc_agentReceipt (outcomeString (r_outcome r)) replayed (r_diagnostic r))) \<le> 4096"
    unfolding enc_agentReceipt_def
    by (intro order_trans [OF length_Marshal_JObj]) (use 1 in \<open>simp add: members_bound_simps esc_ascii_def\<close>)
  then show ?thesis
    unfolding ProjectAgentReceipt_def ParseReceiptCanonicalJSON_ok [OF assms] diag
    by (simp add: MaxAgentReceiptCanonicalBytes_def Let_def)
qed

theorem agent_receipt_projection_witness:
  "\<exists>r a. ProjectAgentReceipt r True = Inr a \<and> ar_diagnostic a = ''the View is stale'' \<and> length (ar_canonical a) \<le> 4096"
proof -
  obtain b r where b: "request_ok b" and r: "NewRejectedReceipt b ''stale_view'' ''the View is stale'' 9 = Inr r"
    using exampleRejected by blast
  have l: "label_ok ''stale_view''" by code_simp
  have "r_diagnostic r = ''the View is stale''"
    using r unfolding NewRejectedReceipt_def newReceipt_def guards Let_def by (auto simp: guards split: sum.splits)
  then show ?thesis
    using agent_receipt_projection [OF NewRejectedReceipt_ok [OF r b l], of True] by auto
qed

end
