(* ===== verification/Go_Base64.thy ===== *)
theory Go_Base64
  imports Agency_Value
begin

text \<open>
  \<^verbatim>\<open>base64.RawURLEncoding\<close> of Go's library, the encoding of the machine-made identifiers
  (\<^verbatim>\<open>randomIdentifier\<close> and \<^verbatim>\<open>deriveAttachmentBegin\<close> of \<^verbatim>\<open>internal/agency/authority\<close>): three bytes become four
  characters, a rest of one or two bytes becomes two or three, and there is no padding.

  An identifier must end with a letter or a digit, and the alphabet has two characters that are neither.
  The last character of a rest stands for few enough bits that it is never one of them, so every such
  identifier is well formed.
\<close>

definition base64_char :: "nat \<Rightarrow> char" where
  "base64_char n =
     (if n < 26 then char_of (65 + n)
      else if n < 52 then char_of (97 + (n - 26))
      else if n < 62 then char_of (48 + (n - 52))
      else if n = 62 then CHR ''-'' else CHR ''_'')"

fun RawURLEncoding :: "bytes \<Rightarrow> string" where
  "RawURLEncoding [] = []"
| "RawURLEncoding [a] =
     [base64_char (code a div 4), base64_char (code a mod 4 * 16)]"
| "RawURLEncoding [a, b] =
     [base64_char (code a div 4), base64_char (code a mod 4 * 16 + code b div 16),
      base64_char (code b mod 16 * 4)]"
| "RawURLEncoding (a # b # c # rest) =
     base64_char (code a div 4) # base64_char (code a mod 4 * 16 + code b div 16) #
     base64_char (code b mod 16 * 4 + code c div 64) # base64_char (code c mod 64) # RawURLEncoding rest"

abbreviation "alnum c \<equiv> isASCIILetter c False \<or> isASCIIDigit c"

lemma base64_char_cases: "n < 64 \<Longrightarrow> alnum (base64_char n) \<or> base64_char n \<in> {CHR ''-'', CHR ''_''}"
  by (auto simp: base64_char_def isASCIILetter_def isASCIIDigit_def)

lemma base64_char_alnum: "n < 62 \<Longrightarrow> alnum (base64_char n)"
  by (auto simp: base64_char_def isASCIILetter_def isASCIIDigit_def)

lemma tokenCharacters_later:
  "tokenCharacters False False s \<longleftrightarrow>
     (\<forall>c \<in> set s. alnum c \<or> c \<in> {CHR ''.'', CHR ''_'', CHR ''-'', CHR '':'', CHR ''/''})"
  by (induction s) auto

lemma sextets:
  "code a div 4 < 64" "code a mod 4 * 16 < 64" "code a mod 4 * 16 + code b div 16 < 64"
  "code b mod 16 * 4 < 62" "code b mod 16 * 4 < 64" "code b mod 16 * 4 + code c div 64 < 64" "code c mod 64 < 64"
proof -
  have m: "code x mod 4 < 4" "code x mod 16 < 16" "code x mod 64 < 64" "code x div 4 < 64" "code x div 16 < 16" "code x div 64 < 4" for x
    using code_less [of x] by (simp_all add: div_less_iff_less_mult)
  show "code a div 4 < 64" "code a mod 4 * 16 < 64" "code a mod 4 * 16 + code b div 16 < 64"
    "code b mod 16 * 4 < 62" "code b mod 16 * 4 < 64" "code b mod 16 * 4 + code c div 64 < 64" "code c mod 64 < 64"
    using m(1,4) [of a] m(2,5) [of b] m(3,6) [of c] by linarith+
qed

lemma RawURLEncoding_chars: "c \<in> set (RawURLEncoding bs) \<Longrightarrow> \<exists>n < 64. c = base64_char n"
  by (induction bs rule: RawURLEncoding.induct) (auto intro: sextets)

lemma length_RawURLEncoding: "length (RawURLEncoding bs) = (length bs * 4 + 2) div 3"
  by (induction bs rule: RawURLEncoding.induct) auto

lemma RawURLEncoding_Nil [simp]: "RawURLEncoding bs = [] \<longleftrightarrow> bs = []"
  by (cases bs rule: RawURLEncoding.cases) auto

lemma last_RawURLEncoding:
  "length bs mod 3 \<noteq> 0 \<Longrightarrow> alnum (last (RawURLEncoding bs))"
proof (induction bs rule: RawURLEncoding.induct)
  case (2 a)
  then show ?case by (simp add: base64_char_alnum)
next
  case (3 a b)
  then show ?case using sextets(4) [of b] by (simp add: base64_char_alnum)
next
  case (4 a b c rest)
  then have "rest \<noteq> []" by auto
  moreover have "length rest mod 3 \<noteq> 0" using 4(2) by (simp add: mod_Suc split: if_splits)
  ultimately show ?case using 4(1) by simp
qed auto

section \<open>Machine-made identifiers\<close>

text \<open>A prefix that starts with a letter or digit and a tail that ends with one.\<close>

lemma tokenCharacters_append:
  "tokenCharacters b l p \<Longrightarrow> p \<noteq> [] \<Longrightarrow> tokenCharacters False l q \<Longrightarrow> tokenCharacters b l (p @ q)"
proof (induction b l p rule: tokenCharacters.induct)
  case (2 b l c cs)
  then show ?case by (cases "cs = []") auto
qed simp

lemma suffix_identifier:
  assumes "tokenCharacters True False p" "p \<noteq> []" "tokenCharacters False False q" "q \<noteq> []" "alnum (last q)"
    "length p + length q \<le> MaxOpaqueHandleBytes"
  shows "handle_ok (p @ q)"
  using assms tokenCharacters_append [OF assms(1-3)] by (simp add: token_ok_def validateToken_def)

lemma base64_identifier:
  assumes "length bs mod 3 \<noteq> 0" "tokenCharacters True False p" "p \<noteq> []" "length p + (length bs * 4 + 2) div 3 \<le> MaxOpaqueHandleBytes"
  shows "handle_ok (p @ RawURLEncoding bs)"
proof -
  have "tokenCharacters False False (RawURLEncoding bs)"
    unfolding tokenCharacters_later using RawURLEncoding_chars base64_char_cases by fastforce
  moreover have "bs \<noteq> []" using assms(1) by auto
  ultimately show ?thesis
    using assms last_RawURLEncoding [OF assms(1)] by (intro suffix_identifier) (simp_all add: length_RawURLEncoding)
qed

lemma hex_identifier:
  assumes "ds \<noteq> []" "tokenCharacters True False p" "p \<noteq> []" "length p + 2 * length ds \<le> MaxOpaqueHandleBytes"
  shows "handle_ok (p @ hex_encode ds)"
proof -
  have chars: "\<forall>c \<in> set (hex_encode ds). alnum c"
    by (auto dest!: hex_encode_chars simp: is_lower_hex_def isASCIILetter_def isASCIIDigit_def is_digit_def)
  moreover have ne: "hex_encode ds \<noteq> []" using assms(1) length_hex_encode [of ds] by fastforce
  ultimately show ?thesis
    using assms last_in_set [OF ne] by (intro suffix_identifier) (auto simp: tokenCharacters_later length_hex_encode)
qed

lemma digest_identifier:
  assumes "length d = 32" "tokenCharacters True False p" "p \<noteq> []" "length p \<le> 100"
  shows "handle_ok (p @ digestString d)"
proof -
  have "tokenCharacters True False (p @ ''sha256:'')"
    by (rule tokenCharacters_append [OF assms(2,3)]) code_simp
  then have "handle_ok ((p @ ''sha256:'') @ hex_encode d)"
    using assms by (intro hex_identifier) (auto simp: MaxOpaqueHandleBytes_def)
  then show ?thesis by (simp add: digestString_def)
qed

end
