(* ===== verification/Authority_Store.thy ===== *)
theory Authority_Store
  imports Authority_Bind Agency_Receipt Go_Base64
begin

text \<open>
  The store of the local authority (\<^verbatim>\<open>internal/agency/authority/schema.sql\<close>, \<^verbatim>\<open>store.go\<close>, \<^verbatim>\<open>errors.go\<close>): one
  record per row of each table, a record with the tables, and the statements the code executes on them.

  A table is the list of its rows in the order of insertion. An \<^verbatim>\<open>INSERT\<close> that violates a key, a
  \<^verbatim>\<open>UNIQUE\<close> index, a \<^verbatim>\<open>CHECK\<close> or a foreign key (the connection turns foreign keys on) has no result,
  \<open>None\<close>; an \<^verbatim>\<open>UPDATE\<close> returns the number of rows it changed. A transaction is a function from store to
  store: a failure anywhere leaves the store as it was, which is what \<^verbatim>\<open>defer tx.Rollback()\<close> does.
  Identifiers, digests and times are the texts SQLite holds, so that every reader parses what it finds.
  Failures of the disk or of the connection are not modelled.

  The result of this theory is about the texts of times, which SQL compares as texts: their order is the
  order of the times.
\<close>

section \<open>Errors\<close>

datatype authorityError =
    ErrUnsupportedSchema | ErrWriterActive | ErrClosed | ErrPrincipalUnavailable | ErrPrincipalConflict
  | ErrAttachmentAuth | ErrAttachmentExpired | ErrAttachmentEnded | ErrOperationConflict
  | ErrCurrentUnavailable | ErrArtifactUnavailable | ErrReferenceUnavailable | ErrPeerRouteUnavailable
  | ErrPeerRouteConflict | ErrPeerRouteRevoked | ErrPeerAuthentication | ErrPeerInboxBound
  | ErrPeerDeliveryConflict | ErrPeerDeliveryExpired | ErrPeerDeliveryUnavailable
  | Problem string
  | Statement string
  | Agency string agencyError

type_synonym 'a outcome = "authorityError + 'a"

text \<open>A result of the package \<^verbatim>\<open>agency\<close>, wrapped under a prefix; and an error that replaces another.\<close>

definition wrap :: "string \<Rightarrow> 'a result \<Rightarrow> 'a outcome" where
  "wrap pre r = (case r of Inl e \<Rightarrow> Inl (Agency pre e) | Inr x \<Rightarrow> Inr x)"

definition orElse :: "authorityError \<Rightarrow> 'e + 'a \<Rightarrow> 'a outcome" where
  "orElse e r = (case r of Inl _ \<Rightarrow> Inl e | Inr x \<Rightarrow> Inr x)"

definition require :: "authorityError \<Rightarrow> bool \<Rightarrow> unit outcome" where
  "require e c = (if c then Inr () else Inl e)"

definition execute :: "string \<Rightarrow> 'a option \<Rightarrow> 'a outcome" where
  "execute pre r = (case r of None \<Rightarrow> Inl (Statement pre) | Some x \<Rightarrow> Inr x)"

lemma outcome_Inr [guards]:
  "wrap pre r = Inr x \<longleftrightarrow> r = Inr x" "orElse e r' = Inr x \<longleftrightarrow> r' = Inr x"
  "require e c = Inr u \<longleftrightarrow> c" "execute pre o' = Inr x \<longleftrightarrow> o' = Some x"
  by (auto simp: wrap_def orElse_def require_def execute_def split: sum.splits option.splits)

section \<open>Times\<close>

definition formatTime :: "instant \<Rightarrow> string" where
  "formatTime value = storeTimeLayout value"

definition parseTime :: "string \<Rightarrow> instant outcome" where
  "parseTime value =
     (case parseInstant value of
        None \<Rightarrow> Inl (Problem ''authority: stored time is not canonical'')
      | Some parsed \<Rightarrow>
          if formatTime parsed \<noteq> value then Inl (Problem ''authority: stored time is not canonical'')
          else Inr parsed)"

section \<open>The tables\<close>

record principalRow =
  pr_id :: string
  pr_createdAt :: string

record attachmentRow =
  at_id :: string
  at_principal :: string
  at_mode :: string
  at_credential :: string
  at_beginKey :: string
  at_beginRequest :: string
  at_issued :: string
  at_expires :: string
  at_ended :: "string option"

record artifactRow =
  ar_digest :: string
  ar_size :: int
  ar_verified :: string

record eventRow =
  ev_id :: string
  ev_digest :: string
  ev_sequence :: nat
  ev_source :: string
  ev_request :: string
  ev_depth :: nat
  ev_accepted :: string
  ev_json :: bytes

record routeRow =
  ro_id :: string
  ro_alias :: string
  ro_peer :: string
  ro_key :: bytes
  ro_address :: string
  ro_remoteAlias :: string
  ro_inboundAlias :: string
  ro_localTarget :: string
  ro_surrogate :: string
  ro_state :: string
  ro_enrolled :: string
  ro_revoked :: "string option"

record outboxRow =
  ob_id :: string
  ob_route :: string
  ob_event :: string
  ob_anchor :: "string option"
  ob_rootEvent :: "string option"
  ob_rootDigest :: "string option"
  ob_envelope :: string
  ob_json :: bytes
  ob_state :: string
  ob_expires :: string
  ob_created :: string
  ob_receiptDigest :: "string option"
  ob_receipt :: "bytes option"
  ob_signature :: "bytes option"
  ob_settled :: "string option"

record inboxRow =
  ib_id :: string
  ib_route :: string
  ib_inReplyTo :: "string option"
  ib_envelope :: string
  ib_json :: bytes
  ib_signature :: bytes
  ib_state :: string
  ib_expires :: string
  ib_received :: string
  ib_event :: "string option"
  ib_receiptDigest :: "string option"
  ib_receipt :: "bytes option"
  ib_settled :: "string option"

record operationRow =
  op_actor :: string
  op_key :: string
  op_request :: string
  op_outcome :: string
  op_event :: "string option"
  op_receiptDigest :: string
  op_receipt :: bytes
  op_recorded :: string

record currentRow =
  cu_attachment :: string
  cu_key :: string
  cu_request :: string
  cu_handle :: string
  cu_authorityDigest :: string
  cu_authority :: bytes
  cu_agentDigest :: string
  cu_agent :: bytes

record handlingRow =
  ha_id :: string
  ha_target :: string
  ha_head :: string
  ha_state :: string
  ha_outcome :: "string option"
  ha_claim :: "string option"
  ha_fence :: nat
  ha_until :: "string option"
  ha_created :: nat

record dispositionRow =
  di_key :: string
  di_kind :: string
  di_request :: string
  di_handling :: string
  di_attachment :: string
  di_fence :: nat
  di_until :: string
  di_outcomeDigest :: string
  di_outcome :: bytes
  di_recorded :: string

record referenceRow =
  re_key :: string
  re_head :: string
  re_state :: string
  re_artifact :: "string option"

record lineageRow =
  li_event :: string
  li_key :: string
  li_previous :: "string option"
  li_state :: string
  li_artifact :: "string option"

record Store =
  closed :: bool
  origin_sequence :: nat
  principals :: "principalRow list"
  attachments :: "attachmentRow list"
  verified_artifacts :: "artifactRow list"
  events :: "eventRow list"
  event_artifacts :: "(string \<times> string) list"
  peer_routes :: "routeRow list"
  peer_outbox :: "outboxRow list"
  peer_inbox :: "inboxRow list"
  operations :: "operationRow list"
  current_operations :: "currentRow list"
  handlings :: "handlingRow list"
  claim_dispositions :: "dispositionRow list"
  active_references :: "referenceRow list"
  reference_lineage :: "lineageRow list"

text \<open>The store \<^verbatim>\<open>openSchema\<close> creates.\<close>

definition emptyStore :: Store where
  "emptyStore =
     \<lparr>closed = False, origin_sequence = 0, principals = [], attachments = [], verified_artifacts = [],
      events = [], event_artifacts = [], peer_routes = [], peer_outbox = [], peer_inbox = [], operations = [],
      current_operations = [], handlings = [], claim_dispositions = [], active_references = [],
      reference_lineage = []\<rparr>"

definition Close :: "Store \<Rightarrow> Store" where
  "Close s = s\<lparr>closed := True\<rparr>"

definition requireOpen :: "Store \<Rightarrow> unit outcome" where
  "requireOpen s = require ErrClosed (\<not> closed s)"

text \<open>The clock is the time \<^verbatim>\<open>s.now()\<close> returned.\<close>

definition trustedNow :: "instant \<Rightarrow> instant outcome" where
  "trustedNow now =
     (if now = zeroTime then Inl (Problem ''authority: clock returned zero time'') else Inr now)"

section \<open>The constraints of the schema\<close>

text \<open>
  Each predicate takes the store, for the tables a foreign key names, and the rows the table is to have.
  A statement is refused when the rows it would leave violate the constraints of its table.
\<close>

definition digest_text :: "string \<Rightarrow> bool" where
  "digest_text s \<longleftrightarrow> length s = 71 \<and> take 7 s = ''sha256:'' \<and>
     list_all (\<lambda>c. c \<in> set ''0123456789abcdef'') (drop 7 s) \<and> s \<noteq> ''sha256:'' @ replicate 64 CHR ''0''"

definition principals_ok :: "principalRow list \<Rightarrow> bool" where
  "principals_ok rows \<longleftrightarrow> distinct (map pr_id rows)"

definition principal_ids :: "Store \<Rightarrow> string set" where
  "principal_ids s = set (map pr_id (principals s))"

definition attachment_check :: "attachmentRow \<Rightarrow> bool" where
  "attachment_check r \<longleftrightarrow> at_mode r = ''interactive'' \<and> digest_text (at_credential r) \<and> digest_text (at_beginRequest r) \<and>
     at_issued r < at_expires r \<and> (case at_ended r of None \<Rightarrow> True | Some ended \<Rightarrow> at_issued r \<le> ended)"

definition attachments_ok :: "Store \<Rightarrow> attachmentRow list \<Rightarrow> bool" where
  "attachments_ok s rows \<longleftrightarrow> distinct (map at_id rows) \<and> distinct (map at_beginKey rows) \<and>
     list_all attachment_check rows \<and> list_all (\<lambda>r. at_principal r \<in> principal_ids s) rows \<and>
     distinct (map at_principal (filter (\<lambda>r. at_ended r = None) rows))"

definition attachment_ids :: "Store \<Rightarrow> string set" where
  "attachment_ids s = set (map at_id (attachments s))"

definition event_ids :: "Store \<Rightarrow> string set" where
  "event_ids s = set (map ev_id (events s))"

definition handling_check :: "handlingRow \<Rightarrow> bool" where
  "handling_check r \<longleftrightarrow>
     (ha_state r = ''open'' \<and> ha_outcome r = None \<or>
      ha_state r = ''terminal'' \<and> ha_outcome r \<in> Some ` {''completed'', ''declined'', ''unresolved''}) \<and>
     (ha_claim r = None \<and> ha_until r = None \<or>
      ha_state r = ''open'' \<and> ha_claim r \<noteq> None \<and> ha_until r \<noteq> None \<and> 0 < ha_fence r) \<and>
     ha_fence r < 2 ^ 63 \<and> 0 < ha_created r \<and> ha_created r < 2 ^ 63"

definition handlings_ok :: "Store \<Rightarrow> handlingRow list \<Rightarrow> bool" where
  "handlings_ok s rows \<longleftrightarrow> distinct (map ha_id rows) \<and> list_all handling_check rows \<and>
     distinct (List.map_filter ha_claim rows) \<and>
     list_all (\<lambda>r. ha_target r \<in> principal_ids s \<and> ha_head r \<in> event_ids s \<and>
                   (case ha_claim r of None \<Rightarrow> True | Some a \<Rightarrow> a \<in> attachment_ids s)) rows"

definition handling_ids :: "Store \<Rightarrow> string set" where
  "handling_ids s = set (map ha_id (handlings s))"

definition disposition_check :: "dispositionRow \<Rightarrow> bool" where
  "disposition_check r \<longleftrightarrow> di_kind r \<in> {''expiry'', ''boundary_end''} \<and> 0 < di_fence r \<and> di_fence r < 2 ^ 63"

definition dispositions_ok :: "Store \<Rightarrow> dispositionRow list \<Rightarrow> bool" where
  "dispositions_ok s rows \<longleftrightarrow> distinct (map di_key rows) \<and> distinct (map (\<lambda>r. (di_handling r, di_fence r)) rows) \<and>
     list_all disposition_check rows \<and>
     list_all (\<lambda>r. di_handling r \<in> handling_ids s \<and> di_attachment r \<in> attachment_ids s) rows"

definition artifact_digests :: "Store \<Rightarrow> string set" where
  "artifact_digests s = set (map ar_digest (verified_artifacts s))"

definition artifacts_ok :: "artifactRow list \<Rightarrow> bool" where
  "artifacts_ok rows \<longleftrightarrow> distinct (map ar_digest rows) \<and> list_all (\<lambda>r. 0 \<le> ar_size r) rows"

definition events_ok :: "Store \<Rightarrow> eventRow list \<Rightarrow> bool" where
  "events_ok s rows \<longleftrightarrow> distinct (map ev_id rows) \<and> distinct (map ev_digest rows) \<and> distinct (map ev_sequence rows) \<and>
     list_all (\<lambda>r. 0 < ev_sequence r \<and> ev_sequence r < 2 ^ 63 \<and> ev_depth r \<le> 32 \<and> ev_source r \<in> principal_ids s) rows"

definition event_artifacts_ok :: "Store \<Rightarrow> (string \<times> string) list \<Rightarrow> bool" where
  "event_artifacts_ok s rows \<longleftrightarrow> distinct rows \<and>
     list_all (\<lambda>(e, d). e \<in> event_ids s \<and> d \<in> artifact_digests s) rows"

text \<open>\<^verbatim>\<open>length\<close> of a text: the characters before the first NUL.\<close>

definition text_length :: "string \<Rightarrow> nat" where
  "text_length t =
     length (filter (\<lambda>c. \<not> (128 \<le> code c \<and> code c < 192)) (takeWhile (\<lambda>c. c \<noteq> CHR 0x00) t))"

definition routes_ok :: "Store \<Rightarrow> routeRow list \<Rightarrow> bool" where
  "routes_ok s rows \<longleftrightarrow> distinct (map ro_id rows) \<and> distinct (map ro_alias rows) \<and> distinct (map ro_peer rows) \<and>
     distinct (map ro_surrogate rows) \<and>
     list_all (\<lambda>r. length (ro_key r) = 32 \<and> 1 \<le> text_length (ro_address r) \<and> text_length (ro_address r) \<le> 512 \<and>
       (ro_state r = ''active'' \<and> ro_revoked r = None \<or> ro_state r = ''revoked'' \<and> ro_revoked r \<noteq> None) \<and>
       ro_localTarget r \<in> principal_ids s \<and> ro_surrogate r \<in> principal_ids s) rows"

definition route_ids :: "Store \<Rightarrow> string set" where
  "route_ids s = set (map ro_id (peer_routes s))"

definition outbox_check :: "outboxRow \<Rightarrow> bool" where
  "outbox_check r \<longleftrightarrow>
     (case (ob_anchor r, ob_rootEvent r, ob_rootDigest r) of
        (None, None, None) \<Rightarrow> True | (Some _, Some _, Some d) \<Rightarrow> digest_text d | _ \<Rightarrow> False) \<and>
     (ob_state r = ''pending'' \<and> ob_receiptDigest r = None \<and> ob_receipt r = None \<and> ob_signature r = None \<and> ob_settled r = None \<or>
      ob_state r = ''settled'' \<and> ob_receiptDigest r \<noteq> None \<and> ob_receipt r \<noteq> None \<and>
        map_option length (ob_signature r) = Some 64 \<and> ob_settled r \<noteq> None \<or>
      ob_state r = ''expired'' \<and> ob_receiptDigest r = None \<and> ob_receipt r = None \<and> ob_signature r = None \<and> ob_settled r \<noteq> None)"

definition outbox_ok :: "Store \<Rightarrow> outboxRow list \<Rightarrow> bool" where
  "outbox_ok s rows \<longleftrightarrow> distinct (map ob_id rows) \<and> distinct (map ob_envelope rows) \<and>
     distinct (map (\<lambda>r. (ob_event r, ob_route r)) rows) \<and> list_all outbox_check rows \<and>
     list_all (\<lambda>r. ob_route r \<in> route_ids s \<and> ob_event r \<in> event_ids s \<and>
                   (case ob_anchor r of None \<Rightarrow> True | Some h \<Rightarrow> h \<in> handling_ids s)) rows"

definition inbox_check :: "inboxRow \<Rightarrow> bool" where
  "inbox_check r \<longleftrightarrow> length (ib_signature r) = 64 \<and>
     (ib_state r = ''staged'' \<and> ib_event r = None \<and> ib_receiptDigest r = None \<and> ib_receipt r = None \<and> ib_settled r = None \<or>
      ib_state r = ''settled'' \<and> ib_receiptDigest r \<noteq> None \<and> ib_receipt r \<noteq> None \<and> ib_settled r \<noteq> None \<or>
      ib_state r = ''expired'' \<and> ib_event r = None \<and> ib_receiptDigest r = None \<and> ib_receipt r = None \<and> ib_settled r \<noteq> None)"

definition inbox_ok :: "Store \<Rightarrow> inboxRow list \<Rightarrow> bool" where
  "inbox_ok s rows \<longleftrightarrow> distinct (map ib_id rows) \<and> list_all inbox_check rows \<and>
     distinct (List.map_filter ib_event rows) \<and>
     distinct (List.map_filter (\<lambda>r. if ib_event r = None then None else ib_inReplyTo r) rows) \<and>
     list_all (\<lambda>r. ib_route r \<in> route_ids s \<and> (case ib_event r of None \<Rightarrow> True | Some e \<Rightarrow> e \<in> event_ids s)) rows"

definition operations_ok :: "Store \<Rightarrow> operationRow list \<Rightarrow> bool" where
  "operations_ok s rows \<longleftrightarrow> distinct (map (\<lambda>r. (op_actor r, op_key r)) rows) \<and>
     list_all (\<lambda>r. (op_outcome r = ''accepted'' \<and> op_event r \<noteq> None \<or> op_outcome r = ''rejected'' \<and> op_event r = None) \<and>
       op_actor r \<in> principal_ids s \<and> (case op_event r of None \<Rightarrow> True | Some e \<Rightarrow> e \<in> event_ids s)) rows"

definition currents_ok :: "Store \<Rightarrow> currentRow list \<Rightarrow> bool" where
  "currents_ok s rows \<longleftrightarrow> distinct (map (\<lambda>r. (cu_attachment r, cu_key r)) rows) \<and>
     distinct (map (\<lambda>r. (cu_attachment r, cu_handle r)) rows) \<and> list_all (\<lambda>r. cu_attachment r \<in> attachment_ids s) rows"

definition reference_check :: "string \<Rightarrow> string option \<Rightarrow> Store \<Rightarrow> bool" where
  "reference_check state artifact s \<longleftrightarrow>
     (state = ''active'' \<and> artifact \<noteq> None \<or> state = ''retracted'' \<and> artifact = None) \<and>
     (case artifact of None \<Rightarrow> True | Some d \<Rightarrow> d \<in> artifact_digests s)"

definition references_ok :: "Store \<Rightarrow> referenceRow list \<Rightarrow> bool" where
  "references_ok s rows \<longleftrightarrow> distinct (map re_key rows) \<and>
     list_all (\<lambda>r. re_head r \<in> event_ids s \<and> reference_check (re_state r) (re_artifact r) s) rows"

definition lineage_ok :: "Store \<Rightarrow> lineageRow list \<Rightarrow> bool" where
  "lineage_ok s rows \<longleftrightarrow> distinct (map li_event rows) \<and>
     list_all (\<lambda>r. li_event r \<in> event_ids s \<and> (case li_previous r of None \<Rightarrow> True | Some e \<Rightarrow> e \<in> event_ids s) \<and>
       reference_check (li_state r) (li_artifact r) s) rows"

text \<open>The whole schema.\<close>

definition store_ok :: "Store \<Rightarrow> bool" where
  "store_ok s \<longleftrightarrow> principals_ok (principals s) \<and> attachments_ok s (attachments s) \<and> artifacts_ok (verified_artifacts s) \<and>
     events_ok s (events s) \<and> event_artifacts_ok s (event_artifacts s) \<and> routes_ok s (peer_routes s) \<and>
     outbox_ok s (peer_outbox s) \<and> inbox_ok s (peer_inbox s) \<and> operations_ok s (operations s) \<and>
     currents_ok s (current_operations s) \<and> handlings_ok s (handlings s) \<and> dispositions_ok s (claim_dispositions s) \<and>
     references_ok s (active_references s) \<and> lineage_ok s (reference_lineage s)"

lemma store_ok_empty: "store_ok emptyStore"
  by code_simp

text \<open>\<^verbatim>\<open>UPDATE ... WHERE\<close>: the rows it leaves, and how many it changed.\<close>

definition update_where :: "('r \<Rightarrow> bool) \<Rightarrow> ('r \<Rightarrow> 'r) \<Rightarrow> 'r list \<Rightarrow> 'r list" where
  "update_where P f rows = map (\<lambda>r. if P r then f r else r) rows"

definition matching :: "('r \<Rightarrow> bool) \<Rightarrow> 'r list \<Rightarrow> nat" where
  "matching P rows = length (filter P rows)"

definition insert_principal :: "principalRow \<Rightarrow> Store \<Rightarrow> Store option" where
  "insert_principal r s =
     (let rows = principals s @ [r] in if principals_ok rows then Some (s\<lparr>principals := rows\<rparr>) else None)"

definition insert_attachment :: "attachmentRow \<Rightarrow> Store \<Rightarrow> Store option" where
  "insert_attachment r s =
     (let rows = attachments s @ [r] in if attachments_ok s rows then Some (s\<lparr>attachments := rows\<rparr>) else None)"

definition update_attachments ::
  "(attachmentRow \<Rightarrow> bool) \<Rightarrow> (attachmentRow \<Rightarrow> attachmentRow) \<Rightarrow> Store \<Rightarrow> (Store \<times> nat) option" where
  "update_attachments P f s =
     (let rows = update_where P f (attachments s)
      in if attachments_ok s rows then Some (s\<lparr>attachments := rows\<rparr>, matching P (attachments s)) else None)"

definition insert_handling :: "handlingRow \<Rightarrow> Store \<Rightarrow> Store option" where
  "insert_handling r s =
     (let rows = handlings s @ [r] in if handlings_ok s rows then Some (s\<lparr>handlings := rows\<rparr>) else None)"

definition update_handlings ::
  "(handlingRow \<Rightarrow> bool) \<Rightarrow> (handlingRow \<Rightarrow> handlingRow) \<Rightarrow> Store \<Rightarrow> (Store \<times> nat) option" where
  "update_handlings P f s =
     (let rows = update_where P f (handlings s)
      in if handlings_ok s rows then Some (s\<lparr>handlings := rows\<rparr>, matching P (handlings s)) else None)"

definition insert_disposition :: "dispositionRow \<Rightarrow> Store \<Rightarrow> Store option" where
  "insert_disposition r s =
     (let rows = claim_dispositions s @ [r]
      in if dispositions_ok s rows then Some (s\<lparr>claim_dispositions := rows\<rparr>) else None)"

definition insert_artifact :: "artifactRow \<Rightarrow> Store \<Rightarrow> Store option" where
  "insert_artifact r s =
     (let rows = verified_artifacts s @ [r] in if artifacts_ok rows then Some (s\<lparr>verified_artifacts := rows\<rparr>) else None)"

definition insert_event :: "eventRow \<Rightarrow> Store \<Rightarrow> Store option" where
  "insert_event r s = (let rows = events s @ [r] in if events_ok s rows then Some (s\<lparr>events := rows\<rparr>) else None)"

definition insert_event_artifact :: "string \<times> string \<Rightarrow> Store \<Rightarrow> Store option" where
  "insert_event_artifact r s =
     (let rows = event_artifacts s @ [r]
      in if event_artifacts_ok s rows then Some (s\<lparr>event_artifacts := rows\<rparr>) else None)"

definition insert_route :: "routeRow \<Rightarrow> Store \<Rightarrow> Store option" where
  "insert_route r s =
     (let rows = peer_routes s @ [r] in if routes_ok s rows then Some (s\<lparr>peer_routes := rows\<rparr>) else None)"

definition update_routes :: "(routeRow \<Rightarrow> bool) \<Rightarrow> (routeRow \<Rightarrow> routeRow) \<Rightarrow> Store \<Rightarrow> (Store \<times> nat) option" where
  "update_routes P f s =
     (let rows = update_where P f (peer_routes s)
      in if routes_ok s rows then Some (s\<lparr>peer_routes := rows\<rparr>, matching P (peer_routes s)) else None)"

definition insert_outbox :: "outboxRow \<Rightarrow> Store \<Rightarrow> Store option" where
  "insert_outbox r s =
     (let rows = peer_outbox s @ [r] in if outbox_ok s rows then Some (s\<lparr>peer_outbox := rows\<rparr>) else None)"

definition update_outbox :: "(outboxRow \<Rightarrow> bool) \<Rightarrow> (outboxRow \<Rightarrow> outboxRow) \<Rightarrow> Store \<Rightarrow> (Store \<times> nat) option" where
  "update_outbox P f s =
     (let rows = update_where P f (peer_outbox s)
      in if outbox_ok s rows then Some (s\<lparr>peer_outbox := rows\<rparr>, matching P (peer_outbox s)) else None)"

definition insert_operation :: "operationRow \<Rightarrow> Store \<Rightarrow> Store option" where
  "insert_operation r s =
     (let rows = operations s @ [r] in if operations_ok s rows then Some (s\<lparr>operations := rows\<rparr>) else None)"

definition insert_current :: "currentRow \<Rightarrow> Store \<Rightarrow> Store option" where
  "insert_current r s =
     (let rows = current_operations s @ [r] in if currents_ok s rows then Some (s\<lparr>current_operations := rows\<rparr>) else None)"

definition insert_reference :: "referenceRow \<Rightarrow> Store \<Rightarrow> Store option" where
  "insert_reference r s =
     (let rows = active_references s @ [r]
      in if references_ok s rows then Some (s\<lparr>active_references := rows\<rparr>) else None)"

definition update_references ::
  "(referenceRow \<Rightarrow> bool) \<Rightarrow> (referenceRow \<Rightarrow> referenceRow) \<Rightarrow> Store \<Rightarrow> (Store \<times> nat) option" where
  "update_references P f s =
     (let rows = update_where P f (active_references s)
      in if references_ok s rows then Some (s\<lparr>active_references := rows\<rparr>, matching P (active_references s)) else None)"

definition insert_lineage :: "lineageRow \<Rightarrow> Store \<Rightarrow> Store option" where
  "insert_lineage r s =
     (let rows = reference_lineage s @ [r]
      in if lineage_ok s rows then Some (s\<lparr>reference_lineage := rows\<rparr>) else None)"

lemmas statement_defs = insert_principal_def insert_attachment_def update_attachments_def insert_handling_def
  update_handlings_def insert_disposition_def insert_artifact_def insert_event_def insert_event_artifact_def
  insert_route_def update_routes_def insert_outbox_def update_outbox_def insert_operation_def insert_current_def
  insert_reference_def update_references_def insert_lineage_def

lemma update_where_simps [simp]:
  "length (update_where P f rows) = length rows"
  "(\<And>r. g (f r) = g r) \<Longrightarrow> map g (update_where P f rows) = map g rows"
  by (simp_all add: update_where_def)

text \<open>Lookups and counts after an update.\<close>

lemma find_append: "List.find P (xs @ ys) = (case List.find P xs of None \<Rightarrow> List.find P ys | Some x \<Rightarrow> Some x)"
  by (induction xs) auto

lemma find_update_where:
  "(\<And>r. P (f r) = P r) \<Longrightarrow> List.find P (update_where Q f rows) = map_option (\<lambda>r. if Q r then f r else r) (List.find P rows)"
  by (induction rows) (auto simp: update_where_def)

lemma mapE_Inl: "x \<in> set xs \<Longrightarrow> f x = Inl e \<Longrightarrow> \<exists>e'. mapE f xs = Inl e'"
  by (induction xs) (auto simp: bindE_def split: sum.splits)

lemma distinct_matching:
  assumes "distinct (map f rows)" "r \<in> set rows" "P r" "\<And>q. P q \<Longrightarrow> f q = f r"
  shows "matching P rows = 1"
proof -
  have "P q \<longleftrightarrow> r = q" if "q \<in> set rows" for q
    using that assms(2,3) assms(4) [of q] filter_map_distinct_keys [OF assms(1), of q r] by blast
  then have "filter P rows = filter ((=) r) rows" by (intro filter_cong) simp_all
  moreover have "length (filter ((=) r) rows) = 1"
    using assms(1,2) by (simp add: distinct_map distinct_length_filter)
  ultimately show ?thesis by (simp add: matching_def)
qed

lemma list_all_update_where:
  "list_all C rows \<Longrightarrow> (\<And>r. P r \<Longrightarrow> C r \<Longrightarrow> C (f r)) \<Longrightarrow> list_all C (update_where P f rows)"
  by (auto simp: list_all_iff update_where_def)

lemma filter_update_where:
  "(\<And>r. P r \<Longrightarrow> \<not> Q (f r)) \<Longrightarrow> length (filter Q (update_where P f rows)) \<le> length (filter Q rows)"
  by (induction rows) (auto simp: update_where_def)

text \<open>The store a statement leaves.\<close>

lemma insert_effect:
  "insert_principal p s = Some t \<Longrightarrow> t = s\<lparr>principals := principals s @ [p]\<rparr>"
  "insert_attachment a s = Some t \<Longrightarrow> t = s\<lparr>attachments := attachments s @ [a]\<rparr>"
  "insert_route r s = Some t \<Longrightarrow> t = s\<lparr>peer_routes := peer_routes s @ [r]\<rparr>"
  "insert_disposition d s = Some t \<Longrightarrow> t = s\<lparr>claim_dispositions := claim_dispositions s @ [d]\<rparr>"
  by (auto simp: statement_defs Let_def split: if_splits)

lemma update_effect:
  "update_routes P f s = Some (t, n) \<Longrightarrow>
     t = s\<lparr>peer_routes := update_where P f (peer_routes s)\<rparr> \<and> n = matching P (peer_routes s)"
  "update_outbox Q g s = Some (t, n) \<Longrightarrow>
     t = s\<lparr>peer_outbox := update_where Q g (peer_outbox s)\<rparr> \<and> n = matching Q (peer_outbox s)"
  "update_attachments A h s = Some (t, n) \<Longrightarrow>
     t = s\<lparr>attachments := update_where A h (attachments s)\<rparr> \<and> n = matching A (attachments s)"
  "update_handlings H k s = Some (t, n) \<Longrightarrow>
     t = s\<lparr>handlings := update_where H k (handlings s)\<rparr> \<and> n = matching H (handlings s)"
  by (auto simp: statement_defs Let_def split: if_splits)

section \<open>What a statement keeps\<close>

text \<open>
  The identifiers other tables refer to. They only grow, and a statement that changes none of them keeps
  the constraints of every table but its own, which it checks.
\<close>

definition grows :: "Store \<Rightarrow> Store \<Rightarrow> bool" where
  "grows s t \<longleftrightarrow> principal_ids s \<subseteq> principal_ids t \<and> attachment_ids s \<subseteq> attachment_ids t \<and> event_ids s \<subseteq> event_ids t \<and>
     route_ids s \<subseteq> route_ids t \<and> artifact_digests s \<subseteq> artifact_digests t \<and>
     handling_ids s \<subseteq> handling_ids t"

lemma grows_refl [simp]: "grows s s"
  by (simp add: grows_def)

lemma grows_trans: "grows s t \<Longrightarrow> grows t u \<Longrightarrow> grows s u"
  unfolding grows_def by blast

lemma tables_grow:
  assumes "grows s t"
  shows "attachments_ok s as \<Longrightarrow> attachments_ok t as" "events_ok s es \<Longrightarrow> events_ok t es"
    "event_artifacts_ok s eas \<Longrightarrow> event_artifacts_ok t eas" "routes_ok s rs \<Longrightarrow> routes_ok t rs"
    "outbox_ok s os \<Longrightarrow> outbox_ok t os" "inbox_ok s is \<Longrightarrow> inbox_ok t is" "operations_ok s ops \<Longrightarrow> operations_ok t ops"
    "currents_ok s cs \<Longrightarrow> currents_ok t cs" "handlings_ok s hs \<Longrightarrow> handlings_ok t hs"
    "dispositions_ok s ds \<Longrightarrow> dispositions_ok t ds" "references_ok s fs \<Longrightarrow> references_ok t fs"
    "lineage_ok s ls \<Longrightarrow> lineage_ok t ls"
  using assms unfolding grows_def
  by (fastforce simp: attachments_ok_def events_ok_def event_artifacts_ok_def routes_ok_def outbox_ok_def inbox_ok_def
      operations_ok_def currents_ok_def handlings_ok_def dispositions_ok_def references_ok_def lineage_ok_def
      reference_check_def list_all_iff split: option.splits)+

lemma store_keepI:
  assumes "grows s t" "principals_ok (principals t)" "artifacts_ok (verified_artifacts t)"
    "attachments_ok s (attachments t)" "events_ok s (events t)" "event_artifacts_ok s (event_artifacts t)"
    "routes_ok s (peer_routes t)" "outbox_ok s (peer_outbox t)" "inbox_ok s (peer_inbox t)"
    "operations_ok s (operations t)" "currents_ok s (current_operations t)" "handlings_ok s (handlings t)"
    "dispositions_ok s (claim_dispositions t)" "references_ok s (active_references t)" "lineage_ok s (reference_lineage t)"
  shows "store_ok t \<and> grows s t"
  using assms tables_grow [OF assms(1)] by (simp add: store_ok_def)

lemmas ids_defs = principal_ids_def attachment_ids_def event_ids_def route_ids_def artifact_digests_def handling_ids_def

lemma insert_keeps:
  assumes "store_ok s"
  shows "insert_principal pr s = Some t \<Longrightarrow> store_ok t \<and> grows s t"
    "insert_attachment row s = Some t \<Longrightarrow> store_ok t \<and> grows s t"
    "insert_handling ha s = Some t \<Longrightarrow> store_ok t \<and> grows s t"
    "insert_disposition di s = Some t \<Longrightarrow> store_ok t \<and> grows s t"
    "insert_artifact ar s = Some t \<Longrightarrow> store_ok t \<and> grows s t"
    "insert_event ev s = Some t \<Longrightarrow> store_ok t \<and> grows s t"
    "insert_event_artifact ea s = Some t \<Longrightarrow> store_ok t \<and> grows s t"
    "insert_route ro s = Some t \<Longrightarrow> store_ok t \<and> grows s t"
    "insert_outbox ob s = Some t \<Longrightarrow> store_ok t \<and> grows s t"
    "insert_operation oper s = Some t \<Longrightarrow> store_ok t \<and> grows s t"
    "insert_current cu s = Some t \<Longrightarrow> store_ok t \<and> grows s t"
    "insert_reference re s = Some t \<Longrightarrow> store_ok t \<and> grows s t"
    "insert_lineage li s = Some t \<Longrightarrow> store_ok t \<and> grows s t"
  using assms [unfolded store_ok_def]
  by - (rule store_keepI; auto simp: statement_defs Let_def grows_def ids_defs split: if_splits)+

lemma update_keeps:
  assumes "store_ok s"
  shows "update_attachments P fa s = Some (t, n) \<Longrightarrow> (\<And>r. at_id (fa r) = at_id r) \<Longrightarrow> store_ok t \<and> grows s t"
    "update_handlings Q fh s = Some (t, n) \<Longrightarrow> (\<And>r. ha_id (fh r) = ha_id r) \<Longrightarrow> store_ok t \<and> grows s t"
    "update_routes R fr s = Some (t, n) \<Longrightarrow> (\<And>r. ro_id (fr r) = ro_id r) \<Longrightarrow> store_ok t \<and> grows s t"
    "update_outbox U fo s = Some (t, n) \<Longrightarrow> store_ok t \<and> grows s t"
    "update_references F fe s = Some (t, n) \<Longrightarrow> store_ok t \<and> grows s t"
  using assms [unfolded store_ok_def]
  by - (rule store_keepI; auto simp: statement_defs Let_def grows_def ids_defs
      simp flip: set_map simp del: set_map split: if_splits)+

section \<open>The order of times\<close>

lemma append_less_iff:
  "length a = length b \<Longrightarrow> a @ c < b @ d \<longleftrightarrow> a < b \<or> a = b \<and> c < d" for a b c d :: "'a::linorder list"
  by (induction a b rule: list_induct2) auto

lemma digit_less: "a < 10 \<Longrightarrow> b < 10 \<Longrightarrow> digit a < digit b \<longleftrightarrow> a < b"
  by (simp add: less_char_def digit_def)

lemma fixed_less: "n < 10 ^ w \<Longrightarrow> m < 10 ^ w \<Longrightarrow> fixed w n < fixed w m \<longleftrightarrow> n < m"
proof (induction w arbitrary: n m)
  case (Suc w)
  have eq: "fixed w (n div 10) = fixed w (m div 10) \<longleftrightarrow> n div 10 = m div 10"
    using digits_value_fixed [of "n div 10" w] digits_value_fixed [of "m div 10" w] Suc.prems
    by (metis div_less_iff_less_mult power_Suc2 zero_less_numeral)
  have "fixed w (n div 10) < fixed w (m div 10) \<longleftrightarrow> n div 10 < m div 10"
    using Suc.prems by (intro Suc.IH) (simp_all add: div_less_iff_less_mult mult.commute)
  then have "fixed (Suc w) n < fixed (Suc w) m \<longleftrightarrow>
      n div 10 < m div 10 \<or> n div 10 = m div 10 \<and> n mod 10 < m mod 10"
    by (simp add: append_less_iff digit_less eq)
  also have "\<dots> \<longleftrightarrow> n < m"
    using div_mult_mod_eq [of n 10] div_mult_mod_eq [of m 10] mod_less_divisor [of 10 n] mod_less_divisor [of 10 m]
    by linarith
  finally show ?case .
qed simp

lemma daysThrough_mono: "a \<le> b \<Longrightarrow> daysThrough a \<le> daysThrough b"
  by (rule lift_Suc_mono_le [of daysThrough]) (simp_all add: daysThrough_Suc)

text \<open>A later day has a later date.\<close>

lemma daysOf_Some:
  assumes "daysOf y m d = Some n"
  shows "1 \<le> y" "1 \<le> m" "m \<le> 12" "1 \<le> d" "d \<le> monthDays y ! (m - 1)"
    "n = daysThrough (y - 1) + sum_list (take (m - 1) (monthDays y)) + (d - 1)" "n < daysThrough y"
proof -
  show d: "1 \<le> y" "1 \<le> m" "m \<le> 12" "1 \<le> d" "d \<le> monthDays y ! (m - 1)"
    "n = daysThrough (y - 1) + sum_list (take (m - 1) (monthDays y)) + (d - 1)"
    using assms by (auto simp: daysOf_def split: if_splits)
  have "m - 1 < length (monthDays y)" using d by (simp add: monthDays_def)
  then have "monthDays y = take (m - 1) (monthDays y) @ monthDays y ! (m - 1) # drop (Suc (m - 1)) (monthDays y)"
    by (rule id_take_nth_drop)
  then have "sum_list (take (m - 1) (monthDays y)) + monthDays y ! (m - 1) \<le> sum_list (monthDays y)"
    by (metis add.assoc le_add1 sum_list.Cons sum_list.append)
  moreover have "daysThrough y = daysThrough (y - 1) + sum_list (monthDays y)"
    using d(1) daysThrough_Suc [of "y - 1"] by (simp add: sum_monthDays)
  moreover have "d - 1 < monthDays y ! (m - 1)" using d(4,5) by simp
  ultimately show "n < daysThrough y" using d(6) by linarith
qed

lemma month_sum_mono: "m \<le> m' \<Longrightarrow> sum_list (take m (xs :: nat list)) \<le> sum_list (take m' xs)"
  by (metis le_iff_add sum_list.append take_add)

lemma month_sum_Suc: "m < length xs \<Longrightarrow> sum_list (take (Suc m) xs) = sum_list (take m xs) + xs ! m" for xs :: "nat list"
  by (simp add: take_Suc_conv_app_nth)

lemma date_less:
  assumes "daysOf y m d = Some n" "daysOf y' m' d' = Some n'" "n < n'"
  shows "y < y' \<or> y = y' \<and> (m < m' \<or> m = m' \<and> d < d')"
proof -
  note D = daysOf_Some [OF assms(1)] and D' = daysOf_Some [OF assms(2)]
  have "y \<le> y'"
  proof (rule ccontr)
    assume "\<not> y \<le> y'"
    then have "daysThrough y' \<le> daysThrough (y - 1)" by (intro daysThrough_mono) simp
    then show False using D(6) D'(7) assms(3) by simp
  qed
  moreover have "m \<le> m'" if "y = y'"
  proof (rule ccontr)
    assume "\<not> m \<le> m'"
    then have "Suc (m' - 1) \<le> m - 1" using D'(2) by simp
    moreover have "m' - 1 < length (monthDays y)" using D'(2,3) by (simp add: monthDays_def)
    ultimately have "sum_list (take (m' - 1) (monthDays y)) + monthDays y ! (m' - 1) \<le> sum_list (take (m - 1) (monthDays y))"
      using month_sum_mono [of "Suc (m' - 1)" "m - 1" "monthDays y"] by (simp add: month_sum_Suc)
    moreover have "d' - 1 < monthDays y ! (m' - 1)" using D'(4,5) that by simp
    ultimately show False using D(6) D'(6) [folded that] assms(3) by linarith
  qed
  moreover have "d < d'" if "y = y'" "m = m'"
    using D(4,6) [unfolded that] D'(4,6) assms(3) by linarith
  ultimately show ?thesis by linarith
qed

lemma year_bound:
  assumes "daysOf y m d = Some n" "n < 3650000"
  shows "y < 10 ^ 4"
proof (rule ccontr)
  assume "\<not> y < 10 ^ 4"
  then have "daysThrough 9999 \<le> daysThrough (y - 1)" by (intro daysThrough_mono) simp
  then show False using daysOf_Some(6) [OF assms(1)] assms(2) by (simp add: daysThrough_def)
qed


lemma dateText_less:
  assumes "a < b" "b < 3650000"
  shows "dateText a < dateText b"
proof -
  obtain y m d where A: "dateOf a = (y, m, d)" using prod_cases3 by blast
  obtain y' m' d' where B: "dateOf b = (y', m', d')" using prod_cases3 by blast
  note DA = daysOf_dateOf [OF A] and DB = daysOf_dateOf [OF B]
  have "y < 10 ^ 4" "m < 10 ^ 2" "d < 10 ^ 2" using DA assms year_bound [of y m d a] by auto
  moreover have "y' < 10 ^ 4" "m' < 10 ^ 2" "d' < 10 ^ 2" using DB assms year_bound [of y' m' d' b] by auto
  moreover have "y < y' \<or> y = y' \<and> (m < m' \<or> m = m' \<and> d < d')"
    using DA DB assms(1) date_less [of y m d a y' m' d' b] by simp
  ultimately show ?thesis
    by (auto simp: dateText_def A B append_less_iff fixed_less)
qed

lemma clock_less:
  assumes "a < b" "b < 86400"
  shows "clock a < clock b"
proof -
  have "a div 3600 < 10 ^ 2" "b div 3600 < 10 ^ 2" using assms by simp_all
  moreover have "n div 60 mod 60 < 10 ^ 2" "n mod 60 < 10 ^ 2" for n :: nat
    by (simp_all add: less_trans [OF mod_less_divisor])
  moreover have "a div 3600 < b div 3600 \<or> a div 3600 = b div 3600 \<and>
      (a div 60 mod 60 < b div 60 mod 60 \<or> a div 60 mod 60 = b div 60 mod 60 \<and> a mod 60 < b mod 60)"
  proof -
    have split: "n = 3600 * (n div 3600) + 60 * (n div 60 mod 60) + n mod 60" for n :: nat
    proof -
      have "n div 60 div 60 = n div 3600" by (simp add: div_mult2_eq [symmetric])
      then show ?thesis using div_mult_mod_eq [of n 60] div_mult_mod_eq [of "n div 60" 60] by linarith
    qed
    have "a div 3600 \<le> b div 3600" "a div 60 mod 60 < 60" "b div 60 mod 60 < 60" "a mod 60 < 60" "b mod 60 < 60"
      using assms(1) by (simp_all add: div_le_mono)
    then show ?thesis using split [of a] split [of b] assms(1) by linarith
  qed
  ultimately show ?thesis by (auto simp: clock_def append_less_iff fixed_less)
qed

lemma formatTime_less:
  assumes "formattable t" "formattable u" "t < u"
  shows "formatTime t < formatTime u"
proof -
  have t: "instantOf (dayOf t) (secOf t) (nanoOf t) = t" and u: "instantOf (dayOf u) (secOf u) (nanoOf u) = u"
    using assms instantOf_parts by (auto simp: formattable_def)
  have n: "nanoOf t < 10 ^ 9" "nanoOf u < 10 ^ 9" "secOf t < 86400" "secOf u < 86400"
    by (rule nanoOf_less secOf_less)+
  have eq: "int d * nsPerDay + int s * second + int k < int d' * nsPerDay + int s' * second + int k' \<Longrightarrow>
      s < 86400 \<Longrightarrow> s' < 86400 \<Longrightarrow> k < 10 ^ 9 \<Longrightarrow> k' < 10 ^ 9 \<Longrightarrow>
      d < d' \<or> d = d' \<and> (s < s' \<or> s = s' \<and> k < k')" for d s k d' s' k' :: nat
    unfolding nsPerDay_def by (simp, linarith)
  have "dayOf t < dayOf u \<or> dayOf t = dayOf u \<and> (secOf t < secOf u \<or> secOf t = secOf u \<and> nanoOf t < nanoOf u)"
    using assms(3) by (intro eq) (use t u n in \<open>simp_all add: instantOf_def algebra_simps\<close>)
  moreover have "length (dateText d) = 10" "length (clock s) = 8" for d s
    by (simp_all add: dateText_def clock_def split: prod.splits)
  ultimately show ?thesis
    using assms(1,2) n
    by (auto simp: formatTime_def storeTimeLayout_def append_less_iff fixed_less formattable_def
        intro: dateText_less clock_less)
qed

lemma formatTime_order:
  assumes "formattable t" "formattable u"
  shows "formatTime t < formatTime u \<longleftrightarrow> t < u" "formatTime t \<le> formatTime u \<longleftrightarrow> t \<le> u" "formatTime t = formatTime u \<longleftrightarrow> t = u"
  using formatTime_less [OF assms] formatTime_less [OF assms(2,1)] by (metis less_asym linorder_less_linear linorder_not_le)+

lemma parseTime_formatTime: "formattable t \<Longrightarrow> parseTime (formatTime t) = Inr t"
  by (simp add: parseTime_def formatTime_def parseInstant_store)

lemma parseTime_Inr: "parseTime s = Inr t \<Longrightarrow> formatTime t = s"
  by (auto simp: parseTime_def split: option.splits if_splits)

text \<open>
  The store compares times as texts: a claim has expired when its text is not above the text of now,
  an Attachment must not end before it began. For all times with a date Go can format in four digits of
  the year, the order of the texts is the order of the times, equal texts are equal times, and a stored
  time is read back.
\<close>

theorem time_text_order:
  assumes "formattable t" "formattable u"
  shows "(formatTime t < formatTime u \<longleftrightarrow> t < u) \<and> (formatTime t \<le> formatTime u \<longleftrightarrow> t \<le> u) \<and>
    (formatTime t = formatTime u \<longleftrightarrow> t = u) \<and> parseTime (formatTime t) = Inr t"
  using formatTime_order [OF assms] parseTime_formatTime [OF assms(1)] by blast

theorem time_text_order_witness:
  "formatTime 999999999 < formatTime 1000000000 \<and> formatTime 0 \<noteq> formatTime 1000000000 \<and>
   parseTime (formatTime 0) = Inr 0"
proof -
  have f: "formattable 999999999" "formattable 1000000000" "formattable 0" by (rule formattable_int64; simp)+
  show ?thesis using time_text_order [OF f(1,2)] time_text_order [OF f(3,2)] by simp
qed

end
