(* ===== verification/Authority_Claim.thy ===== *)
theory Authority_Claim
  imports Authority_Store "HOL-Library.Product_Lexorder"
begin

text \<open>
  Claims on Handlings (\<^verbatim>\<open>internal/agency/authority/claim_disposition.go\<close>, the claiming half of \<^verbatim>\<open>current.go\<close>,
  \<^verbatim>\<open>event_projection.go\<close> and \<^verbatim>\<open>terminalObservationRevisionTx\<close>): an Attachment occupies at most one Handling of
  its Principal, under a fence that grows with every claim; a claim ends when it expires or when the
  boundary of its Attachment ends, and each end leaves a disposition.
\<close>

section \<open>The end of a claim\<close>

definition MaxClaimExpirySettlementsPerCurrent :: int where
  "MaxClaimExpirySettlementsPerCurrent = 16"

definition claimExpiryOperationDomain :: string where
  "claimExpiryOperationDomain = ''mnemon.claim-expiry.operation.v1'' @ [CHR 0x00]"

definition claimBoundaryEndOperationDomain :: string where
  "claimBoundaryEndOperationDomain = ''mnemon.claim-boundary-end.operation.v1'' @ [CHR 0x00]"

record expiredClaim =
  ec_handling :: HandlingID
  ec_attachment :: AttachmentID
  ec_fence :: "64 word"
  ec_until :: instant

definition enc_claimRequest :: "string \<Rightarrow> expiredClaim \<Rightarrow> json" where
  "enc_claimRequest schema claim =
     JObj [(''schema'', JStr schema), (''handling'', JStr (ec_handling claim)),
           (''attachment'', JStr (ec_attachment claim)), (''fence'', JNat (unat (ec_fence claim))),
           (''claim_until'', JStr (formatTime (ec_until claim)))]"

record claimExpiryOutcomeWire =
  co_schema :: string
  co_key :: string
  co_request :: string
  co_outcome :: string
  co_recorded :: string

definition enc_claimOutcome :: "claimExpiryOutcomeWire \<Rightarrow> json" where
  "enc_claimOutcome w =
     JObj [(''schema'', JStr (co_schema w)), (''operation_key'', JStr (co_key w)),
           (''request_digest'', JStr (co_request w)), (''outcome'', JStr (co_outcome w)),
           (''recorded_at'', JStr (co_recorded w))]"

definition dec_claimOutcome :: "json \<Rightarrow> claimExpiryOutcomeWire option" where
  "dec_claimOutcome j =
     do { kvs \<leftarrow> dec_struct [''schema'', ''operation_key'', ''request_digest'', ''outcome'', ''recorded_at''] j;
          s \<leftarrow> field [] dec_string ''schema'' kvs;
          k \<leftarrow> field [] dec_string ''operation_key'' kvs;
          r \<leftarrow> field [] dec_string ''request_digest'' kvs;
          c \<leftarrow> field [] dec_string ''outcome'' kvs;
          t \<leftarrow> field [] dec_string ''recorded_at'' kvs;
          Some \<lparr>co_schema = s, co_key = k, co_request = r, co_outcome = c, co_recorded = t\<rparr> }"

definition scanExpiredClaim :: "handlingRow \<Rightarrow> expiredClaim outcome" where
  "scanExpiredClaim r =
     (case (ha_claim r, ha_until r) of
        (Some attachmentValue, Some untilValue) \<Rightarrow>
          bindE (orElse (Problem ''claim expiry: corrupt Handling ID'') (NewHandlingID (ha_id r))) (\<lambda>handling.
          bindE (orElse (Problem ''claim expiry: corrupt claim authority'') (NewAttachmentID attachmentValue)) (\<lambda>attachment.
          bindE (require (Problem ''claim expiry: corrupt claim authority'') (ha_fence r \<noteq> 0)) (\<lambda>_.
          bindE (parseTime untilValue) (\<lambda>claimUntil.
            Inr \<lparr>ec_handling = handling, ec_attachment = attachment, ec_fence = of_nat (ha_fence r),
                 ec_until = claimUntil\<rparr>))))
      | _ \<Rightarrow> Inl (Statement ''claim expiry: scan''))"

definition expiredFor :: "AgentPrincipalID \<Rightarrow> instant \<Rightarrow> handlingRow \<Rightarrow> bool" where
  "expiredFor owner now r \<longleftrightarrow> ha_target r = owner \<and> ha_state r = ''open'' \<and>
     (case ha_until r of None \<Rightarrow> False | Some u \<Rightarrow> u \<le> formatTime now)"

text \<open>The claims that are due, the oldest first.\<close>

definition due :: "AgentPrincipalID \<Rightarrow> instant \<Rightarrow> Store \<Rightarrow> handlingRow list" where
  "due owner now s = sort_key (\<lambda>r. (the (ha_until r), ha_id r)) (filter (expiredFor owner now) (handlings s))"

definition loadExpiredClaimsTx :: "AgentPrincipalID \<Rightarrow> instant \<Rightarrow> int \<Rightarrow> Store \<Rightarrow> expiredClaim list outcome" where
  "loadExpiredClaimsTx owner now limit s = mapE scanExpiredClaim (take (nat limit) (due owner now s))"

definition claimIdentity ::
  "string \<Rightarrow> string \<Rightarrow> string \<Rightarrow> string \<Rightarrow> expiredClaim \<Rightarrow> (OperationKey \<times> Digest) outcome" where
  "claimIdentity schema domain head problem claim =
     (let request = Marshal (enc_claimRequest schema claim); keyDigest = Sum (domain @ request)
      in bindE (wrap problem (NewOperationKey (head @ digestString keyDigest))) (\<lambda>key. Inr (key, Sum request)))"

definition claimExpiryIdentity :: "expiredClaim \<Rightarrow> (OperationKey \<times> Digest) outcome" where
  "claimExpiryIdentity =
     claimIdentity ''mnemon.claim-expiry'' claimExpiryOperationDomain ''claim-expiry:'' ''claim expiry: operation key''"

definition validateClaimExpiryOutcome :: "bytes \<Rightarrow> expiredClaim \<Rightarrow> OperationKey \<Rightarrow> Digest \<Rightarrow> string \<Rightarrow> bool" where
  "validateClaimExpiryOutcome value claim key requestDigest recordedValue =
     (case Unmarshal value of None \<Rightarrow> False | Some j \<Rightarrow>
      case dec_claimOutcome j of None \<Rightarrow> False | Some outcome \<Rightarrow>
        Marshal (enc_claimOutcome outcome) = value \<and>
        co_schema outcome = ''mnemon.claim-expiry-outcome'' \<and> co_key outcome = key \<and>
        co_request outcome = digestString requestDigest \<and> co_outcome outcome = ''claim_released'' \<and>
        co_recorded outcome = recordedValue \<and>
        (case parseTime recordedValue of Inl e \<Rightarrow> False | Inr recordedAt \<Rightarrow> \<not> recordedAt < ec_until claim))"

definition occupied_by :: "expiredClaim \<Rightarrow> handlingRow \<Rightarrow> bool" where
  "occupied_by claim r \<longleftrightarrow> ha_id r = ec_handling claim \<and> ha_state r = ''open'' \<and>
     ha_claim r = Some (ec_attachment claim) \<and> ha_fence r = unat (ec_fence claim) \<and>
     ha_until r = Some (formatTime (ec_until claim))"

definition replayClaimExpiryTx :: "expiredClaim \<Rightarrow> OperationKey \<Rightarrow> Digest \<Rightarrow> Store \<Rightarrow> bool outcome" where
  "replayClaimExpiryTx claim key requestDigest s =
     (case List.find (\<lambda>d. di_key d = key \<and> di_kind d = ''expiry'') (claim_dispositions s) of
        None \<Rightarrow> Inr False
      | Some d \<Rightarrow>
          if di_request d \<noteq> digestString requestDigest then Inl ErrOperationConflict
          else if di_handling d \<noteq> ec_handling claim \<or> di_attachment d \<noteq> ec_attachment claim \<or>
                  di_fence d \<noteq> unat (ec_fence claim) \<or> di_until d \<noteq> formatTime (ec_until claim)
          then Inl (Problem ''claim expiry: replay authority diverges'')
          else if ParseDigest (di_outcomeDigest d) \<noteq> Inr (Sum (di_outcome d)) \<or>
                  \<not> validateClaimExpiryOutcome (di_outcome d) claim key requestDigest (di_recorded d)
          then Inl (Problem ''claim expiry: corrupt replay outcome'')
          else if list_ex (occupied_by claim) (handlings s)
          then Inl (Problem ''claim expiry: replay outcome exists without released claim'')
          else Inr True)"

definition releaseClaim :: "handlingRow \<Rightarrow> handlingRow" where
  "releaseClaim r = r\<lparr>ha_claim := None, ha_until := None\<rparr>"

definition dispositionOf :: "string \<Rightarrow> string \<Rightarrow> instant \<Rightarrow> expiredClaim \<Rightarrow> OperationKey \<Rightarrow> Digest \<Rightarrow> dispositionRow" where
  "dispositionOf dkind schema now claim key requestDigest =
     (let outcome = Marshal (enc_claimOutcome \<lparr>co_schema = schema, co_key = key, co_request = digestString requestDigest,
                               co_outcome = ''claim_released'', co_recorded = formatTime now\<rparr>)
      in \<lparr>di_key = key, di_kind = dkind, di_request = digestString requestDigest, di_handling = ec_handling claim,
          di_attachment = ec_attachment claim, di_fence = unat (ec_fence claim),
          di_until = formatTime (ec_until claim), di_outcomeDigest = digestString (Sum outcome),
          di_outcome = outcome, di_recorded = formatTime now\<rparr>)"

definition insertClaimExpiryTx :: "instant \<Rightarrow> expiredClaim \<Rightarrow> OperationKey \<Rightarrow> Digest \<Rightarrow> Store \<Rightarrow> Store outcome" where
  "insertClaimExpiryTx now claim key requestDigest s =
     execute ''claim expiry: persist outcome''
       (insert_disposition (dispositionOf ''expiry'' ''mnemon.claim-expiry-outcome'' now claim key requestDigest) s)"

definition settleClaimExpiryTx :: "instant \<Rightarrow> expiredClaim \<Rightarrow> Store \<Rightarrow> Store outcome" where
  "settleClaimExpiryTx now claim s =
     bindE (claimExpiryIdentity claim) (\<lambda>(key, requestDigest).
     bindE (replayClaimExpiryTx claim key requestDigest s) (\<lambda>found.
     if found then Inr s
     else
       bindE (execute ''claim expiry: clear occupancy''
               (update_handlings (\<lambda>r. occupied_by claim r \<and> formatTime (ec_until claim) \<le> formatTime now) releaseClaim s)) (\<lambda>(s, rows).
       bindE (require (Problem ''claim expiry: exact claim changed before settlement'') (rows = 1)) (\<lambda>_.
       insertClaimExpiryTx now claim key requestDigest s))))"

fun settleClaims :: "instant \<Rightarrow> expiredClaim list \<Rightarrow> Store \<Rightarrow> Store outcome" where
  "settleClaims now [] s = Inr s"
| "settleClaims now (claim # claims) s = bindE (settleClaimExpiryTx now claim s) (settleClaims now claims)"

definition settleExpiredClaimsTx :: "AgentPrincipalID \<Rightarrow> instant \<Rightarrow> int \<Rightarrow> Store \<Rightarrow> Store outcome" where
  "settleExpiredClaimsTx owner now limit s =
     (if limit \<le> 0 then Inl (Problem ''claim expiry: positive settlement bound is required'')
      else if owner = [] then Inl (Problem ''claim expiry: Principal is required'')
      else bindE (loadExpiredClaimsTx owner now limit s) (\<lambda>claims. settleClaims now claims s))"

definition settleClaimBoundaryEndTx :: "instant \<Rightarrow> expiredClaim \<Rightarrow> Store \<Rightarrow> Store outcome" where
  "settleClaimBoundaryEndTx now claim s =
     bindE (claimIdentity ''mnemon.claim-boundary-end'' claimBoundaryEndOperationDomain ''claim-boundary-end:''
              ''claim boundary end: operation key'' claim) (\<lambda>(key, requestDigest).
     bindE (execute ''claim boundary end: clear occupancy'' (update_handlings (occupied_by claim) releaseClaim s)) (\<lambda>(s, rows).
     bindE (require (Problem ''claim boundary end: exact claim changed before settlement'') (rows = 1)) (\<lambda>_.
     execute ''claim boundary end: persist outcome''
       (insert_disposition
         (dispositionOf ''boundary_end'' ''mnemon.claim-boundary-end-outcome'' now claim key requestDigest) s))))"

section \<open>Stored Events\<close>

record storedEventDetails =
  sd_ref :: EventRef
  sd_kind :: SemanticLabel
  sd_payload :: SemanticPayload
  sd_artifacts :: "Digest list"
  sd_causation :: "EventRef list"
  sd_correlation :: EventRef
  sd_consequence :: Consequence
  sd_inReplyTo :: DeliveryID

definition loadEventArtifactsTx :: "EventID \<Rightarrow> Store \<Rightarrow> Digest list outcome" where
  "loadEventArtifactsTx eventID s =
     mapE (\<lambda>value. orElse (Problem ''current View: corrupt Event Artifact digest'') (ParseDigest value))
       (sort (map snd (filter (\<lambda>x. fst x = eventID) (event_artifacts s))))"

definition validateStoredEventAuthority :: "Event \<Rightarrow> eventRow \<Rightarrow> unit outcome" where
  "validateStoredEventAuthority event row =
     (if e_id event \<noteq> ev_id row \<or> unat (e_sequence event) \<noteq> ev_sequence row \<or> unat (e_depth event) \<noteq> ev_depth row \<or>
         e_source event \<noteq> ev_source row \<or> digestString (e_requestDigest event) \<noteq> ev_request row
      then Inl (Problem ''current View: Event authority columns diverge from canonical bytes'')
      else if parseTime (ev_accepted row) \<noteq> Inr (e_acceptedAt event)
      then Inl (Problem ''current View: Event accepted time diverges from canonical bytes'')
      else Inr ())"

definition inspectStoredEventDetails :: "eventRow \<Rightarrow> (storedEventDetails \<times> Digest list) outcome" where
  "inspectStoredEventDetails row =
     bindE (orElse (Problem ''current View: corrupt Event bytes'') (ParseDigest (ev_digest row))) (\<lambda>digest.
     bindE (require (Problem ''current View: corrupt Event bytes'') (Sum (ev_json row) = digest)) (\<lambda>_.
     bindE (wrap ''current View: invalid Event projection'' (ParseEventCanonicalJSON (ev_json row))) (\<lambda>event.
     bindE (require (Problem ''current View: corrupt Event bytes'') (e_digest event = digest)) (\<lambda>_.
     bindE (validateStoredEventAuthority event row) (\<lambda>_.
       Inr (\<lparr>sd_ref = eventRef event, sd_kind = e_kind event, sd_payload = e_payload event, sd_artifacts = [],
             sd_causation = e_causation event, sd_correlation = e_correlation event,
             sd_consequence = e_consequence event, sd_inReplyTo = e_inReplyTo event\<rparr>, e_artifacts event))))))"

definition loadStoredEventDetailsTx :: "string \<Rightarrow> Store \<Rightarrow> storedEventDetails outcome" where
  "loadStoredEventDetailsTx idValue s =
     (case List.find (\<lambda>e. ev_id e = idValue) (events s) of
        None \<Rightarrow> Inl (Statement ''current View: load Event'')
      | Some row \<Rightarrow>
          bindE (inspectStoredEventDetails row) (\<lambda>(details, canonicalArtifacts).
          bindE (loadEventArtifactsTx (ref_id (sd_ref details)) s) (\<lambda>artifacts.
          if canonicalArtifacts \<noteq> artifacts
          then Inl (Problem ''current View: Event Artifact pins diverge from canonical bytes'')
          else Inr (details\<lparr>sd_artifacts := artifacts\<rparr>))))"

definition loadStoredEventTx ::
  "string \<Rightarrow> Store \<Rightarrow> (EventRef \<times> SemanticLabel \<times> SemanticPayload \<times> Digest list) outcome" where
  "loadStoredEventTx idValue s =
     bindE (loadStoredEventDetailsTx idValue s) (\<lambda>d. Inr (sd_ref d, sd_kind d, sd_payload d, sd_artifacts d))"

section \<open>Claiming\<close>

definition MaxTerminalObservationsPerAnchor :: nat where
  "MaxTerminalObservationsPerAnchor = 64"

text \<open>The accepted replies to the requests anchored at a Handling.\<close>

definition accepted_replies :: "HandlingID \<Rightarrow> Store \<Rightarrow> (inboxRow \<times> outboxRow) list" where
  "accepted_replies anchor s =
     filter (\<lambda>(i, out). ib_inReplyTo i = Some (ob_id out) \<and> ob_anchor out = Some anchor \<and> ib_event i \<noteq> None)
       (List.product (peer_inbox s) (peer_outbox s))"

definition terminalObservationRevisionTx :: "HandlingID \<Rightarrow> Store \<Rightarrow> nat outcome" where
  "terminalObservationRevisionTx anchor s =
     (if anchor = [] then Inl (Problem ''terminal observation revision: anchor is required'')
      else let n = length (accepted_replies anchor s)
           in if MaxTerminalObservationsPerAnchor < n
              then Inl (Problem ''terminal observation revision: durable bound violated'') else Inr n)"

record projectedClaim =
  pc_handling :: HandlingID
  pc_head :: EventRef
  pc_fence :: "64 word"
  pc_revision :: "64 word"
  pc_kind :: SemanticLabel
  pc_payload :: SemanticPayload
  pc_artifacts :: "Digest list"

definition scanProjectedClaim :: "Store \<Rightarrow> handlingRow \<Rightarrow> projectedClaim outcome" where
  "scanProjectedClaim s r =
     bindE (orElse (Problem ''current View: corrupt Handling ID'') (NewHandlingID (ha_id r))) (\<lambda>handlingID.
     bindE (loadStoredEventTx (ha_head r) s) (\<lambda>(eventRef, kindLabel, payloadText, artifacts).
     bindE (terminalObservationRevisionTx handlingID s) (\<lambda>revision.
       Inr \<lparr>pc_handling = handlingID, pc_head = eventRef, pc_fence = of_nat (ha_fence r),
            pc_revision = of_nat revision, pc_kind = kindLabel, pc_payload = payloadText,
            pc_artifacts = artifacts\<rparr>)))"

text \<open>
  \<open>None\<close> is \<^verbatim>\<open>sql.ErrNoRows\<close> of the Handling's own query. The head of a Handling is a foreign key, so the query
  for the Event always finds its row.
\<close>

definition existingClaimTx :: "Attachment \<Rightarrow> Store \<Rightarrow> projectedClaim option outcome" where
  "existingClaimTx attachment s =
     (case List.find (\<lambda>r. ha_claim r = Some (att_id attachment) \<and> ha_target r = att_principal attachment \<and>
                          ha_state r = ''open'') (handlings s) of
        None \<Rightarrow> Inr None
      | Some r \<Rightarrow> bindE (scanProjectedClaim s r) (\<lambda>c. Inr (Some c)))"

definition claimable :: "AgentPrincipalID \<Rightarrow> handlingRow \<Rightarrow> bool" where
  "claimable owner r \<longleftrightarrow> ha_target r = owner \<and> ha_state r = ''open'' \<and> ha_claim r = None"

definition claimOrder :: "handlingRow \<Rightarrow> nat \<times> nat \<times> string" where
  "claimOrder r = (ha_fence r, ha_created r, ha_id r)"

definition occupy :: "Attachment \<Rightarrow> handlingRow \<Rightarrow> handlingRow" where
  "occupy attachment r =
     r\<lparr>ha_claim := Some (att_id attachment), ha_fence := ha_fence r + 1,
       ha_until := Some (formatTime (expiresAt attachment))\<rparr>"

definition claimNextTx :: "Attachment \<Rightarrow> Store \<Rightarrow> (projectedClaim option \<times> Store) outcome" where
  "claimNextTx attachment s =
     (case sort_key claimOrder (filter (claimable (att_principal attachment)) (handlings s)) of
        [] \<Rightarrow> Inr (None, s)
      | next # _ \<Rightarrow>
          bindE (execute ''current View: claim next''
                  (update_handlings (\<lambda>r. ha_id r = ha_id next \<and> ha_state r = ''open'' \<and> ha_claim r = None)
                    (occupy attachment) s)) (\<lambda>(s, rows).
          bindE (require (Problem ''current View: claim cardinality violated'') (rows = 1)) (\<lambda>_.
          case List.find (\<lambda>r. ha_id r = ha_id next) (handlings s) of
            None \<Rightarrow> Inr (None, s)
          | Some r \<Rightarrow> bindE (scanProjectedClaim s r) (\<lambda>c. Inr (Some c, s)))))"

section \<open>What the end of a claim does\<close>

lemma update_where_cong: "(\<And>r. r \<in> set rows \<Longrightarrow> P r = Q r) \<Longrightarrow> update_where P f rows = update_where Q f rows"
  by (simp add: update_where_def)

lemma scanned_claim:
  assumes "scanExpiredClaim r = Inr c" "ha_state r = ''open''" "ha_fence r < 2 ^ 63"
  shows "occupied_by c r"
proof -
  have "unat (of_nat (ha_fence r) :: 64 word) = ha_fence r"
    using assms(3) by (simp add: unsigned_of_nat take_bit_nat_eq_self)
  then show ?thesis
    using assms(1,2)
    by (auto simp: scanExpiredClaim_def occupied_by_def guards identifier_Inr dest: parseTime_Inr split: option.splits)
qed

text \<open>A claim is an exact occupancy: no other row has it.\<close>

lemma occupied_only:
  assumes "distinct (map ha_id rows)" "r \<in> set rows" "q \<in> set rows" "occupied_by c r"
  shows "occupied_by c q \<longleftrightarrow> ha_id q = ha_id r"
  using assms filter_map_distinct_keys [OF assms(1), of q r] by (auto simp: occupied_by_def)

lemma release_occupied:
  assumes "distinct (map ha_id rows)" "r \<in> set rows" "occupied_by c r" "X"
  shows "update_where (\<lambda>q. occupied_by c q \<and> X) f rows = update_where (\<lambda>q. ha_id q = ha_id r) f rows"
  using assms occupied_only [OF assms(1,2) _ assms(3)] by (intro update_where_cong) simp

lemma claimIdentity_total:
  assumes "head = ''claim-expiry:'' \<or> head = ''claim-boundary-end:''"
  shows "claimIdentity schema domain head problem claim =
    Inr (head @ digestString (Sum (domain @ Marshal (enc_claimRequest schema claim))), Sum (Marshal (enc_claimRequest schema claim)))"
proof -
  have t: "tokenCharacters True False ''claim-expiry:''" "tokenCharacters True False ''claim-boundary-end:''" by code_simp+
  have "handle_ok (head @ digestString (Sum x))" for x
    using assms t by (intro digest_identifier) (auto simp del: tokenCharacters.simps)
  then show ?thesis by (simp add: claimIdentity_def Let_def wrap_def identifier_Inr [THEN iffD2])
qed

text \<open>The store after a claim has been released, and the disposition that records it.\<close>

definition claimReleased :: "string \<Rightarrow> dispositionRow \<Rightarrow> Store \<Rightarrow> Store" where
  "claimReleased h d s =
     s\<lparr>handlings := update_where (\<lambda>q. ha_id q = h) releaseClaim (handlings s),
       claim_dispositions := claim_dispositions s @ [d]\<rparr>"

definition disposition_for :: "string \<Rightarrow> expiredClaim \<Rightarrow> dispositionRow \<Rightarrow> bool" where
  "disposition_for dkind claim d \<longleftrightarrow> di_kind d = dkind \<and> di_handling d = ec_handling claim \<and>
     di_attachment d = ec_attachment claim \<and> di_fence d = unat (ec_fence claim) \<and> di_until d = formatTime (ec_until claim)"

lemma disposition_for_dispositionOf: "disposition_for dkind claim (dispositionOf dkind schema now claim key request)"
  by (simp add: disposition_for_def dispositionOf_def Let_def)

lemma settleClaimExpiryTx_effect:
  assumes "settleClaimExpiryTx now claim s = Inr t" "distinct (map ha_id (handlings s))" "r \<in> set (handlings s)"
    "occupied_by claim r"
  shows "\<exists>d. t = claimReleased (ha_id r) d s \<and> disposition_for ''expiry'' claim d"
proof -
  obtain key request found where found: "replayClaimExpiryTx claim key request s = Inr found"
    and rest: "(if found then Inr s else
       bindE (execute ''claim expiry: clear occupancy''
               (update_handlings (\<lambda>r. occupied_by claim r \<and> formatTime (ec_until claim) \<le> formatTime now) releaseClaim s)) (\<lambda>(s, rows).
       bindE (require (Problem ''claim expiry: exact claim changed before settlement'') (rows = 1)) (\<lambda>_.
       insertClaimExpiryTx now claim key request s))) = Inr t"
    using assms(1) by (auto simp: settleClaimExpiryTx_def bindE_Inr)
  have "list_ex (occupied_by claim) (handlings s)" using assms(3,4) by (auto simp: list_ex_iff)
  then have "\<not> found" using found by (auto simp: replayClaimExpiryTx_def split: option.splits if_splits)
  then obtain u where u: "update_handlings (\<lambda>r. occupied_by claim r \<and> formatTime (ec_until claim) \<le> formatTime now)
      releaseClaim s = Some (u, 1)" "insertClaimExpiryTx now claim key request u = Inr t"
    using rest by (auto simp: guards split_paired_Ex)
  have due: "formatTime (ec_until claim) \<le> formatTime now"
    using update_effect(4) [OF u(1)] by (auto simp: matching_def) (metis (no_types, lifting) filter_False list.size(3) n_not_Suc_n)
  have "u = s\<lparr>handlings := update_where (\<lambda>q. ha_id q = ha_id r) releaseClaim (handlings s)\<rparr>"
    using update_effect(4) [OF u(1)] release_occupied [OF assms(2-4) due] by simp
  moreover have "t = u\<lparr>claim_dispositions := claim_dispositions u @
      [dispositionOf ''expiry'' ''mnemon.claim-expiry-outcome'' now claim key request]\<rparr>"
    using u(2) insert_effect(4) by (auto simp: insertClaimExpiryTx_def guards)
  ultimately show ?thesis using disposition_for_dispositionOf by (auto simp: claimReleased_def)
qed

lemma settleClaimBoundaryEndTx_effect:
  assumes "settleClaimBoundaryEndTx now claim s = Inr t" "distinct (map ha_id (handlings s))" "r \<in> set (handlings s)"
    "occupied_by claim r"
  shows "\<exists>d. t = claimReleased (ha_id r) d s \<and> disposition_for ''boundary_end'' claim d"
proof -
  obtain key request u where u: "update_handlings (occupied_by claim) releaseClaim s = Some (u, 1)"
    "insert_disposition (dispositionOf ''boundary_end'' ''mnemon.claim-boundary-end-outcome'' now claim key request) u = Some t"
    using assms(1) by (auto simp: settleClaimBoundaryEndTx_def guards split_paired_Ex)
  have "u = s\<lparr>handlings := update_where (\<lambda>q. ha_id q = ha_id r) releaseClaim (handlings s)\<rparr>"
    using update_effect(4) [OF u(1)] release_occupied [OF assms(2-4) TrueI] by simp
  then show ?thesis
    using insert_effect(4) [OF u(2)] disposition_for_dispositionOf by (auto simp: claimReleased_def)
qed

section \<open>Settlement of expired claims\<close>

lemma due_rows:
  assumes "store_ok s"
  shows "distinct (map ha_id (due owner now s))" "set (due owner now s) \<subseteq> set (handlings s)"
    "r \<in> set (due owner now s) \<Longrightarrow> ha_state r = ''open'' \<and> ha_fence r < 2 ^ 63 \<and> ha_claim r \<noteq> None"
proof -
  have ok: "distinct (map ha_id (handlings s))" "\<forall>r \<in> set (handlings s). handling_check r"
    using assms by (simp_all add: store_ok_def handlings_ok_def list_all_iff)
  show "distinct (map ha_id (due owner now s))"
    using ok(1) by (simp add: due_def distinct_map_filter)
  show "set (due owner now s) \<subseteq> set (handlings s)" by (auto simp: due_def)
  show "r \<in> set (due owner now s) \<Longrightarrow> ha_state r = ''open'' \<and> ha_fence r < 2 ^ 63 \<and> ha_claim r \<noteq> None"
    using ok(2) by (auto simp: due_def expiredFor_def handling_check_def split: option.splits)
qed

text \<open>The store with the claims of some Handlings released and some dispositions added.\<close>

definition claimsReleased :: "string set \<Rightarrow> dispositionRow list \<Rightarrow> Store \<Rightarrow> Store" where
  "claimsReleased H ds s =
     s\<lparr>handlings := update_where (\<lambda>q. ha_id q \<in> H) releaseClaim (handlings s),
       claim_dispositions := claim_dispositions s @ ds\<rparr>"

lemma claimsReleased_empty: "claimsReleased {} [] s = s"
  by (simp add: claimsReleased_def update_where_def)

lemma claimsReleased_step: "claimsReleased H ds (claimReleased h d s) = claimsReleased (insert h H) (d # ds) s"
  by (simp add: claimsReleased_def claimReleased_def update_where_def releaseClaim_def)

lemma settleClaims_effect:
  assumes "settleClaims now claims s = Inr t" "list_all2 (\<lambda>r c. scanExpiredClaim r = Inr c) rows claims"
    "distinct (map ha_id rows)" "set rows \<subseteq> set (handlings s)" "distinct (map ha_id (handlings s))"
    "\<And>r. r \<in> set rows \<Longrightarrow> ha_state r = ''open'' \<and> ha_fence r < 2 ^ 63"
  shows "\<exists>ds. t = claimsReleased (ha_id ` set rows) ds s \<and> list_all2 (disposition_for ''expiry'') claims ds"
  using assms
proof (induction claims arbitrary: rows s)
  case Nil
  then show ?case using claimsReleased_empty by (metis list_all2_Nil2 list_all2_Nil image_empty list.set(1) settleClaims.simps(1) sum.inject(2))
next
  case (Cons c cs)
  obtain r rs where rows: "rows = r # rs" "scanExpiredClaim r = Inr c" "list_all2 (\<lambda>r c. scanExpiredClaim r = Inr c) rs cs"
    using Cons.prems(2) by (auto simp: list_all2_Cons2)
  obtain u where u: "settleClaimExpiryTx now c s = Inr u" "settleClaims now cs u = Inr t"
    using Cons.prems(1) by (auto simp: bindE_Inr)
  have "occupied_by c r" using rows Cons.prems(6) by (intro scanned_claim) auto
  then obtain d where d: "u = claimReleased (ha_id r) d s" "disposition_for ''expiry'' c d"
    using settleClaimExpiryTx_effect [OF u(1) Cons.prems(5)] rows Cons.prems(4) by auto
  have "set rs \<subseteq> set (handlings u)"
  proof
    fix q assume q: "q \<in> set rs"
    then have "q \<in> set (handlings s)" "ha_id q \<noteq> ha_id r" using rows(1) Cons.prems(3,4) by (auto simp: image_iff)
    then show "q \<in> set (handlings u)" by (force simp: d(1) claimReleased_def update_where_def)
  qed
  moreover have "distinct (map ha_id (handlings u))"
    using Cons.prems(5) by (simp add: d(1) claimReleased_def releaseClaim_def)
  ultimately obtain ds where "t = claimsReleased (ha_id ` set rs) ds u" "list_all2 (disposition_for ''expiry'') cs ds"
    using Cons.IH [OF u(2) rows(3)] rows(1) Cons.prems(3,6) by auto
  then show ?case using d rows(1) claimsReleased_step by (intro exI [of _ "d # ds"]) simp
qed

lemma settleExpiredClaimsTx_effect:
  assumes "settleExpiredClaimsTx owner now limit s = Inr t" "store_ok s"
  shows "\<exists>ds. t = claimsReleased (ha_id ` set (take (nat limit) (due owner now s))) ds s \<and>
    length ds = min (nat limit) (length (due owner now s))"
proof -
  obtain claims where c: "mapE scanExpiredClaim (take (nat limit) (due owner now s)) = Inr claims" "settleClaims now claims s = Inr t"
    using assms(1) by (auto simp: settleExpiredClaimsTx_def loadExpiredClaimsTx_def guards split: if_splits)
  have sub: "set (take (nat limit) (due owner now s)) \<subseteq> set (due owner now s)" by (rule set_take_subset)
  have "distinct (map ha_id (handlings s))" using assms(2) by (simp add: store_ok_def handlings_ok_def)
  then obtain ds where "t = claimsReleased (ha_id ` set (take (nat limit) (due owner now s))) ds s"
    "list_all2 (disposition_for ''expiry'') claims ds"
    using settleClaims_effect [OF c(2) c(1) [unfolded mapE_Inr]] due_rows(2) [OF assms(2), of owner now]
      due_rows(3) [OF assms(2), of _ owner now] distinct_take [OF due_rows(1) [OF assms(2)], of "nat limit" owner now] sub
    by (auto simp: take_map)
  then show ?thesis
    using length_mapE [OF c(1)] by (intro exI [of _ ds]) (simp add: list_all2_lengthD [symmetric] min.commute)
qed

lemma claim_statements_keep:
  assumes "store_ok s"
  shows "settleClaimExpiryTx now claim s = Inr t \<Longrightarrow> store_ok t \<and> grows s t"
    "settleClaimBoundaryEndTx now claim s = Inr t \<Longrightarrow> store_ok t \<and> grows s t"
proof -
  have rel: "store_ok u \<and> grows s u" if "update_handlings P releaseClaim s = Some (u, n)" for P u n
    using update_keeps(2) [OF assms that] by (simp add: releaseClaim_def)
  have ins: "store_ok t \<and> grows s t" if "store_ok u \<and> grows s u" "insert_disposition d u = Some t" for u d
    using insert_keeps(4) [of u d t] that grows_trans by blast
  show "settleClaimExpiryTx now claim s = Inr t \<Longrightarrow> store_ok t \<and> grows s t"
    using assms ins rel
    by (auto simp: settleClaimExpiryTx_def insertClaimExpiryTx_def guards split_paired_Ex split: if_splits) blast+
  show "settleClaimBoundaryEndTx now claim s = Inr t \<Longrightarrow> store_ok t \<and> grows s t"
    using assms ins rel by (auto simp: settleClaimBoundaryEndTx_def guards split_paired_Ex) blast+
qed

lemma settleClaims_keep: "settleClaims now claims s = Inr t \<Longrightarrow> store_ok s \<Longrightarrow> store_ok t \<and> grows s t"
proof (induction claims arbitrary: s)
  case (Cons c cs)
  then obtain u where u: "settleClaimExpiryTx now c s = Inr u" "settleClaims now cs u = Inr t" by (auto simp: bindE_Inr)
  then show ?case using claim_statements_keep(1) [OF Cons.prems(2) u(1)] Cons.IH grows_trans by blast
qed simp

lemma settleExpiredClaimsTx_keep: "settleExpiredClaimsTx owner now limit s = Inr t \<Longrightarrow> store_ok s \<Longrightarrow> store_ok t \<and> grows s t"
  using settleClaims_keep by (auto simp: settleExpiredClaimsTx_def guards split: if_splits)

lemma filter_not_taken: "distinct (map f xs) \<Longrightarrow> filter (\<lambda>x. f x \<notin> f ` set (take n xs)) xs = drop n xs"
proof -
  assume d: "distinct (map f xs)"
  have "distinct (map f (take n xs @ drop n xs))" using d by simp
  then have "f ` set (take n xs) \<inter> f ` set (drop n xs) = {}" unfolding map_append distinct_append by simp
  then have "filter (\<lambda>x. f x \<notin> f ` set (take n xs)) (take n xs @ drop n xs) = drop n xs"
    by (subst filter_append) (auto simp: filter_empty_conv filter_id_conv)
  then show ?thesis by simp
qed

lemma filter_released:
  "filter (expiredFor owner now) (update_where (\<lambda>q. ha_id q \<in> H) releaseClaim rows) =
   filter (\<lambda>r. ha_id r \<notin> H) (filter (expiredFor owner now) rows)"
  by (induction rows) (auto simp: update_where_def expiredFor_def releaseClaim_def)

text \<open>One settlement takes the oldest due claims off the list and leaves the rest.\<close>

lemma due_settled:
  assumes "settleExpiredClaimsTx owner now limit s = Inr t" "store_ok s"
  shows "due owner now t = drop (nat limit) (due owner now s)"
proof -
  let ?H = "ha_id ` set (take (nat limit) (due owner now s))"
  obtain ds where t: "t = claimsReleased ?H ds s" using settleExpiredClaimsTx_effect [OF assms] by blast
  have "due owner now t = filter (\<lambda>r. ha_id r \<notin> ?H) (due owner now s)"
    by (simp add: t claimsReleased_def due_def filter_released filter_sort)
  then show ?thesis using filter_not_taken [OF due_rows(1) [OF assms(2)]] by simp
qed

text \<open>
  Expiry settlement makes progress. Each settlement of a Principal's expired claims that returns has released the
  \<open>limit\<close> oldest of them and no other claim, one disposition each; so after \<open>n\<close> settlements the first
  \<open>n * limit\<close> claims of the list that was due are settled, and none is due once \<open>n * limit\<close> is at least
  its length.
\<close>

theorem expiry_settlement_progress:
  assumes "((\<lambda>s t. settleExpiredClaimsTx owner now limit s = Inr t) ^^ n) s t" "store_ok s"
  shows "due owner now t = drop (n * nat limit) (due owner now s) \<and>
    length (claim_dispositions t) = length (claim_dispositions s) + min (n * nat limit) (length (due owner now s)) \<and>
    (length (due owner now s) \<le> n * nat limit \<longrightarrow> due owner now t = [])"
proof -
  have "due owner now t = drop (n * nat limit) (due owner now s) \<and>
    length (claim_dispositions t) = length (claim_dispositions s) + min (n * nat limit) (length (due owner now s)) \<and> store_ok t"
    using assms
  proof (induction n arbitrary: t)
    case (Suc n)
    then obtain u where u: "((\<lambda>s t. settleExpiredClaimsTx owner now limit s = Inr t) ^^ n) s u"
      "settleExpiredClaimsTx owner now limit u = Inr t" by auto
    note IH = Suc.IH [OF u(1) assms(2)]
    have "length (claim_dispositions t) = length (claim_dispositions u) + min (nat limit) (length (due owner now u))"
      using settleExpiredClaimsTx_effect [OF u(2)] IH by (force simp: claimsReleased_def)
    then show ?case
      using due_settled [OF u(2)] IH settleExpiredClaimsTx_keep [OF u(2)] by (auto simp: algebra_simps min_def)
  qed simp
  then show ?thesis by simp
qed

section \<open>The next claim\<close>

lemma find_distinct_key:
  assumes "distinct (map f rows)" "r \<in> set rows"
  shows "List.find (\<lambda>q. f q = f r) rows = Some r"
  using assms
proof (induction rows)
  case (Cons x xs)
  then show ?case by (cases "f x = f r") (auto simp: image_iff dest: filter_map_distinct_keys)
qed simp

lemma scanProjectedClaim_Inr:
  "scanProjectedClaim s r = Inr c \<Longrightarrow> pc_handling c = ha_id r \<and> pc_fence c = of_nat (ha_fence r)"
  by (auto simp: scanProjectedClaim_def guards identifier_Inr)

lemma claimNextTx_cases:
  assumes "claimNextTx attachment s = Inr (c, t)" "store_ok s"
  obtains (none) "filter (claimable (att_principal attachment)) (handlings s) = []" "c = None" "t = s"
  | (fresh) r pc where "r \<in> set (handlings s)" "claimable (att_principal attachment) r"
      "\<And>q. q \<in> set (handlings s) \<Longrightarrow> claimable (att_principal attachment) q \<Longrightarrow> claimOrder r \<le> claimOrder q"
      "t = s\<lparr>handlings := update_where (\<lambda>q. ha_id q = ha_id r) (occupy attachment) (handlings s)\<rparr>"
      "handlings_ok s (handlings t)" "c = Some pc" "pc_handling pc = ha_id r" "pc_fence pc = of_nat (ha_fence r + 1)"
proof -
  let ?L = "sort_key claimOrder (filter (claimable (att_principal attachment)) (handlings s))"
  have d: "distinct (map ha_id (handlings s))" using assms(2) by (simp add: store_ok_def handlings_ok_def)
  show ?thesis
  proof (cases ?L)
    case Nil
    then have "filter (claimable (att_principal attachment)) (handlings s) = []"
      by (metis length_0_conv length_sort)
    then show ?thesis using none assms(1) Nil by (simp add: claimNextTx_def)
  next
    case (Cons r rs)
    have r: "r \<in> set (handlings s)" "claimable (att_principal attachment) r"
      using arg_cong [OF Cons, of set] by auto
    have least: "claimOrder r \<le> claimOrder q" if "q \<in> set (handlings s)" "claimable (att_principal attachment) q" for q
    proof -
      have "q \<in> set (r # rs)" using that by (simp flip: Cons)
      moreover have "sorted (map claimOrder (r # rs))" unfolding Cons [symmetric] by (rule sorted_sort_key)
      ultimately show ?thesis by auto
    qed
    have same: "ha_id q = ha_id r \<and> ha_state q = ''open'' \<and> ha_claim q = None \<longleftrightarrow> ha_id q = ha_id r" if "q \<in> set (handlings s)" for q
      using filter_map_distinct_keys [OF d that r(1)] r(2) by (auto simp: claimable_def)
    obtain u where u: "update_handlings (\<lambda>q. ha_id q = ha_id r \<and> ha_state q = ''open'' \<and> ha_claim q = None)
          (occupy attachment) s = Some (u, 1)"
      and rest: "(case List.find (\<lambda>q. ha_id q = ha_id r) (handlings u) of
            None \<Rightarrow> Inr (None, u)
          | Some q \<Rightarrow> bindE (scanProjectedClaim u q) (\<lambda>c. Inr (Some c, u))) = Inr (c, t)"
      using assms(1) by (auto simp: claimNextTx_def Cons guards split_paired_Ex)
    have ueq: "u = s\<lparr>handlings := update_where (\<lambda>q. ha_id q = ha_id r) (occupy attachment) (handlings s)\<rparr>"
      using update_effect(4) [OF u] same by (simp cong: update_where_cong)
    have ok: "handlings_ok s (handlings u)" using u by (auto simp: update_handlings_def Let_def split: if_splits)
    have found: "List.find (\<lambda>q. ha_id q = ha_id r) (handlings u) = Some (occupy attachment r)"
      unfolding ueq using find_distinct_key [OF d r(1)] by (simp add: find_update_where occupy_def)
    then obtain pc where pc: "scanProjectedClaim u (occupy attachment r) = Inr pc" "c = Some pc" "t = u"
      using rest by (auto simp: bindE_Inr)
    show ?thesis
      using fresh [OF r least] ueq ok pc scanProjectedClaim_Inr [OF pc(1)] by (simp add: occupy_def)
  qed
qed

text \<open>
  (C10) The next claim. When \<^verbatim>\<open>claimNextTx\<close> returns no claim, the Principal has no free open Handling and
  nothing has changed. Otherwise the claim is for a free open Handling of the Principal that has been
  claimed the fewest times, the oldest of those; its fence is raised by one, the returned claim has the
  raised fence, the claim lasts until the Attachment expires, and no other Handling has changed.
\<close>

theorem claim_next_fair:
  assumes "claimNextTx attachment s = Inr (c, t)" "store_ok s"
  shows "case c of
      None \<Rightarrow> t = s \<and> (\<forall>q \<in> set (handlings s). \<not> claimable (att_principal attachment) q)
    | Some pc \<Rightarrow> \<exists>r \<in> set (handlings s). claimable (att_principal attachment) r \<and> pc_handling pc = ha_id r \<and>
        (\<forall>q \<in> set (handlings s). claimable (att_principal attachment) q \<longrightarrow>
           ha_fence r < ha_fence q \<or> ha_fence r = ha_fence q \<and> ha_created r \<le> ha_created q) \<and>
        unat (pc_fence pc) = ha_fence r + 1 \<and>
        t = s\<lparr>handlings := update_where (\<lambda>q. ha_id q = ha_id r)
                (\<lambda>q. q\<lparr>ha_claim := Some (att_id attachment), ha_fence := ha_fence q + 1,
                       ha_until := Some (formatTime (expiresAt attachment))\<rparr>) (handlings s)\<rparr>"
  using assms
proof (cases rule: claimNextTx_cases)
  case none
  then show ?thesis by (auto simp: filter_empty_conv)
next
  case (fresh r pc)
  have "ha_fence r < 2 ^ 63" using fresh(1) assms(2) by (auto simp: store_ok_def handlings_ok_def handling_check_def list_all_iff)
  then have "unat (pc_fence pc) = ha_fence r + 1" by (simp add: fresh(8) unsigned_of_nat take_bit_nat_eq_self flip: of_nat_Suc)
  moreover have "occupy attachment = (\<lambda>q. q\<lparr>ha_claim := Some (att_id attachment), ha_fence := ha_fence q + 1,
                       ha_until := Some (formatTime (expiresAt attachment))\<rparr>)" by (simp add: occupy_def fun_eq_iff)
  moreover have "ha_fence r < ha_fence q \<or> ha_fence r = ha_fence q \<and> ha_created r \<le> ha_created q"
    if "q \<in> set (handlings s)" "claimable (att_principal attachment) q" for q
    using fresh(3) [OF that] by (auto simp: claimOrder_def)
  ultimately show ?thesis
    using fresh(1,2,7) unfolding fresh(4,6) by (auto intro!: bexI [of _ r])
qed

section \<open>An instance\<close>

text \<open>A Principal with a live boundary that holds one of its two Handlings.\<close>

definition heldHandling :: handlingRow where
  "heldHandling = \<lparr>ha_id = ''handling:1'', ha_target = ''agent:local'', ha_head = ''event:1'', ha_state = ''open'', ha_outcome = None,
     ha_claim = Some ''attachment:1'', ha_fence = 1, ha_until = Some (formatTime 900000001000), ha_created = 1\<rparr>"

definition claimStore :: Store where
  "claimStore = emptyStore\<lparr>
     principals := [\<lparr>pr_id = ''agent:local'', pr_createdAt = formatTime 500\<rparr>],
     attachments := [\<lparr>at_id = ''attachment:1'', at_principal = ''agent:local'', at_mode = ''interactive'',
       at_credential = digestString (replicate 32 CHR ''c''), at_beginKey = ''attach:1'',
       at_beginRequest = digestString (replicate 32 CHR ''b''), at_issued = formatTime 1000,
       at_expires = formatTime 900000001000, at_ended = None\<rparr>],
     events := [\<lparr>ev_id = ''event:1'', ev_digest = digestString (replicate 32 CHR ''e''), ev_sequence = 1, ev_source = ''agent:local'',
       ev_request = digestString (replicate 32 CHR ''r''), ev_depth = 0, ev_accepted = formatTime 600, ev_json = []\<rparr>],
     handlings := [heldHandling, heldHandling\<lparr>ha_id := ''handling:2'', ha_claim := None, ha_fence := 0, ha_until := None\<rparr>]\<rparr>"

lemma instance_times: "formattable 500" "formattable 600" "formattable 1000" "formattable 2000" "formattable 900000001000"
  by (rule formattable_int64; simp)+

lemma instance_digests: "digest_text (digestString (replicate 32 CHR ''c''))" "digest_text (digestString (replicate 32 CHR ''b''))"
  by code_simp+

lemma claimStore_ok: "store_ok claimStore"
  using instance_digests formatTime_order(1) [OF instance_times(3,5)]
  by (simp add: store_ok_def claimStore_def emptyStore_def heldHandling_def principals_ok_def attachments_ok_def attachment_check_def
      principal_ids_def artifacts_ok_def events_ok_def event_artifacts_ok_def routes_ok_def outbox_ok_def inbox_ok_def
      operations_ok_def currents_ok_def handlings_ok_def handling_check_def event_ids_def attachment_ids_def dispositions_ok_def
      references_ok_def lineage_ok_def List.map_filter_def)

lemma held_due: "due ''agent:local'' 900000001000 claimStore = [heldHandling]"
  by (simp add: due_def expiredFor_def claimStore_def heldHandling_def)

lemma held_scanned:
  "scanExpiredClaim heldHandling = Inr \<lparr>ec_handling = ''handling:1'', ec_attachment = ''attachment:1'', ec_fence = 1,
     ec_until = 900000001000\<rparr>"
proof -
  have "handle_ok ''handling:1''" "handle_ok ''attachment:1''" by code_simp+
  then show ?thesis
    by (simp add: scanExpiredClaim_def heldHandling_def orElse_def require_def identifier_Inr [THEN iffD2]
        parseTime_formatTime instance_times)
qed

lemma held_settled: "\<exists>t. settleExpiredClaimsTx ''agent:local'' 900000001000 16 claimStore = Inr t"
proof -
  let ?c = "\<lparr>ec_handling = ''handling:1'', ec_attachment = ''attachment:1'', ec_fence = 1, ec_until = 900000001000\<rparr> :: expiredClaim"
  obtain key request where k: "claimExpiryIdentity ?c = Inr (key, request)"
    by (simp add: claimExpiryIdentity_def claimIdentity_total)
  have r: "replayClaimExpiryTx ?c key request claimStore = Inr False"
    by (simp add: replayClaimExpiryTx_def claimStore_def emptyStore_def)
  let ?w = "\<lambda>r. occupied_by ?c r \<and> formatTime 900000001000 \<le> formatTime 900000001000"
  have "\<exists>t. update_handlings ?w releaseClaim claimStore = Some (t, 1) \<and> handlings t \<noteq> [] \<and> handling_ids t = handling_ids claimStore \<and>
      attachments t = attachments claimStore \<and> claim_dispositions t = []"
    by (simp add: update_handlings_def update_where_def occupied_by_def releaseClaim_def
        claimStore_def emptyStore_def heldHandling_def handlings_ok_def handling_check_def principal_ids_def event_ids_def
        attachment_ids_def List.map_filter_def matching_def handling_ids_def)
  then obtain t where t: "update_handlings ?w releaseClaim claimStore = Some (t, 1)" "handling_ids t = handling_ids claimStore"
      "attachments t = attachments claimStore" "claim_dispositions t = []" by blast
  have "\<exists>u. insertClaimExpiryTx 900000001000 ?c key request t = Inr u"
    by (simp add: insertClaimExpiryTx_def insert_disposition_def execute_def t dispositions_ok_def disposition_check_def
        dispositionOf_def Let_def attachment_ids_def)
       (simp add: handling_ids_def claimStore_def heldHandling_def)
  then have "\<exists>u. settleClaimExpiryTx 900000001000 ?c claimStore = Inr u"
    using t(1) by (simp add: settleClaimExpiryTx_def k r execute_def require_def)
  then show ?thesis
    by (auto simp: settleExpiredClaimsTx_def loadExpiredClaimsTx_def held_due held_scanned)
qed

theorem expiry_settlement_progress_witness:
  "\<exists>t. settleExpiredClaimsTx ''agent:local'' 900000001000 16 claimStore = Inr t \<and> due ''agent:local'' 900000001000 t = [] \<and>
     length (claim_dispositions t) = 1"
proof -
  obtain t where t: "settleExpiredClaimsTx ''agent:local'' 900000001000 16 claimStore = Inr t" using held_settled by blast
  then have "((\<lambda>s t. settleExpiredClaimsTx ''agent:local'' 900000001000 16 s = Inr t) ^^ 1) claimStore t" by (simp add: eq_OO)
  from expiry_settlement_progress [OF this claimStore_ok] show ?thesis
    using t by (simp add: held_due) (simp add: claimStore_def emptyStore_def)
qed

theorem claim_next_fair_witness:
  "claimNextTx \<lparr>att_id = ''attachment:2'', att_principal = ''agent:other'', mayInitiate = True, issuedAt = 1000, expiresAt = 2000\<rparr> claimStore
     = Inr (None, claimStore) \<and> list_all (\<lambda>q. \<not> claimable ''agent:other'' q) (handlings claimStore)"
proof -
  have n: "claimNextTx \<lparr>att_id = ''attachment:2'', att_principal = ''agent:other'', mayInitiate = True, issuedAt = 1000, expiresAt = 2000\<rparr>
      claimStore = Inr (None, claimStore)"
    by (simp add: claimNextTx_def claimStore_def heldHandling_def claimable_def)
  then show ?thesis using claim_next_fair [OF n claimStore_ok] by (simp add: list_all_iff)
qed

end
