(* ===== verification/Authority_Route.thy ===== *)
theory Authority_Route
  imports Authority_Store
begin

text \<open>
  Peer routes (\<^verbatim>\<open>internal/agency/authority/peer_route.go\<close>): enrollment of a route by its owner, its
  revocation, and the projection of the table. A route is bound once to its alias, its peer, its key and
  the Principal that stands in for the peer, and it is never brought back.

  The results: the authority a route was enrolled with never changes and is read back as it was given; at
  most eight routes are active; a revocation is final. The last of them needs a clock that has not gone
  back behind the enrollment: \<^verbatim>\<open>RevokePeerRoute\<close> does not compare the two times, and the row it leaves
  otherwise is one no reader accepts.
\<close>

section \<open>Routes\<close>

definition MaxPeerRoutePublicKeyBytes :: nat where "MaxPeerRoutePublicKeyBytes = 32"
definition MaxPeerTransportAddressBytes :: nat where "MaxPeerTransportAddressBytes = 512"
definition MaxActivePeerRoutes :: nat where "MaxActivePeerRoutes = 8"

definition peerRouteSourceDomain :: string where
  "peerRouteSourceDomain = ''mnemon.r7.peer-route.source-principal.v1''"

record PeerRouteSpec =
  rs_route :: RouteID
  rs_alias :: OpaqueHandle
  rs_peer :: OpaqueHandle
  rs_key :: bytes
  rs_address :: string
  rs_remoteAlias :: OpaqueHandle
  rs_inboundAlias :: OpaqueHandle
  rs_localTarget :: AgentPrincipalID

record PeerRouteProjection = PeerRouteSpec +
  rp_surrogate :: AgentPrincipalID
  rp_active :: bool
  rp_enrolled :: instant
  rp_revoked :: instant

definition validatePeerRouteSpec :: "PeerRouteSpec \<Rightarrow> authorityError option" where
  "validatePeerRouteSpec spec =
     (if rs_route spec = [] \<or> rs_alias spec = [] \<or> rs_peer spec = [] \<or> rs_remoteAlias spec = [] \<or>
         rs_inboundAlias spec = [] \<or> rs_localTarget spec = []
      then Some (Problem ''enroll peer route: complete route authority is required'')
      else case AliasTarget (rs_alias spec) of Inl e \<Rightarrow> Some (Agency ''enroll peer route: public alias'' e) | Inr _ \<Rightarrow>
      case AliasTarget (rs_remoteAlias spec) of Inl e \<Rightarrow> Some (Agency ''enroll peer route: remote target alias'' e) | Inr _ \<Rightarrow>
      case AliasTarget (rs_inboundAlias spec) of Inl e \<Rightarrow> Some (Agency ''enroll peer route: inbound target alias'' e) | Inr _ \<Rightarrow>
      if length (rs_key spec) \<noteq> MaxPeerRoutePublicKeyBytes
      then Some (Problem ''enroll peer route: remote Ed25519 public key must be 32 bytes'')
      else if (case NewSemanticPayload (rs_address spec) of Inl _ \<Rightarrow> True | Inr a \<Rightarrow> a = []) \<or>
              MaxPeerTransportAddressBytes < length (rs_address spec)
      then Some (Problem ''enroll peer route: transport address must be 1..512 opaque UTF-8 bytes'')
      else None)"

definition derivePeerRouteSourcePrincipal :: "PeerRouteSpec \<Rightarrow> AgentPrincipalID outcome" where
  "derivePeerRouteSourcePrincipal spec =
     (case validatePeerRouteSpec spec of Some e \<Rightarrow> Inl e | None \<Rightarrow>
      let keyDigest = Sum (rs_key spec);
          digest = Sum (peerRouteSourceDomain @ [CHR 0x00] @ rs_route spec @ [CHR 0x00] @ rs_peer spec @ [CHR 0x00] @
                        digestString keyDigest)
      in wrap [] (NewAgentPrincipalID (''agent:peer-route:'' @ drop 7 (digestString digest))))"

definition scanPeerRoute :: "routeRow \<Rightarrow> PeerRouteProjection outcome" where
  "scanPeerRoute row =
     bindE (orElse (Problem ''peer route: corrupt RouteID'') (NewRouteID (ro_id row))) (\<lambda>routeID.
     bindE (orElse (Problem ''peer route: corrupt public alias'') (NewOpaqueHandle (ro_alias row))) (\<lambda>publicAlias.
     bindE (orElse (Problem ''peer route: corrupt remote peer identity'') (NewOpaqueHandle (ro_peer row))) (\<lambda>peer.
     bindE (orElse (Problem ''peer route: corrupt remote target alias'') (NewOpaqueHandle (ro_remoteAlias row))) (\<lambda>targetAlias.
     bindE (orElse (Problem ''peer route: corrupt inbound target alias'') (NewOpaqueHandle (ro_inboundAlias row))) (\<lambda>inboundAlias.
     bindE (orElse (Problem ''peer route: corrupt local target Principal'') (NewAgentPrincipalID (ro_localTarget row))) (\<lambda>target.
     bindE (orElse (Problem ''peer route: corrupt surrogate Principal'') (NewAgentPrincipalID (ro_surrogate row))) (\<lambda>surrogate.
     bindE (require (Problem ''peer route: corrupt remote public key'') (length (ro_key row) = MaxPeerRoutePublicKeyBytes)) (\<lambda>_.
     bindE (orElse (Problem ''peer route: corrupt enrollment time'') (parseTime (ro_enrolled row))) (\<lambda>enrolledAt.
     let spec = \<lparr>rs_route = routeID, rs_alias = publicAlias, rs_peer = peer, rs_key = ro_key row,
                 rs_address = ro_address row, rs_remoteAlias = targetAlias, rs_inboundAlias = inboundAlias,
                 rs_localTarget = target\<rparr>;
         projection = (\<lambda>active revokedAt. PeerRouteSpec.extend spec
                         \<lparr>rp_surrogate = surrogate, rp_active = active, rp_enrolled = enrolledAt, rp_revoked = revokedAt\<rparr>)
     in bindE (require (Problem ''peer route: corrupt surrogate derivation'')
                (derivePeerRouteSourcePrincipal spec = Inr surrogate)) (\<lambda>_.
        if ro_state row = ''active'' \<and> ro_revoked row = None then Inr (projection True zeroTime)
        else case (ro_state row = ''revoked'', ro_revoked row) of
          (True, Some revokedValue) \<Rightarrow>
            bindE (orElse (Problem ''peer route: corrupt revocation time'') (parseTime revokedValue)) (\<lambda>revokedAt.
            bindE (require (Problem ''peer route: corrupt revocation time'') (\<not> revokedAt < enrolledAt)) (\<lambda>_.
            Inr (projection False revokedAt)))
        | _ \<Rightarrow> Inl (Problem ''peer route: corrupt lifecycle'')))))))))))"

definition peerRouteByIDTx :: "RouteID \<Rightarrow> Store \<Rightarrow> PeerRouteProjection option outcome" where
  "peerRouteByIDTx routeID s =
     (case List.find (\<lambda>r. ro_id r = routeID) (peer_routes s) of
        None \<Rightarrow> Inr None
      | Some row \<Rightarrow> bindE (scanPeerRoute row) (\<lambda>route. Inr (Some route)))"

definition requirePeerRouteInputsAvailableTx :: "PeerRouteSpec \<Rightarrow> AgentPrincipalID \<Rightarrow> Store \<Rightarrow> unit outcome" where
  "requirePeerRouteInputsAvailableTx spec surrogate s =
     (if rs_localTarget spec \<notin> principal_ids s then Inl ErrPrincipalUnavailable
      else if surrogate \<in> principal_ids s \<or> rs_alias spec \<in> set (map ro_alias (peer_routes s)) \<or>
              rs_peer spec \<in> set (map ro_peer (peer_routes s))
      then Inl ErrPeerRouteConflict
      else if MaxActivePeerRoutes \<le> length (filter (\<lambda>r. ro_state r = ''active'') (peer_routes s))
      then Inl (Problem ''enroll peer route: active route bound 8 reached'')
      else Inr ())"

definition peerRouteMatchesSpec :: "PeerRouteProjection \<Rightarrow> PeerRouteSpec \<Rightarrow> AgentPrincipalID \<Rightarrow> bool" where
  "peerRouteMatchesSpec route spec surrogate \<longleftrightarrow>
     PeerRouteSpec.truncate route = spec \<and> rp_surrogate route = surrogate"

definition peerRouteProjection ::
  "PeerRouteSpec \<Rightarrow> AgentPrincipalID \<Rightarrow> bool \<Rightarrow> instant \<Rightarrow> instant \<Rightarrow> PeerRouteProjection" where
  "peerRouteProjection spec surrogate active enrolledAt revokedAt =
     PeerRouteSpec.extend spec
       \<lparr>rp_surrogate = surrogate, rp_active = active, rp_enrolled = enrolledAt, rp_revoked = revokedAt\<rparr>"

definition routeRowOf :: "PeerRouteSpec \<Rightarrow> AgentPrincipalID \<Rightarrow> instant \<Rightarrow> routeRow" where
  "routeRowOf spec surrogate now =
     \<lparr>ro_id = rs_route spec, ro_alias = rs_alias spec, ro_peer = rs_peer spec, ro_key = rs_key spec,
      ro_address = rs_address spec, ro_remoteAlias = rs_remoteAlias spec, ro_inboundAlias = rs_inboundAlias spec,
      ro_localTarget = rs_localTarget spec, ro_surrogate = surrogate, ro_state = ''active'',
      ro_enrolled = formatTime now, ro_revoked = None\<rparr>"

definition EnrollPeerRoute :: "instant \<Rightarrow> PeerRouteSpec \<Rightarrow> Store \<Rightarrow> (PeerRouteProjection \<times> Store) outcome" where
  "EnrollPeerRoute wall spec s =
     (case validatePeerRouteSpec spec of Some e \<Rightarrow> Inl e | None \<Rightarrow>
      bindE (derivePeerRouteSourcePrincipal spec) (\<lambda>surrogate.
      bindE (trustedNow wall) (\<lambda>now.
      bindE (requireOpen s) (\<lambda>_.
      bindE (peerRouteByIDTx (rs_route spec) s) (\<lambda>found.
      case found of
        Some current \<Rightarrow>
          if \<not> peerRouteMatchesSpec current spec surrogate then Inl ErrPeerRouteConflict
          else if \<not> rp_active current then Inl ErrPeerRouteRevoked
          else Inr (current, s)
      | None \<Rightarrow>
          bindE (requirePeerRouteInputsAvailableTx spec surrogate s) (\<lambda>_.
          bindE (execute ''enroll peer route: persist surrogate Principal''
                  (insert_principal \<lparr>pr_id = surrogate, pr_createdAt = formatTime now\<rparr> s)) (\<lambda>s.
          bindE (execute ''enroll peer route: persist'' (insert_route (routeRowOf spec surrogate now) s)) (\<lambda>s.
          Inr (peerRouteProjection spec surrogate True now zeroTime, s)))))))))"

definition RevokePeerRoute :: "instant \<Rightarrow> RouteID \<Rightarrow> Store \<Rightarrow> (PeerRouteProjection \<times> Store) outcome" where
  "RevokePeerRoute wall routeID s =
     (if routeID = [] then Inl (Problem ''revoke peer route: RouteID is required'')
      else
        bindE (trustedNow wall) (\<lambda>now.
        bindE (requireOpen s) (\<lambda>_.
        bindE (peerRouteByIDTx routeID s) (\<lambda>found.
        case found of
          None \<Rightarrow> Inl ErrPeerRouteUnavailable
        | Some current \<Rightarrow>
            if \<not> rp_active current then Inr (current, s)
            else
              bindE (execute ''revoke peer route: persist''
                      (update_routes (\<lambda>r. ro_id r = routeID \<and> ro_state r = ''active'' \<and> ro_revoked r = None)
                        (\<lambda>r. r\<lparr>ro_state := ''revoked'', ro_revoked := Some (formatTime now)\<rparr>) s)) (\<lambda>(s, rows).
              bindE (require (Problem ''admit Intent: peer route revoke cardinality violated'') (rows = 1)) (\<lambda>_.
              bindE (execute ''revoke peer route: expire pending deliveries''
                      (update_outbox (\<lambda>r. ob_route r = routeID \<and> ob_state r = ''pending'')
                        (\<lambda>r. r\<lparr>ob_state := ''expired'', ob_settled := Some (formatTime now)\<rparr>) s)) (\<lambda>(s, _).
              Inr (current\<lparr>rp_active := False, rp_revoked := now\<rparr>, s))))))))"

definition PeerRoutes :: "Store \<Rightarrow> PeerRouteProjection list outcome" where
  "PeerRoutes s = bindE (requireOpen s) (\<lambda>_. mapE scanPeerRoute (sort_key ro_id (peer_routes s)))"

section \<open>Reading a route\<close>

text \<open>A spec holds identifiers made by their constructors.\<close>

definition spec_typed :: "PeerRouteSpec \<Rightarrow> bool" where
  "spec_typed spec \<longleftrightarrow> handle_ok (rs_route spec) \<and> handle_ok (rs_alias spec) \<and> handle_ok (rs_peer spec) \<and>
     handle_ok (rs_remoteAlias spec) \<and> handle_ok (rs_inboundAlias spec) \<and> handle_ok (rs_localTarget spec)"

text \<open>The spec in the columns of a row.\<close>

definition rowSpec :: "routeRow \<Rightarrow> PeerRouteSpec" where
  "rowSpec r = \<lparr>rs_route = ro_id r, rs_alias = ro_alias r, rs_peer = ro_peer r, rs_key = ro_key r,
     rs_address = ro_address r, rs_remoteAlias = ro_remoteAlias r, rs_inboundAlias = ro_inboundAlias r,
     rs_localTarget = ro_localTarget r\<rparr>"

lemma rowSpec_routeRowOf [simp]: "rowSpec (routeRowOf spec surrogate now) = spec"
  by (simp add: rowSpec_def routeRowOf_def)

lemma derive_valid: "derivePeerRouteSourcePrincipal spec = Inr p \<Longrightarrow> validatePeerRouteSpec spec = None \<and> handle_ok p"
  by (auto simp: derivePeerRouteSourcePrincipal_def Let_def guards identifier_Inr split: option.splits)

lemma derive_total:
  assumes "validatePeerRouteSpec spec = None"
  shows "\<exists>p. derivePeerRouteSourcePrincipal spec = Inr (''agent:peer-route:'' @ p)"
proof -
  have "tokenCharacters True False ''agent:peer-route:''" by code_simp
  then have "handle_ok (''agent:peer-route:'' @ hex_encode d)" if "length d = 32" for d
    using that by (intro hex_identifier) (auto simp: MaxOpaqueHandleBytes_def simp del: tokenCharacters.simps)
  then show ?thesis
    using assms by (simp add: derivePeerRouteSourcePrincipal_def Let_def digestString_def guards identifier_Inr)
qed

lemma valid_key: "validatePeerRouteSpec spec = None \<Longrightarrow> length (rs_key spec) = MaxPeerRoutePublicKeyBytes"
  by (auto simp: validatePeerRouteSpec_def split: if_splits sum.splits)

text \<open>When a row is accepted, and the route it is read as.\<close>

lemma scanPeerRoute_Inr:
  "scanPeerRoute r = Inr p \<longleftrightarrow> spec_typed (rowSpec r) \<and> derivePeerRouteSourcePrincipal (rowSpec r) = Inr (ro_surrogate r) \<and>
     (\<exists>enrolled. parseTime (ro_enrolled r) = Inr enrolled \<and>
       (ro_state r = ''active'' \<and> ro_revoked r = None \<and> p = peerRouteProjection (rowSpec r) (ro_surrogate r) True enrolled zeroTime \<or>
        (\<exists>v revoked. ro_state r = ''revoked'' \<and> ro_revoked r = Some v \<and> parseTime v = Inr revoked \<and> \<not> revoked < enrolled \<and>
          p = peerRouteProjection (rowSpec r) (ro_surrogate r) False enrolled revoked)))"
  (is "?L \<longleftrightarrow> ?R")
proof
  assume ?L
  then show ?R
    by (auto simp: scanPeerRoute_def guards identifier_Inr NewOpaqueHandle_Inr Let_def spec_typed_def rowSpec_def
        peerRouteProjection_def split: if_splits option.splits bool.splits)
next
  assume ?R
  then show ?L
    using derive_valid [of "rowSpec r" "ro_surrogate r"] valid_key [of "rowSpec r"]
    by (auto simp: scanPeerRoute_def guards identifier_Inr NewOpaqueHandle_Inr Let_def spec_typed_def rowSpec_def
        peerRouteProjection_def)
qed

text \<open>A fresh row is read back as the route the enrollment returns.\<close>

lemma scan_routeRowOf:
  assumes "spec_typed spec" "derivePeerRouteSourcePrincipal spec = Inr surrogate" "formattable now"
  shows "scanPeerRoute (routeRowOf spec surrogate now) = Inr (peerRouteProjection spec surrogate True now zeroTime)"
  using assms by (simp add: scanPeerRoute_Inr parseTime_formatTime) (simp add: routeRowOf_def parseTime_formatTime)

lemma find_route_in_store:
  "List.find (\<lambda>r. ro_id r = routeID) (peer_routes s) = None \<longleftrightarrow> routeID \<notin> route_ids s"
  by (auto simp: find_None_iff route_ids_def)

text \<open>The two outcomes of an enrollment that succeeds: a replay, or a new row.\<close>

lemma EnrollPeerRoute_cases:
  assumes "EnrollPeerRoute wall spec s = Inr (route, t)"
  obtains (replay) "peerRouteByIDTx (rs_route spec) s = Inr (Some route)" "t = s" "rp_active route"
      "PeerRouteSpec.truncate route = spec" "derivePeerRouteSourcePrincipal spec = Inr (rp_surrogate route)"
  | (fresh) surrogate u where "rs_route spec \<notin> route_ids s" "derivePeerRouteSourcePrincipal spec = Inr surrogate"
      "requirePeerRouteInputsAvailableTx spec surrogate s = Inr ()"
      "insert_principal \<lparr>pr_id = surrogate, pr_createdAt = formatTime wall\<rparr> s = Some u"
      "insert_route (routeRowOf spec surrogate wall) u = Some t"
      "route = peerRouteProjection spec surrogate True wall zeroTime"
proof -
  obtain surrogate found where d: "derivePeerRouteSourcePrincipal spec = Inr surrogate"
    and f: "peerRouteByIDTx (rs_route spec) s = Inr found"
    and rest: "(case found of
        Some current \<Rightarrow>
          if \<not> peerRouteMatchesSpec current spec surrogate then Inl ErrPeerRouteConflict
          else if \<not> rp_active current then Inl ErrPeerRouteRevoked
          else Inr (current, s)
      | None \<Rightarrow>
          bindE (requirePeerRouteInputsAvailableTx spec surrogate s) (\<lambda>_.
          bindE (execute ''enroll peer route: persist surrogate Principal''
                  (insert_principal \<lparr>pr_id = surrogate, pr_createdAt = formatTime wall\<rparr> s)) (\<lambda>s.
          bindE (execute ''enroll peer route: persist'' (insert_route (routeRowOf spec surrogate wall) s)) (\<lambda>s.
          Inr (peerRouteProjection spec surrogate True wall zeroTime, s))))) = Inr (route, t)"
    using assms unfolding EnrollPeerRoute_def bindE_Inr guard_simps trustedNow_def by blast
  show ?thesis
  proof (cases found)
    case None
    then have "rs_route spec \<notin> route_ids s"
      using f by (auto simp: peerRouteByIDTx_def find_route_in_store [symmetric] bindE_Inr split: option.splits)
    then show ?thesis using rest None d fresh by (auto simp: guards)
  next
    case (Some current)
    then show ?thesis using rest f d replay by (auto simp: peerRouteMatchesSpec_def split: if_splits)
  qed
qed

lemma RevokePeerRoute_cases:
  assumes "RevokePeerRoute wall routeID s = Inr (route, t)"
  obtains (replay) "peerRouteByIDTx routeID s = Inr (Some route)" "t = s" "\<not> rp_active route"
  | (fresh) current u n where "peerRouteByIDTx routeID s = Inr (Some current)" "rp_active current"
      "update_routes (\<lambda>r. ro_id r = routeID \<and> ro_state r = ''active'' \<and> ro_revoked r = None)
         (\<lambda>r. r\<lparr>ro_state := ''revoked'', ro_revoked := Some (formatTime wall)\<rparr>) s = Some (u, 1)"
      "update_outbox (\<lambda>r. ob_route r = routeID \<and> ob_state r = ''pending'')
         (\<lambda>r. r\<lparr>ob_state := ''expired'', ob_settled := Some (formatTime wall)\<rparr>) u = Some (t, n)"
      "route = current\<lparr>rp_active := False, rp_revoked := wall\<rparr>"
proof -
  obtain found where f: "peerRouteByIDTx routeID s = Inr found"
    and rest: "(case found of
          None \<Rightarrow> Inl ErrPeerRouteUnavailable
        | Some current \<Rightarrow>
            if \<not> rp_active current then Inr (current, s)
            else
              bindE (execute ''revoke peer route: persist''
                      (update_routes (\<lambda>r. ro_id r = routeID \<and> ro_state r = ''active'' \<and> ro_revoked r = None)
                        (\<lambda>r. r\<lparr>ro_state := ''revoked'', ro_revoked := Some (formatTime wall)\<rparr>) s)) (\<lambda>(s, rows).
              bindE (require (Problem ''admit Intent: peer route revoke cardinality violated'') (rows = 1)) (\<lambda>_.
              bindE (execute ''revoke peer route: expire pending deliveries''
                      (update_outbox (\<lambda>r. ob_route r = routeID \<and> ob_state r = ''pending'')
                        (\<lambda>r. r\<lparr>ob_state := ''expired'', ob_settled := Some (formatTime wall)\<rparr>) s)) (\<lambda>(s, _).
              Inr (current\<lparr>rp_active := False, rp_revoked := wall\<rparr>, s))))) = Inr (route, t)"
    using assms by (auto simp: RevokePeerRoute_def guards trustedNow_def simp del: option.case_eq_if)
  then obtain current where current: "found = Some current" by (cases found) auto
  show ?thesis
  proof (cases "rp_active current")
    case True
    then show ?thesis using rest f fresh unfolding current by (auto simp: guards split_paired_Ex)
  next
    case False
    then have "current = route" "t = s" using rest current by simp_all
    then show ?thesis using replay f current False by blast
  qed
qed

lemma EnrollPeerRoute_open: "EnrollPeerRoute wall spec s = Inr x \<Longrightarrow> \<not> closed s"
  and RevokePeerRoute_open: "RevokePeerRoute wall routeID s = Inr y \<Longrightarrow> \<not> closed s"
  by (auto simp: EnrollPeerRoute_def RevokePeerRoute_def requireOpen_def trustedNow_def require_def bindE_def
      split: option.splits sum.splits if_splits)

lemma enrolled_found:
  assumes "EnrollPeerRoute wall spec s = Inr (route, t)" "spec_typed spec" "formattable wall"
  shows "peerRouteByIDTx (rs_route spec) t = Inr (Some route)" "PeerRouteSpec.truncate route = spec"
    "derivePeerRouteSourcePrincipal spec = Inr (rp_surrogate route)" "rp_active route" "\<not> closed t"
proof -
  have all: "peerRouteByIDTx (rs_route spec) t = Inr (Some route) \<and> PeerRouteSpec.truncate route = spec \<and>
    derivePeerRouteSourcePrincipal spec = Inr (rp_surrogate route) \<and> rp_active route \<and> \<not> closed t"
    using assms(1)
  proof (cases rule: EnrollPeerRoute_cases)
    case replay
    then show ?thesis using EnrollPeerRoute_open [OF assms(1)] by simp
  next
    case (fresh surrogate u)
    have t: "peer_routes t = peer_routes s @ [routeRowOf spec surrogate wall]" "closed t = closed s"
      using insert_effect(1) [OF fresh(4)] insert_effect(3) [OF fresh(5)] by simp_all
    have "List.find (\<lambda>r. ro_id r = rs_route spec) (peer_routes t) = Some (routeRowOf spec surrogate wall)"
      using fresh(1) by (simp add: t find_append find_route_in_store [symmetric]) (simp add: routeRowOf_def)
    then show ?thesis
      using scan_routeRowOf [OF assms(2) fresh(2) assms(3)] fresh(2,6) t(2) EnrollPeerRoute_open [OF assms(1)]
      by (simp add: peerRouteByIDTx_def peerRouteProjection_def PeerRouteSpec.defs)
  qed
  then show "peerRouteByIDTx (rs_route spec) t = Inr (Some route)" "PeerRouteSpec.truncate route = spec"
    "derivePeerRouteSourcePrincipal spec = Inr (rp_surrogate route)" "rp_active route" "\<not> closed t" by simp_all
qed

text \<open>
  (C36) A route that \<^verbatim>\<open>EnrollPeerRoute\<close> returns is durable: the store reads it back as it was returned, active
  and with exactly the authority the owner gave. Enrolling the same spec again, at any later time, returns
  the same route and changes nothing; enrolling any other valid spec under its RouteID is a conflict.
\<close>

theorem enrolled_route_durable:
  assumes "EnrollPeerRoute wall spec s = Inr (route, t)" "spec_typed spec" "formattable wall" "later \<noteq> zeroTime"
  shows "peerRouteByIDTx (rs_route spec) t = Inr (Some route) \<and> PeerRouteSpec.truncate route = spec \<and> rp_active route \<and>
    EnrollPeerRoute later spec t = Inr (route, t) \<and>
    (rs_route other = rs_route spec \<and> other \<noteq> spec \<and> validatePeerRouteSpec other = None \<longrightarrow>
     EnrollPeerRoute later other t = Inl ErrPeerRouteConflict)"
proof -
  note f = enrolled_found [OF assms(1-3)]
  have e: "EnrollPeerRoute later sp t =
      (if peerRouteMatchesSpec route sp p then Inr (route, t) else Inl ErrPeerRouteConflict)"
    if "derivePeerRouteSourcePrincipal sp = Inr p" "rs_route sp = rs_route spec" for sp p
    using that derive_valid [OF that(1)] f assms(4)
    by (simp add: EnrollPeerRoute_def trustedNow_def requireOpen_def require_def)
  have "EnrollPeerRoute later other t = Inl ErrPeerRouteConflict"
    if "rs_route other = rs_route spec" "other \<noteq> spec" "validatePeerRouteSpec other = None"
    using derive_total [OF that(3)] e [of other] that f(2) by (auto simp: peerRouteMatchesSpec_def)
  then show ?thesis using e [OF f(3)] f by (simp add: peerRouteMatchesSpec_def)
qed

section \<open>Revocation\<close>

lemma found_route:
  "peerRouteByIDTx routeID s = Inr (Some p) \<Longrightarrow>
   \<exists>r. List.find (\<lambda>r. ro_id r = routeID) (peer_routes s) = Some r \<and> scanPeerRoute r = Inr p \<and> ro_id r = routeID"
  by (auto simp: peerRouteByIDTx_def bindE_Inr split: option.splits dest: find_Some_iff_mem)

lemma scanned:
  assumes "scanPeerRoute r = Inr p"
  shows "PeerRouteSpec.truncate p = rowSpec r" "rp_surrogate p = ro_surrogate r" "spec_typed (rowSpec r)"
    "derivePeerRouteSourcePrincipal (rowSpec r) = Inr (ro_surrogate r)" "rs_route p = ro_id r"
    "rp_active p \<longleftrightarrow> ro_state r = ''active'' \<and> ro_revoked r = None"
  using assms by (auto simp: scanPeerRoute_Inr peerRouteProjection_def PeerRouteSpec.defs rowSpec_def)

text \<open>The row a revocation leaves, and how it is read.\<close>

lemma scan_revoked:
  assumes "scanPeerRoute r = Inr p" "rp_active p" "formattable now"
  shows "scanPeerRoute (r\<lparr>ro_state := ''revoked'', ro_revoked := Some (formatTime now)\<rparr>) =
    (if now < rp_enrolled p then Inl (Problem ''peer route: corrupt revocation time'')
     else Inr (p\<lparr>rp_active := False, rp_revoked := now\<rparr>))"
proof -
  let ?r = "r\<lparr>ro_state := ''revoked'', ro_revoked := Some (formatTime now)\<rparr>"
  obtain enrolled where a: "spec_typed (rowSpec r)" "derivePeerRouteSourcePrincipal (rowSpec r) = Inr (ro_surrogate r)"
    "parseTime (ro_enrolled r) = Inr enrolled" "p = peerRouteProjection (rowSpec r) (ro_surrogate r) True enrolled zeroTime"
    using assms(1,2) by (auto simp: scanPeerRoute_Inr peerRouteProjection_def PeerRouteSpec.defs)
  have same: "rowSpec ?r = rowSpec r" by (simp add: rowSpec_def)
  have e: "rp_enrolled p = enrolled" using a(4) by (simp add: peerRouteProjection_def PeerRouteSpec.defs)
  show ?thesis
  proof (cases "now < enrolled")
    case False
    then have "scanPeerRoute ?r = Inr (peerRouteProjection (rowSpec r) (ro_surrogate r) False enrolled now)"
      using a by (simp add: scanPeerRoute_Inr same parseTime_formatTime [OF assms(3)])
    then show ?thesis using False a(4) e by (simp add: peerRouteProjection_def PeerRouteSpec.defs)
  next
    case True
    have "length (ro_key r) = MaxPeerRoutePublicKeyBytes"
      using derive_valid [OF a(2)] valid_key [of "rowSpec r"] by (simp add: rowSpec_def)
    then have "scanPeerRoute ?r = Inl (Problem ''peer route: corrupt revocation time'')"
      using True a(1-3) derive_valid [OF a(2)]
      by (simp add: scanPeerRoute_def orElse_def require_def spec_typed_def rowSpec_def parseTime_formatTime [OF assms(3)]
          identifier_Inr [THEN iffD2] NewOpaqueHandle_Inr [THEN iffD2])
    then show ?thesis using True e by simp
  qed
qed

lemma revoked_found:
  assumes "RevokePeerRoute wall routeID s = Inr (route, t)" "formattable wall"
    "peerRouteByIDTx routeID s = Inr (Some current)" "rp_active current"
  shows "route = current\<lparr>rp_active := False, rp_revoked := wall\<rparr>" "\<not> closed t"
    "peerRouteByIDTx routeID t =
      (if wall < rp_enrolled current then Inl (Problem ''peer route: corrupt revocation time'') else Inr (Some route))"
proof -
  have all: "route = current\<lparr>rp_active := False, rp_revoked := wall\<rparr> \<and> \<not> closed t \<and> peerRouteByIDTx routeID t =
      (if wall < rp_enrolled current then Inl (Problem ''peer route: corrupt revocation time'') else Inr (Some route))"
    using assms(1)
  proof (cases rule: RevokePeerRoute_cases)
    case replay
    then show ?thesis using assms(3,4) by simp
  next
    case (fresh cur u n)
    have cur: "cur = current" using fresh(1) assms(3) by simp
    obtain r where r: "List.find (\<lambda>r. ro_id r = routeID) (peer_routes s) = Some r" "scanPeerRoute r = Inr current"
      "ro_id r = routeID"
      using found_route [OF assms(3)] by blast
    then have "ro_state r = ''active''" "ro_revoked r = None" using scanned(6) [OF r(2)] assms(4) by simp_all
    moreover have t: "peer_routes t = peer_routes u" "closed t = closed u"
      "u = s\<lparr>peer_routes := update_where (\<lambda>r. ro_id r = routeID \<and> ro_state r = ''active'' \<and> ro_revoked r = None)
         (\<lambda>r. r\<lparr>ro_state := ''revoked'', ro_revoked := Some (formatTime wall)\<rparr>) (peer_routes s)\<rparr>"
      using update_effect(1) [OF fresh(3)] update_effect(2) [OF fresh(4)] by simp_all
    ultimately have "List.find (\<lambda>r. ro_id r = routeID) (peer_routes t) =
        Some (r\<lparr>ro_state := ''revoked'', ro_revoked := Some (formatTime wall)\<rparr>)"
      using r(1,3) by (simp add: find_update_where)
    then show ?thesis
      using scan_revoked [OF r(2) assms(4,2)] fresh(5) t RevokePeerRoute_open [OF assms(1)] cur
      by (simp add: peerRouteByIDTx_def)
  qed
  then show "route = current\<lparr>rp_active := False, rp_revoked := wall\<rparr>" "\<not> closed t"
    "peerRouteByIDTx routeID t =
      (if wall < rp_enrolled current then Inl (Problem ''peer route: corrupt revocation time'') else Inr (Some route))"
    by simp_all
qed

text \<open>
  (C37) Revocation. When the clock has not gone back behind the enrollment, the store reads the revoked
  route back as \<^verbatim>\<open>RevokePeerRoute\<close> returned it, revoking again at any later time returns the same route and
  changes nothing, and enrolling its spec again is refused: the route is not brought back.
\<close>

theorem revocation_final:
  assumes "RevokePeerRoute wall routeID s = Inr (route, t)" "formattable wall"
    "peerRouteByIDTx routeID s = Inr (Some current)" "rp_active current" "rp_enrolled current \<le> wall" "later \<noteq> zeroTime"
  shows "route = current\<lparr>rp_active := False, rp_revoked := wall\<rparr> \<and> peerRouteByIDTx routeID t = Inr (Some route) \<and>
    RevokePeerRoute later routeID t = Inr (route, t) \<and>
    EnrollPeerRoute later (PeerRouteSpec.truncate current) t = Inl ErrPeerRouteRevoked"
proof -
  note f = revoked_found [OF assms(1-4)]
  have found: "peerRouteByIDTx routeID t = Inr (Some route)" using f(3) assms(5) by simp
  obtain r where r: "scanPeerRoute r = Inr current" "ro_id r = routeID"
    using found_route [OF assms(3)] by blast
  then have d: "derivePeerRouteSourcePrincipal (PeerRouteSpec.truncate current) = Inr (rp_surrogate current)"
    "rs_route current = routeID"
    using scanned [OF r(1)] by simp_all
  have ne: "routeID \<noteq> []" using assms(1) by (auto simp: RevokePeerRoute_def)
  have "EnrollPeerRoute later (PeerRouteSpec.truncate current) t = Inl ErrPeerRouteRevoked"
    using derive_valid [OF d(1)] d(1,2) found f(1,2) assms(6)
    by (simp add: EnrollPeerRoute_def trustedNow_def requireOpen_def require_def peerRouteMatchesSpec_def PeerRouteSpec.defs)
  moreover have "RevokePeerRoute later routeID t = Inr (route, t)"
    using found f(1,2) assms(6) ne by (simp add: RevokePeerRoute_def trustedNow_def requireOpen_def require_def)
  ultimately show ?thesis using f(1) found by simp
qed

section \<open>Enrollment succeeds\<close>

lemma valid_address:
  assumes "ValidString a" "CHR 0x00 \<notin> set a" "a \<noteq> []"
  shows "1 \<le> text_length a" "text_length a \<le> length a"
proof -
  obtain c cs where a: "a = c # cs" using assms(3) by (cases a) auto
  have "\<not> (128 \<le> code c \<and> code c < 192)"
  proof
    assume "128 \<le> code c \<and> code c < 192"
    then have "rune_len a = 0" by (simp add: a rune_len.simps Let_def)
    then show False using assms(1,3) by (simp add: ValidString.simps [of a])
  qed
  moreover have "takeWhile (\<lambda>c. c \<noteq> CHR 0x00) a = a" using assms(2) by (auto simp: takeWhile_eq_all_conv)
  ultimately have "text_length a = Suc (length (filter (\<lambda>c. \<not> (128 \<le> code c \<and> code c < 192)) cs))"
    unfolding text_length_def a by simp
  then show "1 \<le> text_length a" "text_length a \<le> length a"
    using length_filter_le [of "\<lambda>c. \<not> (128 \<le> code c \<and> code c < 192)" cs] by (simp_all add: a)
qed

lemma valid_spec:
  assumes "validatePeerRouteSpec spec = None"
  shows "length (rs_key spec) = 32" "1 \<le> text_length (rs_address spec)" "text_length (rs_address spec) \<le> 512"
proof -
  have "length (rs_key spec) = 32 \<and> ValidString (rs_address spec) \<and> CHR 0x00 \<notin> set (rs_address spec) \<and>
      rs_address spec \<noteq> [] \<and> length (rs_address spec) \<le> 512"
    using assms
    by (auto simp: validatePeerRouteSpec_def NewSemanticPayload_def MaxPeerRoutePublicKeyBytes_def
        MaxPeerTransportAddressBytes_def split: if_splits sum.splits)
  then show "length (rs_key spec) = 32" "1 \<le> text_length (rs_address spec)" "text_length (rs_address spec) \<le> 512"
    using valid_address [of "rs_address spec"] by auto
qed

text \<open>
  A valid spec for a known local Principal, with a new RouteID, alias, peer and surrogate, is enrolled
  whenever fewer than eight routes are active: no constraint of the schema is in the way.
\<close>

lemma EnrollPeerRoute_ex:
  assumes "store_ok s" "\<not> closed s" "wall \<noteq> zeroTime" "derivePeerRouteSourcePrincipal spec = Inr surrogate"
    "rs_route spec \<notin> route_ids s" "requirePeerRouteInputsAvailableTx spec surrogate s = Inr ()"
  shows "\<exists>route t. EnrollPeerRoute wall spec s = Inr (route, t)"
proof -
  let ?p = "\<lparr>pr_id = surrogate, pr_createdAt = formatTime wall\<rparr>" and ?r = "routeRowOf spec surrogate wall"
  note v = derive_valid [OF assms(4)]
  have avail: "rs_localTarget spec \<in> principal_ids s" "surrogate \<notin> principal_ids s"
    "rs_alias spec \<notin> set (map ro_alias (peer_routes s))" "rs_peer spec \<notin> set (map ro_peer (peer_routes s))"
    using assms(6) by (auto simp: requirePeerRouteInputsAvailableTx_def split: if_splits)
  define u where "u = s\<lparr>principals := principals s @ [?p]\<rparr>"
  have p: "insert_principal ?p s = Some u"
    using assms(1) avail(2) by (auto simp: insert_principal_def u_def store_ok_def principals_ok_def principal_ids_def)
  have ids: "principal_ids u = insert surrogate (principal_ids s)" by (auto simp: u_def principal_ids_def)
  have old: "routes_ok s (peer_routes s)" using assms(1) by (simp add: store_ok_def)
  have "surrogate \<notin> set (map ro_surrogate (peer_routes s))"
    using old avail(2) by (auto simp: routes_ok_def list_all_iff)
  then have "routes_ok u (peer_routes s @ [?r])"
    using old avail assms(5) valid_spec [of spec] v ids
    by (auto simp: routes_ok_def route_ids_def list_all_iff routeRowOf_def)
  then have r: "\<exists>t. insert_route ?r u = Some t" by (simp add: insert_route_def u_def)
  have "peerRouteByIDTx (rs_route spec) s = Inr None"
    using assms(5) by (simp add: peerRouteByIDTx_def find_route_in_store [symmetric])
  then show ?thesis
    using p r assms(2-4,6) v by (auto simp: EnrollPeerRoute_def trustedNow_def requireOpen_def require_def execute_def)
qed

text \<open>A first revocation succeeds too.\<close>

lemma outbox_expired:
  "outbox_check r \<Longrightarrow> ob_state r = ''pending'' \<Longrightarrow> outbox_check (r\<lparr>ob_state := ''expired'', ob_settled := Some v\<rparr>)"
  by (simp add: outbox_check_def)

lemma RevokePeerRoute_ex:
  assumes "store_ok s" "\<not> closed s" "wall \<noteq> zeroTime" "peerRouteByIDTx routeID s = Inr (Some current)" "rp_active current"
  shows "\<exists>t. RevokePeerRoute wall routeID s = Inr (current\<lparr>rp_active := False, rp_revoked := wall\<rparr>, t)"
proof -
  let ?P = "\<lambda>r. ro_id r = routeID \<and> ro_state r = ''active'' \<and> ro_revoked r = None"
    and ?f = "\<lambda>r. r\<lparr>ro_state := ''revoked'', ro_revoked := Some (formatTime wall)\<rparr>"
    and ?Q = "\<lambda>r. ob_route r = routeID \<and> ob_state r = ''pending''"
    and ?g = "\<lambda>r. r\<lparr>ob_state := ''expired'', ob_settled := Some (formatTime wall)\<rparr>"
  obtain r where r: "r \<in> set (peer_routes s)" "scanPeerRoute r = Inr current" "ro_id r = routeID"
    using found_route [OF assms(4)] find_Some_iff_mem by fast
  have old: "routes_ok s (peer_routes s)" "outbox_ok s (peer_outbox s)" using assms(1) by (simp_all add: store_ok_def)
  then have n: "matching ?P (peer_routes s) = 1"
    using r assms(5) scanned(6) [OF r(2)] by (intro distinct_matching [where f = ro_id and r = r]) (auto simp: routes_ok_def)
  define u where "u = s\<lparr>peer_routes := update_where ?P ?f (peer_routes s)\<rparr>"
  have "routes_ok s (peer_routes u)"
    using old(1) by (auto simp: routes_ok_def u_def intro!: list_all_update_where)
  then have 1: "update_routes ?P ?f s = Some (u, 1)" using n by (simp add: update_routes_def u_def)
  have grow: "grows s u"
    unfolding u_def grows_def ids_defs set_map [symmetric] by (simp del: set_map)
  have out: "outbox_ok u (peer_outbox u)"
    using tables_grow(5) [OF grow old(2)] by (simp add: u_def)
  have "list_all outbox_check (update_where ?Q ?g (peer_outbox u))"
    by (rule list_all_update_where) (use out in \<open>simp_all add: outbox_ok_def outbox_expired\<close>)
  then have "outbox_ok u (update_where ?Q ?g (peer_outbox u))"
    using out by (simp add: outbox_ok_def list_all_update_where)
  then obtain t where 2: "\<exists>m. update_outbox ?Q ?g u = Some (t, m)" by (auto simp: update_outbox_def)
  have "handle_ok routeID" using scanned(3) [OF r(2)] r(3) by (simp add: spec_typed_def rowSpec_def)
  then have "routeID \<noteq> []" using token_okD by blast
  then show ?thesis
    using 1 2 assms(2-5) by (auto simp: RevokePeerRoute_def trustedNow_def requireOpen_def require_def execute_def)
qed

text \<open>
  (C38) When the clock, at a date of four digits, has gone back behind the enrollment of an active route of an open store
  that meets its schema, \<^verbatim>\<open>RevokePeerRoute\<close> still succeeds, since neither the code nor the schema compares the two
  times, but the row it writes is refused when it is read: in the store it leaves, and whatever nonzero time the
  clock reads then, the route cannot be looked up or revoked again, no valid spec can be enrolled under its RouteID,
  and the projection of the whole table fails.
\<close>

theorem revocation_behind_enrollment:
  assumes "store_ok s" "\<not> closed s" "formattable wall" "wall \<noteq> zeroTime" "peerRouteByIDTx routeID s = Inr (Some current)"
    "rp_active current" "wall < rp_enrolled current" "later \<noteq> zeroTime"
  shows "\<exists>t. RevokePeerRoute wall routeID s = Inr (current\<lparr>rp_active := False, rp_revoked := wall\<rparr>, t) \<and>
    peerRouteByIDTx routeID t = Inl (Problem ''peer route: corrupt revocation time'') \<and>
    RevokePeerRoute later routeID t = Inl (Problem ''peer route: corrupt revocation time'') \<and>
    (\<forall>spec. rs_route spec = routeID \<and> validatePeerRouteSpec spec = None \<longrightarrow>
       EnrollPeerRoute later spec t = Inl (Problem ''peer route: corrupt revocation time'')) \<and>
    (\<exists>e. PeerRoutes t = Inl e)"
proof -
  obtain t where t: "RevokePeerRoute wall routeID s = Inr (current\<lparr>rp_active := False, rp_revoked := wall\<rparr>, t)"
    using RevokePeerRoute_ex [OF assms(1,2,4-6)] by blast
  note f = revoked_found [OF t assms(3,5,6)]
  have bad: "peerRouteByIDTx routeID t = Inl (Problem ''peer route: corrupt revocation time'')" using f(3) assms(7) by simp
  then obtain r where r: "List.find (\<lambda>r. ro_id r = routeID) (peer_routes t) = Some r" "\<exists>e. scanPeerRoute r = Inl e"
    by (auto simp: peerRouteByIDTx_def bindE_def split: option.splits sum.splits)
  then have "r \<in> set (sort_key ro_id (peer_routes t))" using find_Some_iff_mem by fastforce
  then have "\<exists>e. PeerRoutes t = Inl e"
    using r(2) mapE_Inl [of r _ scanPeerRoute] by (auto simp: PeerRoutes_def requireOpen_def require_def f(2))
  moreover have "EnrollPeerRoute later spec t = Inl (Problem ''peer route: corrupt revocation time'')"
    if "rs_route spec = routeID" "validatePeerRouteSpec spec = None" for spec
    using derive_total [OF that(2)] that bad f(2) assms(8)
    by (auto simp: EnrollPeerRoute_def trustedNow_def requireOpen_def require_def)
  moreover have "routeID \<noteq> []" using t by (auto simp: RevokePeerRoute_def)
  ultimately show ?thesis
    using t bad f(2) assms(8) by (simp add: RevokePeerRoute_def trustedNow_def requireOpen_def require_def)
qed

section \<open>A life of the table\<close>

text \<open>The operations that write routes, in any order, at any times.\<close>

inductive route_step :: "Store \<Rightarrow> Store \<Rightarrow> bool" where
  enroll: "EnrollPeerRoute wall spec s = Inr (route, t) \<Longrightarrow> route_step s t"
| revoke: "RevokePeerRoute wall routeID s = Inr (route, t) \<Longrightarrow> route_step s t"

definition active_routes :: "Store \<Rightarrow> nat" where
  "active_routes s = matching (\<lambda>r. ro_state r = ''active'') (peer_routes s)"

text \<open>What one step does to the table: nothing, one new active row within the bound, or one revocation.\<close>

lemma route_step_rows:
  assumes "route_step s t"
  obtains (same) "peer_routes t = peer_routes s"
  | (new) r where "peer_routes t = peer_routes s @ [r]" "active_routes s < MaxActivePeerRoutes"
  | (revoked) P v where "peer_routes t = update_where (\<lambda>r. P r \<and> ro_state r = ''active'')
      (\<lambda>r. r\<lparr>ro_state := ''revoked'', ro_revoked := Some v\<rparr>) (peer_routes s)"
  using assms
proof cases
  case (enroll wall spec route)
  then show ?thesis
  proof (cases rule: EnrollPeerRoute_cases)
    case replay
    then show ?thesis using same by simp
  next
    case (fresh surrogate u)
    have "active_routes s < MaxActivePeerRoutes"
      using fresh(3) by (auto simp: requirePeerRouteInputsAvailableTx_def active_routes_def matching_def split: if_splits)
    then show ?thesis
      using new insert_effect(1) [OF fresh(4)] insert_effect(3) [OF fresh(5)] by simp
  qed
next
  case (revoke wall routeID route)
  then show ?thesis
  proof (cases rule: RevokePeerRoute_cases)
    case replay
    then show ?thesis using same by simp
  next
    case (fresh current u n)
    have "peer_routes t = update_where (\<lambda>r. (ro_id r = routeID \<and> ro_revoked r = None) \<and> ro_state r = ''active'')
      (\<lambda>r. r\<lparr>ro_state := ''revoked'', ro_revoked := Some (formatTime wall)\<rparr>) (peer_routes s)"
      using update_effect(1) [OF fresh(3)] update_effect(2) [OF fresh(4)]
      by (simp add: update_where_def conj_commute conj_left_commute)
    then show ?thesis by (rule revoked)
  qed
qed

lemma route_step_bound:
  assumes "route_step s t" "active_routes s \<le> MaxActivePeerRoutes"
  shows "active_routes t \<le> MaxActivePeerRoutes"
  using assms(1)
proof (cases rule: route_step_rows)
  case (revoked P v)
  have "active_routes t \<le> active_routes s"
    unfolding active_routes_def matching_def revoked by (rule filter_update_where) simp
  then show ?thesis using assms(2) by simp
qed (use assms(2) in \<open>auto simp: active_routes_def matching_def\<close>)

text \<open>A row, and what it has become.\<close>

definition row_successor :: "routeRow \<Rightarrow> routeRow \<Rightarrow> bool" where
  "row_successor r q \<longleftrightarrow> rowSpec q = rowSpec r \<and> ro_surrogate q = ro_surrogate r \<and> ro_enrolled q = ro_enrolled r \<and>
     (ro_state r = ''active'' \<or> q = r)"

lemma row_successor_refl: "row_successor r r"
  by (simp add: row_successor_def)

lemma row_successor_trans: "row_successor r q \<Longrightarrow> row_successor q p \<Longrightarrow> row_successor r p"
  by (auto simp: row_successor_def)

lemma route_step_successor:
  assumes "route_step s t" "r \<in> set (peer_routes s)"
  shows "\<exists>q \<in> set (peer_routes t). row_successor r q"
  using assms(1)
proof (cases rule: route_step_rows)
  case (revoked P v)
  let ?q = "if P r \<and> ro_state r = ''active'' then r\<lparr>ro_state := ''revoked'', ro_revoked := Some v\<rparr> else r"
  have "?q \<in> set (peer_routes t)" using assms(2) unfolding revoked update_where_def by auto
  moreover have "row_successor r ?q" by (simp add: row_successor_def rowSpec_def)
  ultimately show ?thesis by blast
qed (use assms(2) in \<open>auto intro: row_successor_refl\<close>)

text \<open>
  (C35) Whatever routes are enrolled and revoked, in any order: never more than eight are active, no row is
  lost, and no row ever changes its RouteID, alias, peer, key, address, targets, surrogate or time of
  enrollment; a revoked row does not change at all.
\<close>

theorem routes_never_rebound:
  assumes "route_step\<^sup>*\<^sup>* s t" "active_routes s \<le> MaxActivePeerRoutes" "r \<in> set (peer_routes s)"
  shows "active_routes t \<le> MaxActivePeerRoutes \<and>
    (\<exists>q \<in> set (peer_routes t). rowSpec q = rowSpec r \<and> ro_surrogate q = ro_surrogate r \<and> ro_enrolled q = ro_enrolled r \<and>
      (ro_state r \<noteq> ''active'' \<longrightarrow> q = r))"
proof -
  have "active_routes t \<le> MaxActivePeerRoutes \<and> (\<exists>q \<in> set (peer_routes t). row_successor r q)"
    using assms
  proof (induction rule: rtranclp_induct)
    case base
    then show ?case using row_successor_refl by blast
  next
    case (step t u)
    then show ?case using route_step_bound [OF step(2)] route_step_successor [OF step(2)] row_successor_trans by blast
  qed
  then show ?thesis by (auto simp: row_successor_def)
qed

section \<open>An instance\<close>

lemma numeral_instant [simp]: "(numeral n :: instant) \<noteq> zeroTime"
  by (simp add: zeroTime_def unixDays_def nsPerDay_def)

text \<open>One local Principal and one route to a peer.\<close>

definition sampleStore :: Store where
  "sampleStore = emptyStore\<lparr>principals := [\<lparr>pr_id = ''agent:local'', pr_createdAt = ''2026-01-01T00:00:00.000000000Z''\<rparr>]\<rparr>"

definition sampleSpec :: PeerRouteSpec where
  "sampleSpec = \<lparr>rs_route = ''route:1'', rs_alias = ''bob'', rs_peer = ''peer:bob'', rs_key = replicate 32 CHR ''k'',
     rs_address = ''tcp://bob:7000'', rs_remoteAlias = ''alice'', rs_inboundAlias = ''desk'', rs_localTarget = ''agent:local''\<rparr>"

lemma sample_spec:
  "validatePeerRouteSpec sampleSpec = None" "spec_typed sampleSpec" "store_ok sampleStore"
  by code_simp+

lemma sample_enrolled:
  assumes "wall \<noteq> zeroTime"
  shows "\<exists>route t. EnrollPeerRoute wall sampleSpec sampleStore = Inr (route, t)"
proof -
  obtain p where d: "derivePeerRouteSourcePrincipal sampleSpec = Inr (''agent:peer-route:'' @ p)"
    using derive_total [OF sample_spec(1)] by blast
  have "requirePeerRouteInputsAvailableTx sampleSpec (''agent:peer-route:'' @ p) sampleStore = Inr ()"
    "rs_route sampleSpec \<notin> route_ids sampleStore" "\<not> closed sampleStore"
    by (simp_all add: requirePeerRouteInputsAvailableTx_def sampleStore_def sampleSpec_def principal_ids_def emptyStore_def
        MaxActivePeerRoutes_def route_ids_def)
  then show ?thesis using EnrollPeerRoute_ex [OF sample_spec(3) _ assms d] by simp
qed

lemma EnrollPeerRoute_keeps: "EnrollPeerRoute wall spec s = Inr (route, t) \<Longrightarrow> store_ok s \<Longrightarrow> store_ok t"
  by (erule EnrollPeerRoute_cases) (use insert_keeps(1,8) in \<open>blast+\<close>)

lemma RevokePeerRoute_keeps: "RevokePeerRoute wall routeID s = Inr (route, t) \<Longrightarrow> store_ok s \<Longrightarrow> store_ok t"
proof (erule RevokePeerRoute_cases)
  fix current u n
  assume s: "store_ok s" and u: "update_routes (\<lambda>r. ro_id r = routeID \<and> ro_state r = ''active'' \<and> ro_revoked r = None)
      (\<lambda>r. r\<lparr>ro_state := ''revoked'', ro_revoked := Some (formatTime wall)\<rparr>) s = Some (u, 1)"
    and t: "update_outbox (\<lambda>r. ob_route r = routeID \<and> ob_state r = ''pending'')
      (\<lambda>r. r\<lparr>ob_state := ''expired'', ob_settled := Some (formatTime wall)\<rparr>) u = Some (t, n)"
  have "store_ok u" using update_keeps(3) [OF s u] by simp
  then show "store_ok t" using update_keeps(4) [OF _ t] by blast
qed simp

text \<open>The sample route, enrolled at one time and revoked at another.\<close>

lemma sample_revoked:
  assumes "formattable wall" "wall \<noteq> zeroTime" "now \<noteq> zeroTime"
  obtains route t route' t' where "EnrollPeerRoute wall sampleSpec sampleStore = Inr (route, t)"
    "rp_enrolled route = wall" "rp_active route" "peerRouteByIDTx ''route:1'' t = Inr (Some route)"
    "RevokePeerRoute now ''route:1'' t = Inr (route', t')"
proof -
  obtain route t where e: "EnrollPeerRoute wall sampleSpec sampleStore = Inr (route, t)"
    using sample_enrolled [OF assms(2)] by blast
  note f = enrolled_found [OF e sample_spec(2) assms(1)]
  have "rp_enrolled route = wall"
    using e
  proof (cases rule: EnrollPeerRoute_cases)
    case replay
    then show ?thesis by (simp add: peerRouteByIDTx_def sampleStore_def emptyStore_def)
  next
    case (fresh surrogate u)
    then show ?thesis by (simp add: peerRouteProjection_def PeerRouteSpec.defs)
  qed
  moreover have "rs_route sampleSpec = ''route:1''" by (simp add: sampleSpec_def)
  moreover obtain t' where "RevokePeerRoute now ''route:1'' t = Inr (route\<lparr>rp_active := False, rp_revoked := now\<rparr>, t')"
    using RevokePeerRoute_ex [OF EnrollPeerRoute_keeps [OF e sample_spec(3)] f(5) assms(3) f(1,4)] calculation by auto
  ultimately show ?thesis using that e f by simp
qed

theorem enrolled_route_durable_witness:
  "\<exists>route t. EnrollPeerRoute 1000 sampleSpec sampleStore = Inr (route, t) \<and> EnrollPeerRoute 2000 sampleSpec t = Inr (route, t) \<and>
     EnrollPeerRoute 2000 (sampleSpec\<lparr>rs_alias := ''carol''\<rparr>) t = Inl ErrPeerRouteConflict"
proof -
  have f: "formattable 1000" by (rule formattable_int64; simp)
  obtain route t where e: "EnrollPeerRoute 1000 sampleSpec sampleStore = Inr (route, t)"
    using sample_enrolled [of 1000] by auto
  have o: "rs_route (sampleSpec\<lparr>rs_alias := ''carol''\<rparr>) = rs_route sampleSpec" "sampleSpec\<lparr>rs_alias := ''carol''\<rparr> \<noteq> sampleSpec"
    "validatePeerRouteSpec (sampleSpec\<lparr>rs_alias := ''carol''\<rparr>) = None" by code_simp+
  show ?thesis
    using enrolled_route_durable [OF e sample_spec(2) f, of 2000 "sampleSpec\<lparr>rs_alias := ''carol''\<rparr>"] e o
    by auto
qed

theorem revocation_final_witness:
  "\<exists>s route t. RevokePeerRoute 2000 ''route:1'' s = Inr (route, t) \<and> peerRouteByIDTx ''route:1'' t = Inr (Some route) \<and>
     RevokePeerRoute 3000 ''route:1'' t = Inr (route, t)"
proof -
  have f: "formattable 1000" "formattable 2000" by (rule formattable_int64; simp)+
  obtain route t route' t' where "rp_enrolled route = 1000" "rp_active route" "peerRouteByIDTx ''route:1'' t = Inr (Some route)"
    "RevokePeerRoute 2000 ''route:1'' t = Inr (route', t')"
    by (rule sample_revoked [OF f(1) numeral_instant numeral_instant])
  then show ?thesis using revocation_final [OF _ f(2), of "''route:1''" t route' t' route 3000] by auto
qed

theorem revocation_behind_enrollment_witness:
  "\<exists>s route t. peerRouteByIDTx ''route:1'' s = Inr (Some route) \<and> rp_enrolled route = 5000 \<and>
     RevokePeerRoute 2000 ''route:1'' s = Inr (route\<lparr>rp_active := False, rp_revoked := 2000\<rparr>, t) \<and>
     EnrollPeerRoute 6000 sampleSpec t = Inl (Problem ''peer route: corrupt revocation time'') \<and> (\<exists>e. PeerRoutes t = Inl e)"
proof -
  have f: "formattable 5000" "formattable 2000" by (rule formattable_int64; simp)+
  obtain route s where e: "EnrollPeerRoute 5000 sampleSpec sampleStore = Inr (route, s)"
    and route: "rp_enrolled route = 5000" "rp_active route" "peerRouteByIDTx ''route:1'' s = Inr (Some route)"
    by (rule sample_revoked [OF f(1) numeral_instant numeral_instant])
  have "store_ok s" "\<not> closed s" using EnrollPeerRoute_keeps [OF e sample_spec(3)] enrolled_found(5) [OF e sample_spec(2) f(1)] by simp_all
  moreover have "(2000 :: instant) < rp_enrolled route" using route(1) by simp
  moreover have "rs_route sampleSpec = ''route:1''" by (simp add: sampleSpec_def)
  ultimately show ?thesis
    using revocation_behind_enrollment [of s 2000 "''route:1''" route 6000] f(2) route sample_spec(1) by auto
qed

theorem routes_never_rebound_witness:
  "\<exists>s t r. route_step s t \<and> r \<in> set (peer_routes s) \<and> (\<exists>q \<in> set (peer_routes t). rowSpec q = rowSpec r)"
proof -
  have f: "formattable 1000" by (rule formattable_int64; simp)
  obtain route t route' t' where e: "EnrollPeerRoute 1000 sampleSpec sampleStore = Inr (route, t)"
    and found: "peerRouteByIDTx ''route:1'' t = Inr (Some route)" and r: "RevokePeerRoute 2000 ''route:1'' t = Inr (route', t')"
    by (rule sample_revoked [OF f numeral_instant numeral_instant])
  have "active_routes sampleStore \<le> MaxActivePeerRoutes" by (simp add: active_routes_def matching_def sampleStore_def emptyStore_def)
  then have b: "active_routes t \<le> MaxActivePeerRoutes" by (rule route_step_bound [OF route_step.enroll [OF e]])
  obtain row where row: "row \<in> set (peer_routes t)" using found_route [OF found] find_Some_iff_mem by fast
  have step: "route_step t t'" by (rule route_step.revoke [OF r])
  show ?thesis using routes_never_rebound [OF _ b row, of t'] step row by blast
qed

end
