(* ===== verification/Authority_Attachment.thy ===== *)
theory Authority_Attachment
  imports Authority_Claim Authority_Route
begin

text \<open>
  Principals and Attachments (\<^verbatim>\<open>internal/agency/authority/attachment.go\<close>, \<^verbatim>\<open>attachment_begin.go\<close>,
  \<^verbatim>\<open>attachment_end.go\<close>): enrollment and provisioning of Principals, the short-lived boundary a Host opens
  for a Principal, its authentication, its replacement by a fresh boundary and its end.

  Every identifier and the credential of a boundary are derived from the Principal and the digest of the
  Host's boundary, so that a repeated request is recognised by its key. Random bytes are an argument.
\<close>

section \<open>Principals\<close>

definition EnrollPrincipal :: "instant \<Rightarrow> AgentPrincipalID \<Rightarrow> Store \<Rightarrow> Store outcome" where
  "EnrollPrincipal wall who s =
     (if who = [] then Inl (Problem ''enroll Principal: Principal is required'')
      else
        bindE (trustedNow wall) (\<lambda>now.
        bindE (requireOpen s) (\<lambda>_.
        if who \<in> principal_ids s then Inr s
        else execute ''enroll Principal'' (insert_principal \<lparr>pr_id = who, pr_createdAt = formatTime now\<rparr> s))))"

definition RequirePrincipal :: "AgentPrincipalID \<Rightarrow> Store \<Rightarrow> unit outcome" where
  "RequirePrincipal who s =
     (if who = [] then Inl (Problem ''require Principal: Principal is required'')
      else bindE (requireOpen s) (\<lambda>_. require ErrPrincipalUnavailable (who \<in> principal_ids s)))"

text \<open>The loop over the routes; \<open>n\<close> counts the rows.\<close>

fun requireRoutes :: "AgentPrincipalID \<Rightarrow> nat \<Rightarrow> routeRow list \<Rightarrow> nat outcome" where
  "requireRoutes who n [] = Inr n"
| "requireRoutes who n (r # rs) =
     bindE (orElse ErrPrincipalConflict (scanPeerRoute r)) (\<lambda>route.
     bindE (require ErrPrincipalConflict (rs_localTarget route = who \<and> rp_surrogate route \<noteq> who)) (\<lambda>_.
     requireRoutes who (n + 1) rs))"

definition requireProvisionedRoutesTx :: "AgentPrincipalID \<Rightarrow> Store \<Rightarrow> nat outcome" where
  "requireProvisionedRoutesTx who s = requireRoutes who 0 (sort_key ro_id (peer_routes s))"

definition requireProvisionedPrincipalShapeTx :: "AgentPrincipalID \<Rightarrow> nat \<Rightarrow> Store \<Rightarrow> unit outcome" where
  "requireProvisionedPrincipalShapeTx who totalRows s =
     bindE (requireProvisionedRoutesTx who s) (\<lambda>routes. require ErrPrincipalConflict (totalRows = routes + 1))"

definition ProvisionInitialPrincipal :: "instant \<Rightarrow> AgentPrincipalID \<Rightarrow> Store \<Rightarrow> (bool \<times> Store) outcome" where
  "ProvisionInitialPrincipal wall who s =
     (if who = [] then Inl (Problem ''provision initial Principal: Principal is required'')
      else
        bindE (trustedNow wall) (\<lambda>now.
        bindE (requireOpen s) (\<lambda>_.
        let totalRows = length (principals s); exact = matching (\<lambda>p. pr_id p = who) (principals s)
        in if totalRows = 0 \<and> exact = 0 then
             bindE (execute ''provision initial Principal: persist''
                     (insert_principal \<lparr>pr_id = who, pr_createdAt = formatTime now\<rparr> s)) (\<lambda>s. Inr (False, s))
           else if exact = 1 then
             bindE (requireProvisionedPrincipalShapeTx who totalRows s) (\<lambda>_. Inr (True, s))
           else Inl ErrPrincipalConflict)))"

definition RequireProvisionedPrincipalShape :: "AgentPrincipalID \<Rightarrow> Store \<Rightarrow> unit outcome" where
  "RequireProvisionedPrincipalShape who s =
     (if who = [] then Inl (Problem ''require provisioned Principal: Principal is required'')
      else
        bindE (requireOpen s) (\<lambda>_.
        bindE (require ErrPrincipalConflict (matching (\<lambda>p. pr_id p = who) (principals s) = 1)) (\<lambda>_.
        requireProvisionedPrincipalShapeTx who (length (principals s)) s)))"

section \<open>Proofs and their authentication\<close>

definition interactiveAttachmentLifetime :: duration where "interactiveAttachmentLifetime = 15 * minute"
definition attachmentCredentialBytes :: nat where "attachmentCredentialBytes = 32"
definition randomIdentifierBytes :: nat where "randomIdentifierBytes = 16"

record AttachmentProof =
  proof_id :: AttachmentID
  proof_credential :: bytes
  proof_expires :: instant

definition NewAttachmentProof :: "AttachmentID \<Rightarrow> bytes \<Rightarrow> AttachmentProof outcome" where
  "NewAttachmentProof ident credential =
     (if ident = [] \<or> length credential \<noteq> attachmentCredentialBytes
      then Inl (Problem ''attachment proof: exact ID and credential are required'')
      else Inr \<lparr>proof_id = ident, proof_credential = credential, proof_expires = zeroTime\<rparr>)"

record authenticatedAttachment =
  aa_value :: Attachment
  aa_ended :: "instant option"

definition authenticateAttachmentTx :: "AttachmentProof \<Rightarrow> Store \<Rightarrow> authenticatedAttachment outcome" where
  "authenticateAttachmentTx capability s =
     (if proof_id capability = [] then Inl ErrAttachmentAuth
      else case List.find (\<lambda>r. at_id r = proof_id capability) (attachments s) of
        None \<Rightarrow> Inl ErrAttachmentAuth
      | Some r \<Rightarrow>
          bindE (require (Problem ''authenticate attachment: unsupported mode'') (at_mode r = ''interactive'')) (\<lambda>_.
          bindE (orElse (Problem ''authenticate attachment: corrupt credential digest'') (ParseDigest (at_credential r))) (\<lambda>stored.
          bindE (require ErrAttachmentAuth (Sum (proof_credential capability) = stored)) (\<lambda>_.
          bindE (orElse (Problem ''authenticate attachment: corrupt Principal'') (NewAgentPrincipalID (at_principal r))) (\<lambda>who.
          bindE (parseTime (at_issued r)) (\<lambda>issued.
          bindE (parseTime (at_expires r)) (\<lambda>expires.
          bindE (wrap ''authenticate attachment: corrupt authority''
                  (NewAttachment (proof_id capability) who True issued expires)) (\<lambda>attachment.
          case at_ended r of
            None \<Rightarrow> Inr \<lparr>aa_value = attachment, aa_ended = None\<rparr>
          | Some ended \<Rightarrow>
              bindE (orElse (Problem ''authenticate attachment: corrupt end time'') (parseTime ended)) (\<lambda>endedAt.
              bindE (require (Problem ''authenticate attachment: corrupt end time'') (\<not> endedAt < issued)) (\<lambda>_.
              Inr \<lparr>aa_value = attachment, aa_ended = Some endedAt\<rparr>))))))))))"

definition requireLiveAttachment :: "authenticatedAttachment \<Rightarrow> instant \<Rightarrow> unit outcome" where
  "requireLiveAttachment attachment now =
     (if aa_ended attachment \<noteq> None then Inl ErrAttachmentEnded
      else if \<not> now < expiresAt (aa_value attachment) then Inl ErrAttachmentExpired
      else Inr ())"

text \<open>Identifiers made of random bytes; the bytes are what \<^verbatim>\<open>rand.Read\<close> returned.\<close>

definition randomIdentifier :: "bytes \<Rightarrow> string \<Rightarrow> string" where
  "randomIdentifier entropy pre = pre @ '':'' @ RawURLEncoding entropy"

definition newEventID :: "bytes \<Rightarrow> EventID outcome" where
  "newEventID entropy = wrap [] (NewEventID (randomIdentifier entropy ''event''))"

definition newHandlingID :: "bytes \<Rightarrow> HandlingID outcome" where
  "newHandlingID entropy = wrap [] (NewHandlingID (randomIdentifier entropy ''handling''))"

section \<open>The end of a boundary\<close>

record AttachmentEndResult =
  er_replayed :: bool
  er_releasedClaim :: bool

definition attachmentClaimTx :: "AttachmentID \<Rightarrow> Store \<Rightarrow> expiredClaim option outcome" where
  "attachmentClaimTx attachment s =
     (case List.find (\<lambda>r. ha_claim r = Some attachment) (handlings s) of
        None \<Rightarrow> Inr None
      | Some r \<Rightarrow> bindE (scanExpiredClaim r) (\<lambda>claim. Inr (Some claim)))"

definition replayBoundaryEndTx :: "AttachmentID \<Rightarrow> Store \<Rightarrow> bool outcome" where
  "replayBoundaryEndTx attachment s =
     (if list_ex (\<lambda>r. ha_claim r = Some attachment) (handlings s)
      then Inl (Problem ''end attachment: ended boundary still occupies a claim'')
      else let dispositions = matching (\<lambda>d. di_attachment d = attachment \<and> di_kind d = ''boundary_end'') (claim_dispositions s)
           in if 1 < dispositions then Inl (Problem ''end attachment: invalid replay disposition cardinality'')
              else Inr (dispositions = 1))"

definition endLiveAttachmentTx :: "instant \<Rightarrow> AttachmentID \<Rightarrow> Store \<Rightarrow> (bool \<times> Store) outcome" where
  "endLiveAttachmentTx now attachment s =
     bindE (attachmentClaimTx attachment s) (\<lambda>found.
     bindE (execute ''end attachment: persist end''
             (update_attachments (\<lambda>r. at_id r = attachment \<and> at_ended r = None)
               (\<lambda>r. r\<lparr>at_ended := Some (formatTime now)\<rparr>) s)) (\<lambda>(s, rows).
     bindE (require (Problem ''end attachment: exact lifecycle changed'') (rows = 1)) (\<lambda>_.
     case found of
       None \<Rightarrow> Inr (False, s)
     | Some claim \<Rightarrow> bindE (settleClaimBoundaryEndTx now claim s) (\<lambda>s. Inr (True, s)))))"

definition EndInteractiveAttachment ::
  "instant \<Rightarrow> AttachmentProof \<Rightarrow> Store \<Rightarrow> (AttachmentEndResult \<times> Store) outcome" where
  "EndInteractiveAttachment wall capability s =
     bindE (trustedNow wall) (\<lambda>now.
     bindE (requireOpen s) (\<lambda>_.
     bindE (authenticateAttachmentTx capability s) (\<lambda>authenticated.
     if aa_ended authenticated \<noteq> None then
       bindE (replayBoundaryEndTx (att_id (aa_value authenticated)) s) (\<lambda>released.
       Inr (\<lparr>er_replayed = True, er_releasedClaim = released\<rparr>, s))
     else
       bindE (endLiveAttachmentTx now (att_id (aa_value authenticated)) s) (\<lambda>(released, s).
       Inr (\<lparr>er_replayed = False, er_releasedClaim = released\<rparr>, s)))))"

section \<open>The begin of a boundary\<close>

definition attachmentBeginOperationHead :: string where "attachmentBeginOperationHead = ''attach:''"
definition attachmentBeginOperationDomain :: string where
  "attachmentBeginOperationDomain = ''mnemon.attachment-begin.operation.v1'' @ [CHR 0x00]"
definition attachmentBeginIDDomain :: string where
  "attachmentBeginIDDomain = ''mnemon.attachment-begin.id.v1'' @ [CHR 0x00]"
definition attachmentBeginCredentialDomain :: string where
  "attachmentBeginCredentialDomain = ''mnemon.attachment-begin.credential.v1'' @ [CHR 0x00]"

record attachmentBeginMaterial =
  bm_attachment :: AttachmentID
  bm_credential :: bytes
  bm_key :: OperationKey
  bm_request :: Digest

definition enc_attachmentBegin :: "AgentPrincipalID \<Rightarrow> Digest \<Rightarrow> json" where
  "enc_attachmentBegin who boundary =
     JObj [(''boundary_digest'', JStr (digestString boundary)), (''mode'', JStr ''interactive''),
           (''principal'', JStr who), (''schema'', JStr ''mnemon.attachment-begin''), (''version'', JNat 1)]"

definition sumAttachmentBeginDomain :: "string \<Rightarrow> bytes \<Rightarrow> Digest" where
  "sumAttachmentBeginDomain domain value = Sum (domain @ value)"

definition deriveAttachmentBegin :: "AgentPrincipalID \<Rightarrow> Digest \<Rightarrow> attachmentBeginMaterial outcome" where
  "deriveAttachmentBegin who boundary =
     (let request = Marshal (enc_attachmentBegin who boundary);
          operationDigest = sumAttachmentBeginDomain attachmentBeginOperationDomain boundary
      in bindE (wrap ''issue attachment: operation key''
                 (NewOperationKey (attachmentBeginOperationHead @ RawURLEncoding operationDigest))) (\<lambda>key.
         bindE (wrap ''issue attachment: attachment ID''
                 (NewAttachmentID (''attachment:'' @
                    RawURLEncoding (take randomIdentifierBytes (sumAttachmentBeginDomain attachmentBeginIDDomain request))))) (\<lambda>ident.
         Inr \<lparr>bm_attachment = ident, bm_credential = sumAttachmentBeginDomain attachmentBeginCredentialDomain request,
              bm_key = key, bm_request = Sum request\<rparr>)))"

definition replayAttachmentBeginTx ::
  "AgentPrincipalID \<Rightarrow> attachmentBeginMaterial \<Rightarrow> Store \<Rightarrow> AttachmentProof option outcome" where
  "replayAttachmentBeginTx who material s =
     (case List.find (\<lambda>r. at_beginKey r = bm_key material) (attachments s) of
        None \<Rightarrow> Inr None
      | Some r \<Rightarrow>
          if at_beginRequest r \<noteq> digestString (bm_request material) then Inl ErrOperationConflict
          else if at_ended r \<noteq> None then Inl ErrAttachmentEnded
          else
            let corrupt = Inl (Problem ''issue attachment: corrupt replay outcome'')
            in case parseTime (at_issued r) of Inl e \<Rightarrow> corrupt | Inr issued \<Rightarrow>
               case parseTime (at_expires r) of Inl e \<Rightarrow> corrupt | Inr expires \<Rightarrow>
               if at_id r \<noteq> bm_attachment material \<or> at_principal r \<noteq> who \<or> at_mode r \<noteq> ''interactive'' \<or>
                  at_credential r \<noteq> digestString (Sum (bm_credential material)) \<or> \<not> issued < expires
               then corrupt
               else bindE (NewAttachmentProof (bm_attachment material) (bm_credential material)) (\<lambda>p.
                    Inr (Some (p\<lparr>proof_expires := expires\<rparr>))))"

definition requirePrincipalTx :: "AgentPrincipalID \<Rightarrow> Store \<Rightarrow> unit outcome" where
  "requirePrincipalTx who s = require ErrPrincipalUnavailable (who \<in> principal_ids s)"

definition replaceLiveAttachmentTx :: "instant \<Rightarrow> AgentPrincipalID \<Rightarrow> Store \<Rightarrow> Store outcome" where
  "replaceLiveAttachmentTx now who s =
     (case List.find (\<lambda>r. at_principal r = who \<and> at_ended r = None) (attachments s) of
        None \<Rightarrow> Inr s
      | Some r \<Rightarrow>
          bindE (orElse (Problem ''issue attachment: corrupt predecessor'') (NewAttachmentID (at_id r))) (\<lambda>ident.
          bindE (endLiveAttachmentTx now ident s) (\<lambda>(released, s). Inr s)))"

definition attachmentRowOf :: "instant \<Rightarrow> AgentPrincipalID \<Rightarrow> attachmentBeginMaterial \<Rightarrow> attachmentRow" where
  "attachmentRowOf now who material =
     \<lparr>at_id = bm_attachment material, at_principal = who, at_mode = ''interactive'',
      at_credential = digestString (Sum (bm_credential material)), at_beginKey = bm_key material,
      at_beginRequest = digestString (bm_request material), at_issued = formatTime now,
      at_expires = formatTime (now + interactiveAttachmentLifetime), at_ended = None\<rparr>"

definition insertAttachmentBeginTx ::
  "instant \<Rightarrow> AgentPrincipalID \<Rightarrow> attachmentBeginMaterial \<Rightarrow> Store \<Rightarrow> (AttachmentProof \<times> Store) outcome" where
  "insertAttachmentBeginTx now who material s =
     bindE (execute ''issue attachment: persist'' (insert_attachment (attachmentRowOf now who material) s)) (\<lambda>s.
     bindE (NewAttachmentProof (bm_attachment material) (bm_credential material)) (\<lambda>p.
     Inr (p\<lparr>proof_expires := now + interactiveAttachmentLifetime\<rparr>, s)))"

definition IssueInteractiveAttachment ::
  "instant \<Rightarrow> AgentPrincipalID \<Rightarrow> Digest \<Rightarrow> Store \<Rightarrow> (AttachmentProof \<times> Store) outcome" where
  "IssueInteractiveAttachment wall who boundary s =
     (if who = [] \<or> boundary = zeroDigest
      then Inl (Problem ''issue attachment: Principal and Host boundary are required'')
      else
        bindE (deriveAttachmentBegin who boundary) (\<lambda>material.
        bindE (requireOpen s) (\<lambda>_.
        bindE (replayAttachmentBeginTx who material s) (\<lambda>found.
        case found of
          Some p \<Rightarrow> Inr (p, s)
        | None \<Rightarrow>
            bindE (requirePrincipalTx who s) (\<lambda>_.
            bindE (trustedNow wall) (\<lambda>now.
            bindE (replaceLiveAttachmentTx now who s) (\<lambda>s.
            insertAttachmentBeginTx now who material s)))))))"

section \<open>The claim of a Current request\<close>

text \<open>
  The part of \<^verbatim>\<open>Store.Current\<close> between the lookup of a replay and the projection of the View: the
  Attachment must be live, expired claims of its Principal are settled, and the Attachment keeps the claim it
  has or takes the next one.
\<close>

definition currentClaimTx :: "instant \<Rightarrow> AttachmentProof \<Rightarrow> Store \<Rightarrow> (projectedClaim option \<times> Store) outcome" where
  "currentClaimTx now capability s =
     bindE (authenticateAttachmentTx capability s) (\<lambda>authenticated.
     bindE (requireLiveAttachment authenticated now) (\<lambda>_.
     bindE (settleExpiredClaimsTx (att_principal (aa_value authenticated)) now MaxClaimExpirySettlementsPerCurrent s) (\<lambda>s.
     bindE (existingClaimTx (aa_value authenticated) s) (\<lambda>found.
     case found of
       Some claim \<Rightarrow> Inr (Some claim, s)
     | None \<Rightarrow> claimNextTx (aa_value authenticated) s))))"

section \<open>What the operations do\<close>

text \<open>The store after a boundary has ended.\<close>

definition boundaryEnded :: "instant \<Rightarrow> AttachmentID \<Rightarrow> dispositionRow list \<Rightarrow> Store \<Rightarrow> Store" where
  "boundaryEnded now a ds s =
     s\<lparr>attachments := update_where (\<lambda>r. at_id r = a \<and> at_ended r = None) (\<lambda>r. r\<lparr>at_ended := Some (formatTime now)\<rparr>) (attachments s),
       handlings := update_where (\<lambda>r. ha_claim r = Some a) releaseClaim (handlings s),
       claim_dispositions := claim_dispositions s @ ds\<rparr>"

text \<open>The disposition of a claim that ended with its boundary.\<close>

definition boundary_disposition :: "AttachmentID \<Rightarrow> handlingRow \<Rightarrow> dispositionRow \<Rightarrow> bool" where
  "boundary_disposition a r d \<longleftrightarrow> di_kind d = ''boundary_end'' \<and> di_attachment d = a \<and> di_handling d = ha_id r \<and>
     di_fence d = ha_fence r \<and> ha_claim r = Some a"

lemma map_filter_distinct:
  assumes "distinct (List.map_filter f xs)" "x \<in> set xs" "y \<in> set xs" "f x = Some a" "f y = Some a" "distinct (map g xs)"
  shows "x = y"
  using assms
proof (induction xs)
  case (Cons z zs)
  have "a \<in> set (List.map_filter f zs)" if "w \<in> set zs" "f w = Some a" for w
    using that by (auto simp: List.map_filter_def intro!: image_eqI [of _ _ w])
  then show ?case using Cons by (auto simp: List.map_filter_def split: option.splits if_splits)
qed simp

lemma claim_unique:
  assumes "store_ok s" "r \<in> set (handlings s)" "q \<in> set (handlings s)" "ha_claim r = Some a" "ha_claim q = Some a"
  shows "q = r"
  using assms map_filter_distinct [of ha_claim "handlings s" q r a ha_id] by (simp add: store_ok_def handlings_ok_def)

lemma handling_row:
  assumes "store_ok s" "r \<in> set (handlings s)"
  shows "ha_fence r < 2 ^ 63" "ha_claim r \<noteq> None \<Longrightarrow> ha_state r = ''open'' \<and> ha_until r \<noteq> None" "ha_claim r = None \<Longrightarrow> ha_until r = None"
  using assms by (auto simp: store_ok_def handlings_ok_def handling_check_def list_all_iff)

lemma endLiveAttachmentTx_effect:
  assumes "endLiveAttachmentTx now a s = Inr (released, t)" "store_ok s"
  obtains ds where "t = boundaryEnded now a ds s" "matching (\<lambda>r. at_id r = a \<and> at_ended r = None) (attachments s) = 1"
    "\<not> released \<Longrightarrow> ds = [] \<and> (\<forall>r \<in> set (handlings s). ha_claim r \<noteq> Some a)"
    "released \<Longrightarrow> \<exists>d r. ds = [d] \<and> r \<in> set (handlings s) \<and> boundary_disposition a r d"
proof -
  obtain found u where found: "attachmentClaimTx a s = Inr found"
    and u: "update_attachments (\<lambda>r. at_id r = a \<and> at_ended r = None) (\<lambda>r. r\<lparr>at_ended := Some (formatTime now)\<rparr>) s = Some (u, 1)"
    and rest: "(case found of None \<Rightarrow> Inr (False, u)
       | Some claim \<Rightarrow> bindE (settleClaimBoundaryEndTx now claim u) (\<lambda>s. Inr (True, s))) = Inr (released, t)"
    using assms(1) by (auto simp: endLiveAttachmentTx_def guards split_paired_Ex)
  note ue = update_effect(3) [OF u]
  have d: "distinct (map ha_id (handlings s))" using assms(2) by (simp add: store_ok_def handlings_ok_def)
  show ?thesis
  proof (cases found)
    case None
    then have none: "\<forall>r \<in> set (handlings s). ha_claim r \<noteq> Some a"
      using found by (auto simp: attachmentClaimTx_def bindE_Inr find_None_iff split: option.splits)
    then have "update_where (\<lambda>r. ha_claim r = Some a) releaseClaim (handlings s) = handlings s"
      by (simp add: update_where_def map_idI)
    then show ?thesis using that [of "[]"] rest None ue none by (simp add: boundaryEnded_def)
  next
    case (Some claim)
    then obtain r where r: "r \<in> set (handlings s)" "ha_claim r = Some a" "scanExpiredClaim r = Inr claim"
      using found by (auto simp: attachmentClaimTx_def bindE_Inr split: option.splits dest: find_Some_iff_mem)
    have occ: "occupied_by claim r" using r handling_row [OF assms(2) r(1)] by (intro scanned_claim) auto
    obtain v where v: "settleClaimBoundaryEndTx now claim u = Inr v" "released" "t = v"
      using rest Some by (auto simp: bindE_Inr)
    have "r \<in> set (handlings u)" "distinct (map ha_id (handlings u))" using ue r(1) d by simp_all
    then obtain e where e: "v = claimReleased (ha_id r) e u" "disposition_for ''boundary_end'' claim e"
      using settleClaimBoundaryEndTx_effect [OF v(1) _ _ occ] by blast
    have "ha_id q = ha_id r \<longleftrightarrow> ha_claim q = Some a" if "q \<in> set (handlings s)" for q
      using claim_unique [OF assms(2) r(1) that r(2)] filter_map_distinct_keys [OF d that r(1)] r(2) by auto
    then have "update_where (\<lambda>q. ha_id q = ha_id r) releaseClaim (handlings s) =
        update_where (\<lambda>q. ha_claim q = Some a) releaseClaim (handlings s)" by (rule update_where_cong)
    then have "t = boundaryEnded now a [e] s" using v(3) e(1) ue by (simp add: boundaryEnded_def claimReleased_def)
    moreover have "boundary_disposition a r e"
      using e(2) occ r(2) by (simp add: boundary_disposition_def disposition_for_def occupied_by_def)
    ultimately show ?thesis using that [of "[e]"] v(2) r(1) ue by auto
  qed
qed

lemma EndInteractiveAttachment_cases:
  assumes "EndInteractiveAttachment wall capability s = Inr (result, t)"
  obtains (replay) a where "authenticateAttachmentTx capability s = Inr a" "aa_ended a \<noteq> None"
      "replayBoundaryEndTx (att_id (aa_value a)) s = Inr (er_releasedClaim result)" "er_replayed result" "t = s"
  | (fresh) a where "authenticateAttachmentTx capability s = Inr a" "aa_ended a = None" "\<not> er_replayed result"
      "endLiveAttachmentTx wall (att_id (aa_value a)) s = Inr (er_releasedClaim result, t)"
proof -
  obtain a where a: "authenticateAttachmentTx capability s = Inr a"
    and rest: "(if aa_ended a \<noteq> None then
       bindE (replayBoundaryEndTx (att_id (aa_value a)) s) (\<lambda>released.
       Inr (\<lparr>er_replayed = True, er_releasedClaim = released\<rparr>, s))
     else
       bindE (endLiveAttachmentTx wall (att_id (aa_value a)) s) (\<lambda>(released, s).
       Inr (\<lparr>er_replayed = False, er_releasedClaim = released\<rparr>, s))) = Inr (result, t)"
    using assms unfolding EndInteractiveAttachment_def bindE_Inr guard_simps trustedNow_def by blast
  show ?thesis
  proof (cases "aa_ended a")
    case None
    then show ?thesis using rest fresh [OF a] by (auto simp: bindE_Inr split_paired_Ex)
  next
    case (Some e)
    then show ?thesis using rest replay [OF a] by (auto simp: bindE_Inr)
  qed
qed

lemma authenticated:
  assumes "authenticateAttachmentTx capability s = Inr a"
  shows "\<exists>r \<in> set (attachments s). at_id r = att_id (aa_value a) \<and> at_principal r = att_principal (aa_value a) \<and>
     at_expires r = formatTime (expiresAt (aa_value a)) \<and> time_ok (expiresAt (aa_value a)) \<and>
     (aa_ended a = None \<longleftrightarrow> at_ended r = None) \<and> att_id (aa_value a) = proof_id capability"
proof -
  obtain r where r: "List.find (\<lambda>r. at_id r = proof_id capability) (attachments s) = Some r"
    using assms by (auto simp: authenticateAttachmentTx_def split: if_splits option.splits)
  then have mem: "r \<in> set (attachments s)" "at_id r = proof_id capability" using find_Some_iff_mem by fast+
  have "at_id r = att_id (aa_value a) \<and> at_principal r = att_principal (aa_value a) \<and>
     parseTime (at_expires r) = Inr (expiresAt (aa_value a)) \<and> time_ok (expiresAt (aa_value a)) \<and>
     (aa_ended a = None \<longleftrightarrow> at_ended r = None) \<and> att_id (aa_value a) = proof_id capability"
    using assms r mem(2)
    by (auto simp: authenticateAttachmentTx_def guards identifier_Inr NewAttachment_def canonicalTime_Inr
        split: option.splits if_splits)
  then show ?thesis using mem(1) parseTime_Inr [of "at_expires r" "expiresAt (aa_value a)"] by metis
qed

lemma IssueInteractiveAttachment_cases:
  assumes "IssueInteractiveAttachment wall who boundary s = Inr (capability, t)"
  obtains (replay) m where "deriveAttachmentBegin who boundary = Inr m" "replayAttachmentBeginTx who m s = Inr (Some capability)" "t = s"
  | (fresh) m u where "deriveAttachmentBegin who boundary = Inr m" "replayAttachmentBeginTx who m s = Inr None"
      "who \<in> principal_ids s" "replaceLiveAttachmentTx wall who s = Inr u"
      "insertAttachmentBeginTx wall who m u = Inr (capability, t)"
proof -
  obtain m found where m: "deriveAttachmentBegin who boundary = Inr m" "replayAttachmentBeginTx who m s = Inr found"
    and rest: "(case found of
          Some p \<Rightarrow> Inr (p, s)
        | None \<Rightarrow>
            bindE (requirePrincipalTx who s) (\<lambda>_.
            bindE (trustedNow wall) (\<lambda>now.
            bindE (replaceLiveAttachmentTx now who s) (\<lambda>s.
            insertAttachmentBeginTx now who m s)))) = Inr (capability, t)"
    using assms unfolding IssueInteractiveAttachment_def bindE_Inr guard_simps by blast
  show ?thesis
  proof (cases found)
    case None
    then obtain u where "who \<in> principal_ids s" "replaceLiveAttachmentTx wall who s = Inr u"
        "insertAttachmentBeginTx wall who m u = Inr (capability, t)"
      using rest by (auto simp: bindE_Inr requirePrincipalTx_def require_def trustedNow_def split: if_splits)
    then show ?thesis using fresh m None by blast
  next
    case (Some p)
    then have "p = capability" "t = s" using rest by simp_all
    then show ?thesis using replay m Some by blast
  qed
qed

lemma insertAttachmentBeginTx_effect:
  "insertAttachmentBeginTx now who m s = Inr (capability, t) \<Longrightarrow>
   insert_attachment (attachmentRowOf now who m) s = Some t \<and> t = s\<lparr>attachments := attachments s @ [attachmentRowOf now who m]\<rparr>"
  using insert_effect(2) by (auto simp: insertAttachmentBeginTx_def guards)

text \<open>The live boundary of the Principal, if there is one, has ended.\<close>

lemma replaceLiveAttachmentTx_effect:
  assumes "replaceLiveAttachmentTx now who s = Inr u" "store_ok s"
  obtains (none) "u = s" "\<And>r. r \<in> set (attachments s) \<Longrightarrow> at_principal r = who \<Longrightarrow> at_ended r \<noteq> None"
  | (ended) r released where "r \<in> set (attachments s)" "at_principal r = who" "at_ended r = None"
      "endLiveAttachmentTx now (at_id r) s = Inr (released, u)"
proof (cases "List.find (\<lambda>r. at_principal r = who \<and> at_ended r = None) (attachments s)")
  case None
  then have "u = s" using assms(1) by (simp add: replaceLiveAttachmentTx_def)
  moreover have "at_ended r \<noteq> None" if "r \<in> set (attachments s)" "at_principal r = who" for r
    using None that by (auto simp: find_None_iff)
  ultimately show ?thesis using none by blast
next
  case (Some r)
  then have "r \<in> set (attachments s)" "at_principal r = who" "at_ended r = None" using find_Some_iff_mem by fast+
  then show ?thesis
    using ended assms(1) Some by (auto simp: replaceLiveAttachmentTx_def guards identifier_Inr split_paired_Ex)
qed

section \<open>Claims belong to live boundaries\<close>

text \<open>
  The invariant of the claims: the schema holds; a claim is held by a boundary that has not ended, of the
  Principal the Handling is for, until that boundary expires; a disposition is for a claim that is over; a
  boundary whose end was recorded has ended, and its end was recorded once.
\<close>

definition claim_ok :: "Store \<Rightarrow> handlingRow \<Rightarrow> bool" where
  "claim_ok s r \<longleftrightarrow> (case ha_claim r of None \<Rightarrow> True | Some a \<Rightarrow>
     \<exists>b \<in> set (attachments s). at_id b = a \<and> at_principal b = ha_target r \<and> at_ended b = None \<and> ha_until r = Some (at_expires b))"

definition disposition_past :: "dispositionRow \<Rightarrow> handlingRow \<Rightarrow> bool" where
  "disposition_past d r \<longleftrightarrow> (di_handling d = ha_id r \<longrightarrow>
     (if ha_claim r = None then di_fence d \<le> ha_fence r else di_fence d < ha_fence r))"

definition boundary_ends :: "Store \<Rightarrow> AttachmentID list" where
  "boundary_ends s = map di_attachment (filter (\<lambda>d. di_kind d = ''boundary_end'') (claim_dispositions s))"

definition claims_inv :: "Store \<Rightarrow> bool" where
  "claims_inv s \<longleftrightarrow> store_ok s \<and> (\<forall>r \<in> set (handlings s). claim_ok s r) \<and>
     (\<forall>d \<in> set (claim_dispositions s). \<forall>r \<in> set (handlings s). disposition_past d r) \<and>
     distinct (boundary_ends s) \<and> (\<forall>b \<in> set (attachments s). at_id b \<in> set (boundary_ends s) \<longrightarrow> at_ended b \<noteq> None)"

lemma claims_inv_empty: "claims_inv emptyStore"
  using store_ok_empty by (simp add: claims_inv_def emptyStore_def boundary_ends_def)

text \<open>One boundary of a Principal is live.\<close>

lemma live_unique:
  assumes "store_ok s" "a \<in> set (attachments s)" "b \<in> set (attachments s)" "at_principal a = at_principal b"
    "at_ended a = None" "at_ended b = None"
  shows "a = b"
  using assms filter_map_distinct_keys [of at_principal "filter (\<lambda>r. at_ended r = None) (attachments s)" a b]
  by (simp add: store_ok_def attachments_ok_def)

lemma attachment_unique:
  "store_ok s \<Longrightarrow> a \<in> set (attachments s) \<Longrightarrow> b \<in> set (attachments s) \<Longrightarrow> at_id a = at_id b \<Longrightarrow> a = b"
  using filter_map_distinct_keys [of at_id "attachments s" a b] by (simp add: store_ok_def attachments_ok_def)

lemma set_update_where: "set (update_where P f rows) = (\<lambda>r. if P r then f r else r) ` set rows"
  by (simp add: update_where_def)

lemma disposition_past_release: "disposition_past d r \<Longrightarrow> disposition_past d (releaseClaim r)"
  by (auto simp: disposition_past_def releaseClaim_def split: if_splits)

lemma ended_keeps:
  assumes "endLiveAttachmentTx now a s = Inr (released, t)" "store_ok s"
  shows "store_ok t \<and> grows s t"
proof -
  obtain found u where u: "update_attachments (\<lambda>r. at_id r = a \<and> at_ended r = None) (\<lambda>r. r\<lparr>at_ended := Some (formatTime now)\<rparr>) s = Some (u, 1)"
    and rest: "(case found of None \<Rightarrow> Inr (False, u)
       | Some claim \<Rightarrow> bindE (settleClaimBoundaryEndTx now claim u) (\<lambda>s. Inr (True, s))) = Inr (released, t)"
    using assms(1) by (auto simp: endLiveAttachmentTx_def guards split_paired_Ex)
  have "store_ok u \<and> grows s u" using update_keeps(1) [OF assms(2) u] by simp
  then show ?thesis
    using rest claim_statements_keep(2) grows_trans by (auto simp: bindE_Inr split: option.splits)
qed

lemma claims_inv_ended:
  assumes "endLiveAttachmentTx now a s = Inr (released, t)" "claims_inv s"
  shows "claims_inv t"
proof -
  have s: "store_ok s" "\<And>r. r \<in> set (handlings s) \<Longrightarrow> claim_ok s r"
    "\<And>d r. d \<in> set (claim_dispositions s) \<Longrightarrow> r \<in> set (handlings s) \<Longrightarrow> disposition_past d r"
    "distinct (boundary_ends s)" "\<And>b. b \<in> set (attachments s) \<Longrightarrow> at_id b \<in> set (boundary_ends s) \<Longrightarrow> at_ended b \<noteq> None"
    using assms(2) by (auto simp: claims_inv_def)
  obtain ds where t: "t = boundaryEnded now a ds s"
    and n: "matching (\<lambda>r. at_id r = a \<and> at_ended r = None) (attachments s) = 1"
    and ds: "\<not> released \<Longrightarrow> ds = [] \<and> (\<forall>r \<in> set (handlings s). ha_claim r \<noteq> Some a)"
      "released \<Longrightarrow> \<exists>d r. ds = [d] \<and> r \<in> set (handlings s) \<and> boundary_disposition a r d"
    using endLiveAttachmentTx_effect [OF assms(1) s(1)] by blast
  obtain b0 where b0: "b0 \<in> set (attachments s)" "at_id b0 = a" "at_ended b0 = None"
    using n by (auto simp: matching_def) (metis (mono_tags, lifting) One_nat_def filter_False list.size(3) zero_neq_one)
  have claim: "claim_ok t r" if "r \<in> set (handlings t)" for r
    using that s(2) by (fastforce simp: t boundaryEnded_def set_update_where claim_ok_def releaseClaim_def split: option.splits if_splits)
  have dis: "disposition_past d r" if "d \<in> set (claim_dispositions s)" "r \<in> set (handlings t)" for d r
    using that s(3) disposition_past_release by (auto simp: t boundaryEnded_def set_update_where)
  have new: "disposition_past d r" if d: "d \<in> set ds" and r: "r \<in> set (handlings t)" for d r
  proof -
    obtain q where q: "q \<in> set (handlings s)" "boundary_disposition a q d" using ds d by (cases released) auto
    obtain p where p: "p \<in> set (handlings s)" "r = (if ha_claim p = Some a then releaseClaim p else p)"
      using r by (auto simp: t boundaryEnded_def set_update_where)
    show ?thesis
    proof (cases "ha_id p = ha_id q")
      case True
      then have "p = q"
        using p(1) q(1) s(1) filter_map_distinct_keys [of ha_id "handlings s" p q] by (simp add: store_ok_def handlings_ok_def)
      then show ?thesis using q(2) p(2) by (simp add: disposition_past_def boundary_disposition_def releaseClaim_def)
    next
      case False
      then show ?thesis using q(2) p(2) by (simp add: disposition_past_def boundary_disposition_def releaseClaim_def)
    qed
  qed
  have atts: "attachments t = update_where (\<lambda>r. at_id r = a \<and> at_ended r = None)
      (\<lambda>r. r\<lparr>at_ended := Some (formatTime now)\<rparr>) (attachments s)"
    by (simp add: t boundaryEnded_def)
  have ends: "boundary_ends t = boundary_ends s @ (if released then [a] else [])"
    using ds by (cases released) (auto simp: boundary_ends_def t boundaryEnded_def boundary_disposition_def)
  have "a \<notin> set (boundary_ends s)" using s(5) [OF b0(1)] b0 by auto
  then have "distinct (boundary_ends t)" using s(4) by (simp add: ends)
  moreover have "at_ended b \<noteq> None" if "b \<in> set (attachments t)" "at_id b \<in> set (boundary_ends t)" for b
    using that s(5) unfolding atts by (auto simp: ends set_update_where split: if_splits)
  moreover have "claim_dispositions t = claim_dispositions s @ ds" by (simp add: t boundaryEnded_def)
  ultimately show ?thesis
    using ended_keeps [OF assms(1) s(1)] claim dis new by (auto simp: claims_inv_def)
qed

lemma claims_inv_frame:
  assumes "claims_inv s" "store_ok t" "handlings t = handlings s" "claim_dispositions t = claim_dispositions s"
    "set (attachments s) \<subseteq> set (attachments t)"
    "\<And>b. b \<in> set (attachments t) \<Longrightarrow> b \<notin> set (attachments s) \<Longrightarrow> at_id b \<notin> attachment_ids s"
  shows "claims_inv t"
proof -
  have "claim_ok t r" if "r \<in> set (handlings s)" for r
    using assms(1,5) that by (fastforce simp: claims_inv_def claim_ok_def split: option.splits)
  moreover have "at_ended b \<noteq> None" if b: "b \<in> set (attachments t)" "at_id b \<in> set (boundary_ends s)" for b
  proof -
    obtain d where "d \<in> set (claim_dispositions s)" "di_attachment d = at_id b" using b(2) by (auto simp: boundary_ends_def)
    then have "at_id b \<in> attachment_ids s"
      using assms(1) by (auto simp: claims_inv_def store_ok_def dispositions_ok_def list_all_iff)
    then have "b \<in> set (attachments s)" using assms(6) b(1) by blast
    then show ?thesis using assms(1) b(2) by (simp add: claims_inv_def)
  qed
  moreover have "boundary_ends t = boundary_ends s" by (simp add: boundary_ends_def assms(4))
  ultimately show ?thesis using assms(1-4) by (simp add: claims_inv_def)
qed

lemma claims_inv_replaced:
  assumes "replaceLiveAttachmentTx now who s = Inr u" "claims_inv s"
  shows "claims_inv u"
proof -
  have "store_ok s" using assms(2) by (simp add: claims_inv_def)
  with assms(1) show ?thesis
    by (cases rule: replaceLiveAttachmentTx_effect) (use assms(2) claims_inv_ended in blast)+
qed

lemma claims_inv_issued:
  assumes "IssueInteractiveAttachment wall who boundary s = Inr (capability, t)" "claims_inv s"
  shows "claims_inv t"
  using assms(1)
proof (cases rule: IssueInteractiveAttachment_cases)
  case (fresh m u)
  have u: "claims_inv u" by (rule claims_inv_replaced [OF fresh(4) assms(2)])
  then have ok: "store_ok u" by (simp add: claims_inv_def)
  note ins = insertAttachmentBeginTx_effect [OF fresh(5)]
  then have t: "store_ok t" "attachments t = attachments u @ [attachmentRowOf wall who m]"
    using insert_keeps(2) [OF ok] by auto
  then have "at_id (attachmentRowOf wall who m) \<notin> attachment_ids u"
    by (auto simp: store_ok_def attachments_ok_def attachment_ids_def)
  with u t show ?thesis by (intro claims_inv_frame [of u t]) (use ins in auto)
qed (use assms(2) in simp)

lemma claims_inv_finished:
  assumes "EndInteractiveAttachment wall capability s = Inr (result, t)" "claims_inv s"
  shows "claims_inv t"
  using assms(1) by (cases rule: EndInteractiveAttachment_cases) (use assms(2) claims_inv_ended in blast)+

text \<open>
  No claim of a Principal is due while it has a live boundary: its claims are held by that boundary, until
  that boundary expires.
\<close>

lemma nothing_due:
  assumes "claims_inv s" "b \<in> set (attachments s)" "at_ended b = None" "formatTime now < at_expires b"
  shows "due (at_principal b) now s = []"
proof -
  have ok: "store_ok s" using assms(1) by (simp add: claims_inv_def)
  have "ha_until r = Some (at_expires b)"
    if r: "r \<in> set (handlings s)" "ha_target r = at_principal b" "ha_claim r \<noteq> None" for r
  proof -
    obtain c where "c \<in> set (attachments s)" "at_principal c = ha_target r" "at_ended c = None" "ha_until r = Some (at_expires c)"
      using assms(1) r(1,3) by (fastforce simp: claims_inv_def claim_ok_def split: option.splits)
    then show ?thesis using live_unique [OF ok, of c b] assms(2,3) r(2) by simp
  qed
  moreover have "ha_claim r \<noteq> None" if "r \<in> set (handlings s)" "ha_until r \<noteq> None" for r
    using that handling_row(3) [OF ok that(1)] by (cases "ha_claim r") simp_all
  ultimately have "\<not> expiredFor (at_principal b) now r" if "r \<in> set (handlings s)" for r
    using that assms(4) by (fastforce simp: expiredFor_def split: option.splits)
  then show ?thesis by (simp add: due_def filter_empty_conv)
qed

lemma settle_nothing: "due owner now s = [] \<Longrightarrow> settleExpiredClaimsTx owner now limit s = Inr t \<Longrightarrow> t = s"
  by (auto simp: settleExpiredClaimsTx_def loadExpiredClaimsTx_def guards split: if_splits)

section \<open>A claim is taken\<close>

lemma claimed_boundary:
  assumes "authenticateAttachmentTx capability s = Inr a" "requireLiveAttachment a now = Inr ()" "formattable now"
  obtains b where "b \<in> set (attachments s)" "at_id b = att_id (aa_value a)" "at_principal b = att_principal (aa_value a)"
    "at_expires b = formatTime (expiresAt (aa_value a))" "at_ended b = None" "formatTime now < at_expires b"
proof -
  have live: "aa_ended a = None" "now < expiresAt (aa_value a)"
    using assms(2) by (auto simp: requireLiveAttachment_def split: if_splits)
  obtain b where b: "b \<in> set (attachments s)" "at_id b = att_id (aa_value a)" "at_principal b = att_principal (aa_value a)"
    "at_expires b = formatTime (expiresAt (aa_value a))" "time_ok (expiresAt (aa_value a))" "at_ended b = None"
    using authenticated [OF assms(1)] live(1) by auto
  have "formatTime now < at_expires b"
    using formatTime_order(1) [OF assms(3) formattable_int64, of "expiresAt (aa_value a)"] b(4,5) live(2) by (simp add: time_ok_def)
  then show ?thesis using that b by blast
qed

lemma existingClaimTx_None:
  "existingClaimTx a s = Inr None \<Longrightarrow> r \<in> set (handlings s) \<Longrightarrow> ha_claim r = Some (att_id a) \<Longrightarrow>
   ha_target r = att_principal a \<Longrightarrow> ha_state r \<noteq> ''open''"
  by (auto simp: existingClaimTx_def bindE_Inr find_None_iff split: option.splits)

text \<open>A Current request leaves the store alone or takes one claim for a boundary that has none.\<close>

lemma currentClaimTx_cases:
  assumes "currentClaimTx now capability s = Inr (c, t)" "claims_inv s" "formattable now"
  obtains (same) "t = s"
  | (claimed) b r a where "b \<in> set (attachments s)" "at_id b = att_id a" "at_principal b = att_principal a"
      "at_expires b = formatTime (expiresAt a)" "at_ended b = None" "r \<in> set (handlings s)" "claimable (at_principal b) r"
      "\<And>q. q \<in> set (handlings s) \<Longrightarrow> ha_claim q \<noteq> Some (at_id b)" "handlings_ok s (handlings t)"
      "t = s\<lparr>handlings := update_where (\<lambda>q. ha_id q = ha_id r) (occupy a) (handlings s)\<rparr>"
proof -
  have ok: "store_ok s" using assms(2) by (simp add: claims_inv_def)
  obtain a u found where a: "authenticateAttachmentTx capability s = Inr a" "requireLiveAttachment a now = Inr ()"
    and u: "settleExpiredClaimsTx (att_principal (aa_value a)) now MaxClaimExpirySettlementsPerCurrent s = Inr u"
    and found: "existingClaimTx (aa_value a) u = Inr found"
    and rest: "(case found of Some claim \<Rightarrow> Inr (Some claim, u) | None \<Rightarrow> claimNextTx (aa_value a) u) = Inr (c, t)"
    using assms(1) by (auto simp: currentClaimTx_def bindE_Inr)
  obtain b where b: "b \<in> set (attachments s)" "at_id b = att_id (aa_value a)" "at_principal b = att_principal (aa_value a)"
    "at_expires b = formatTime (expiresAt (aa_value a))" "at_ended b = None" "formatTime now < at_expires b"
    using claimed_boundary [OF a assms(3)] by blast
  have us: "u = s" using settle_nothing [OF nothing_due [OF assms(2) b(1,5,6)]] u b(3) by simp
  show ?thesis
  proof (cases found)
    case None
    have free: "ha_claim q \<noteq> Some (at_id b)" if q: "q \<in> set (handlings s)" for q
    proof
      assume c: "ha_claim q = Some (at_id b)"
      then obtain d where "d \<in> set (attachments s)" "at_id d = at_id b" "at_principal d = ha_target q"
        using assms(2) q by (fastforce simp: claims_inv_def claim_ok_def)
      then have "ha_target q = att_principal (aa_value a)" using attachment_unique [OF ok, of d b] b(1,3) by simp
      moreover have "ha_state q = ''open''" using handling_row(2) [OF ok q] c by simp
      ultimately show False using existingClaimTx_None [of "aa_value a" s q] found c q b(2) by (simp add: us None)
    qed
    have "claimNextTx (aa_value a) s = Inr (c, t)" using rest None us by simp
    then show ?thesis
      using ok
    proof (cases rule: claimNextTx_cases)
      case none
      then show ?thesis using same by simp
    next
      case (fresh r pc)
      show ?thesis by (rule claimed [OF b(1-5) fresh(1) _ free fresh(5,4)]) (use fresh(2) b(3) in simp_all)
    qed
  next
    case (Some claim)
    then show ?thesis using rest us same by simp
  qed
qed

lemma claims_inv_current:
  assumes "currentClaimTx now capability s = Inr (c, t)" "claims_inv s" "formattable now"
  shows "claims_inv t"
  using assms
proof (cases rule: currentClaimTx_cases)
  case (claimed b r a)
  have ok: "store_ok s" using assms(2) by (simp add: claims_inv_def)
  have t: "attachments t = attachments s" "claim_dispositions t = claim_dispositions s"
    "handlings t = update_where (\<lambda>q. ha_id q = ha_id r) (occupy a) (handlings s)"
    by (simp_all add: claimed(10))
  have "grows s t" unfolding claimed(10) grows_def ids_defs set_map [symmetric] by (simp add: occupy_def del: set_map)
  moreover have "handlings_ok s (handlings t)" by (rule claimed(9))
  ultimately have "store_ok t" using ok store_keepI [of s t] by (simp add: claimed(10) store_ok_def)
  moreover have "claim_ok t q" if q: "q \<in> set (handlings t)" for q
  proof -
    obtain p where p: "p \<in> set (handlings s)" "q = (if ha_id p = ha_id r then occupy a p else p)"
      using q by (auto simp: t(3) set_update_where)
    show ?thesis
    proof (cases "ha_id p = ha_id r")
      case True
      then have "p = r" using p(1) claimed(6) ok filter_map_distinct_keys [of ha_id "handlings s" p r]
        by (simp add: store_ok_def handlings_ok_def)
      then show ?thesis using p(2) claimed(1-5,7) t(1) by (auto simp: claim_ok_def occupy_def claimable_def)
    next
      case False
      then show ?thesis using p assms(2) t(1) by (auto simp: claims_inv_def claim_ok_def split: option.splits)
    qed
  qed
  moreover have "disposition_past d q" if d: "d \<in> set (claim_dispositions s)" and q: "q \<in> set (handlings t)" for d q
  proof -
    obtain p where p: "p \<in> set (handlings s)" "q = (if ha_id p = ha_id r then occupy a p else p)"
      using q by (auto simp: t(3) set_update_where)
    have "disposition_past d p" using assms(2) d p(1) by (simp add: claims_inv_def)
    then show ?thesis using p(2) by (auto simp: disposition_past_def occupy_def split: if_splits)
  qed
  ultimately show ?thesis using assms(2) t by (simp add: claims_inv_def boundary_ends_def)
qed (use assms(2) in simp)

section \<open>Machine-made identifiers\<close>

lemma begin_identifiers:
  "handle_ok (attachmentBeginOperationHead @ RawURLEncoding (Sum x))" "handle_ok (''attachment:'' @ RawURLEncoding (take randomIdentifierBytes (Sum x)))"
proof -
  have t: "tokenCharacters True False attachmentBeginOperationHead" "tokenCharacters True False ''attachment:''" by code_simp+
  show "handle_ok (attachmentBeginOperationHead @ RawURLEncoding (Sum x))"
    by (rule base64_identifier) (use t in \<open>simp_all del: tokenCharacters.simps add: attachmentBeginOperationHead_def MaxOpaqueHandleBytes_def\<close>)
  show "handle_ok (''attachment:'' @ RawURLEncoding (take randomIdentifierBytes (Sum x)))"
    by (rule base64_identifier) (use t in \<open>simp_all del: tokenCharacters.simps add: randomIdentifierBytes_def MaxOpaqueHandleBytes_def\<close>)
qed

lemma derive_begin:
  "\<exists>m. deriveAttachmentBegin who boundary = Inr m \<and> bm_attachment m \<noteq> [] \<and> length (bm_credential m) = attachmentCredentialBytes"
  using begin_identifiers
  by (auto simp: deriveAttachmentBegin_def Let_def wrap_def identifier_Inr [THEN iffD2] sumAttachmentBeginDomain_def attachmentCredentialBytes_def)

text \<open>
  Machine-made identifiers are well formed. The sixteen random bytes of a fresh Event or Handling
  identifier, and the digests an Attachment's identifier and operation key are made of, never give a text
  that the identifiers' own grammar refuses; and the credential has its exact length.
\<close>

theorem machine_identifiers:
  assumes "length entropy = randomIdentifierBytes"
  shows "newEventID entropy = Inr (''event:'' @ RawURLEncoding entropy) \<and>
    newHandlingID entropy = Inr (''handling:'' @ RawURLEncoding entropy) \<and>
    (\<exists>m. deriveAttachmentBegin who boundary = Inr m \<and> bm_attachment m \<noteq> [] \<and> length (bm_credential m) = attachmentCredentialBytes)"
proof -
  have t: "tokenCharacters True False ''event:''" "tokenCharacters True False ''handling:''" by code_simp+
  have "handle_ok (''event:'' @ RawURLEncoding entropy)" "handle_ok (''handling:'' @ RawURLEncoding entropy)"
    by (rule base64_identifier;
        use t assms in \<open>simp_all del: tokenCharacters.simps add: randomIdentifierBytes_def MaxOpaqueHandleBytes_def\<close>)+
  then have "newEventID entropy = Inr (''event:'' @ RawURLEncoding entropy)" "newHandlingID entropy = Inr (''handling:'' @ RawURLEncoding entropy)"
    by (simp_all add: newEventID_def newHandlingID_def randomIdentifier_def wrap_def identifier_Inr [THEN iffD2])
  with derive_begin show ?thesis by blast
qed

theorem machine_identifiers_witness:
  "newEventID (replicate 16 CHR ''x'') = Inr (''event:'' @ RawURLEncoding (replicate 16 CHR ''x''))"
  using machine_identifiers [of "replicate 16 CHR ''x''"] by (simp add: randomIdentifierBytes_def)

section \<open>A repeated begin\<close>

lemma inserted_replay:
  assumes "insertAttachmentBeginTx wall who m u = Inr (capability, t)" "formattable wall" "formattable (wall + interactiveAttachmentLifetime)"
  shows "replayAttachmentBeginTx who m t = Inr (Some capability)"
proof -
  note ins = insertAttachmentBeginTx_effect [OF assms(1)]
  have "bm_key m \<notin> set (map at_beginKey (attachments u))"
    using ins by (auto simp: insert_attachment_def attachments_ok_def attachmentRowOf_def split: if_splits)
  then have "List.find (\<lambda>r. at_beginKey r = bm_key m) (attachments u) = None" by (force simp: find_None_iff)
  then have find: "List.find (\<lambda>r. at_beginKey r = bm_key m) (attachments t) = Some (attachmentRowOf wall who m)"
    using ins by (simp add: find_append attachmentRowOf_def)
  show ?thesis
    using assms(1) parseTime_formatTime [OF assms(2)] parseTime_formatTime [OF assms(3)]
    by (auto simp: replayAttachmentBeginTx_def find insertAttachmentBeginTx_def guards)
       (auto simp: attachmentRowOf_def interactiveAttachmentLifetime_def  guards)
qed

lemma endLiveAttachmentTx_closed: "endLiveAttachmentTx now a s = Inr (released, u) \<Longrightarrow> closed u = closed s"
  by (auto simp: endLiveAttachmentTx_def settleClaimBoundaryEndTx_def guards split_paired_Ex split: option.splits
      dest!: update_effect(3,4) insert_effect(4))

lemma replaceLiveAttachmentTx_closed: "replaceLiveAttachmentTx now who s = Inr u \<Longrightarrow> closed u = closed s"
  by (auto simp: replaceLiveAttachmentTx_def guards split_paired_Ex split: option.splits dest: endLiveAttachmentTx_closed)

text \<open>
  (C11) A repeated begin is recognised. Once a boundary has been opened for a Principal, asking again for the
  same boundary - at any later or earlier time - returns the same proof, with the same credential and
  expiry, and changes nothing.
\<close>

theorem begin_replayed:
  assumes "IssueInteractiveAttachment wall who boundary s = Inr (capability, t)" "formattable wall"
    "formattable (wall + interactiveAttachmentLifetime)"
  shows "IssueInteractiveAttachment later who boundary t = Inr (capability, t)"
proof -
  have guard: "\<not> (who = [] \<or> boundary = zeroDigest)" "requireOpen s = Inr ()"
    using assms(1) by (auto simp: IssueInteractiveAttachment_def bindE_Inr split: if_splits)
  obtain m where m: "deriveAttachmentBegin who boundary = Inr m" "replayAttachmentBeginTx who m t = Inr (Some capability)"
    and closed: "closed t = closed s"
    using assms(1)
  proof (cases rule: IssueInteractiveAttachment_cases)
    case (replay m)
    then show ?thesis using that by simp
  next
    case (fresh m u)
    have "closed u = closed s" by (rule replaceLiveAttachmentTx_closed [OF fresh(4)])
    then have "closed t = closed s" using insertAttachmentBeginTx_effect [OF fresh(5)] by simp
    then show ?thesis using that fresh(1) inserted_replay [OF fresh(5) assms(2,3)] by blast
  qed
  show ?thesis using guard m closed by (simp add: IssueInteractiveAttachment_def requireOpen_def require_def split: if_splits)
qed

theorem begin_replayed_witness:
  "\<exists>m c. let s = emptyStore\<lparr>attachments := [attachmentRowOf 1000 ''agent:local'' m]\<rparr>
     in IssueInteractiveAttachment 1000 ''agent:local'' (replicate 32 CHR ''b'') s = Inr (c, s) \<and>
        IssueInteractiveAttachment 2000 ''agent:local'' (replicate 32 CHR ''b'') s = Inr (c, s)"
proof -
  have times: "formattable 1000" "formattable (1000 + interactiveAttachmentLifetime)"
    by (rule formattable_int64; simp add: interactiveAttachmentLifetime_def)+
  obtain m where m: "deriveAttachmentBegin ''agent:local'' (replicate 32 CHR ''b'') = Inr m" "bm_attachment m \<noteq> []"
      "length (bm_credential m) = attachmentCredentialBytes"
    using derive_begin by blast
  let ?s = "emptyStore\<lparr>attachments := [attachmentRowOf 1000 ''agent:local'' m]\<rparr>"
  have "\<exists>c. replayAttachmentBeginTx ''agent:local'' m ?s = Inr (Some c)"
    using m parseTime_formatTime [OF times(1)] parseTime_formatTime [OF times(2)]
    by (simp add: replayAttachmentBeginTx_def attachmentRowOf_def NewAttachmentProof_def interactiveAttachmentLifetime_def Let_def)
  then obtain c where c: "replayAttachmentBeginTx ''agent:local'' m ?s = Inr (Some c)" by blast
  have g: "(''agent:local'' = [] \<or> replicate 32 CHR ''b'' = zeroDigest) = False" by code_simp
  have "requireOpen ?s = Inr ()" by (simp add: requireOpen_def require_def emptyStore_def)
  then have i: "IssueInteractiveAttachment 1000 ''agent:local'' (replicate 32 CHR ''b'') ?s = Inr (c, ?s)"
    unfolding IssueInteractiveAttachment_def g m(1) by (simp add: c)
  show ?thesis unfolding Let_def using i begin_replayed [OF i times] by blast
qed

end
