(* ===== verification/Authority_Apply.thy ===== *)
theory Authority_Apply
  imports Authority_Store
begin

text \<open>
  The domain effect of an admitted Event (\<^verbatim>\<open>internal/agency/authority/admission_apply.go\<close>): the Event and its
  Artifact pins are stored, the Handling it is about is settled under its fence, successor Handlings are
  created for its local targets, and References are published, superseded and retracted under the head they
  are expected to have.

  The results: an effect on a Handling succeeds only for the claim with the right holder, head and fence; and
  the lineage of every Reference is a chain from its publication to its head, one entry per Event.
\<close>

section \<open>Events and Handlings\<close>

definition eventRowOf :: "Event \<Rightarrow> eventRow" where
  "eventRowOf event =
     \<lparr>ev_id = e_id event, ev_digest = digestString (e_digest event), ev_sequence = unat (e_sequence event),
      ev_source = e_source event, ev_request = digestString (e_requestDigest event), ev_depth = unat (e_depth event),
      ev_accepted = formatTime (e_acceptedAt event), ev_json = e_canonical event\<rparr>"

fun pinArtifacts :: "EventID \<Rightarrow> Digest list \<Rightarrow> Store \<Rightarrow> Store outcome" where
  "pinArtifacts ident [] s = Inr s"
| "pinArtifacts ident (d # ds) s =
     bindE (execute ''admit Intent: pin Artifact'' (insert_event_artifact (ident, digestString d) s)) (pinArtifacts ident ds)"

definition insertEventTx :: "Event \<Rightarrow> Store \<Rightarrow> Store outcome" where
  "insertEventTx event s =
     bindE (execute ''admit Intent: persist Event'' (insert_event (eventRowOf event) s)) (\<lambda>s.
     pinArtifacts (e_id event) (e_artifacts event) s)"

definition localTargetCount :: "ResolvedTarget list \<Rightarrow> nat" where
  "localTargetCount targets = length (filter (\<lambda>t. destination t = TargetDestinationLocal) targets)"

definition successorRow :: "Event \<Rightarrow> ResolvedTarget \<Rightarrow> HandlingID \<Rightarrow> handlingRow" where
  "successorRow event target h =
     \<lparr>ha_id = h, ha_target = localPrincipal target, ha_head = e_id event, ha_state = ''open'', ha_outcome = None,
      ha_claim = None, ha_fence = 0, ha_until = None, ha_created = unat (e_sequence event)\<rparr>"

text \<open>The loop over the targets; the identifiers that are left are those from \<^verbatim>\<open>index\<close> on.\<close>

fun createSuccessors :: "Event \<Rightarrow> ResolvedTarget list \<Rightarrow> HandlingID list \<Rightarrow> Store \<Rightarrow> Store outcome" where
  "createSuccessors event [] hs s = Inr s"
| "createSuccessors event (target # targets) hs s =
     (if destination target = TargetDestinationRemote then createSuccessors event targets hs s
      else if destination target \<noteq> TargetDestinationLocal \<or> localPrincipal target = []
      then Inl (Problem ''admit Intent: invalid successor reached local apply'')
      else case hs of
        [] \<Rightarrow> Inl (Problem ''admit Intent: successor ID cardinality mismatch'')
      | h # hs \<Rightarrow>
          bindE (execute ''admit Intent: create successor Handling'' (insert_handling (successorRow event target h) s))
            (createSuccessors event targets hs))"

definition createSuccessorHandlingsTx :: "Event \<Rightarrow> HandlingID list \<Rightarrow> Store \<Rightarrow> Store outcome" where
  "createSuccessorHandlingsTx event handlingIDs s =
     (if localTargetCount (e_targets event) \<noteq> length handlingIDs
      then Inl (Problem ''admit Intent: successor ID cardinality mismatch'')
      else createSuccessors event (e_targets event) handlingIDs s)"

text \<open>The row the settlement of a subject must find.\<close>

definition settles :: "SubjectBinding \<Rightarrow> AttachmentID \<Rightarrow> handlingRow \<Rightarrow> bool" where
  "settles subject claimAttachment r \<longleftrightarrow> ha_id r = sub_handlingID subject \<and> ha_state r = ''open'' \<and>
     ha_head r = ref_id (sub_head subject) \<and> ha_claim r = Some claimAttachment \<and> ha_fence r = unat (sub_fence subject)"

definition settleSubjectTx :: "Event \<Rightarrow> AttachmentID \<Rightarrow> string \<Rightarrow> string \<Rightarrow> Store \<Rightarrow> Store outcome" where
  "settleSubjectTx event claimAttachment newState result s =
     (case e_subject event of
        None \<Rightarrow> Inl (Problem ''admit Intent: subject effect lacks bound subject'')
      | Some subject \<Rightarrow>
          if claimAttachment = [] then Inl (Problem ''admit Intent: subject effect lacks bound subject'')
          else
            bindE (execute ''admit Intent: settle subject''
                    (update_handlings (settles subject claimAttachment)
                      (\<lambda>r. r\<lparr>ha_head := e_id event, ha_state := newState,
                             ha_outcome := (if result = [] then None else Some result),
                             ha_claim := None, ha_until := None\<rparr>) s)) (\<lambda>(s, rows).
            bindE (require (Problem ''admit Intent: subject settlement cardinality violated'') (rows = 1)) (\<lambda>_. Inr s)))"

section \<open>References\<close>

definition requireOneRow :: "string \<Rightarrow> nat \<Rightarrow> unit outcome" where
  "requireOneRow operation rows = require (Problem (''admit Intent: '' @ operation @ '' cardinality violated'')) (rows = 1)"

definition publishReferenceTx :: "Event \<Rightarrow> Store \<Rightarrow> Store outcome" where
  "publishReferenceTx event s =
     (case (e_expected event, e_artifacts event) of
        (Some expected, [artifact]) \<Rightarrow>
          if \<not> exp_absent expected then Inl (Problem ''admit Intent: malformed Reference publish'')
          else
            bindE (execute ''admit Intent: append Reference publish lineage''
                    (insert_lineage \<lparr>li_event = e_id event, li_key = exp_key expected, li_previous = None,
                       li_state = ''active'', li_artifact = Some (digestString artifact)\<rparr> s)) (\<lambda>s.
            execute ''admit Intent: publish Reference head''
              (insert_reference \<lparr>re_key = exp_key expected, re_head = e_id event, re_state = ''active'',
                 re_artifact = Some (digestString artifact)\<rparr> s))
      | _ \<Rightarrow> Inl (Problem ''admit Intent: malformed Reference publish''))"

definition supersedeReferenceTx :: "Event \<Rightarrow> Store \<Rightarrow> Store outcome" where
  "supersedeReferenceTx event s =
     (case (e_expected event, e_artifacts event) of
        (Some expected, [artifact]) \<Rightarrow>
          if exp_absent expected then Inl (Problem ''admit Intent: malformed Reference supersede'')
          else
            bindE (execute ''admit Intent: append Reference supersede lineage''
                    (insert_lineage \<lparr>li_event = e_id event, li_key = exp_key expected,
                       li_previous = Some (ref_id (exp_head expected)), li_state = ''active'',
                       li_artifact = Some (digestString artifact)\<rparr> s)) (\<lambda>s.
            bindE (execute ''admit Intent: supersede Reference head''
                    (update_references (\<lambda>r. re_key r = exp_key expected \<and> re_head r = ref_id (exp_head expected))
                      (\<lambda>r. r\<lparr>re_head := e_id event, re_state := ''active'', re_artifact := Some (digestString artifact)\<rparr>) s)) (\<lambda>(s, rows).
            bindE (requireOneRow ''Reference supersede'' rows) (\<lambda>_. Inr s)))
      | _ \<Rightarrow> Inl (Problem ''admit Intent: malformed Reference supersede''))"

definition retractReferenceTx :: "Event \<Rightarrow> Store \<Rightarrow> Store outcome" where
  "retractReferenceTx event s =
     (case e_expected event of
        None \<Rightarrow> Inl (Problem ''admit Intent: malformed Reference retract'')
      | Some expected \<Rightarrow>
          if exp_absent expected \<or> e_artifacts event \<noteq> [] then Inl (Problem ''admit Intent: malformed Reference retract'')
          else
            bindE (execute ''admit Intent: append Reference retract lineage''
                    (insert_lineage \<lparr>li_event = e_id event, li_key = exp_key expected,
                       li_previous = Some (ref_id (exp_head expected)), li_state = ''retracted'', li_artifact = None\<rparr> s)) (\<lambda>s.
            bindE (execute ''admit Intent: retract Reference head''
                    (update_references (\<lambda>r. re_key r = exp_key expected \<and> re_head r = ref_id (exp_head expected) \<and> re_state r = ''active'')
                      (\<lambda>r. r\<lparr>re_head := e_id event, re_state := ''retracted'', re_artifact := None\<rparr>) s)) (\<lambda>(s, rows).
            bindE (requireOneRow ''Reference retract'' rows) (\<lambda>_. Inr s))))"

section \<open>The effect of an Event\<close>

definition applyDomainEffectTx :: "Event \<Rightarrow> AttachmentID \<Rightarrow> HandlingID list \<Rightarrow> Store \<Rightarrow> Store outcome" where
  "applyDomainEffectTx event claimAttachment handlingIDs s =
     (case e_consequence event of
        ConsequenceCreateHandlings \<Rightarrow> createSuccessorHandlingsTx event handlingIDs s
      | ConsequenceAdvanceHandling \<Rightarrow>
          bindE (settleSubjectTx event claimAttachment ''open'' [] s) (createSuccessorHandlingsTx event handlingIDs)
      | ConsequenceResolveCompleted \<Rightarrow>
          bindE (settleSubjectTx event claimAttachment ''terminal'' ''completed'' s) (createSuccessorHandlingsTx event handlingIDs)
      | ConsequenceResolveDeclined \<Rightarrow>
          bindE (settleSubjectTx event claimAttachment ''terminal'' ''declined'' s) (createSuccessorHandlingsTx event handlingIDs)
      | ConsequenceResolveUnresolved \<Rightarrow>
          bindE (settleSubjectTx event claimAttachment ''terminal'' ''unresolved'' s) (createSuccessorHandlingsTx event handlingIDs)
      | ConsequencePublishReference \<Rightarrow> publishReferenceTx event s
      | ConsequenceSupersedeReference \<Rightarrow> supersedeReferenceTx event s
      | ConsequenceRetractReference \<Rightarrow> retractReferenceTx event s
      | ConsequenceObserveCompleted \<Rightarrow>
          if handlingIDs \<noteq> [] then Inl (Problem ''admit peer observation: successor cardinality must be zero'') else Inr s
      | ConsequenceObserveDeclined \<Rightarrow>
          if handlingIDs \<noteq> [] then Inl (Problem ''admit peer observation: successor cardinality must be zero'') else Inr s
      | ConsequenceObserveUnresolved \<Rightarrow>
          if handlingIDs \<noteq> [] then Inl (Problem ''admit peer observation: successor cardinality must be zero'') else Inr s
      | ConsequenceInvalid \<Rightarrow> Inl (Problem ''admit Event: unknown consequence''))"

text \<open>
  The part of \<^verbatim>\<open>commitDomainAdmissionTx\<close> that stores the Event and applies its effect; the Event it makes first
  and the deliveries it queues afterwards are not part of it.
\<close>

definition admitEffectTx :: "Event \<Rightarrow> AttachmentID \<Rightarrow> HandlingID list \<Rightarrow> Store \<Rightarrow> Store outcome" where
  "admitEffectTx event claimAttachment handlingIDs s =
     bindE (insertEventTx event s) (applyDomainEffectTx event claimAttachment handlingIDs)"

section \<open>The schema is kept\<close>

lemma pinArtifacts_effect:
  "pinArtifacts ident ds s = Inr t \<Longrightarrow> store_ok s \<Longrightarrow>
   store_ok t \<and> grows s t \<and> (\<exists>xs. t = s\<lparr>event_artifacts := event_artifacts s @ xs\<rparr>)"
proof (induction ds arbitrary: s)
  case Nil
  then show ?case by (metis append_Nil2 Store.surjective Store.update_convs(7) grows_refl pinArtifacts.simps(1) sum.inject(2))
next
  case (Cons d ds)
  then obtain u where u: "insert_event_artifact (ident, digestString d) s = Some u" "pinArtifacts ident ds u = Inr t"
    by (auto simp: guards)
  have "store_ok u" "grows s u" "u = s\<lparr>event_artifacts := event_artifacts s @ [(ident, digestString d)]\<rparr>"
    using insert_keeps(7) [OF Cons.prems(2) u(1)] u(1) by (auto simp: insert_event_artifact_def Let_def split: if_splits)
  then show ?case using Cons.IH [OF u(2)] grows_trans [of s u t] by auto
qed

lemma insertEventTx_effect:
  assumes "insertEventTx event s = Inr t" "store_ok s"
  shows "store_ok t \<and> grows s t \<and>
    (\<exists>xs. t = s\<lparr>events := events s @ [eventRowOf event], event_artifacts := event_artifacts s @ xs\<rparr>)"
proof -
  obtain u where u: "insert_event (eventRowOf event) s = Some u" "pinArtifacts (e_id event) (e_artifacts event) u = Inr t"
    using assms(1) by (auto simp: insertEventTx_def guards)
  have 1: "store_ok u" "grows s u" "u = s\<lparr>events := events s @ [eventRowOf event]\<rparr>"
    using insert_keeps(6) [OF assms(2) u(1)] u(1) by (auto simp: insert_event_def Let_def split: if_splits)
  show ?thesis using pinArtifacts_effect [OF u(2) 1(1)] 1 grows_trans [of s u t] by auto
qed

text \<open>What an effect does to the Handlings: some are settled, and new ones are appended.\<close>

definition handlings_settled :: "handlingRow list \<Rightarrow> handlingRow list \<Rightarrow> bool" where
  "handlings_settled hs gs \<longleftrightarrow> (\<exists>P f rows. gs = update_where P f hs @ rows \<and>
     (\<forall>r. ha_id (f r) = ha_id r \<and> ha_target (f r) = ha_target r \<and> ha_fence (f r) = ha_fence r \<and>
          ha_claim (f r) = None \<and> ha_until (f r) = None) \<and>
     (\<forall>r \<in> set rows. ha_claim r = None \<and> ha_until r = None \<and> ha_fence r = 0))"

lemma handlings_settled_refl: "handlings_settled hs hs"
  unfolding handlings_settled_def
  by (intro exI [of _ "\<lambda>_. False"] exI [of _ "\<lambda>r. r\<lparr>ha_claim := None, ha_until := None\<rparr>"] exI [of _ "[]"])
    (simp add: update_where_def)

lemma createSuccessors_effect:
  "createSuccessors event targets hs s = Inr t \<Longrightarrow> store_ok s \<Longrightarrow>
   store_ok t \<and> grows s t \<and>
   (\<exists>rows. t = s\<lparr>handlings := handlings s @ rows\<rparr> \<and> (\<forall>r \<in> set rows. ha_claim r = None \<and> ha_until r = None \<and> ha_fence r = 0))"
proof (induction event targets hs s rule: createSuccessors.induct)
  case (1 event hs s)
  then show ?case by (intro conjI exI [of _ "[]"]) simp_all
next
  case (2 event target targets hs s)
  show ?case
  proof (cases "destination target = TargetDestinationRemote")
    case True
    then show ?thesis using 2 by simp
  next
    case False
    obtain h gs u where hs: "hs = h # gs" and u: "insert_handling (successorRow event target h) s = Some u"
      "createSuccessors event targets gs u = Inr t"
      using False 2(3) by (auto simp: guards split: if_splits list.splits)
    have k: "store_ok u" "grows s u" "u = s\<lparr>handlings := handlings s @ [successorRow event target h]\<rparr>"
      using insert_keeps(3) [OF 2(4) u(1)] u(1) by (auto simp: insert_handling_def Let_def split: if_splits)
    have "\<not> (destination target \<noteq> TargetDestinationLocal \<or> localPrincipal target = [])" using False 2(3) by (auto split: if_splits)
    then obtain rows where "store_ok t" "grows u t" "t = u\<lparr>handlings := handlings u @ rows\<rparr>"
      "\<forall>r \<in> set rows. ha_claim r = None \<and> ha_until r = None \<and> ha_fence r = 0"
      using 2(2) [OF False _ hs u(2) k(1)] by blast
    then show ?thesis
      using k(2,3) grows_trans [of s u t]
      by (intro conjI exI [of _ "successorRow event target h # rows"]) (auto simp: successorRow_def)
  qed
qed

lemma createSuccessorHandlingsTx_effect:
  assumes "createSuccessorHandlingsTx event hs s = Inr t" "store_ok s"
  shows "store_ok t \<and> grows s t \<and>
   (\<exists>rows. t = s\<lparr>handlings := handlings s @ rows\<rparr> \<and> (\<forall>r \<in> set rows. ha_claim r = None \<and> ha_until r = None \<and> ha_fence r = 0))"
  using assms createSuccessors_effect by (auto simp: createSuccessorHandlingsTx_def guards)

text \<open>
  The settlement of a subject: the row the Event names is there with the holder, the head and the fence the
  Event is bound to, and it alone changes.
\<close>

lemma settleSubjectTx_effect:
  assumes "settleSubjectTx event a newState result s = Inr t" "store_ok s"
  obtains subject where "e_subject event = Some subject" "matching (settles subject a) (handlings s) = 1"
    "t = s\<lparr>handlings := update_where (settles subject a)
       (\<lambda>r. r\<lparr>ha_head := e_id event, ha_state := newState, ha_outcome := (if result = [] then None else Some result),
              ha_claim := None, ha_until := None\<rparr>) (handlings s)\<rparr>" "store_ok t" "grows s t"
proof -
  obtain subject where subject: "e_subject event = Some subject"
    and u: "update_handlings (settles subject a) (\<lambda>r. r\<lparr>ha_head := e_id event, ha_state := newState,
       ha_outcome := (if result = [] then None else Some result), ha_claim := None, ha_until := None\<rparr>) s = Some (t, 1)"
    using assms(1) by (auto simp: settleSubjectTx_def guards split_paired_Ex split: option.splits)
  show ?thesis
    by (rule that [OF subject]) (use update_effect(4) [OF u] update_keeps(2) [OF assms(2) u] in auto)
qed

text \<open>The store after the effect on a Reference.\<close>

definition referenceAppended :: "lineageRow \<Rightarrow> (referenceRow list \<Rightarrow> referenceRow list) \<Rightarrow> Store \<Rightarrow> Store" where
  "referenceAppended li f s =
     s\<lparr>reference_lineage := reference_lineage s @ [li], active_references := f (active_references s)\<rparr>"

lemma lineage_effect: "insert_lineage li s = Some u \<Longrightarrow> u = s\<lparr>reference_lineage := reference_lineage s @ [li]\<rparr>"
  and reference_effect: "insert_reference re s = Some v \<Longrightarrow>
    v = s\<lparr>active_references := active_references s @ [re]\<rparr> \<and> re_key re \<notin> set (map re_key (active_references s))"
  and references_effect: "update_references P f s = Some (w, n) \<Longrightarrow>
    w = s\<lparr>active_references := update_where P f (active_references s)\<rparr> \<and> n = matching P (active_references s)"
  by (auto simp: statement_defs Let_def references_ok_def split: if_splits)

lemma publishReferenceTx_effect:
  assumes "publishReferenceTx event s = Inr t" "store_ok s"
  obtains expected artifact where "e_expected event = Some expected" "e_artifacts event = [artifact]" "exp_absent expected"
    "exp_key expected \<notin> set (map re_key (active_references s))" "store_ok t" "grows s t"
    "t = referenceAppended \<lparr>li_event = e_id event, li_key = exp_key expected, li_previous = None, li_state = ''active'',
       li_artifact = Some (digestString artifact)\<rparr>
       (\<lambda>rs. rs @ [\<lparr>re_key = exp_key expected, re_head = e_id event, re_state = ''active'',
          re_artifact = Some (digestString artifact)\<rparr>]) s"
proof -
  obtain expected artifact u where e: "e_expected event = Some expected" "e_artifacts event = [artifact]" "exp_absent expected"
    and u: "insert_lineage \<lparr>li_event = e_id event, li_key = exp_key expected, li_previous = None,
              li_state = ''active'', li_artifact = Some (digestString artifact)\<rparr> s = Some u"
      "insert_reference \<lparr>re_key = exp_key expected, re_head = e_id event, re_state = ''active'',
              re_artifact = Some (digestString artifact)\<rparr> u = Some t"
    using assms(1) by (auto simp: publishReferenceTx_def guards split: option.splits list.splits)
  have "store_ok u" "grows s u" using insert_keeps(13) [OF assms(2) u(1)] by auto
  then show ?thesis
    using that [OF e] insert_keeps(12) [OF _ u(2)] grows_trans [of s u t] lineage_effect [OF u(1)] reference_effect [OF u(2)]
    by (simp add: referenceAppended_def)
qed

text \<open>Supersession and retraction replace the head they expect.\<close>

lemma replaceReference_effect:
  assumes "bindE (execute m (insert_lineage li s)) (\<lambda>s. bindE (execute m' (update_references P f s)) (\<lambda>(s, rows).
      bindE (requireOneRow n rows) (\<lambda>_. Inr s))) = Inr t" "store_ok s"
  shows "matching P (active_references s) = 1 \<and> store_ok t \<and> grows s t \<and> t = referenceAppended li (update_where P f) s"
proof -
  obtain u where u: "insert_lineage li s = Some u" "update_references P f u = Some (t, 1)"
    using assms(1) by (auto simp: guards requireOneRow_def split_paired_Ex)
  have "store_ok u" "grows s u" using insert_keeps(13) [OF assms(2) u(1)] by auto
  then show ?thesis
    using update_keeps(5) [OF _ u(2)] grows_trans [of s u t] lineage_effect [OF u(1)] references_effect [OF u(2)]
    by (simp add: referenceAppended_def)
qed

lemma supersedeReferenceTx_effect:
  assumes "supersedeReferenceTx event s = Inr t" "store_ok s"
  obtains expected artifact where "e_expected event = Some expected" "e_artifacts event = [artifact]" "\<not> exp_absent expected"
    "matching (\<lambda>r. re_key r = exp_key expected \<and> re_head r = ref_id (exp_head expected)) (active_references s) = 1"
    "store_ok t" "grows s t"
    "t = referenceAppended \<lparr>li_event = e_id event, li_key = exp_key expected, li_previous = Some (ref_id (exp_head expected)),
       li_state = ''active'', li_artifact = Some (digestString artifact)\<rparr>
       (update_where (\<lambda>r. re_key r = exp_key expected \<and> re_head r = ref_id (exp_head expected))
         (\<lambda>r. r\<lparr>re_head := e_id event, re_state := ''active'', re_artifact := Some (digestString artifact)\<rparr>)) s"
proof -
  obtain expected artifact where e: "e_expected event = Some expected" "e_artifacts event = [artifact]" "\<not> exp_absent expected"
    using assms(1) by (auto simp: supersedeReferenceTx_def split: option.splits list.splits if_splits)
  show ?thesis
    by (rule that [OF e])
      (use replaceReference_effect [OF _ assms(2)] assms(1) in \<open>simp_all add: supersedeReferenceTx_def e\<close>)
qed

lemma retractReferenceTx_effect:
  assumes "retractReferenceTx event s = Inr t" "store_ok s"
  obtains expected where "e_expected event = Some expected" "e_artifacts event = []" "\<not> exp_absent expected"
    "matching (\<lambda>r. re_key r = exp_key expected \<and> re_head r = ref_id (exp_head expected) \<and> re_state r = ''active'') (active_references s) = 1"
    "store_ok t" "grows s t"
    "t = referenceAppended \<lparr>li_event = e_id event, li_key = exp_key expected, li_previous = Some (ref_id (exp_head expected)),
       li_state = ''retracted'', li_artifact = None\<rparr>
       (update_where (\<lambda>r. re_key r = exp_key expected \<and> re_head r = ref_id (exp_head expected) \<and> re_state r = ''active'')
         (\<lambda>r. r\<lparr>re_head := e_id event, re_state := ''retracted'', re_artifact := None\<rparr>)) s"
proof -
  obtain expected where e: "e_expected event = Some expected" "e_artifacts event = []" "\<not> exp_absent expected"
    using assms(1) by (auto simp: retractReferenceTx_def split: option.splits list.splits if_splits)
  show ?thesis
    by (rule that [OF e])
      (use replaceReference_effect [OF _ assms(2)] assms(1) in \<open>simp_all add: retractReferenceTx_def e\<close>)
qed

section \<open>Effects on Handlings\<close>

text \<open>The consequences that settle the Handling of the Event.\<close>

lemma handlings_settled_create:
  assumes "createSuccessorHandlingsTx event hs s = Inr t" "store_ok s"
  shows "handlings_settled (handlings s) (handlings t)" "attachments t = attachments s" "claim_dispositions t = claim_dispositions s"
    "store_ok t \<and> grows s t" "reference_lineage t = reference_lineage s" "active_references t = active_references s"
proof -
  obtain rows where t: "t = s\<lparr>handlings := handlings s @ rows\<rparr>"
    "\<forall>r \<in> set rows. ha_claim r = None \<and> ha_until r = None \<and> ha_fence r = 0"
    using createSuccessorHandlingsTx_effect [OF assms] by blast
  show "handlings_settled (handlings s) (handlings t)"
    unfolding handlings_settled_def
    by (rule exI [of _ "\<lambda>_. False"], rule exI [of _ "\<lambda>r. r\<lparr>ha_claim := None, ha_until := None\<rparr>"], rule exI [of _ rows])
      (use t in \<open>simp add: update_where_def\<close>)
  show "store_ok t \<and> grows s t" using createSuccessorHandlingsTx_effect [OF assms] by blast
qed (use createSuccessorHandlingsTx_effect [OF assms] in auto)

lemma handlings_settled_subject:
  assumes "bindE (settleSubjectTx event a newState result s) (createSuccessorHandlingsTx event hs) = Inr t" "store_ok s"
  shows "handlings_settled (handlings s) (handlings t)" "attachments t = attachments s" "claim_dispositions t = claim_dispositions s"
    "store_ok t \<and> grows s t" "reference_lineage t = reference_lineage s" "active_references t = active_references s"
proof -
  obtain u where u: "settleSubjectTx event a newState result s = Inr u" "createSuccessorHandlingsTx event hs u = Inr t"
    using assms(1) by (auto simp: bindE_Inr)
  obtain subject where ue: "u = s\<lparr>handlings := update_where (settles subject a)
       (\<lambda>r. r\<lparr>ha_head := e_id event, ha_state := newState, ha_outcome := (if result = [] then None else Some result),
              ha_claim := None, ha_until := None\<rparr>) (handlings s)\<rparr>" "store_ok u" "grows s u"
    using settleSubjectTx_effect [OF u(1) assms(2)] by blast
  obtain rows where t: "t = u\<lparr>handlings := handlings u @ rows\<rparr>"
    "\<forall>r \<in> set rows. ha_claim r = None \<and> ha_until r = None \<and> ha_fence r = 0"
    using createSuccessorHandlingsTx_effect [OF u(2) ue(2)] by blast
  show "handlings_settled (handlings s) (handlings t)"
    unfolding handlings_settled_def
    by (rule exI [of _ "settles subject a"], rule exI [of _ "\<lambda>r. r\<lparr>ha_head := e_id event, ha_state := newState,
         ha_outcome := (if result = [] then None else Some result), ha_claim := None, ha_until := None\<rparr>"], rule exI [of _ rows])
      (use t ue(1) in simp)
  show "store_ok t \<and> grows s t" using createSuccessorHandlingsTx_effect [OF u(2) ue(2)] ue(3) grows_trans [of s u t] by blast
qed (use assms settleSubjectTx_effect createSuccessorHandlingsTx_effect in \<open>fastforce simp: bindE_Inr\<close>)+

lemma referenceBound_iff:
  "referenceBound c \<longleftrightarrow> c \<in> {ConsequencePublishReference, ConsequenceSupersedeReference, ConsequenceRetractReference}"
  by (simp add: referenceBound_def closedConsequences_def)

text \<open>The effects there are.\<close>

lemma applyDomainEffectTx_cases:
  assumes "applyDomainEffectTx event a hs s = Inr t"
  obtains (create) "createSuccessorHandlingsTx event hs s = Inr t" "\<not> referenceBound (e_consequence event)"
  | (settle) newState result where "bindE (settleSubjectTx event a newState result s) (createSuccessorHandlingsTx event hs) = Inr t"
      "\<not> referenceBound (e_consequence event)"
  | (publish) "publishReferenceTx event s = Inr t" "e_consequence event = ConsequencePublishReference"
  | (supersede) "supersedeReferenceTx event s = Inr t" "e_consequence event = ConsequenceSupersedeReference"
  | (retract) "retractReferenceTx event s = Inr t" "e_consequence event = ConsequenceRetractReference"
  | (observe) "t = s" "\<not> referenceBound (e_consequence event)"
proof (cases "e_consequence event")
  case ConsequenceCreateHandlings
  then show ?thesis using create assms by (simp add: applyDomainEffectTx_def referenceBound_iff)
next
  case ConsequenceAdvanceHandling
  then show ?thesis using settle assms by (simp add: applyDomainEffectTx_def referenceBound_iff)
next
  case ConsequenceResolveCompleted
  then show ?thesis using settle assms by (simp add: applyDomainEffectTx_def referenceBound_iff)
next
  case ConsequenceResolveDeclined
  then show ?thesis using settle assms by (simp add: applyDomainEffectTx_def referenceBound_iff)
next
  case ConsequenceResolveUnresolved
  then show ?thesis using settle assms by (simp add: applyDomainEffectTx_def referenceBound_iff)
next
  case ConsequencePublishReference
  then show ?thesis using publish assms by (simp add: applyDomainEffectTx_def)
next
  case ConsequenceSupersedeReference
  then show ?thesis using supersede assms by (simp add: applyDomainEffectTx_def)
next
  case ConsequenceRetractReference
  then show ?thesis using retract assms by (simp add: applyDomainEffectTx_def)
qed (use assms observe in \<open>simp_all add: applyDomainEffectTx_def guards referenceBound_iff\<close>)

text \<open>An effect keeps the schema and touches neither Attachments nor dispositions.\<close>

lemma applyDomainEffectTx_frame:
  assumes "applyDomainEffectTx event a hs s = Inr t" "store_ok s"
  shows "handlings_settled (handlings s) (handlings t) \<and> attachments t = attachments s \<and>
    claim_dispositions t = claim_dispositions s \<and> store_ok t \<and> grows s t"
proof -
  have refs: "handlings_settled (handlings s) (handlings t) \<and> attachments t = attachments s \<and>
    claim_dispositions t = claim_dispositions s \<and> store_ok t \<and> grows s t"
    if "t = referenceAppended li f s" "store_ok t" "grows s t" for li f
    using that by (simp add: referenceAppended_def handlings_settled_refl)
  show ?thesis
    using assms(1)
  proof (cases rule: applyDomainEffectTx_cases)
    case create
    then show ?thesis using handlings_settled_create [OF create(1) assms(2)] by simp
  next
    case (settle newState result)
    then show ?thesis using handlings_settled_subject [OF settle(1) assms(2)] by simp
  next
    case publish
    show ?thesis by (rule publishReferenceTx_effect [OF publish(1) assms(2)]) (rule refs)
  next
    case supersede
    show ?thesis by (rule supersedeReferenceTx_effect [OF supersede(1) assms(2)]) (rule refs)
  next
    case retract
    show ?thesis by (rule retractReferenceTx_effect [OF retract(1) assms(2)]) (rule refs)
  next
    case observe
    then show ?thesis using assms(2) handlings_settled_refl by simp
  qed
qed

lemma admitEffectTx_frame:
  assumes "admitEffectTx event a hs s = Inr t" "store_ok s"
  shows "handlings_settled (handlings s) (handlings t) \<and> attachments t = attachments s \<and>
    claim_dispositions t = claim_dispositions s \<and> store_ok t \<and> grows s t"
proof -
  obtain u where u: "insertEventTx event s = Inr u" "applyDomainEffectTx event a hs u = Inr t"
    using assms(1) by (auto simp: admitEffectTx_def bindE_Inr)
  have 1: "store_ok u" "grows s u" "handlings u = handlings s" "attachments u = attachments s" "claim_dispositions u = claim_dispositions s"
    using insertEventTx_effect [OF u(1) assms(2)] by auto
  show ?thesis using applyDomainEffectTx_frame [OF u(2) 1(1)] 1 grows_trans [of s u t] by simp
qed

section \<open>References are lists of versions\<close>

text \<open>
  What a Reference is to its users: a list of versions, each the Event that made it with its Artifact (none
  for a tombstone), and one operation, to append a version under the last one that is expected.
\<close>

type_synonym versions = "(EventID \<times> string option) list"

definition appendVersion ::
  "ReferenceKey \<Rightarrow> EventID option \<Rightarrow> EventID \<times> string option \<Rightarrow> (ReferenceKey \<Rightarrow> versions) \<Rightarrow> (ReferenceKey \<Rightarrow> versions) option" where
  "appendVersion k expectedHead v m =
     (if expectedHead = (if m k = [] then None else Some (fst (last (m k)))) then Some (m(k := m k @ [v])) else None)"

text \<open>The versions the tables stand for: the rows of the lineage, in order.\<close>

definition lineage_of :: "ReferenceKey \<Rightarrow> Store \<Rightarrow> lineageRow list" where
  "lineage_of k s = filter (\<lambda>r. li_key r = k) (reference_lineage s)"

definition versionsOf :: "Store \<Rightarrow> ReferenceKey \<Rightarrow> versions" where
  "versionsOf s k = map (\<lambda>r. (li_event r, li_artifact r)) (lineage_of k s)"

text \<open>The two tables agree: each row points at the one before it, and the head is the last.\<close>

primrec chained :: "string option \<Rightarrow> lineageRow list \<Rightarrow> bool" where
  "chained prev [] = True"
| "chained prev (r # rs) = (li_previous r = prev \<and> chained (Some (li_event r)) rs)"

definition head_of :: "referenceRow \<Rightarrow> lineageRow list \<Rightarrow> bool" where
  "head_of h rows \<longleftrightarrow> rows \<noteq> [] \<and> re_head h = li_event (last rows) \<and> re_state h = li_state (last rows) \<and>
     re_artifact h = li_artifact (last rows)"

definition references_inv :: "Store \<Rightarrow> bool" where
  "references_inv s \<longleftrightarrow> (\<forall>k. chained None (lineage_of k s) \<and>
     (k \<notin> set (map re_key (active_references s)) \<longrightarrow> lineage_of k s = [])) \<and>
     (\<forall>h \<in> set (active_references s). head_of h (lineage_of (re_key h) s))"

lemma chained_snoc:
  "chained p (rows @ [r]) \<longleftrightarrow> chained p rows \<and> li_previous r = (if rows = [] then p else Some (li_event (last rows)))"
  by (induction rows arbitrary: p) auto

lemma lineage_appended:
  "lineage_of k (referenceAppended li f s) = (if k = li_key li then lineage_of k s @ [li] else lineage_of k s)"
  by (simp add: lineage_of_def referenceAppended_def)

lemma versions_appended:
  "versionsOf (referenceAppended li f s) = (versionsOf s)(li_key li := versionsOf s (li_key li) @ [(li_event li, li_artifact li)])"
  by (rule ext) (simp add: versionsOf_def lineage_appended)

lemma versions_empty: "versionsOf s k = [] \<longleftrightarrow> lineage_of k s = []"
  and versions_last: "lineage_of k s \<noteq> [] \<Longrightarrow> fst (last (versionsOf s k)) = li_event (last (lineage_of k s))"
  by (simp_all add: versionsOf_def last_map)

lemma published:
  assumes "references_inv s" "key \<notin> set (map re_key (active_references s))"
    "t = referenceAppended li (\<lambda>rs. rs @ [h]) s" "li_key li = key" "re_key h = key" "li_previous li = None"
    "re_head h = li_event li" "re_state h = li_state li" "re_artifact h = li_artifact li"
  shows "references_inv t \<and> appendVersion key None (li_event li, li_artifact li) (versionsOf s) = Some (versionsOf t)"
proof -
  have none: "lineage_of key s = []" using assms(1,2) by (auto simp: references_inv_def)
  have "head_of g (lineage_of (re_key g) t)" if "g \<in> set (active_references t)" for g
    using that assms none unfolding assms(3) lineage_appended
    by (auto simp: references_inv_def head_of_def referenceAppended_def)
  moreover have "chained None (lineage_of k t)" "k \<notin> set (map re_key (active_references t)) \<Longrightarrow> lineage_of k t = []" for k
    using assms none unfolding assms(3) lineage_appended by (auto simp: references_inv_def referenceAppended_def)
  ultimately have "references_inv t" by (auto simp: references_inv_def)
  moreover have "versionsOf t = (versionsOf s)(key := versionsOf s key @ [(li_event li, li_artifact li)])"
    unfolding assms(3) versions_appended by (simp add: assms(4))
  ultimately show ?thesis using none by (simp add: appendVersion_def versions_empty)
qed

lemma replaced:
  assumes "references_inv s" "distinct (map re_key (active_references s))" "matching P (active_references s) = 1"
    "t = referenceAppended li (update_where P f) s" "\<And>r. P r \<Longrightarrow> re_key r = li_key li \<and> Some (re_head r) = li_previous li"
    "\<And>r. re_key (f r) = re_key r \<and> re_head (f r) = li_event li \<and> re_state (f r) = li_state li \<and> re_artifact (f r) = li_artifact li"
  shows "references_inv t \<and> appendVersion (li_key li) (li_previous li) (li_event li, li_artifact li) (versionsOf s) = Some (versionsOf t)"
proof -
  let ?k = "li_key li"
  obtain h where h: "h \<in> set (active_references s)" "P h"
    using assms(3) by (auto simp: matching_def) (metis (mono_tags, lifting) One_nat_def filter_False list.size(3) zero_neq_one)
  have hk: "re_key h = ?k" "li_previous li = Some (re_head h)" using assms(5) [OF h(2)] by auto
  have ne: "lineage_of ?k s \<noteq> []" "re_head h = li_event (last (lineage_of ?k s))"
    using assms(1) h(1) hk(1) by (auto simp: references_inv_def head_of_def)
  have only: "P r \<longleftrightarrow> re_key r = ?k" if "r \<in> set (active_references s)" for r
    using filter_map_distinct_keys [OF assms(2) that h(1)] assms(5) [of r] h(2) hk(1) by auto
  have keys: "map re_key (active_references t) = map re_key (active_references s)"
    unfolding assms(4) using assms(6) by (simp add: referenceAppended_def)
  have "head_of g (lineage_of (re_key g) t)" if g: "g \<in> set (active_references t)" for g
  proof -
    obtain r where r: "r \<in> set (active_references s)" "g = (if P r then f r else r)"
      using g unfolding assms(4) by (auto simp: referenceAppended_def update_where_def)
    then show ?thesis
      using assms(1,6) only [OF r(1)] unfolding assms(4) lineage_appended by (auto simp: references_inv_def head_of_def)
  qed
  moreover have "chained None (lineage_of k t)" for k
    using assms(1) ne hk(2) unfolding assms(4) lineage_appended by (auto simp: references_inv_def chained_snoc)
  moreover have "lineage_of k t = []" if "k \<notin> set (map re_key (active_references t))" for k
  proof -
    have "k \<noteq> ?k" using that h(1) hk(1) unfolding keys by (auto simp: image_iff)
    then have "lineage_of k t = lineage_of k s" unfolding assms(4) lineage_appended by simp
    then show ?thesis using that assms(1) unfolding keys by (simp add: references_inv_def)
  qed
  ultimately have "references_inv t" by (auto simp: references_inv_def)
  moreover have "versionsOf t = (versionsOf s)(?k := versionsOf s ?k @ [(li_event li, li_artifact li)])"
    unfolding assms(4) versions_appended by simp
  ultimately show ?thesis using ne hk(2) by (simp add: appendVersion_def versions_empty versions_last)
qed

text \<open>The version an Event makes, and the head it expects.\<close>

definition versionOf :: "Event \<Rightarrow> EventID \<times> string option" where
  "versionOf event = (e_id event, case e_artifacts event of [] \<Rightarrow> None | d # _ \<Rightarrow> Some (digestString d))"

definition expectedHead :: "ReferenceExpectation \<Rightarrow> EventID option" where
  "expectedHead x = (if exp_absent x then None else Some (ref_id (exp_head x)))"

lemma references_same:
  "reference_lineage t = reference_lineage s \<Longrightarrow> active_references t = active_references s \<Longrightarrow>
   versionsOf t = versionsOf s \<and> (references_inv t \<longleftrightarrow> references_inv s)"
  by (simp add: versionsOf_def lineage_of_def references_inv_def fun_eq_iff)

lemma applied_references:
  assumes "applyDomainEffectTx event a hs s = Inr t" "store_ok s" "references_inv s"
  shows "references_inv t \<and> (if referenceBound (e_consequence event)
     then \<exists>x. e_expected event = Some x \<and> appendVersion (exp_key x) (expectedHead x) (versionOf event) (versionsOf s) = Some (versionsOf t)
     else versionsOf t = versionsOf s)"
proof -
  have d: "distinct (map re_key (active_references s))" using assms(2) by (simp add: store_ok_def references_ok_def)
  show ?thesis
    using assms(1)
  proof (cases rule: applyDomainEffectTx_cases)
    case create
    then show ?thesis using handlings_settled_create(5,6) [OF create(1) assms(2)] references_same [of t s] assms(3) by simp
  next
    case (settle newState result)
    then show ?thesis using handlings_settled_subject(5,6) [OF settle(1) assms(2)] references_same [of t s] assms(3) by simp
  next
    case publish
    obtain x artifact where x: "e_expected event = Some x" "e_artifacts event = [artifact]" "exp_absent x"
      "exp_key x \<notin> set (map re_key (active_references s))"
      "t = referenceAppended \<lparr>li_event = e_id event, li_key = exp_key x, li_previous = None, li_state = ''active'',
         li_artifact = Some (digestString artifact)\<rparr>
         (\<lambda>rs. rs @ [\<lparr>re_key = exp_key x, re_head = e_id event, re_state = ''active'', re_artifact = Some (digestString artifact)\<rparr>]) s"
      using publishReferenceTx_effect [OF publish(1) assms(2)] by blast
    show ?thesis
      using published [OF assms(3) x(4,5)] x(1-3) publish(2) by (simp add: versionOf_def expectedHead_def referenceBound_iff)
  next
    case supersede
    obtain x artifact where x: "e_expected event = Some x" "e_artifacts event = [artifact]" "\<not> exp_absent x"
      "matching (\<lambda>r. re_key r = exp_key x \<and> re_head r = ref_id (exp_head x)) (active_references s) = 1"
      "t = referenceAppended \<lparr>li_event = e_id event, li_key = exp_key x, li_previous = Some (ref_id (exp_head x)),
         li_state = ''active'', li_artifact = Some (digestString artifact)\<rparr>
         (update_where (\<lambda>r. re_key r = exp_key x \<and> re_head r = ref_id (exp_head x))
           (\<lambda>r. r\<lparr>re_head := e_id event, re_state := ''active'', re_artifact := Some (digestString artifact)\<rparr>)) s"
      using supersedeReferenceTx_effect [OF supersede(1) assms(2)] by blast
    show ?thesis
      using replaced [OF assms(3) d x(4,5)] x(1-3) supersede(2) by (simp add: versionOf_def expectedHead_def referenceBound_iff)
  next
    case retract
    obtain x where x: "e_expected event = Some x" "e_artifacts event = []" "\<not> exp_absent x"
      "matching (\<lambda>r. re_key r = exp_key x \<and> re_head r = ref_id (exp_head x) \<and> re_state r = ''active'') (active_references s) = 1"
      "t = referenceAppended \<lparr>li_event = e_id event, li_key = exp_key x, li_previous = Some (ref_id (exp_head x)),
         li_state = ''retracted'', li_artifact = None\<rparr>
         (update_where (\<lambda>r. re_key r = exp_key x \<and> re_head r = ref_id (exp_head x) \<and> re_state r = ''active'')
           (\<lambda>r. r\<lparr>re_head := e_id event, re_state := ''retracted'', re_artifact := None\<rparr>)) s"
      using retractReferenceTx_effect [OF retract(1) assms(2)] by blast
    show ?thesis
      using replaced [OF assms(3) d x(4,5)] x(1-3) retract(2) by (simp add: versionOf_def expectedHead_def referenceBound_iff)
  next
    case observe
    then show ?thesis using assms(3) by simp
  qed
qed

text \<open>
  (C5) References refine lists of versions. The tables of heads and lineage stand for one list of versions per
  key. An admitted Event with an effect on a Reference appends exactly its version, and it can do so only when
  the last version of that key is the head the Event expects (none, for a publication); every other Event
  leaves all lists alone. The tables keep agreeing: the lineage of a key is chained from its publication on,
  and its head is the last row.
\<close>

theorem references_refine_versions:
  assumes "admitEffectTx event a hs s = Inr t" "store_ok s" "references_inv s"
  shows "references_inv t \<and> (if referenceBound (e_consequence event)
     then \<exists>x. e_expected event = Some x \<and> appendVersion (exp_key x) (expectedHead x) (versionOf event) (versionsOf s) = Some (versionsOf t)
     else versionsOf t = versionsOf s)"
proof -
  obtain u where u: "insertEventTx event s = Inr u" "applyDomainEffectTx event a hs u = Inr t"
    using assms(1) by (auto simp: admitEffectTx_def bindE_Inr)
  have ok: "store_ok u" "reference_lineage u = reference_lineage s" "active_references u = active_references s"
    using insertEventTx_effect [OF u(1) assms(2)] by auto
  have eq: "versionsOf u = versionsOf s" "references_inv u" using references_same [OF ok(2,3)] assms(3) by simp_all
  show ?thesis using applied_references [OF u(2) ok(1) eq(2)] unfolding eq(1) .
qed

section \<open>An instance\<close>

text \<open>A store with one Principal and one Artifact, and an Event that publishes a Reference to it.\<close>

definition catalogStore :: Store where
  "catalogStore = emptyStore\<lparr>
     principals := [\<lparr>pr_id = ''agent:local'', pr_createdAt = []\<rparr>],
     verified_artifacts := [\<lparr>ar_digest = digestString (replicate 32 CHR ''a''), ar_size = 1, ar_verified = []\<rparr>]\<rparr>"

definition publication :: Event where
  "publication = \<lparr>e_id = ''event:1'', e_acceptedAt = 1000, e_sequence = 1, e_depth = 0, e_source = ''agent:local'',
     e_operationKey = ''op:1'', e_requestDigest = replicate 32 CHR ''r'', e_kind = ''note'', e_payload = ''hello'',
     e_consequence = ConsequencePublishReference, e_subject = None,
     e_expected = Some \<lparr>exp_absent = True, exp_handle = [], exp_key = ''notes'', exp_head = zeroEventRef\<rparr>,
     e_targets = [], e_artifacts = [replicate 32 CHR ''a''], e_causation = [], e_correlation = zeroEventRef, e_inReplyTo = zeroDigest,
     e_canonical = [], e_digest = replicate 32 CHR ''e''\<rparr>"

lemma catalogStore_ok: "store_ok catalogStore" "references_inv catalogStore"
  by (code_simp, simp add: references_inv_def lineage_of_def catalogStore_def emptyStore_def)

lemma publication_admitted: "\<exists>t. admitEffectTx publication [] [] catalogStore = Inr t"
  by (simp add: admitEffectTx_def insertEventTx_def execute_def insert_event_def events_ok_def eventRowOf_def publication_def
      catalogStore_def emptyStore_def principal_ids_def insert_event_artifact_def event_artifacts_ok_def event_ids_def
      artifact_digests_def applyDomainEffectTx_def publishReferenceTx_def insert_lineage_def lineage_ok_def reference_check_def
      insert_reference_def references_ok_def)

theorem references_refine_versions_witness:
  "\<exists>t. admitEffectTx publication [] [] catalogStore = Inr t \<and> references_inv t \<and>
     versionsOf t ''notes'' = [(''event:1'', Some (digestString (replicate 32 CHR ''a'')))]"
proof -
  obtain t where t: "admitEffectTx publication [] [] catalogStore = Inr t" using publication_admitted by blast
  have "versionsOf catalogStore ''notes'' = []"
    by (simp add: versionsOf_def lineage_of_def catalogStore_def emptyStore_def)
  then have "references_inv t \<and>
      (versionsOf catalogStore)(''notes'' := [(''event:1'', Some (digestString (replicate 32 CHR ''a'')))]) = versionsOf t"
    using references_refine_versions [OF t catalogStore_ok]
    by (auto simp: publication_def referenceBound_iff appendVersion_def versionOf_def expectedHead_def split: if_splits)
  then show ?thesis using t by (metis fun_upd_same)
qed

end
