(* ===== verification/Agency_Peer_Receipt.thy ===== *)
theory Agency_Peer_Receipt
  imports Agency_Delivery
begin

text \<open>
  The outcome a machine reports for a delivery (\<^verbatim>\<open>internal/agency/peer_admission_receipt.go\<close>,
  \<^verbatim>\<open>peer_admission_receipt_parse.go\<close>): the constructors, the canonical encoding and the reader, which binds the
  Receipt to the delivery it is for.
\<close>

section \<open>Receipts for deliveries\<close>

definition MaxPeerAdmissionReceiptCanonicalBytes :: nat where "MaxPeerAdmissionReceiptCanonicalBytes = 4 * 1024"
definition peerAdmissionReceiptDigestDomain :: string where "peerAdmissionReceiptDigestDomain = ''mnemon.peer-admission-receipt.v1''"
definition peerAdmissionReceiptSignatureDomain :: string where
  "peerAdmissionReceiptSignatureDomain = ''mnemon.peer-admission-receipt-signature.v1''"

datatype PeerAdmissionOutcome = PeerAdmissionOutcomeInvalid | PeerAdmissionOutcomeAccepted | PeerAdmissionOutcomeRejected

definition peerOutcomeString :: "PeerAdmissionOutcome \<Rightarrow> string" where
  "peerOutcomeString o' =
     (case o' of PeerAdmissionOutcomeAccepted \<Rightarrow> ''accepted'' | PeerAdmissionOutcomeRejected \<Rightarrow> ''rejected''
      | PeerAdmissionOutcomeInvalid \<Rightarrow> [])"

record PeerAdmissionReceipt =
  par_delivery :: DeliveryID
  par_envelope :: Digest
  par_outcome :: PeerAdmissionOutcome
  par_recordedAt :: instant
  par_event :: EventRef
  par_code :: SemanticLabel
  par_diagnostic :: string
  par_canonical :: bytes
  par_digest :: Digest

record peerAdmissionReceiptWire =
  paw_version :: nat
  paw_delivery :: string
  paw_envelope :: string
  paw_outcome :: string
  paw_recordedAt :: string
  paw_event :: "eventRefWire option"
  paw_code :: string
  paw_diagnostic :: string

definition enc_peerReceipt :: "peerAdmissionReceiptWire \<Rightarrow> json" where
  "enc_peerReceipt w =
     JObj ((''schema_version'', JNat (paw_version w)) # (''delivery_id'', JStr (paw_delivery w)) #
           (''envelope_digest'', JStr (paw_envelope w)) # (''outcome'', JStr (paw_outcome w)) #
           (''recorded_at'', JStr (paw_recordedAt w)) #
           omitempty ''local_event'' (paw_event w \<noteq> None) (enc_eventRef (the (paw_event w))) @
           omitempty ''code'' (paw_code w \<noteq> []) (JStr (paw_code w)) @
           omitempty ''diagnostic'' (paw_diagnostic w \<noteq> []) (JStr (paw_diagnostic w)))"

definition peerReceiptWire :: "PeerAdmissionReceipt \<Rightarrow> peerAdmissionReceiptWire" where
  "peerReceiptWire r =
     \<lparr>paw_version = 1, paw_delivery = deliveryString (par_delivery r), paw_envelope = digestString (par_envelope r),
      paw_outcome = peerOutcomeString (par_outcome r), paw_recordedAt = RFC3339Nano (par_recordedAt r),
      paw_event = (if refIsZero (par_event r) then None else Some (refWire (par_event r))),
      paw_code = par_code r, paw_diagnostic = par_diagnostic r\<rparr>"

definition newPeerAdmissionReceipt ::
  "PeerDelivery \<Rightarrow> PeerAdmissionOutcome \<Rightarrow> EventRef \<Rightarrow> SemanticLabel \<Rightarrow> string \<Rightarrow> instant \<Rightarrow> PeerAdmissionReceipt result" where
  "newPeerAdmissionReceipt delivery outcome localEvent label diagnostic recordedAt =
     (if pd_id delivery = zeroDigest \<or> pd_envelope delivery = zeroDigest \<or> length (pd_canonical delivery) = 0
      then Inl (ErrInvalid ''peer admission Receipt'' ''complete delivery is required'')
      else
        bindE (canonicalTime ''peer admission Receipt recorded time'' recordedAt) (\<lambda>recorded.
          let receipt = \<lparr>par_delivery = pd_id delivery, par_envelope = pd_envelope delivery, par_outcome = outcome,
                         par_recordedAt = recorded, par_event = localEvent, par_code = label,
                         par_diagnostic = diagnostic, par_canonical = [], par_digest = zeroDigest\<rparr>;
              canonical = fst (canonicalJSON (enc_peerReceipt (peerReceiptWire receipt)))
          in if MaxPeerAdmissionReceiptCanonicalBytes < length canonical
             then Inl (ErrLimit ''peer admission Receipt canonical bytes'' (length canonical) MaxPeerAdmissionReceiptCanonicalBytes)
             else Inr (receipt\<lparr>par_canonical := canonical,
                         par_digest := domainSeparatedDigest peerAdmissionReceiptDigestDomain canonical\<rparr>)))"

definition validatePeerDiagnostic :: "string \<Rightarrow> agencyError option" where
  "validatePeerDiagnostic diagnostic =
     (if MaxDiagnosticBytes < length diagnostic
      then Some (ErrLimit ''peer admission Receipt diagnostic'' (length diagnostic) MaxDiagnosticBytes)
      else case NewSemanticPayload diagnostic of
        Inl e \<Rightarrow> Some (ErrInvalid ''peer admission Receipt diagnostic'' ''must be valid UTF-8 without NUL'')
      | Inr p \<Rightarrow> None)"

definition NewAcceptedPeerAdmissionReceipt :: "PeerDelivery \<Rightarrow> EventRef \<Rightarrow> instant \<Rightarrow> PeerAdmissionReceipt result" where
  "NewAcceptedPeerAdmissionReceipt delivery localEvent recordedAt =
     (if refIsZero localEvent then Inl (ErrInvalid ''accepted peer admission Receipt'' ''local Event is required'')
      else if localEvent = pd_originEvent delivery
      then Inl (ErrInvariant ''accepted peer admission Receipt'' ''must name a new local Event'')
      else newPeerAdmissionReceipt delivery PeerAdmissionOutcomeAccepted localEvent [] [] recordedAt)"

definition NewRejectedPeerAdmissionReceipt :: "PeerDelivery \<Rightarrow> SemanticLabel \<Rightarrow> string \<Rightarrow> instant \<Rightarrow> PeerAdmissionReceipt result" where
  "NewRejectedPeerAdmissionReceipt delivery label diagnostic recordedAt =
     (if label = [] then Inl (ErrInvalid ''rejected peer admission Receipt'' ''diagnostic code is required'')
      else case validatePeerDiagnostic diagnostic of Some e \<Rightarrow> Inl e | None \<Rightarrow>
        newPeerAdmissionReceipt delivery PeerAdmissionOutcomeRejected zeroEventRef label diagnostic recordedAt)"

section \<open>Reading\<close>

definition dec_peerReceipt :: "json \<Rightarrow> peerAdmissionReceiptWire option" where
  "dec_peerReceipt j =
     do { kvs \<leftarrow> dec_struct [''schema_version'', ''delivery_id'', ''envelope_digest'', ''outcome'', ''recorded_at'',
                  ''local_event'', ''code'', ''diagnostic''] j;
          v \<leftarrow> field 0 (dec_uint 63) ''schema_version'' kvs;
          i \<leftarrow> field [] dec_string ''delivery_id'' kvs;
          d \<leftarrow> field [] dec_string ''envelope_digest'' kvs;
          o' \<leftarrow> field [] dec_string ''outcome'' kvs;
          t \<leftarrow> field [] dec_string ''recorded_at'' kvs;
          e \<leftarrow> field None (dec_ptr dec_eventRef) ''local_event'' kvs;
          c \<leftarrow> field [] dec_string ''code'' kvs;
          g \<leftarrow> field [] dec_string ''diagnostic'' kvs;
          Some \<lparr>paw_version = v, paw_delivery = i, paw_envelope = d, paw_outcome = o', paw_recordedAt = t,
                paw_event = e, paw_code = c, paw_diagnostic = g\<rparr> }"

definition peerAdmissionReceiptFromWire :: "peerAdmissionReceiptWire \<Rightarrow> PeerAdmissionReceipt result" where
  "peerAdmissionReceiptFromWire wire =
     (if paw_version wire \<noteq> 1 then Inl (ErrInvalid ''peer admission Receipt schema version'' ''must be 1'')
      else
        bindE (ParseDeliveryID (paw_delivery wire)) (\<lambda>deliveryID.
        bindE (ParseDigest (paw_envelope wire)) (\<lambda>envelopeDigest.
        bindE (parseCanonicalTime ''peer admission Receipt recorded time'' (paw_recordedAt wire)) (\<lambda>recordedAt.
        let receipt = \<lparr>par_delivery = deliveryID, par_envelope = envelopeDigest, par_outcome = PeerAdmissionOutcomeInvalid,
                       par_recordedAt = recordedAt, par_event = zeroEventRef, par_code = [],
                       par_diagnostic = paw_diagnostic wire, par_canonical = [], par_digest = zeroDigest\<rparr>;
            finish = (\<lambda>receipt. let canonical = fst (canonicalJSON (enc_peerReceipt (peerReceiptWire receipt)))
                       in Inr (receipt\<lparr>par_canonical := canonical,
                                par_digest := domainSeparatedDigest peerAdmissionReceiptDigestDomain canonical\<rparr>))
        in if paw_outcome wire = ''accepted''
           then case paw_event wire of
                  None \<Rightarrow> Inl (ErrInvalid ''accepted peer admission Receipt'' ''requires one local Event and no rejection fields'')
                | Some ew \<Rightarrow>
                    if paw_code wire \<noteq> [] \<or> paw_diagnostic wire \<noteq> []
                    then Inl (ErrInvalid ''accepted peer admission Receipt'' ''requires one local Event and no rejection fields'')
                    else bindE (parsePeerEventRef ''peer admission Receipt local Event'' ew) (\<lambda>event.
                         finish (receipt\<lparr>par_outcome := PeerAdmissionOutcomeAccepted, par_event := event\<rparr>))
           else if paw_outcome wire = ''rejected''
           then if paw_event wire \<noteq> None \<or> paw_code wire = []
                then Inl (ErrInvalid ''rejected peer admission Receipt'' ''requires a code and no local Event'')
                else bindE (NewSemanticLabel (paw_code wire)) (\<lambda>label.
                     case validatePeerDiagnostic (paw_diagnostic wire) of Some e \<Rightarrow> Inl e | None \<Rightarrow>
                       finish (receipt\<lparr>par_outcome := PeerAdmissionOutcomeRejected, par_code := label\<rparr>))
           else Inl (ErrInvalid ''peer admission Receipt outcome'' ''must be accepted or rejected'')))))"

definition requirePeerAdmissionReceiptBinding :: "PeerAdmissionReceipt \<Rightarrow> PeerDelivery \<Rightarrow> agencyError option" where
  "requirePeerAdmissionReceiptBinding receipt delivery =
     (if par_delivery receipt \<noteq> pd_id delivery \<or> par_envelope receipt \<noteq> pd_envelope delivery
      then Some (ErrInvariant ''peer admission Receipt binding'' ''delivery ID or envelope digest differs'')
      else if par_outcome receipt = PeerAdmissionOutcomeAccepted \<and> par_event receipt = pd_originEvent delivery
      then Some (ErrInvariant ''peer admission Receipt binding'' ''accepted outcome must name a new local Event'')
      else None)"

definition ParsePeerAdmissionReceiptCanonicalJSON :: "bytes \<Rightarrow> PeerDelivery \<Rightarrow> PeerAdmissionReceipt result" where
  "ParsePeerAdmissionReceiptCanonicalJSON data delivery =
     (if pd_id delivery = zeroDigest \<or> pd_envelope delivery = zeroDigest \<or> length (pd_canonical delivery) = 0
      then Inl (ErrInvalid ''peer admission Receipt binding'' ''complete delivery is required'')
      else
        bindE (decodeCanonicalObject enc_peerReceipt dec_peerReceipt ''peer admission Receipt JSON'' data
                 MaxPeerAdmissionReceiptCanonicalBytes) (\<lambda>wire.
        bindE (peerAdmissionReceiptFromWire wire) (\<lambda>receipt.
          case requireReconstructedCanonical ''peer admission Receipt JSON'' data (par_canonical receipt) of
            Some x \<Rightarrow> Inl x
          | None \<Rightarrow>
              case requirePeerAdmissionReceiptBinding receipt delivery of Some x \<Rightarrow> Inl x | None \<Rightarrow> Inr receipt)))"

section \<open>The reader is exact\<close>

lemma dec_enc_peerReceipt: "paw_version w < 2 ^ 63 \<Longrightarrow> dec_peerReceipt (enc_peerReceipt w) = Some w"
  by (cases w; cases "paw_event w") (simp_all add: dec_peerReceipt_def enc_peerReceipt_def json_simps image_Un)

lemma unique_enc_peerReceipt: "unique_keys (enc_peerReceipt w)"
  by (simp add: enc_peerReceipt_def keys_simps)

interpretation peer_receipt_codec: canonical_codec enc_peerReceipt dec_peerReceipt "\<lambda>w. paw_version w < 2 ^ 63"
  by unfold_locales (rule dec_enc_peerReceipt, assumption, rule unique_enc_peerReceipt)

text \<open>What a Receipt may be: the report of a new Event, or of a refusal with its reason.\<close>

definition peer_receipt_ok :: "PeerAdmissionReceipt \<Rightarrow> bool" where
  "peer_receipt_ok r \<longleftrightarrow> digest_ok (par_delivery r) \<and> digest_ok (par_envelope r) \<and> time_ok (par_recordedAt r) \<and>
     (par_outcome r = PeerAdmissionOutcomeAccepted \<and> ref_ok (par_event r) \<and> par_code r = [] \<and> par_diagnostic r = [] \<or>
      par_outcome r = PeerAdmissionOutcomeRejected \<and> par_event r = zeroEventRef \<and> label_ok (par_code r) \<and>
        payload_ok (par_diagnostic r) \<and> length (par_diagnostic r) \<le> MaxDiagnosticBytes) \<and>
     par_canonical r = Marshal (enc_peerReceipt (peerReceiptWire r)) \<and>
     par_digest r = domainSeparatedDigest peerAdmissionReceiptDigestDomain (par_canonical r)"

lemma peerReceiptWire_update [simp]: "peerReceiptWire (r\<lparr>par_canonical := c, par_digest := d\<rparr>) = peerReceiptWire r"
  by (simp add: peerReceiptWire_def)

lemma validatePeerDiagnostic_None:
  "validatePeerDiagnostic g = None \<longleftrightarrow> payload_ok g \<and> length g \<le> MaxDiagnosticBytes"
  using NewSemanticPayload_Inr [of g g] NewSemanticPayload_Inr [of g] by (cases "NewSemanticPayload g") (auto simp: validatePeerDiagnostic_def)

lemma peer_receipt_valid:
  assumes "peer_receipt_ok r"
  shows "json_ok (enc_peerReceipt (peerReceiptWire r))" "length (par_canonical r) \<le> MaxPeerAdmissionReceiptCanonicalBytes"
proof -
  have tok: "length (escape (deliveryString (par_delivery r))) \<le> 73" "length (escape (digestString (par_envelope r))) \<le> 71"
    using assms by (auto simp: peer_receipt_ok_def digest_length digest_ok_def)
  have out: "is_ascii (peerOutcomeString (par_outcome r))" "length (escape (peerOutcomeString (par_outcome r))) \<le> 8"
    by (cases "par_outcome r"; simp add: peerOutcomeString_def esc_ascii_def)+
  let ?e = "paw_event (peerReceiptWire r)"
  have ev: "?e \<noteq> None \<Longrightarrow> ref_ok (par_event r) \<and> ?e = Some (refWire (par_event r))"
    using assms by (auto simp: peer_receipt_ok_def peerReceiptWire_def split: if_splits)
  have code: "par_code r = [] \<or> label_ok (par_code r)" and diag: "ValidString (par_diagnostic r)" "length (par_diagnostic r) \<le> 512"
    using assms by (auto simp: peer_receipt_ok_def payload_ok_def MaxDiagnosticBytes_def)
  have "json_ok (enc_eventRef (the ?e))" if "?e \<noteq> None" using ev [OF that] json_ok_eventRef by simp
  then show "json_ok (enc_peerReceipt (peerReceiptWire r))"
    using out code diag
    by (auto simp: enc_peerReceipt_def json_simps dest: token_ok_valid) (auto simp: peerReceiptWire_def dest: token_ok_valid)
  have 1: "members_bound (omitempty ''local_event'' (?e \<noteq> None) (enc_eventRef (the ?e))) \<le> length (escape ''local_event'') + 285 + 4"
    by (rule members_omit) (use ev size_ref in auto)
  have 2: "members_bound (omitempty ''code'' (par_code r \<noteq> []) (JStr (par_code r))) \<le> length (escape ''code'') + 98 + 4"
    by (rule members_omit) (use code token_length(3) in auto)
  have 3: "members_bound (omitempty ''diagnostic'' (par_diagnostic r \<noteq> []) (JStr (par_diagnostic r))) \<le> length (escape ''diagnostic'') + 3074 + 4"
    by (rule members_omit) (use diag length_escape [of "par_diagnostic r"] in simp)
  have "par_canonical r = Marshal (enc_peerReceipt (peerReceiptWire r))" using assms by (simp add: peer_receipt_ok_def)
  moreover have "length (Marshal (JNat 1)) = 1" by (simp add: JNat_def decimal.simps)
  ultimately show "length (par_canonical r) \<le> MaxPeerAdmissionReceiptCanonicalBytes"
    unfolding enc_peerReceipt_def
    by (simp only:, intro order_trans [OF length_Marshal_JObj])
      (use 1 2 3 tok out length_RFC3339Nano_escape [of "par_recordedAt r"] in
        \<open>simp add: members_bound_simps esc_ascii_def MaxPeerAdmissionReceiptCanonicalBytes_def\<close>, simp add: peerReceiptWire_def)
qed

lemma peerAdmissionReceiptFromWire_ok:
  assumes "peer_receipt_ok r"
  shows "peerAdmissionReceiptFromWire (peerReceiptWire r) = Inr r"
proof -
  have new: "ParseDeliveryID (deliveryString (par_delivery r)) = Inr (par_delivery r)"
    "ParseDigest (digestString (par_envelope r)) = Inr (par_envelope r)"
    "parseCanonicalTime ''peer admission Receipt recorded time'' (RFC3339Nano (par_recordedAt r)) = Inr (par_recordedAt r)"
    using assms by (auto simp: peer_receipt_ok_def constructor_Inr ParseDeliveryID_Inr parseCanonicalTime_ok)
  have can: "par_canonical r = Marshal (enc_peerReceipt (peerReceiptWire r))"
    "par_digest r = domainSeparatedDigest peerAdmissionReceiptDigestDomain (par_canonical r)"
    using assms by (simp_all add: peer_receipt_ok_def)
  consider (acc) "par_outcome r = PeerAdmissionOutcomeAccepted" "ref_ok (par_event r)" "par_code r = []" "par_diagnostic r = []"
    | (rej) "par_outcome r = PeerAdmissionOutcomeRejected" "par_event r = zeroEventRef" "label_ok (par_code r)"
        "validatePeerDiagnostic (par_diagnostic r) = None"
    using assms by (auto simp: peer_receipt_ok_def validatePeerDiagnostic_None)
  then show ?thesis
  proof cases
    case acc
    then have "parsePeerEventRef f (refWire (par_event r)) = Inr (par_event r)" "\<not> refIsZero (par_event r)" for f
      by (simp_all add: parsePeerEventRef_Inr ref_ok_nonzero)
    with acc can new show ?thesis
      by (cases r) (simp add: peerAdmissionReceiptFromWire_def peerReceiptWire_def peerOutcomeString_def Let_def)
  next
    case rej
    then have "NewSemanticLabel (par_code r) = Inr (par_code r)" "par_code r \<noteq> []"
      by (auto simp: constructor_Inr dest: token_okD)
    with rej can new show ?thesis
      by (cases r) (simp add: peerAdmissionReceiptFromWire_def peerReceiptWire_def peerOutcomeString_def Let_def)
  qed
qed

lemma peerAdmissionReceiptFromWire_typed:
  assumes "peerAdmissionReceiptFromWire w = Inr r"
  shows "peer_receipt_ok r"
proof -
  have time: "parseCanonicalTime f v = Inr t \<Longrightarrow> time_ok t" for f v t
    by (auto simp: parseCanonicalTime_def bindE_Inr canonicalTime_Inr split: option.splits if_splits)
  show ?thesis
    using assms
    by (auto simp: peerAdmissionReceiptFromWire_def Let_def bindE_Inr peer_receipt_ok_def ParseDeliveryID_Inr constructor_Inr
        parsePeerEventRef_Inr validatePeerDiagnostic_None peerReceiptWire_def split: if_splits option.splits dest!: time)
qed

lemma peer_receipt_exact:
  "ParsePeerAdmissionReceiptCanonicalJSON data delivery = Inr r \<longleftrightarrow>
     peer_receipt_ok r \<and> data = par_canonical r \<and> par_delivery r = pd_id delivery \<and> par_envelope r = pd_envelope delivery \<and>
     pd_canonical delivery \<noteq> [] \<and> \<not> (par_outcome r = PeerAdmissionOutcomeAccepted \<and> par_event r = pd_originEvent delivery)"
  (is "?parse \<longleftrightarrow> ?ok")
proof
  assume ?ok
  then have ok: "peer_receipt_ok r" and nz: "pd_id delivery \<noteq> zeroDigest" "pd_envelope delivery \<noteq> zeroDigest"
    by (auto simp: peer_receipt_ok_def digest_ok_def)
  have can: "par_canonical r = Marshal (enc_peerReceipt (peerReceiptWire r))" using ok by (simp add: peer_receipt_ok_def)
  have "decodeCanonicalObject enc_peerReceipt dec_peerReceipt ''peer admission Receipt JSON'' (par_canonical r)
      MaxPeerAdmissionReceiptCanonicalBytes = Inr (peerReceiptWire r)"
    unfolding can using peer_receipt_valid [OF ok] can
    by (intro peer_receipt_codec.decode_encode) (simp_all, simp add: peerReceiptWire_def)
  then show ?parse
    using \<open>?ok\<close> nz peerAdmissionReceiptFromWire_ok [OF ok]
    by (simp add: ParsePeerAdmissionReceiptCanonicalJSON_def requireReconstructedCanonical_def requirePeerAdmissionReceiptBinding_def)
next
  assume ?parse
  then obtain w where "peerAdmissionReceiptFromWire w = Inr r" "data = par_canonical r" "pd_canonical delivery \<noteq> []"
      "requirePeerAdmissionReceiptBinding r delivery = None"
    by (auto simp: ParsePeerAdmissionReceiptCanonicalJSON_def bindE_Inr requireReconstructedCanonical_def split: if_splits option.splits)
  then show ?ok using peerAdmissionReceiptFromWire_typed by (auto simp: requirePeerAdmissionReceiptBinding_def split: if_splits)
qed

text \<open>What the constructors make can be read.\<close>

lemma NewAcceptedPeerAdmissionReceipt_ok:
  "NewAcceptedPeerAdmissionReceipt delivery ev t = Inr r \<Longrightarrow> ref_ok ev \<Longrightarrow> length (pd_id delivery) = 32 \<Longrightarrow>
   length (pd_envelope delivery) = 32 \<Longrightarrow> ParsePeerAdmissionReceiptCanonicalJSON (par_canonical r) delivery = Inr r"
  by (auto simp: peer_receipt_exact NewAcceptedPeerAdmissionReceipt_def newPeerAdmissionReceipt_def Let_def guards canonicalTime_Inr
      peer_receipt_ok_def digest_ok_def peerReceiptWire_def)

lemma NewRejectedPeerAdmissionReceipt_ok:
  "NewRejectedPeerAdmissionReceipt delivery c g t = Inr r \<Longrightarrow> label_ok c \<Longrightarrow> length (pd_id delivery) = 32 \<Longrightarrow>
   length (pd_envelope delivery) = 32 \<Longrightarrow> ParsePeerAdmissionReceiptCanonicalJSON (par_canonical r) delivery = Inr r"
  by (auto simp: peer_receipt_exact NewRejectedPeerAdmissionReceipt_def newPeerAdmissionReceipt_def Let_def guards canonicalTime_Inr
      peer_receipt_ok_def digest_ok_def peerReceiptWire_def validatePeerDiagnostic_None split: option.splits)

text \<open>
  (C25) The reader of peer Receipts is exact. Bytes are accepted as the Receipt for a delivery exactly when they are
  the canonical bytes of a well-formed Receipt - an Event and nothing else, or a refusal with its code and
  diagnostic - that names the delivery and the digest of its envelope, and, when it reports an Event, one other
  than the delivery's origin.
\<close>

theorem peer_receipt_reader_exact:
  "ParsePeerAdmissionReceiptCanonicalJSON data delivery = Inr r \<longleftrightarrow>
     peer_receipt_ok r \<and> data = par_canonical r \<and> par_delivery r = pd_id delivery \<and> par_envelope r = pd_envelope delivery \<and>
     pd_canonical delivery \<noteq> [] \<and> \<not> (par_outcome r = PeerAdmissionOutcomeAccepted \<and> par_event r = pd_originEvent delivery)"
  by (rule peer_receipt_exact)

end
