(* ===== verification/Authority_Delivery.thy ===== *)
theory Authority_Delivery
  imports Authority_Attachment Authority_Apply Agency_Peer_Receipt
begin

text \<open>
  Deliveries in the store (\<^verbatim>\<open>internal/agency/authority/peer_delivery_outbox.go\<close>, the reading half of
  \<^verbatim>\<open>peer_delivery_inbox.go\<close>, \<^verbatim>\<open>peer_delivery_settlement.go\<close>, \<^verbatim>\<open>event_depth.go\<close> and the reply context of
  \<^verbatim>\<open>current_focus.go\<close>): the deliveries an admitted Event queues for other machines and the local Handling a reply
  to them is anchored at; their expiry, projection and settlement under a signed Receipt; what the inbox holds
  for a delivery; and the depth of an Event, carried from the Events it names.

  An error of another operation passes through under a longer text; the model keeps the error. The verification
  of an Ed25519 signature is the argument \<open>verify\<close> of the operations that use it, and every theorem holds for
  any such function.
\<close>

section \<open>The inbox\<close>

datatype PeerAdmissionState =
    PeerAdmissionStateInvalid | PeerAdmissionStateStaged | PeerAdmissionStateAccepted | PeerAdmissionStateRejected
  | PeerAdmissionStateExpired

record PeerAdmissionResult =
  pa_state :: PeerAdmissionState
  pa_delivery :: PeerDelivery
  pa_receipt :: "PeerAdmissionReceipt option"
  pa_replayed :: bool

definition peerInboxReplyMatches :: "PeerDelivery \<Rightarrow> string option \<Rightarrow> bool" where
  "peerInboxReplyMatches delivery stored \<longleftrightarrow>
     (stored \<noteq> None) = (pd_inReplyTo delivery \<noteq> zeroDigest) \<and>
     (pd_inReplyTo delivery = zeroDigest \<or> stored = Some (deliveryString (pd_inReplyTo delivery)))"

definition validatePeerInboxReceiptEventTx :: "PeerAdmissionReceipt \<Rightarrow> string option \<Rightarrow> Store \<Rightarrow> unit outcome" where
  "validatePeerInboxReceiptEventTx receipt storedID s =
     (if refIsZero (par_event receipt)
      then require (Problem ''inspect peer inbox: rejected Receipt names a local Event'') (storedID = None)
      else if storedID \<noteq> Some (ref_id (par_event receipt))
      then Inl (Problem ''inspect peer inbox: accepted Receipt local Event mismatch'')
      else
        bindE (loadStoredEventTx (ref_id (par_event receipt)) s) (\<lambda>(storedEvent, _, _, _).
        require (Problem ''inspect peer inbox: accepted local Event digest mismatch'') (storedEvent = par_event receipt)))"

definition parsePeerInboxStateTx ::
  "PeerDelivery \<Rightarrow> string \<Rightarrow> string option \<Rightarrow> string option \<Rightarrow> bytes \<Rightarrow> Store \<Rightarrow> PeerAdmissionResult outcome" where
  "parsePeerInboxStateTx delivery state localEventID receiptDigest receiptJSON s =
     (let result = \<lparr>pa_state = PeerAdmissionStateInvalid, pa_delivery = delivery, pa_receipt = None, pa_replayed = False\<rparr>
      in if state = ''staged''
         then if localEventID \<noteq> None \<or> receiptDigest \<noteq> None \<or> length receiptJSON \<noteq> 0
              then Inl (Problem ''inspect peer inbox: staged row carries Receipt'')
              else Inr (result\<lparr>pa_state := PeerAdmissionStateStaged\<rparr>)
         else if state = ''settled''
         then
           bindE (orElse (Problem ''inspect peer inbox: corrupt Receipt'') (ParsePeerAdmissionReceiptCanonicalJSON receiptJSON delivery)) (\<lambda>receipt.
           bindE (require (Problem ''inspect peer inbox: corrupt Receipt'') (receiptDigest = Some (digestString (par_digest receipt)))) (\<lambda>_.
           bindE (validatePeerInboxReceiptEventTx receipt localEventID s) (\<lambda>_.
           Inr (result\<lparr>pa_receipt := Some receipt,
                  pa_state := (if par_outcome receipt = PeerAdmissionOutcomeAccepted then PeerAdmissionStateAccepted
                               else PeerAdmissionStateRejected)\<rparr>))))
         else if state = ''expired''
         then if localEventID \<noteq> None \<or> receiptDigest \<noteq> None \<or> length receiptJSON \<noteq> 0
              then Inl (Problem ''inspect peer inbox: expired row carries Receipt'')
              else Inr (result\<lparr>pa_state := PeerAdmissionStateExpired\<rparr>)
         else Inl (Problem ''inspect peer inbox: invalid state''))"

definition peerInboxResultTx :: "DeliveryID \<Rightarrow> Store \<Rightarrow> PeerAdmissionResult option outcome" where
  "peerInboxResultTx deliveryID s =
     (case List.find (\<lambda>r. ib_id r = deliveryString deliveryID) (peer_inbox s) of
        None \<Rightarrow> Inr None
      | Some r \<Rightarrow>
          bindE (orElse (Problem ''inspect peer inbox: corrupt RouteID'') (NewRouteID (ib_route r))) (\<lambda>routeID.
          bindE (orElse (Problem ''inspect peer inbox: corrupt envelope authority'')
                   (ParsePeerDeliveryCanonicalJSON (ib_json r) routeID)) (\<lambda>delivery.
          bindE (require (Problem ''inspect peer inbox: corrupt envelope authority'')
                   (pd_id delivery = deliveryID \<and> digestString (pd_envelope delivery) = ib_envelope r)) (\<lambda>_.
          bindE (require (Problem ''inspect peer inbox: reply binding diverges from signed envelope'')
                   (peerInboxReplyMatches delivery (ib_inReplyTo r))) (\<lambda>_.
          bindE (require (Problem ''inspect peer inbox: expiry column diverges'')
                   (parseTime (ib_expires r) = Inr (pd_expiresAt delivery))) (\<lambda>_.
          bindE (parsePeerInboxStateTx delivery (ib_state r) (ib_event r) (ib_receiptDigest r)
                   (case ib_receipt r of None \<Rightarrow> [] | Some b \<Rightarrow> b) s) (\<lambda>result.
          Inr (Some result))))))))"

section \<open>The reply context of a Handling\<close>

record currentReplyContext =
  rc_root :: EventRef
  rc_target :: TargetRef
  rc_delivery :: DeliveryID
  rc_imported :: bool

definition handlingCreationEventTx :: "HandlingID \<Rightarrow> EventRef \<Rightarrow> Store \<Rightarrow> storedEventDetails outcome" where
  "handlingCreationEventTx handling current s =
     (case List.find (\<lambda>(h, e). ev_sequence e = ha_created h \<and> ha_id h = handling \<and> ha_state h = ''open'' \<and>
                        ha_head h = ref_id current) (List.product (handlings s) (events s)) of
        None \<Rightarrow> Inl (Problem ''current View: corrupt Handling creation authority'')
      | Some (h, e) \<Rightarrow> loadStoredEventDetailsTx (ev_id e) s)"

definition peerDeliveryForLocalEventTx :: "EventRef \<Rightarrow> Store \<Rightarrow> (PeerDelivery \<times> PeerRouteProjection) option outcome" where
  "peerDeliveryForLocalEventTx localEvent s =
     (case List.find (\<lambda>r. ib_event r = Some (ref_id localEvent)) (peer_inbox s) of
        None \<Rightarrow> Inr None
      | Some r \<Rightarrow>
          bindE (orElse (Problem ''current View: corrupt imported Delivery ID'') (ParseDeliveryID (ib_id r))) (\<lambda>deliveryID.
          bindE (orElse (Problem ''current View: corrupt imported Route ID'') (NewRouteID (ib_route r))) (\<lambda>routeID.
          case peerRouteByIDTx routeID s of
            Inr (Some route) \<Rightarrow>
              (case peerInboxResultTx deliveryID s of
                 Inr (Some result) \<Rightarrow>
                   if pa_state result \<noteq> PeerAdmissionStateAccepted
                   then Inl (Problem ''current View: corrupt imported Event authority'')
                   else (case pa_receipt result of
                           None \<Rightarrow> Inl (Problem ''current View: imported Event Receipt is absent'')
                         | Some receipt \<Rightarrow>
                             if refIsZero (par_event receipt) \<or> par_event receipt \<noteq> localEvent
                             then Inl (Problem ''current View: imported Event Receipt diverges'')
                             else Inr (Some (pa_delivery result, route)))
               | _ \<Rightarrow> Inl (Problem ''current View: corrupt imported Event authority''))
          | _ \<Rightarrow> Inl (Problem ''current View: imported Event route authority is absent''))))"

definition currentReplyContextTx :: "HandlingID \<Rightarrow> EventRef \<Rightarrow> Store \<Rightarrow> currentReplyContext outcome" where
  "currentReplyContextTx handling current s =
     (if handling = [] \<or> refIsZero current then Inl (Problem ''current View: corrupt current reply context'')
      else
        bindE (handlingCreationEventTx handling current s) (\<lambda>creation.
        bindE (peerDeliveryForLocalEventTx (sd_ref creation) s) (\<lambda>imported.
        let root = (if \<not> refIsZero (sd_correlation creation) then sd_correlation creation
                    else case imported of
                           None \<Rightarrow> sd_ref creation
                         | Some (delivery, route) \<Rightarrow>
                             if \<not> refIsZero (pd_originCorrelation delivery) then pd_originCorrelation delivery
                             else pd_originEvent delivery);
            result = \<lparr>rc_root = root, rc_target = zeroTarget, rc_delivery = zeroDigest, rc_imported = (imported \<noteq> None)\<rparr>
        in case imported of
             None \<Rightarrow> Inr result
           | Some (delivery, route) \<Rightarrow>
               if \<not> rp_active route then Inr result
               else
                 bindE (orElse (Problem ''current View: corrupt reply target alias'') (AliasTarget (rs_alias route))) (\<lambda>target.
                 Inr (result\<lparr>rc_delivery := pd_id delivery, rc_target := target\<rparr>)))))"

section \<open>The depth of an Event\<close>

definition eventRefKey :: "EventRef \<Rightarrow> string" where
  "eventRefKey ref = ref_id ref @ [CHR 0x00] @ digestString (ref_digest ref)"

text \<open>\<open>None\<close> is \<^verbatim>\<open>errCausalEventUnavailable\<close>.\<close>

definition exactEventDepthTx :: "EventRef \<Rightarrow> Store \<Rightarrow> 16 word option outcome" where
  "exactEventDepthTx ref s =
     (case List.find (\<lambda>e. ev_id e = ref_id ref) (events s) of
        None \<Rightarrow> Inr None
      | Some row \<Rightarrow>
          if unat MaxPeerCausalDepth < ev_depth row then Inl (Problem ''admit Intent: causal Event authority is corrupt'')
          else
            bindE (orElse (Problem ''admit Intent: causal Event authority is corrupt'') (inspectStoredEventDetails row)) (\<lambda>(details, _).
            bindE (require (Problem ''admit Intent: causal Event authority is corrupt'') (sd_ref details = ref)) (\<lambda>_.
            Inr (Some (of_nat (ev_depth row))))))"

definition subjectRemotePredecessorsTx :: "SubjectBinding \<Rightarrow> Store \<Rightarrow> EventRef list outcome" where
  "subjectRemotePredecessorsTx subject s =
     bindE (orElse (Problem ''admit Intent: subject causal authority is corrupt'')
              (loadStoredEventDetailsTx (ref_id (sub_head subject)) s)) (\<lambda>details.
     bindE (require (Problem ''admit Intent: subject causal authority is corrupt'') (sd_ref details = sub_head subject)) (\<lambda>_.
     bindE (currentReplyContextTx (sub_handlingID subject) (sub_head subject) s) (\<lambda>reply.
     Inr (sd_causation details @ (if refIsZero (sd_correlation details) then [] else [sd_correlation details]) @
          (if rc_imported reply then [rc_root reply] else [])))))"

text \<open>The loop over the references; \<open>seen\<close> holds the keys that were inspected.\<close>

fun maximumDepth :: "string list \<Rightarrow> string list \<Rightarrow> 16 word \<Rightarrow> EventRef list \<Rightarrow> Store \<Rightarrow> 16 word outcome" where
  "maximumDepth direct seen maximum [] s = Inr maximum"
| "maximumDepth direct seen maximum (ref # refs) s =
     (let key = eventRefKey ref
      in if key \<in> set seen then maximumDepth direct seen maximum refs s
         else
           bindE (exactEventDepthTx ref s) (\<lambda>found.
           case found of
             None \<Rightarrow>
               if key \<in> set direct then maximumDepth direct (key # seen) maximum refs s
               else Inl (Problem ''admit Intent: causal Event is unavailable'')
           | Some depth \<Rightarrow> maximumDepth direct (key # seen) (if maximum < depth then depth else maximum) refs s))"

definition causalRefs :: "BoundIntent \<Rightarrow> EventRef list" where
  "causalRefs request =
     (case b_subject request of None \<Rightarrow> [] | Some subject \<Rightarrow> [sub_head subject]) @
     (case b_expected request of None \<Rightarrow> [] | Some expected \<Rightarrow> if exp_absent expected then [] else [exp_head expected]) @
     b_causation request @ (if refIsZero (b_correlation request) then [] else [b_correlation request])"

definition deriveLocalEventCausalDepthTx :: "BoundIntent \<Rightarrow> Store \<Rightarrow> 16 word outcome" where
  "deriveLocalEventCausalDepthTx request s =
     bindE (case b_subject request of None \<Rightarrow> Inr [] | Some subject \<Rightarrow> subjectRemotePredecessorsTx subject s) (\<lambda>predecessors.
     maximumDepth (map eventRefKey predecessors) [] 0 (causalRefs request) s)"

section \<open>The outbox\<close>

definition MaxPendingPeerDeliveries :: nat where "MaxPendingPeerDeliveries = 64"
definition PeerDeliveryTTL :: duration where "PeerDeliveryTTL = 60 * minute"

definition remoteTargetCount :: "ResolvedTarget list \<Rightarrow> nat" where
  "remoteTargetCount targets = length (filter (\<lambda>t. destination t = TargetDestinationRemote) targets)"

record peerReplyBinding =
  rb_anchor :: HandlingID
  rb_root :: EventRef

definition isExactTerminalReplyEvent :: "Event \<Rightarrow> bool" where
  "isExactTerminalReplyEvent event \<longleftrightarrow>
     (case e_targets event of [target] \<Rightarrow> destination target = TargetDestinationRemote | _ \<Rightarrow> False) \<and>
     e_inReplyTo event \<noteq> zeroDigest \<and>
     e_consequence event \<in> {ConsequenceResolveCompleted, ConsequenceResolveDeclined, ConsequenceResolveUnresolved} \<and>
     \<not> refIsZero (e_correlation event)"

text \<open>The loop over the targets: the identifier of the last local target that is the source itself, and the count.\<close>

fun sourceSuccessors :: "AgentPrincipalID \<Rightarrow> HandlingID list \<Rightarrow> nat \<Rightarrow> HandlingID \<Rightarrow> ResolvedTarget list \<Rightarrow> (HandlingID \<times> nat) outcome" where
  "sourceSuccessors source handlingIDs localIndex result [] = Inr (result, localIndex)"
| "sourceSuccessors source handlingIDs localIndex result (target # targets) =
     (if destination target \<noteq> TargetDestinationLocal then sourceSuccessors source handlingIDs localIndex result targets
      else if localPrincipal target = source
      then if length handlingIDs \<le> localIndex then Inl (Problem ''admit Intent: reply anchor cardinality mismatch'')
           else sourceSuccessors source handlingIDs (localIndex + 1) (handlingIDs ! localIndex) targets
      else sourceSuccessors source handlingIDs (localIndex + 1) result targets)"

definition sourceLocalSuccessor :: "Event \<Rightarrow> HandlingID list \<Rightarrow> HandlingID outcome" where
  "sourceLocalSuccessor event handlingIDs =
     bindE (sourceSuccessors (e_source event) handlingIDs 0 [] (e_targets event)) (\<lambda>(result, localIndex).
     if result = [] then Inl (Problem ''admit Intent: remote Event lacks source-local reply anchor'')
     else if localIndex \<noteq> length handlingIDs then Inl (Problem ''admit Intent: reply anchor cardinality mismatch'')
     else Inr result)"

definition outboundReplyBinding :: "Event \<Rightarrow> HandlingID list \<Rightarrow> peerReplyBinding outcome" where
  "outboundReplyBinding event handlingIDs =
     (if remoteTargetCount (e_targets event) = 0 \<or> isExactTerminalReplyEvent event
      then Inr \<lparr>rb_anchor = [], rb_root = zeroEventRef\<rparr>
      else
        let root = (if refIsZero (e_correlation event) then eventRef event else e_correlation event)
        in if e_consequence event = ConsequenceAdvanceHandling
           then case e_subject event of
                  None \<Rightarrow> Inl (Problem ''admit Intent: remote advance lacks reply anchor'')
                | Some subject \<Rightarrow> Inr \<lparr>rb_anchor = sub_handlingID subject, rb_root = root\<rparr>
           else bindE (sourceLocalSuccessor event handlingIDs) (\<lambda>anchor. Inr \<lparr>rb_anchor = anchor, rb_root = root\<rparr>))"

definition databaseValues :: "peerReplyBinding \<Rightarrow> string option \<times> string option \<times> string option" where
  "databaseValues binding =
     (if rb_anchor binding = [] \<or> refIsZero (rb_root binding) then (None, None, None)
      else (Some (rb_anchor binding), Some (ref_id (rb_root binding)), Some (digestString (ref_digest (rb_root binding)))))"

definition deliverySpecOf :: "Event \<Rightarrow> PeerRouteProjection \<Rightarrow> instant \<Rightarrow> PeerDeliverySpec" where
  "deliverySpecOf event route now =
     \<lparr>pd_originEvent = eventRef event, pd_originSequence = e_sequence event, pd_originAcceptedAt = e_acceptedAt event,
      pd_originSource = e_source event, pd_originConsequence = e_consequence event,
      pd_originTargetCount = of_nat (length (e_targets event)), pd_originCausation = e_causation event,
      pd_originCorrelation = e_correlation event, pd_inReplyTo = e_inReplyTo event,
      pd_targetAlias = rs_remoteAlias route, pd_kind = e_kind event, pd_payload = e_payload event,
      pd_artifacts = e_artifacts event, pd_depth = e_depth event + 1, pd_expiresAt = now + PeerDeliveryTTL\<rparr>"

definition outboxRowOf :: "Event \<Rightarrow> PeerRouteProjection \<Rightarrow> peerReplyBinding \<Rightarrow> PeerDelivery \<Rightarrow> instant \<Rightarrow> outboxRow" where
  "outboxRowOf event route reply delivery now =
     (let (anchor, rootID, rootDigest) = databaseValues reply
      in \<lparr>ob_id = deliveryString (pd_id delivery), ob_route = rs_route route, ob_event = e_id event, ob_anchor = anchor,
          ob_rootEvent = rootID, ob_rootDigest = rootDigest, ob_envelope = digestString (pd_envelope delivery),
          ob_json = pd_canonical delivery, ob_state = ''pending'', ob_expires = formatTime (pd_expiresAt delivery),
          ob_created = formatTime now, ob_receiptDigest = None, ob_receipt = None, ob_signature = None, ob_settled = None\<rparr>)"

fun deliverTargets :: "Event \<Rightarrow> peerReplyBinding \<Rightarrow> instant \<Rightarrow> ResolvedTarget list \<Rightarrow> Store \<Rightarrow> Store outcome" where
  "deliverTargets event reply now [] s = Inr s"
| "deliverTargets event reply now (target # targets) s =
     (if destination target \<noteq> TargetDestinationRemote then deliverTargets event reply now targets s
      else
        bindE (peerRouteByIDTx (remoteRoute target) s) (\<lambda>found.
        case found of
          None \<Rightarrow> Inl (Problem ''admit Intent: outbound peer route changed after validation'')
        | Some route \<Rightarrow>
            if \<not> rp_active route \<or> rs_remoteAlias route \<noteq> remoteAlias target
            then Inl (Problem ''admit Intent: outbound peer route changed after validation'')
            else
              bindE (wrap ''admit Intent: construct PeerDelivery'' (NewPeerDelivery (rs_route route) (deliverySpecOf event route now))) (\<lambda>delivery.
              bindE (execute ''admit Intent: persist PeerDelivery'' (insert_outbox (outboxRowOf event route reply delivery now) s)) (\<lambda>s.
              deliverTargets event reply now targets s))))"

definition insertPeerDeliveriesTx :: "Event \<Rightarrow> HandlingID list \<Rightarrow> instant \<Rightarrow> Store \<Rightarrow> Store outcome" where
  "insertPeerDeliveriesTx event handlingIDs now s =
     bindE (outboundReplyBinding event handlingIDs) (\<lambda>reply. deliverTargets event reply now (e_targets event) s)"

record PendingPeerDelivery =
  pp_route :: PeerRouteProjection
  pp_delivery :: PeerDelivery
  pp_createdAt :: instant

definition parsePeerDeliveryRowTx :: "outboxRow \<Rightarrow> Store \<Rightarrow> PendingPeerDelivery outcome" where
  "parsePeerDeliveryRowTx row s =
     bindE (orElse (Problem ''inspect PeerDelivery: corrupt RouteID'') (NewRouteID (ob_route row))) (\<lambda>routeID.
     bindE (orElse (Problem ''inspect PeerDelivery: unavailable route'') (peerRouteByIDTx routeID s)) (\<lambda>found.
     case found of
       None \<Rightarrow> Inl (Problem ''inspect PeerDelivery: unavailable route'')
     | Some route \<Rightarrow>
         bindE (orElse (Problem ''inspect PeerDelivery: corrupt envelope'') (ParsePeerDeliveryCanonicalJSON (ob_json row) routeID)) (\<lambda>delivery.
         bindE (orElse (Problem ''inspect PeerDelivery: origin Event diverges'') (loadStoredEventTx (ob_event row) s)) (\<lambda>(origin, _, _, _).
         bindE (require (Problem ''inspect PeerDelivery: origin Event diverges'') (origin = pd_originEvent delivery)) (\<lambda>_.
         bindE (orElse (Problem ''inspect PeerDelivery: durable columns diverge'') (parseTime (ob_created row))) (\<lambda>createdAt.
         bindE (require (Problem ''inspect PeerDelivery: durable columns diverge'')
                  (ob_id row = deliveryString (pd_id delivery) \<and> ob_envelope row = digestString (pd_envelope delivery) \<and>
                   ob_event row = ref_id (pd_originEvent delivery) \<and> parseTime (ob_expires row) = Inr (pd_expiresAt delivery))) (\<lambda>_.
         Inr \<lparr>pp_route = route, pp_delivery = delivery, pp_createdAt = createdAt\<rparr>)))))))"

definition parsePendingPeerDeliveryTx :: "outboxRow \<Rightarrow> Store \<Rightarrow> PendingPeerDelivery outcome" where
  "parsePendingPeerDeliveryTx row s =
     bindE (parsePeerDeliveryRowTx row s) (\<lambda>pending.
     bindE (require (Problem ''project pending PeerDelivery: unavailable route authority'') (rp_active (pp_route pending))) (\<lambda>_.
     Inr pending))"

definition expirePeerOutboxTx :: "instant \<Rightarrow> Store \<Rightarrow> Store outcome" where
  "expirePeerOutboxTx now s =
     bindE (execute ''expire PeerDelivery''
             (update_outbox (\<lambda>r. ob_state r = ''pending'' \<and> ob_expires r \<le> formatTime now)
               (\<lambda>r. r\<lparr>ob_state := ''expired'', ob_settled := Some (formatTime now)\<rparr>) s)) (\<lambda>(s, _). Inr s)"

definition PendingPeerDeliveries :: "instant \<Rightarrow> int \<Rightarrow> Store \<Rightarrow> (PendingPeerDelivery list \<times> Store) outcome" where
  "PendingPeerDeliveries wall limit s =
     (if limit < 1 \<or> int MaxPendingPeerDeliveries < limit
      then Inl (Problem ''project pending PeerDelivery: bounded positive limit is required'')
      else
        bindE (requireOpen s) (\<lambda>_.
        bindE (trustedNow wall) (\<lambda>now.
        bindE (expirePeerOutboxTx now s) (\<lambda>s.
        bindE (mapE (\<lambda>row. parsePendingPeerDeliveryTx row s)
                (take (nat limit) (sort_key (\<lambda>r. (ob_created r, ob_id r)) (filter (\<lambda>r. ob_state r = ''pending'') (peer_outbox s))))) (\<lambda>result.
        Inr (result, s))))))"

definition AuthorizePeerArtifact :: "instant \<Rightarrow> OpaqueHandle \<Rightarrow> DeliveryID \<Rightarrow> Digest \<Rightarrow> Digest \<Rightarrow> Store \<Rightarrow> bool outcome" where
  "AuthorizePeerArtifact wall remotePeer deliveryID envelope obj s =
     (if remotePeer = [] \<or> deliveryID = zeroDigest \<or> envelope = zeroDigest \<or> obj = zeroDigest
      then Inl (Problem ''authorize peer Artifact: exact request authority is required'')
      else
        bindE (requireOpen s) (\<lambda>_.
        bindE (trustedNow wall) (\<lambda>now.
        case List.find (\<lambda>(o', r). ro_id r = ob_route o' \<and> ob_id o' = deliveryString deliveryID \<and> ob_envelope o' = digestString envelope \<and>
               ob_state o' = ''pending'' \<and> formatTime now < ob_expires o' \<and> ro_state r = ''active'' \<and> ro_peer r = remotePeer)
               (List.product (peer_outbox s) (peer_routes s)) of
          None \<Rightarrow> Inr False
        | Some (o', r) \<Rightarrow>
            bindE (orElse (Problem ''authorize peer Artifact: corrupt RouteID'') (NewRouteID (ob_route o'))) (\<lambda>routeID.
            bindE (orElse (Problem ''authorize peer Artifact: corrupt outbox envelope'') (ParsePeerDeliveryCanonicalJSON (ob_json o') routeID)) (\<lambda>delivery.
            bindE (require (Problem ''authorize peer Artifact: corrupt outbox envelope'')
                     (pd_id delivery = deliveryID \<and> pd_envelope delivery = envelope)) (\<lambda>_.
            Inr (obj \<in> set (pd_artifacts delivery))))))))"

section \<open>Settlement\<close>

type_synonym verifier = "bytes \<Rightarrow> bytes \<Rightarrow> bytes \<Rightarrow> bool"

definition verifyPeerSignature :: "verifier \<Rightarrow> bytes \<Rightarrow> bytes \<Rightarrow> bytes \<Rightarrow> bool" where
  "verifyPeerSignature verify key message signature \<longleftrightarrow> length key = 32 \<and> length signature = 64 \<and> verify key message signature"

text \<open>\<^verbatim>\<open>PeerAdmissionReceipt.SigningMessage\<close>.\<close>

definition receiptSigningMessage :: "PeerAdmissionReceipt \<Rightarrow> bytes" where
  "receiptSigningMessage receipt =
     (if par_digest receipt = zeroDigest then []
      else signingMessage peerAdmissionReceiptSignatureDomain (par_digest receipt))"

definition outboxSettlementAuthorityTx :: "DeliveryID \<Rightarrow> Store \<Rightarrow> (PendingPeerDelivery \<times> outboxRow) outcome" where
  "outboxSettlementAuthorityTx deliveryID s =
     (case List.find (\<lambda>r. ob_id r = deliveryString deliveryID) (peer_outbox s) of
        None \<Rightarrow> Inl ErrPeerDeliveryUnavailable
      | Some row \<Rightarrow> bindE (parsePeerDeliveryRowTx row s) (\<lambda>pending. Inr (pending, row)))"

text \<open>A column that is NULL is read as no bytes.\<close>

abbreviation "column b \<equiv> (case b of None \<Rightarrow> [] | Some x \<Rightarrow> x)"

definition replayPeerSettlement ::
  "verifier \<Rightarrow> PendingPeerDelivery \<Rightarrow> OpaqueHandle \<Rightarrow> outboxRow \<Rightarrow> bytes \<Rightarrow> bytes \<Rightarrow> PeerAdmissionReceipt outcome" where
  "replayPeerSettlement verify pending remotePeer row encoded signature =
     (if rs_peer (pp_route pending) \<noteq> remotePeer then Inl ErrPeerAuthentication
      else
        bindE (orElse ErrPeerAuthentication (ParsePeerAdmissionReceiptCanonicalJSON encoded (pp_delivery pending))) (\<lambda>presented.
        bindE (require ErrPeerAuthentication
                 (verifyPeerSignature verify (rs_key (pp_route pending)) (receiptSigningMessage presented) signature)) (\<lambda>_.
        bindE (orElse (Problem ''settle PeerDelivery: corrupt stored Receipt'')
                 (ParsePeerAdmissionReceiptCanonicalJSON (column (ob_receipt row)) (pp_delivery pending))) (\<lambda>stored.
        bindE (require (Problem ''settle PeerDelivery: corrupt stored Receipt'')
                 (ob_receiptDigest row = Some (digestString (par_digest stored)))) (\<lambda>_.
        bindE (require ErrPeerDeliveryConflict (column (ob_receipt row) = encoded \<and> column (ob_signature row) = signature)) (\<lambda>_.
        Inr stored))))))"

definition validateFreshPeerSettlement ::
  "verifier \<Rightarrow> PendingPeerDelivery \<Rightarrow> string \<Rightarrow> OpaqueHandle \<Rightarrow> bytes \<Rightarrow> bytes \<Rightarrow> instant \<Rightarrow> PeerAdmissionReceipt outcome" where
  "validateFreshPeerSettlement verify pending state remotePeer encoded signature now =
     (if state \<noteq> ''pending'' \<or> \<not> rp_active (pp_route pending) \<or> \<not> now < pd_expiresAt (pp_delivery pending)
      then Inl ErrPeerDeliveryExpired
      else if rs_peer (pp_route pending) \<noteq> remotePeer then Inl ErrPeerAuthentication
      else
        bindE (orElse ErrPeerAuthentication (ParsePeerAdmissionReceiptCanonicalJSON encoded (pp_delivery pending))) (\<lambda>receipt.
        bindE (require ErrPeerAuthentication
                 (verifyPeerSignature verify (rs_key (pp_route pending)) (receiptSigningMessage receipt) signature)) (\<lambda>_.
        Inr receipt)))"

definition settlePeerDeliveryTx ::
  "verifier \<Rightarrow> OpaqueHandle \<Rightarrow> DeliveryID \<Rightarrow> bytes \<Rightarrow> bytes \<Rightarrow> instant \<Rightarrow> Store \<Rightarrow> ((PeerAdmissionReceipt \<times> bool) \<times> Store) outcome" where
  "settlePeerDeliveryTx verify remotePeer deliveryID encoded signature now s =
     bindE (outboxSettlementAuthorityTx deliveryID s) (\<lambda>(pending, row).
     if ob_state row = ''settled''
     then bindE (replayPeerSettlement verify pending remotePeer row encoded signature) (\<lambda>receipt. Inr ((receipt, True), s))
     else
       bindE (validateFreshPeerSettlement verify pending (ob_state row) remotePeer encoded signature now) (\<lambda>receipt.
       bindE (execute ''settle PeerDelivery: update''
               (update_outbox (\<lambda>r. ob_id r = deliveryString deliveryID \<and> ob_state r = ''pending'')
                 (\<lambda>r. r\<lparr>ob_state := ''settled'', ob_receiptDigest := Some (digestString (par_digest receipt)),
                        ob_receipt := Some (par_canonical receipt), ob_signature := Some signature,
                        ob_settled := Some (formatTime now)\<rparr>) s)) (\<lambda>(s, rows).
       bindE (requireOneRow ''peer outbox settlement'' rows) (\<lambda>_. Inr ((receipt, False), s)))))"

definition SettlePeerDelivery ::
  "verifier \<Rightarrow> instant \<Rightarrow> OpaqueHandle \<Rightarrow> DeliveryID \<Rightarrow> bytes \<Rightarrow> bytes \<Rightarrow> Store \<Rightarrow> ((PeerAdmissionReceipt \<times> bool) \<times> Store) outcome" where
  "SettlePeerDelivery verify wall remotePeer deliveryID encoded signature s =
     (if remotePeer = [] \<or> deliveryID = zeroDigest \<or> length encoded = 0 \<or> length signature = 0
      then Inl (Problem ''settle PeerDelivery: exact signed Receipt is required'')
      else
        bindE (requireOpen s) (\<lambda>_.
        bindE (trustedNow wall) (\<lambda>now.
        settlePeerDeliveryTx verify remotePeer deliveryID encoded signature now s)))"

section \<open>A settlement is final\<close>

text \<open>What is read of a row of the outbox depends on its envelope only, not on its state.\<close>

lemma parsePeerDeliveryRowTx_same:
  assumes "ob_id r = ob_id q" "ob_route r = ob_route q" "ob_json r = ob_json q" "ob_event r = ob_event q" "ob_envelope r = ob_envelope q"
    "ob_expires r = ob_expires q" "ob_created r = ob_created q"
    "peer_routes t = peer_routes s" "events t = events s" "event_artifacts t = event_artifacts s"
  shows "parsePeerDeliveryRowTx r t = parsePeerDeliveryRowTx q s"
proof -
  have "peerRouteByIDTx i t = peerRouteByIDTx i s" "loadStoredEventTx j t = loadStoredEventTx j s" for i j
    unfolding peerRouteByIDTx_def loadStoredEventTx_def loadStoredEventDetailsTx_def loadEventArtifactsTx_def assms(8-10) by (rule refl)+
  then show ?thesis unfolding parsePeerDeliveryRowTx_def assms(1-7) by presburger
qed

lemma settled_freshly:
  assumes "settlePeerDeliveryTx verify remotePeer deliveryID encoded signature now s = Inr ((receipt, False), t)"
  obtains pending row where "List.find (\<lambda>r. ob_id r = deliveryString deliveryID) (peer_outbox s) = Some row"
    "parsePeerDeliveryRowTx row s = Inr pending" "ob_state row = ''pending''" "rp_active (pp_route pending)"
    "now < pd_expiresAt (pp_delivery pending)" "rs_peer (pp_route pending) = remotePeer"
    "ParsePeerAdmissionReceiptCanonicalJSON encoded (pp_delivery pending) = Inr receipt" "par_canonical receipt = encoded"
    "verifyPeerSignature verify (rs_key (pp_route pending)) (receiptSigningMessage receipt) signature"
    "t = s\<lparr>peer_outbox := update_where (\<lambda>r. ob_id r = deliveryString deliveryID \<and> ob_state r = ''pending'')
       (\<lambda>r. r\<lparr>ob_state := ''settled'', ob_receiptDigest := Some (digestString (par_digest receipt)), ob_receipt := Some encoded,
              ob_signature := Some signature, ob_settled := Some (formatTime now)\<rparr>) (peer_outbox s)\<rparr>"
proof -
  obtain pending row where row: "List.find (\<lambda>r. ob_id r = deliveryString deliveryID) (peer_outbox s) = Some row" "parsePeerDeliveryRowTx row s = Inr pending"
    and rest: "(if ob_state row = ''settled''
     then bindE (replayPeerSettlement verify pending remotePeer row encoded signature) (\<lambda>receipt. Inr ((receipt, True), s))
     else
       bindE (validateFreshPeerSettlement verify pending (ob_state row) remotePeer encoded signature now) (\<lambda>receipt.
       bindE (execute ''settle PeerDelivery: update''
               (update_outbox (\<lambda>r. ob_id r = deliveryString deliveryID \<and> ob_state r = ''pending'')
                 (\<lambda>r. r\<lparr>ob_state := ''settled'', ob_receiptDigest := Some (digestString (par_digest receipt)),
                        ob_receipt := Some (par_canonical receipt), ob_signature := Some signature,
                        ob_settled := Some (formatTime now)\<rparr>) s)) (\<lambda>(s, rows).
       bindE (requireOneRow ''peer outbox settlement'' rows) (\<lambda>_. Inr ((receipt, False), s))))) = Inr ((receipt, False), t)"
    using assms by (auto simp: settlePeerDeliveryTx_def outboxSettlementAuthorityTx_def guards split: option.splits)
  have unsettled: "ob_state row \<noteq> ''settled''" using rest by (auto simp: guards)
  obtain n where fresh: "validateFreshPeerSettlement verify pending (ob_state row) remotePeer encoded signature now = Inr receipt"
    and u: "update_outbox (\<lambda>r. ob_id r = deliveryString deliveryID \<and> ob_state r = ''pending'')
                 (\<lambda>r. r\<lparr>ob_state := ''settled'', ob_receiptDigest := Some (digestString (par_digest receipt)),
                        ob_receipt := Some (par_canonical receipt), ob_signature := Some signature,
                        ob_settled := Some (formatTime now)\<rparr>) s = Some (t, n)"
    using rest unsettled by (auto simp: guards split_paired_Ex)
  have v: "ob_state row = ''pending''" "rp_active (pp_route pending)" "now < pd_expiresAt (pp_delivery pending)" "rs_peer (pp_route pending) = remotePeer"
    "ParsePeerAdmissionReceiptCanonicalJSON encoded (pp_delivery pending) = Inr receipt"
    "verifyPeerSignature verify (rs_key (pp_route pending)) (receiptSigningMessage receipt) signature"
    using fresh by (auto simp: validateFreshPeerSettlement_def guards split: if_splits)
  have can: "par_canonical receipt = encoded" using v(5) by (simp add: peer_receipt_exact)
  show ?thesis by (rule that [OF row v(1-5) can v(6)]) (use update_effect(2) [OF u] in \<open>simp add: can\<close>)
qed

text \<open>
  After a delivery has been settled, a settlement of it succeeds exactly when the same peer presents the same
  Receipt under the same signature; it gives that Receipt and changes nothing, however long ago the delivery expired.
\<close>

lemma settled_once:
  assumes "settlePeerDeliveryTx verify remotePeer deliveryID encoded signature now s = Inr ((receipt, False), t)"
  shows "settlePeerDeliveryTx verify remotePeer' deliveryID encoded' signature' later t = Inr (again, u) \<longleftrightarrow>
    encoded' = encoded \<and> signature' = signature \<and> remotePeer' = remotePeer \<and> again = (receipt, True) \<and> u = t"
proof -
  obtain pending row where row: "List.find (\<lambda>r. ob_id r = deliveryString deliveryID) (peer_outbox s) = Some row"
    "parsePeerDeliveryRowTx row s = Inr pending" "ob_state row = ''pending''" "rs_peer (pp_route pending) = remotePeer"
    "ParsePeerAdmissionReceiptCanonicalJSON encoded (pp_delivery pending) = Inr receipt"
    "verifyPeerSignature verify (rs_key (pp_route pending)) (receiptSigningMessage receipt) signature"
    and t: "t = s\<lparr>peer_outbox := update_where (\<lambda>r. ob_id r = deliveryString deliveryID \<and> ob_state r = ''pending'')
       (\<lambda>r. r\<lparr>ob_state := ''settled'', ob_receiptDigest := Some (digestString (par_digest receipt)), ob_receipt := Some encoded,
              ob_signature := Some signature, ob_settled := Some (formatTime now)\<rparr>) (peer_outbox s)\<rparr>"
    using settled_freshly [OF assms] by blast
  let ?row = "row\<lparr>ob_state := ''settled'', ob_receiptDigest := Some (digestString (par_digest receipt)), ob_receipt := Some encoded,
              ob_signature := Some signature, ob_settled := Some (formatTime now)\<rparr>"
  have found: "List.find (\<lambda>r. ob_id r = deliveryString deliveryID) (peer_outbox t) = Some ?row"
    using find_Some_iff_mem [OF row(1)] row(1,3) unfolding t by (simp add: find_update_where)
  have "parsePeerDeliveryRowTx ?row t = Inr pending"
    using row(2) by (subst parsePeerDeliveryRowTx_same [of _ row _ s]) (simp_all add: t)
  then show ?thesis
    using row(4-6) by (auto simp: settlePeerDeliveryTx_def outboxSettlementAuthorityTx_def found replayPeerSettlement_def guards split: if_splits)
qed

end
