(* ===== verification/Authority_Boundary.thy ===== *)
theory Authority_Boundary
  imports Authority_Attachment Authority_Apply
begin

text \<open>
  Boundaries, claims and effects together: every transaction of the authority that writes Attachments,
  claims or Handlings, as the steps of one machine. Handlings are claimed under a fence, and the fence is what
  the settlement of a subject (\<^verbatim>\<open>settleSubjectTx\<close>) compares, so the machine must never give one fence to two
  holders. The locale states that contract for any machine with holders and fences; the store is shown to meet
  it.
\<close>

section \<open>Fences\<close>

locale fenced =
  fixes step :: "'s \<Rightarrow> 's \<Rightarrow> bool"
    and fence :: "'s \<Rightarrow> 'h \<Rightarrow> nat option"
    and holder :: "'s \<Rightarrow> 'h \<Rightarrow> 'a option"
  assumes fence_grows: "step s t \<Longrightarrow> fence s h = Some n \<Longrightarrow> \<exists>m. fence t h = Some m \<and> n \<le> m"
    and holder_kept: "step s t \<Longrightarrow> fence s h = Some n \<Longrightarrow> fence t h = Some n \<Longrightarrow> holder t h = Some a \<Longrightarrow> holder s h = Some a"
begin

lemma run_grows: "step\<^sup>*\<^sup>* s t \<Longrightarrow> fence s h = Some n \<Longrightarrow> \<exists>m. fence t h = Some m \<and> n \<le> m"
proof (induction rule: rtranclp_induct)
  case (step t u)
  then show ?case using fence_grows [OF step(2)] le_trans by blast
qed simp

text \<open>A fence that is still the same has the holder it had, or nobody.\<close>

lemma run_holder:
  "step\<^sup>*\<^sup>* s t \<Longrightarrow> fence s h = Some n \<Longrightarrow> fence t h = Some n \<Longrightarrow> holder t h = Some a \<Longrightarrow> holder s h = Some a"
proof (induction rule: rtranclp_induct)
  case (step t u)
  obtain m where m: "fence t h = Some m" "n \<le> m" using run_grows [OF step(1) step(4)] by blast
  have "m \<le> n" using fence_grows [OF step(2) m(1)] step(5) by auto
  then have "fence t h = Some n" using m by simp
  then show ?case using step holder_kept [OF step(2)] by blast
qed simp

end

section \<open>The machine\<close>

inductive boundary_step :: "Store \<Rightarrow> Store \<Rightarrow> bool" where
  issue: "IssueInteractiveAttachment wall who boundary s = Inr (capability, t) \<Longrightarrow> boundary_step s t"
| finish: "EndInteractiveAttachment wall capability s = Inr (result, t) \<Longrightarrow> boundary_step s t"
| current: "currentClaimTx now capability s = Inr (c, t) \<Longrightarrow> formattable now \<Longrightarrow> boundary_step s t"
| admit: "admitEffectTx event a hs s = Inr t \<Longrightarrow> boundary_step s t"
| enroll: "EnrollPrincipal wall who s = Inr t \<Longrightarrow> boundary_step s t"
| route: "EnrollPeerRoute wall spec s = Inr (projection, t) \<Longrightarrow> boundary_step s t"
| revoke: "RevokePeerRoute wall routeID s = Inr (projection, t) \<Longrightarrow> boundary_step s t"

inductive_cases boundary_stepE: "boundary_step s t"

text \<open>The setup operations leave Attachments, Handlings and dispositions alone.\<close>

lemma EnrollPrincipal_effect:
  "EnrollPrincipal wall who s = Inr t \<Longrightarrow> store_ok s \<Longrightarrow>
   store_ok t \<and> attachments t = attachments s \<and> handlings t = handlings s \<and> claim_dispositions t = claim_dispositions s"
  using insert_keeps(1) insert_effect(1) by (fastforce simp: EnrollPrincipal_def guards split: if_splits)

lemma EnrollPeerRoute_frame:
  assumes "EnrollPeerRoute wall spec s = Inr (projection, t)"
  shows "attachments t = attachments s \<and> handlings t = handlings s \<and> claim_dispositions t = claim_dispositions s"
  using assms by (cases rule: EnrollPeerRoute_cases) (auto dest!: insert_effect(1,3))

lemma RevokePeerRoute_frame:
  assumes "RevokePeerRoute wall routeID s = Inr (projection, t)"
  shows "attachments t = attachments s \<and> handlings t = handlings s \<and> claim_dispositions t = claim_dispositions s"
  using assms by (cases rule: RevokePeerRoute_cases) (auto dest!: update_effect(1,2))

lemma claims_inv_same:
  "claims_inv s \<Longrightarrow> store_ok t \<Longrightarrow>
   attachments t = attachments s \<and> handlings t = handlings s \<and> claim_dispositions t = claim_dispositions s \<Longrightarrow> claims_inv t"
  by (rule claims_inv_frame [of s t]) auto

lemma claims_inv_admitted:
  assumes "admitEffectTx event a hs s = Inr t" "claims_inv s"
  shows "claims_inv t"
proof -
  have ok: "store_ok s" using assms(2) by (simp add: claims_inv_def)
  note frame = admitEffectTx_frame [OF assms(1) ok]
  obtain P f rows where h: "handlings t = update_where P f (handlings s) @ rows"
    and f: "\<And>r. ha_id (f r) = ha_id r" "\<And>r. ha_fence (f r) = ha_fence r" "\<And>r. ha_claim (f r) = None"
    and rows: "\<And>r. r \<in> set rows \<Longrightarrow> ha_claim r = None"
    using frame by (auto simp: handlings_settled_def)
  have "claim_ok t r = claim_ok s r" for r using frame by (simp add: claim_ok_def split: option.split)
  moreover have "claim_ok s r" if "ha_claim r = None" for r using that by (simp add: claim_ok_def)
  ultimately have claim: "claim_ok t r" if "r \<in> set (handlings t)" for r
    using that assms(2) f(3) rows by (auto simp: h set_update_where claims_inv_def)
  have past: "disposition_past d r" if d: "d \<in> set (claim_dispositions s)" and r: "r \<in> set (handlings t)" for d r
  proof (cases "r \<in> set rows")
    case True
    have "distinct (map ha_id (handlings t))" using frame by (simp add: store_ok_def handlings_ok_def)
    then have "ha_id r \<notin> set (map ha_id (handlings s))" using True f(1) by (auto simp: h)
    moreover have "di_handling d \<in> set (map ha_id (handlings s))"
      using ok d by (auto simp: store_ok_def dispositions_ok_def list_all_iff handling_ids_def)
    ultimately show ?thesis by (auto simp: disposition_past_def)
  next
    case False
    then obtain p where p: "p \<in> set (handlings s)" "r = (if P p then f p else p)" using r by (auto simp: h set_update_where)
    have "disposition_past d p" using assms(2) d p(1) by (simp add: claims_inv_def)
    then show ?thesis using p(2) f by (auto simp: disposition_past_def split: if_splits)
  qed
  show ?thesis using assms(2) frame claim past by (simp add: claims_inv_def boundary_ends_def)
qed

lemma boundary_step_inv:
  assumes "boundary_step s t" "claims_inv s"
  shows "claims_inv t"
proof -
  have ok: "store_ok s" using assms(2) by (simp add: claims_inv_def)
  show ?thesis
    using assms(1)
  proof cases
    case (issue wall who boundary capability)
    then show ?thesis using assms(2) by (rule claims_inv_issued)
  next
    case (finish wall capability result)
    then show ?thesis using assms(2) by (rule claims_inv_finished)
  next
    case (current now capability c)
    then show ?thesis using claims_inv_current assms(2) by blast
  next
    case (admit event a hs)
    then show ?thesis using assms(2) by (rule claims_inv_admitted)
  next
    case (enroll wall who)
    then show ?thesis using EnrollPrincipal_effect [OF enroll ok] claims_inv_same [OF assms(2)] by blast
  next
    case (route wall spec projection)
    then show ?thesis using EnrollPeerRoute_keeps [OF route ok] EnrollPeerRoute_frame [OF route] claims_inv_same [OF assms(2)] by blast
  next
    case (revoke wall routeID projection)
    then show ?thesis using RevokePeerRoute_keeps [OF revoke ok] RevokePeerRoute_frame [OF revoke] claims_inv_same [OF assms(2)] by blast
  qed
qed

lemma boundary_run_inv: "boundary_step\<^sup>*\<^sup>* s t \<Longrightarrow> claims_inv s \<Longrightarrow> claims_inv t"
  by (induction rule: rtranclp_induct) (auto intro: boundary_step_inv)

section \<open>The store is fenced\<close>

definition fenceOf :: "Store \<Rightarrow> HandlingID \<Rightarrow> nat option" where
  "fenceOf s h = map_option ha_fence (List.find (\<lambda>r. ha_id r = h) (handlings s))"

definition holderOf :: "Store \<Rightarrow> HandlingID \<Rightarrow> AttachmentID option" where
  "holderOf s h = Option.bind (List.find (\<lambda>r. ha_id r = h) (handlings s)) ha_claim"

text \<open>What a row may become: its fence does not fall, and under the same fence nobody else holds it.\<close>

definition row_evolves :: "handlingRow \<Rightarrow> handlingRow \<Rightarrow> bool" where
  "row_evolves r q \<longleftrightarrow> ha_id q = ha_id r \<and> ha_fence r \<le> ha_fence q \<and>
     (ha_fence q = ha_fence r \<longrightarrow> ha_claim q = ha_claim r \<or> ha_claim q = None)"

lemma row_evolves_refl: "row_evolves r r"
  by (simp add: row_evolves_def)

definition handlings_evolve :: "handlingRow list \<Rightarrow> handlingRow list \<Rightarrow> bool" where
  "handlings_evolve hs gs \<longleftrightarrow> (\<exists>g rows. gs = map g hs @ rows \<and> (\<forall>r. row_evolves r (g r)))"

lemma handlings_evolve_refl: "handlings_evolve hs hs"
  unfolding handlings_evolve_def by (rule exI [of _ id], rule exI [of _ "[]"]) (simp add: row_evolves_refl)

lemma handlings_evolve_update:
  "(\<And>r. row_evolves r (f r)) \<Longrightarrow> handlings_evolve hs (update_where P f hs @ rows)"
  unfolding handlings_evolve_def update_where_def
  by (rule exI [of _ "\<lambda>r. if P r then f r else r"], rule exI [of _ rows]) (simp add: row_evolves_refl)

lemma handlings_evolve_release: "handlings_evolve hs (update_where P releaseClaim hs)"
  using handlings_evolve_update [of releaseClaim hs P "[]"] by (simp add: row_evolves_def releaseClaim_def)

lemma handlings_evolve_occupy: "handlings_evolve hs (update_where P (occupy a) hs)"
  using handlings_evolve_update [of "occupy a" hs P "[]"] by (simp add: row_evolves_def occupy_def)

lemma find_evolved:
  assumes "\<And>r. row_evolves r (g r)" "List.find (\<lambda>r. ha_id r = h) hs = Some r"
  shows "List.find (\<lambda>r. ha_id r = h) (map g hs @ rows) = Some (g r)"
  using assms(2)
proof (induction hs)
  case (Cons x xs)
  have "ha_id (g x) = ha_id x" using assms(1) by (simp add: row_evolves_def)
  then show ?case using Cons by auto
qed simp

lemma boundary_step_evolves:
  assumes "boundary_step s t" "claims_inv s"
  shows "handlings_evolve (handlings s) (handlings t)"
proof -
  have ok: "store_ok s" using assms(2) by (simp add: claims_inv_def)
  have ended: "handlings_evolve (handlings s) (handlings u)" if "endLiveAttachmentTx now a s = Inr (released, u)" for now a released u
    by (rule endLiveAttachmentTx_effect [OF that ok]) (simp add: boundaryEnded_def handlings_evolve_release)
  show ?thesis
    using assms(1)
  proof cases
    case (issue wall who boundary capability)
    then show ?thesis
    proof (cases rule: IssueInteractiveAttachment_cases)
      case (fresh m u)
      have "handlings_evolve (handlings s) (handlings u)"
        by (rule replaceLiveAttachmentTx_effect [OF fresh(4) ok]) (use handlings_evolve_refl ended in blast)+
      then show ?thesis using insertAttachmentBeginTx_effect [OF fresh(5)] by simp
    qed (simp add: handlings_evolve_refl)
  next
    case (finish wall capability result)
    then show ?thesis
      by (cases rule: EndInteractiveAttachment_cases) (use handlings_evolve_refl ended in blast)+
  next
    case (current now capability c)
    from current(1) assms(2) current(2) show ?thesis
      by (cases rule: currentClaimTx_cases) (simp_all add: handlings_evolve_refl handlings_evolve_occupy)
  next
    case (admit event a hs)
    have "handlings_settled (handlings s) (handlings t)" using admitEffectTx_frame [OF admit ok] by simp
    then show ?thesis by (auto simp: handlings_settled_def row_evolves_def intro!: handlings_evolve_update)
  next
    case (enroll wall who)
    then show ?thesis using EnrollPrincipal_effect [OF enroll ok] handlings_evolve_refl by simp
  next
    case (route wall spec projection)
    then show ?thesis using EnrollPeerRoute_frame [OF route] handlings_evolve_refl by simp
  next
    case (revoke wall routeID projection)
    then show ?thesis using RevokePeerRoute_frame [OF revoke] handlings_evolve_refl by simp
  qed
qed

text \<open>The machine on the stores that satisfy the invariant.\<close>

definition claim_step :: "Store \<Rightarrow> Store \<Rightarrow> bool" where
  "claim_step s t \<longleftrightarrow> claims_inv s \<and> boundary_step s t"

lemma boundary_run_claims: "boundary_step\<^sup>*\<^sup>* s t \<Longrightarrow> claims_inv s \<Longrightarrow> claim_step\<^sup>*\<^sup>* s t"
proof (induction rule: rtranclp_induct)
  case (step t u)
  then show ?case using boundary_run_inv [OF step(1)] by (meson claim_step_def rtranclp.rtrancl_into_rtrancl)
qed simp

interpretation claims: fenced claim_step fenceOf holderOf
proof
  fix s t h n
  assume step: "claim_step s t" and n: "fenceOf s h = Some n"
  obtain g rows where g: "handlings t = map g (handlings s) @ rows" "\<And>r. row_evolves r (g r)"
    using step boundary_step_evolves [of s t] by (auto simp: claim_step_def handlings_evolve_def)
  obtain r where r: "List.find (\<lambda>r. ha_id r = h) (handlings s) = Some r" "ha_fence r = n" using n by (auto simp: fenceOf_def)
  have find: "List.find (\<lambda>r. ha_id r = h) (handlings t) = Some (g r)" unfolding g(1) using g(2) r(1) by (rule find_evolved)
  then show "\<exists>m. fenceOf t h = Some m \<and> n \<le> m" using g(2) [of r] r(2) by (simp add: fenceOf_def row_evolves_def)
  show "holderOf s h = Some a" if "fenceOf t h = Some n" "holderOf t h = Some a" for a
    using that find g(2) [of r] r by (auto simp: fenceOf_def holderOf_def row_evolves_def)
qed

section \<open>An instance\<close>

lemma claimStore_inv: "claims_inv claimStore"
  using claimStore_ok
  by (simp add: claims_inv_def claim_ok_def boundary_ends_def) (simp add: claimStore_def heldHandling_def emptyStore_def)

text \<open>The holder advances its Handling.\<close>

definition advance :: Event where
  "advance = publication\<lparr>e_id := ''event:2'', e_sequence := 2, e_consequence := ConsequenceAdvanceHandling, e_expected := None,
     e_artifacts := [], e_digest := replicate 32 CHR ''f'',
     e_subject := Some \<lparr>sub_handle = ''h'', sub_handlingID = ''handling:1'',
       sub_head = \<lparr>ref_id = ''event:1'', ref_digest = replicate 32 CHR ''e''\<rparr>, sub_fence = 1, sub_revision = 0\<rparr>\<rparr>"

lemma advance_admitted: "\<exists>t. admitEffectTx advance ''attachment:1'' [] claimStore = Inr t"
  by (simp add: admitEffectTx_def insertEventTx_def execute_def insert_event_def events_ok_def eventRowOf_def advance_def publication_def
      claimStore_def emptyStore_def principal_ids_def event_ids_def applyDomainEffectTx_def settleSubjectTx_def update_handlings_def
      update_where_def settles_def heldHandling_def handlings_ok_def handling_check_def attachment_ids_def List.map_filter_def
      require_def matching_def createSuccessorHandlingsTx_def localTargetCount_def)

section \<open>Claims and fences\<close>

text \<open>
  (C3) Claims belong to live boundaries. Whatever boundaries are opened and closed, Views are requested,
  Events admitted, Principals and routes enrolled: the schema holds; a claimed Handling is held by a boundary
  that has not ended, of the Principal it is for, until that boundary expires; that is the only live boundary
  of the Principal; and a boundary holds at most one Handling.
\<close>

theorem claims_of_live_boundaries:
  assumes "boundary_step\<^sup>*\<^sup>* s t" "claims_inv s"
  shows "store_ok t \<and> (\<forall>r \<in> set (handlings t). \<forall>a. ha_claim r = Some a \<longrightarrow>
    (\<exists>b \<in> set (attachments t). at_id b = a \<and> at_principal b = ha_target r \<and> at_ended b = None \<and> ha_until r = Some (at_expires b) \<and>
       (\<forall>c \<in> set (attachments t). at_principal c = ha_target r \<and> at_ended c = None \<longrightarrow> c = b)) \<and>
    (\<forall>q \<in> set (handlings t). ha_claim q = Some a \<longrightarrow> q = r))"
proof -
  have inv: "claims_inv t" and ok: "store_ok t"
    using boundary_run_inv [OF assms] by (simp_all add: claims_inv_def)
  have "(\<exists>b \<in> set (attachments t). at_id b = a \<and> at_principal b = ha_target r \<and> at_ended b = None \<and> ha_until r = Some (at_expires b) \<and>
       (\<forall>c \<in> set (attachments t). at_principal c = ha_target r \<and> at_ended c = None \<longrightarrow> c = b))"
    if r: "r \<in> set (handlings t)" "ha_claim r = Some a" for r a
  proof -
    obtain b where b: "b \<in> set (attachments t)" "at_id b = a" "at_principal b = ha_target r" "at_ended b = None" "ha_until r = Some (at_expires b)"
      using inv r by (fastforce simp: claims_inv_def claim_ok_def)
    then show ?thesis using live_unique [OF ok] by metis
  qed
  then show ?thesis using ok claim_unique [OF ok] by blast
qed

theorem claims_of_live_boundaries_witness:
  "\<exists>t. boundary_step claimStore t \<and> store_ok t"
proof -
  obtain t where t: "admitEffectTx advance ''attachment:1'' [] claimStore = Inr t" using advance_admitted by blast
  have step: "boundary_step claimStore t" using t by (rule boundary_step.admit)
  then show ?thesis using claims_of_live_boundaries [OF _ claimStore_inv, of t] by blast
qed

text \<open>
  (C4) A claim that is over stays over. Once a Handling's fence has reached \<open>n\<close> without the Attachment \<open>a\<close>
  holding it, no Event bound to that Handling under \<open>n\<close> or an older fence is ever settled for \<open>a\<close> again, whatever
  happens in between: a writer that lost its claim is refused.
\<close>

theorem stale_claim_refused:
  assumes "boundary_step\<^sup>*\<^sup>* s t" "claims_inv s" "r \<in> set (handlings s)" "ha_claim r \<noteq> Some a"
    "e_subject event = Some subject" "sub_handlingID subject = ha_id r" "unat (sub_fence subject) \<le> ha_fence r"
  shows "\<exists>e. settleSubjectTx event a newState result t = Inl e"
proof (rule ccontr)
  assume "\<not> ?thesis"
  then obtain u where u: "settleSubjectTx event a newState result t = Inr u"
    by (cases "settleSubjectTx event a newState result t") auto
  have ok: "store_ok s" "store_ok t" using assms(2) boundary_run_inv [OF assms(1,2)] by (simp_all add: claims_inv_def)
  have "matching (settles subject a) (handlings t) = 1" using settleSubjectTx_effect [OF u ok(2)] assms(5) by auto
  then obtain q where q: "q \<in> set (handlings t)" "settles subject a q"
    by (auto simp: matching_def) (metis (mono_tags, lifting) One_nat_def filter_False list.size(3) zero_neq_one)
  have d: "distinct (map ha_id (handlings s))" "distinct (map ha_id (handlings t))"
    using ok by (simp_all add: store_ok_def handlings_ok_def)
  have s: "fenceOf s (ha_id r) = Some (ha_fence r)" "holderOf s (ha_id r) = ha_claim r"
    using find_distinct_key [OF d(1) assms(3)] by (simp_all add: fenceOf_def holderOf_def)
  have t: "fenceOf t (ha_id r) = Some (unat (sub_fence subject))" "holderOf t (ha_id r) = Some a"
    using find_distinct_key [OF d(2) q(1)] q(2) assms(6) by (auto simp: settles_def fenceOf_def holderOf_def)
  have run: "claim_step\<^sup>*\<^sup>* s t" by (rule boundary_run_claims [OF assms(1,2)])
  have "unat (sub_fence subject) = ha_fence r" using claims.run_grows [OF run s(1)] t(1) assms(7) by auto
  then have "holderOf s (ha_id r) = Some a" using claims.run_holder [OF run s(1)] t by simp
  then show False using s(2) assms(4) by simp
qed

theorem stale_claim_refused_witness:
  "\<exists>t e. boundary_step claimStore t \<and> settleSubjectTx advance ''attachment:0'' ''open'' [] t = Inl e"
proof -
  obtain t where t: "admitEffectTx advance ''attachment:1'' [] claimStore = Inr t" using advance_admitted by blast
  have step: "boundary_step claimStore t" using t by (rule boundary_step.admit)
  have "\<exists>e. settleSubjectTx advance ''attachment:0'' ''open'' [] t = Inl e"
    by (rule stale_claim_refused [of claimStore t heldHandling])
      (use step claimStore_inv in \<open>auto simp: claimStore_def heldHandling_def advance_def\<close>)
  then show ?thesis using step by blast
qed

section \<open>The end of a boundary\<close>

lemma not_ended_before:
  assumes "claims_inv s" "matching (\<lambda>r. at_id r = a \<and> at_ended r = None) (attachments s) = 1"
  shows "a \<notin> set (boundary_ends s)"
proof -
  obtain b where "b \<in> set (attachments s)" "at_id b = a" "at_ended b = None"
    using assms(2) by (auto simp: matching_def) (metis (mono_tags, lifting) One_nat_def filter_False list.size(3) zero_neq_one)
  then show ?thesis using assms(1) by (auto simp: claims_inv_def)
qed

lemma ended_replay:
  assumes "a \<notin> set (boundary_ends s)" "\<forall>d \<in> set ds. di_attachment d = a \<and> di_kind d = ''boundary_end''" "length ds \<le> 1"
  shows "replayBoundaryEndTx a (boundaryEnded now a ds s) = Inr (ds \<noteq> [])"
proof -
  have "filter (\<lambda>d. di_attachment d = a \<and> di_kind d = ''boundary_end'') (claim_dispositions s) = []"
    using assms(1) by (auto simp: boundary_ends_def filter_empty_conv)
  moreover have "filter (\<lambda>d. di_attachment d = a \<and> di_kind d = ''boundary_end'') ds = ds" using assms(2) by (simp add: filter_id_conv)
  moreover have "\<not> list_ex (\<lambda>r. ha_claim r = Some a) (handlings (boundaryEnded now a ds s))"
    by (auto simp: list_ex_iff boundaryEnded_def set_update_where releaseClaim_def split: if_splits)
  ultimately show ?thesis
    using assms(2,3) by (cases ds) (simp_all add: replayBoundaryEndTx_def boundaryEnded_def matching_def)
qed

lemma ended_twice:
  "update_attachments (\<lambda>r. at_id r = a \<and> at_ended r = None) f (boundaryEnded now a ds s) = Some (u, n) \<Longrightarrow> n = 0"
  by (drule update_effect(3)) (auto simp: boundaryEnded_def matching_def update_where_def filter_empty_conv split: if_splits)

text \<open>
  (C6) The end of a boundary. Ending a live boundary sets its end, releases the claim it holds - keeping the
  Handling's state, head and fence - and touches nothing else: no other claim, no Event, no operation. It reports
  a released claim exactly when it held one, and records one disposition then. A repeated end is recognised: the
  replay reports the same release, and the boundary cannot be ended again.
\<close>

theorem boundary_end_releases:
  assumes "endLiveAttachmentTx now a s = Inr (released, t)" "claims_inv s"
  shows "(\<exists>ds. t = s\<lparr>
      attachments := map (\<lambda>r. if at_id r = a \<and> at_ended r = None then r\<lparr>at_ended := Some (formatTime now)\<rparr> else r) (attachments s),
      handlings := map (\<lambda>r. if ha_claim r = Some a then r\<lparr>ha_claim := None, ha_until := None\<rparr> else r) (handlings s),
      claim_dispositions := claim_dispositions s @ ds\<rparr> \<and> length ds = (if released then 1 else 0)) \<and>
    (released \<longleftrightarrow> (\<exists>r \<in> set (handlings s). ha_claim r = Some a)) \<and>
    replayBoundaryEndTx a t = Inr released \<and> (\<exists>e. endLiveAttachmentTx later a t = Inl e)"
proof -
  have ok: "store_ok s" using assms(2) by (simp add: claims_inv_def)
  obtain ds where t: "t = boundaryEnded now a ds s" and one: "matching (\<lambda>r. at_id r = a \<and> at_ended r = None) (attachments s) = 1"
    and none: "\<not> released \<Longrightarrow> ds = [] \<and> (\<forall>r \<in> set (handlings s). ha_claim r \<noteq> Some a)"
    and some: "released \<Longrightarrow> \<exists>d r. ds = [d] \<and> r \<in> set (handlings s) \<and> boundary_disposition a r d"
    using endLiveAttachmentTx_effect [OF assms(1) ok] by blast
  have ds: "length ds = (if released then 1 else 0)" "ds \<noteq> [] \<longleftrightarrow> released"
    "\<forall>d \<in> set ds. di_attachment d = a \<and> di_kind d = ''boundary_end''"
    using none some by (cases released; auto simp: boundary_disposition_def)+
  have held: "released \<longleftrightarrow> (\<exists>r \<in> set (handlings s). ha_claim r = Some a)"
    using none some by (cases released) (auto simp: boundary_disposition_def)
  have replay: "replayBoundaryEndTx a t = Inr released"
    using ended_replay [OF not_ended_before [OF assms(2) one] ds(3)] ds by (simp add: t)
  have again: "\<exists>e. endLiveAttachmentTx later a t = Inl e"
  proof (cases "endLiveAttachmentTx later a t")
    case (Inr r)
    then show ?thesis using ended_twice [of a _ now ds s] by (auto simp: endLiveAttachmentTx_def guards t split_paired_Ex)
  qed simp
  have "t = s\<lparr>
      attachments := map (\<lambda>r. if at_id r = a \<and> at_ended r = None then r\<lparr>at_ended := Some (formatTime now)\<rparr> else r) (attachments s),
      handlings := map (\<lambda>r. if ha_claim r = Some a then r\<lparr>ha_claim := None, ha_until := None\<rparr> else r) (handlings s),
      claim_dispositions := claim_dispositions s @ ds\<rparr>"
    by (simp add: t boundaryEnded_def update_where_def releaseClaim_def)
  then show ?thesis using ds(1) held replay again by blast
qed

lemma held_ended: "\<exists>r t. endLiveAttachmentTx 2000 ''attachment:1'' claimStore = Inr (r, t)"
proof -
  let ?c = "\<lparr>ec_handling = ''handling:1'', ec_attachment = ''attachment:1'', ec_fence = 1, ec_until = 900000001000\<rparr> :: expiredClaim"
  have found: "attachmentClaimTx ''attachment:1'' claimStore = Inr (Some ?c)"
    using held_scanned by (simp add: attachmentClaimTx_def) (simp add: claimStore_def heldHandling_def)
  let ?u = "claimStore\<lparr>attachments := update_where (\<lambda>r. at_id r = ''attachment:1'' \<and> at_ended r = None)
      (\<lambda>r. r\<lparr>at_ended := Some (formatTime 2000)\<rparr>) (attachments claimStore)\<rparr>"
  have u: "update_attachments (\<lambda>r. at_id r = ''attachment:1'' \<and> at_ended r = None)
      (\<lambda>r. r\<lparr>at_ended := Some (formatTime 2000)\<rparr>) claimStore = Some (?u, 1)"
    using formatTime_order(1) [OF instance_times(3,5)] formatTime_order(1) [OF instance_times(3,4)] instance_digests
    by (simp add: update_attachments_def matching_def claimStore_def emptyStore_def update_where_def attachments_ok_def
        attachment_check_def principal_ids_def)
  have "\<exists>t. update_handlings (occupied_by ?c) releaseClaim ?u = Some (t, 1) \<and> handling_ids t = handling_ids claimStore \<and>
      attachment_ids t = attachment_ids claimStore \<and> claim_dispositions t = []"
    by (simp add: update_handlings_def update_where_def occupied_by_def releaseClaim_def
        claimStore_def emptyStore_def heldHandling_def handlings_ok_def handling_check_def principal_ids_def event_ids_def
        attachment_ids_def List.map_filter_def matching_def handling_ids_def)
  then obtain t where t: "update_handlings (occupied_by ?c) releaseClaim ?u = Some (t, 1)" "handling_ids t = handling_ids claimStore"
      "attachment_ids t = attachment_ids claimStore" "claim_dispositions t = []" by blast
  have "\<exists>v. settleClaimBoundaryEndTx 2000 ?c ?u = Inr v"
    by (simp add: settleClaimBoundaryEndTx_def claimIdentity_total execute_def t require_def insert_disposition_def
        dispositions_ok_def disposition_check_def dispositionOf_def Let_def)
       (simp add: handling_ids_def attachment_ids_def claimStore_def heldHandling_def)
  then show ?thesis by (auto simp: endLiveAttachmentTx_def found u execute_def require_def)
qed

theorem boundary_end_releases_witness:
  "\<exists>t. endLiveAttachmentTx 2000 ''attachment:1'' claimStore = Inr (True, t) \<and> replayBoundaryEndTx ''attachment:1'' t = Inr True \<and>
     list_all (\<lambda>r. ha_claim r = None) (handlings t)"
proof -
  obtain r t where t: "endLiveAttachmentTx 2000 ''attachment:1'' claimStore = Inr (r, t)" using held_ended by blast
  from boundary_end_releases [OF t claimStore_inv, of 2000] have "r"
    by (simp add: claimStore_def heldHandling_def)
  moreover from boundary_end_releases [OF t claimStore_inv, of 2000] have "\<forall>r \<in> set (handlings t). ha_claim r = None"
    by (auto simp: claimStore_def heldHandling_def)
  ultimately show ?thesis using t boundary_end_releases [OF t claimStore_inv, of 2000] by (auto simp: list_all_iff)
qed

text \<open>
  (C12) A live boundary never finds an expired claim. While a Principal has a boundary that has not ended and has
  not expired, no claim of the Principal is due, and the settlement that a Current request runs first returns
  the store as it was, whatever its bound: expired claims are released by the end or the replacement of
  their boundary.
\<close>

theorem live_boundary_nothing_due:
  assumes "boundary_step\<^sup>*\<^sup>* s0 s" "claims_inv s0" "b \<in> set (attachments s)" "at_ended b = None" "formatTime now < at_expires b"
    "at_principal b \<noteq> []" "0 < limit"
  shows "due (at_principal b) now s = [] \<and> settleExpiredClaimsTx (at_principal b) now limit s = Inr s"
  using nothing_due [OF boundary_run_inv [OF assms(1,2)] assms(3-5)] assms(6,7)
  by (simp add: settleExpiredClaimsTx_def loadExpiredClaimsTx_def)

theorem live_boundary_nothing_due_witness:
  "settleExpiredClaimsTx ''agent:local'' 2000 16 claimStore = Inr claimStore"
proof -
  have "formatTime 2000 < formatTime 900000001000" using formatTime_order(1) [OF instance_times(4,5)] by simp
  moreover have "attachments claimStore = [\<lparr>at_id = ''attachment:1'', at_principal = ''agent:local'', at_mode = ''interactive'',
       at_credential = digestString (replicate 32 CHR ''c''), at_beginKey = ''attach:1'',
       at_beginRequest = digestString (replicate 32 CHR ''b''), at_issued = formatTime 1000,
       at_expires = formatTime 900000001000, at_ended = None\<rparr>]" by (simp add: claimStore_def)
  ultimately show ?thesis
    using live_boundary_nothing_due [OF rtranclp.rtrancl_refl claimStore_inv, of "hd (attachments claimStore)" 2000 16] by simp
qed

end
