(* ===== verification/Authority_Admission.thy ===== *)
theory Authority_Admission
  imports Go_Sha256_Vector Agency_Peer_Event Authority_Delivery Authority_Boundary Agency_Receipt Authority_Bind
begin

text \<open>
  Admission (\<^verbatim>\<open>internal/agency/authority/admission.go\<close>, \<^verbatim>\<open>admission_validate.go\<close>, \<^verbatim>\<open>admission_record.go\<close>,
  \<^verbatim>\<open>artifact.go\<close>, \<^verbatim>\<open>domain_admission.go\<close>): the one entrance of a bound Intent. The actor is
  authenticated, a repeated operation is answered from its record, what the request was bound to is compared
  with the store as it is now, and then one transaction records either a refusal or an Event with its whole effect.

  The bytes of Artifacts are verified between two transactions, so the store the second one sees is an
  argument of its own. Random bytes are arguments; the verifier of Artifact bytes is one too, absent when the
  store was opened without it.
\<close>

section \<open>Verified Artifacts\<close>

definition MaxArtifactBytes :: int where "MaxArtifactBytes = 4 * 1024 * 1024"

record VerifiedArtifact =
  va_digest :: Digest
  va_size :: int
  va_verifiedAt :: instant

definition VerifyArtifact :: "bytes \<Rightarrow> instant \<Rightarrow> VerifiedArtifact outcome" where
  "VerifyArtifact content verifiedAt =
     (if MaxArtifactBytes < int (length content) then Inl (Problem ''verify Artifact: exceeds the bound'')
      else if verifiedAt = zeroTime then Inl (Problem ''verify Artifact: zero verification time'')
      else Inr \<lparr>va_digest = Sum content, va_size = int (length content), va_verifiedAt = verifiedAt\<rparr>)"

definition CatalogArtifact :: "VerifiedArtifact \<Rightarrow> Store \<Rightarrow> Store outcome" where
  "CatalogArtifact artifact s =
     (if va_digest artifact = zeroDigest \<or> va_size artifact < 0 \<or> MaxArtifactBytes < va_size artifact \<or>
         va_verifiedAt artifact = zeroTime
      then Inl (Problem ''catalog Artifact: incomplete or out-of-bound Artifact'')
      else
        bindE (requireOpen s) (\<lambda>_.
        case List.find (\<lambda>r. ar_digest r = digestString (va_digest artifact)) (verified_artifacts s) of
          None \<Rightarrow>
            execute ''catalog Artifact: insert''
              (insert_artifact \<lparr>ar_digest = digestString (va_digest artifact), ar_size = va_size artifact,
                 ar_verified = formatTime (va_verifiedAt artifact)\<rparr> s)
        | Some r \<Rightarrow>
            bindE (require (Problem ''catalog Artifact: digest metadata conflicts with durable catalog'')
                     (ar_size r = va_size artifact)) (\<lambda>_. Inr s)))"

definition requireArtifacts :: "Digest list \<Rightarrow> Store \<Rightarrow> unit outcome" where
  "requireArtifacts digests s =
     require ErrArtifactUnavailable (list_all (\<lambda>d. digestString d \<in> artifact_digests s) digests)"

section \<open>Refusals\<close>

record admissionRejection =
  rej_code :: SemanticLabel
  rej_diagnostic :: string

definition reject :: "SemanticLabel \<Rightarrow> string \<Rightarrow> admissionRejection option" where
  "reject label diagnostic = Some \<lparr>rej_code = label, rej_diagnostic = diagnostic\<rparr>"

definition rejectionAttachmentExpired :: SemanticLabel where "rejectionAttachmentExpired = ''authority.attachment_expired''"
definition rejectionArtifactUnavailable :: SemanticLabel where "rejectionArtifactUnavailable = ''authority.artifact_unavailable''"
definition rejectionStaleView :: SemanticLabel where "rejectionStaleView = ''authority.stale_view''"
definition rejectionStaleSubject :: SemanticLabel where "rejectionStaleSubject = ''authority.stale_subject''"
definition rejectionStaleReference :: SemanticLabel where "rejectionStaleReference = ''authority.stale_reference''"
definition rejectionStaleRoute :: SemanticLabel where "rejectionStaleRoute = ''authority.stale_route''"
definition rejectionResourceBound :: SemanticLabel where "rejectionResourceBound = ''authority.resource_bound''"

text \<open>A check that may refuse, and the checks after it.\<close>

definition orReject :: "admissionRejection option outcome \<Rightarrow> admissionRejection option outcome \<Rightarrow> admissionRejection option outcome" where
  "orReject check rest = bindE check (\<lambda>r. case r of Some x \<Rightarrow> Inr (Some x) | None \<Rightarrow> rest)"

section \<open>What a request was bound to, against the store as it is\<close>

definition MaxOpenHandlingsPerPrincipal :: nat where "MaxOpenHandlingsPerPrincipal = 64"

definition validateIssuedViewTx :: "Attachment \<Rightarrow> BoundIntent \<Rightarrow> Store \<Rightarrow> admissionRejection option outcome" where
  "validateIssuedViewTx attachment request s =
     (case List.find (\<lambda>r. cu_attachment r = att_id attachment \<and> cu_authorityDigest r = digestString (b_viewDigest request))
             (current_operations s) of
        None \<Rightarrow> Inr (reject rejectionStaleView ''View was not issued by this authority'')
      | Some r \<Rightarrow>
          let corrupt = Inl (Problem ''admit Intent: corrupt issued View authority'')
          in case ParseDigest (cu_authorityDigest r) of Inl e \<Rightarrow> corrupt | Inr digest \<Rightarrow>
             case ParseViewAuthorityCanonicalJSON (cu_authority r) attachment of Inl e \<Rightarrow> corrupt | Inr view \<Rightarrow>
             if digest \<noteq> b_viewDigest request \<or> v_digest view \<noteq> digest then corrupt else Inr None)"

fun validateTargetsTx :: "Attachment \<Rightarrow> ResolvedTarget list \<Rightarrow> Store \<Rightarrow> admissionRejection option outcome" where
  "validateTargetsTx attachment [] s = Inr None"
| "validateTargetsTx attachment (target # targets) s =
     (if destination target = TargetDestinationLocal
      then if localPrincipal target \<noteq> att_principal attachment
           then Inr (reject rejectionStaleView ''target is outside the local Principal'')
           else validateTargetsTx attachment targets s
      else if destination target = TargetDestinationRemote
      then
        bindE (peerRouteByIDTx (remoteRoute target) s) (\<lambda>found.
        let stale = Inr (reject rejectionStaleRoute ''peer route is unavailable, revoked, or changed'')
        in case found of
             None \<Rightarrow> stale
           | Some route \<Rightarrow>
               if \<not> rp_active route \<or> targetSelf (requested target) \<or> targetAlias (requested target) \<noteq> rs_alias route \<or>
                  remoteAlias target \<noteq> rs_remoteAlias route
               then stale else validateTargetsTx attachment targets s)
      else Inr (reject rejectionStaleView ''target destination is invalid''))"

definition validatePeerDeliveryCapacityTx :: "BoundIntent \<Rightarrow> instant \<Rightarrow> Store \<Rightarrow> admissionRejection option outcome" where
  "validatePeerDeliveryCapacityTx request now s =
     (let remote = remoteTargetCount (b_targets request)
      in if remote = 0 then Inr None
         else
           bindE (deriveLocalEventCausalDepthTx request s) (\<lambda>depth.
           if MaxPeerCausalDepth \<le> depth then Inr (reject rejectionResourceBound ''peer causal depth bound reached'')
           else
             let pending = matching (\<lambda>r. ob_state r = ''pending'' \<and> formatTime now < ob_expires r) (peer_outbox s)
             in if MaxPendingPeerDeliveries < pending + remote
                then Inr (reject rejectionResourceBound ''pending PeerDelivery bound reached'') else Inr None))"

text \<open>\<open>None\<close> is \<^verbatim>\<open>sql.ErrNoRows\<close>.\<close>

definition currentClaimForAdmissionTx :: "Attachment \<Rightarrow> Store \<Rightarrow> (projectedClaim \<times> instant) option outcome" where
  "currentClaimForAdmissionTx attachment s =
     (case List.find (\<lambda>r. ha_claim r = Some (att_id attachment) \<and> ha_target r = att_principal attachment \<and>
                          ha_state r = ''open'') (handlings s) of
        None \<Rightarrow> Inr None
      | Some r \<Rightarrow>
          (case ha_until r of
             None \<Rightarrow> Inl (Statement ''admit Intent: scan claim'')
           | Some claimUntilValue \<Rightarrow>
               bindE (orElse (Problem ''admit Intent: corrupt claimed Handling ID'') (NewHandlingID (ha_id r))) (\<lambda>handlingID.
               bindE (loadStoredEventTx (ha_head r) s) (\<lambda>(ref, label, text, digests).
               bindE (terminalObservationRevisionTx handlingID s) (\<lambda>revision.
               bindE (parseTime claimUntilValue) (\<lambda>claimUntil.
               Inr (Some (\<lparr>pc_handling = handlingID, pc_head = ref, pc_fence = of_nat (ha_fence r), pc_revision = of_nat revision,
                           pc_kind = label, pc_payload = text, pc_artifacts = digests\<rparr>, claimUntil))))))))"

definition validateBoundSubject ::
  "BoundIntent \<Rightarrow> (projectedClaim \<times> instant) option \<Rightarrow> instant \<Rightarrow> admissionRejection option" where
  "validateBoundSubject request claim now =
     (case b_subject request of
        None \<Rightarrow> None
      | Some subject \<Rightarrow>
          let stale = reject rejectionStaleSubject ''subject claim, head, fence, or observation revision is stale''
          in case claim of
               None \<Rightarrow> stale
             | Some (c, claimUntil) \<Rightarrow>
                 if sub_handlingID subject \<noteq> pc_handling c \<or> sub_head subject \<noteq> pc_head c \<or> sub_fence subject \<noteq> pc_fence c \<or>
                    sub_revision subject \<noteq> pc_revision c \<or> \<not> now < claimUntil
                 then stale else None)"

definition rejectIfClaimableTx :: "AgentPrincipalID \<Rightarrow> Store \<Rightarrow> admissionRejection option outcome" where
  "rejectIfClaimableTx who s =
     Inr (if list_ex (claimable who) (handlings s)
          then reject rejectionStaleView ''a pending Handling now requires a current View'' else None)"

text \<open>The head of a Reference, joined with its Event: the identifier, the digest and the state.\<close>

definition referenceHeadTx :: "ReferenceKey \<Rightarrow> Store \<Rightarrow> (string \<times> string \<times> string) option" where
  "referenceHeadTx key s =
     (case List.find (\<lambda>r. re_key r = key) (active_references s) of
        None \<Rightarrow> None
      | Some r \<Rightarrow> map_option (\<lambda>e. (re_head r, ev_digest e, re_state r)) (List.find (\<lambda>e. ev_id e = re_head r) (events s)))"

definition validateReferenceExpectationTx :: "BoundIntent \<Rightarrow> Store \<Rightarrow> admissionRejection option outcome" where
  "validateReferenceExpectationTx request s =
     (case b_expected request of
        None \<Rightarrow> Inr None
      | Some expected \<Rightarrow>
          let row = referenceHeadTx (exp_key expected) s
          in if exp_absent expected
             then Inr (if row = None then None else reject rejectionStaleReference ''Reference key is no longer absent'')
             else case row of
                    None \<Rightarrow> Inr (reject rejectionStaleReference ''Reference head no longer exists'')
                  | Some (headValue, headDigestValue, state) \<Rightarrow>
                      bindE (orElse (Problem ''admit Intent: corrupt Reference head digest'') (ParseDigest headDigestValue)) (\<lambda>headDigest.
                      Inr (if headValue \<noteq> ref_id (exp_head expected) \<or> headDigest \<noteq> ref_digest (exp_head expected)
                           then reject rejectionStaleReference ''Reference head changed''
                           else if consequence (b_intent request) = ConsequenceRetractReference \<and> state \<noteq> ''active''
                           then reject rejectionStaleReference ''Reference head is already retracted''
                           else None)))"

text \<open>The loop over the cited Events; \<open>seen\<close> holds the ones that were inspected.\<close>

fun validateCitations :: "string list \<Rightarrow> EventRef list \<Rightarrow> Store \<Rightarrow> admissionRejection option outcome" where
  "validateCitations seen [] s = Inr None"
| "validateCitations seen (cited # refs) s =
     (let identity = eventRefKey cited
      in if identity \<in> set seen then validateCitations seen refs s
         else
           case List.find (\<lambda>(l, e). ev_id e = li_event l \<and> li_event l = ref_id cited)
                  (List.product (reference_lineage s) (events s)) of
             None \<Rightarrow> validateCitations (identity # seen) refs s
           | Some (l, e) \<Rightarrow>
               let corrupt = Inl (Problem ''admit Intent: corrupt cited Reference lineage'')
               in case NewReferenceKey (li_key l) of Inl x \<Rightarrow> corrupt | Inr key \<Rightarrow>
                  if ParseDigest (ev_digest e) \<noteq> Inr (ref_digest cited) then corrupt
                  else
                    case referenceHeadTx key s of
                      None \<Rightarrow> Inr (reject rejectionStaleReference ''cited Reference head changed'')
                    | Some (headIDValue, headDigestValue, _) \<Rightarrow>
                        bindE (orElse (Problem ''admit Intent: corrupt current Reference head'') (NewEventID headIDValue)) (\<lambda>headID.
                        bindE (orElse (Problem ''admit Intent: corrupt current Reference head'') (ParseDigest headDigestValue)) (\<lambda>headDigest.
                        bindE (orElse (Problem ''admit Intent: corrupt current Reference identity'') (NewEventRef headID headDigest)) (\<lambda>current.
                        if current \<noteq> cited then Inr (reject rejectionStaleReference ''cited Reference head changed'')
                        else validateCitations (identity # seen) refs s))))"

definition validateReferenceCitationsTx :: "BoundIntent \<Rightarrow> Store \<Rightarrow> admissionRejection option outcome" where
  "validateReferenceCitationsTx request s =
     validateCitations [] (b_causation request @ (if refIsZero (b_correlation request) then [] else [b_correlation request])) s"

definition validateReferenceReadSetTx :: "BoundIntent \<Rightarrow> Store \<Rightarrow> admissionRejection option outcome" where
  "validateReferenceReadSetTx request s =
     orReject (validateReferenceExpectationTx request s) (validateReferenceCitationsTx request s)"

definition validateHandlingBoundTx :: "AgentPrincipalID \<Rightarrow> BoundIntent \<Rightarrow> Store \<Rightarrow> admissionRejection option outcome" where
  "validateHandlingBoundTx who request s =
     (let c = consequence (b_intent request); locals = int (localTargetCount (b_targets request));
          delta = (if c \<in> {ConsequenceResolveCompleted, ConsequenceResolveDeclined, ConsequenceResolveUnresolved}
                   then locals - 1 else locals)
      in if c \<in> {ConsequencePublishReference, ConsequenceSupersedeReference, ConsequenceRetractReference} then Inr None
         else if delta \<le> 0 then Inr None
         else
           let openCount = int (matching (\<lambda>r. ha_target r = who \<and> ha_state r = ''open'') (handlings s))
           in Inr (if int MaxOpenHandlingsPerPrincipal < openCount + delta
                   then reject rejectionResourceBound ''open Handling bound reached'' else None))"

definition validateMutableAuthorityTx :: "Attachment \<Rightarrow> BoundIntent \<Rightarrow> instant \<Rightarrow> Store \<Rightarrow> admissionRejection option outcome" where
  "validateMutableAuthorityTx attachment request now s =
     orReject (validateIssuedViewTx attachment request s)
     (orReject (validateTargetsTx attachment (b_targets request) s)
     (orReject (validatePeerDeliveryCapacityTx request now s)
     (bindE (currentClaimForAdmissionTx attachment s) (\<lambda>claim.
        orReject (Inr (validateBoundSubject request claim now))
        (orReject (if claim = None then rejectIfClaimableTx (att_principal attachment) s else Inr None)
        (orReject (validateReferenceReadSetTx request s)
        (orReject (validateHandlingBoundTx (att_principal attachment) request s)
        (Inr (if consequence (b_intent request) = ConsequenceResolveCompleted \<and> length (b_artifacts request) = 0
              then reject rejectionArtifactUnavailable ''completed requires a verified Artifact'' else None)))))))))"

section \<open>The record of an operation\<close>

record AdmissionResult =
  adm_receipt :: bytes
  adm_digest :: Digest
  adm_outcome :: ReceiptOutcome
  adm_replayed :: bool

definition resultFromReceipt :: "Receipt \<Rightarrow> bool \<Rightarrow> AdmissionResult" where
  "resultFromReceipt receipt replayed =
     \<lparr>adm_receipt = r_canonical receipt, adm_digest = r_digest receipt, adm_outcome = r_outcome receipt, adm_replayed = replayed\<rparr>"

definition operationRowOf :: "AgentPrincipalID \<Rightarrow> Receipt \<Rightarrow> EventID \<Rightarrow> operationRow" where
  "operationRowOf who receipt eventID =
     \<lparr>op_actor = who, op_key = r_operationKey receipt, op_request = digestString (r_requestDigest receipt),
      op_outcome = outcomeString (r_outcome receipt), op_event = (if eventID = [] then None else Some eventID),
      op_receiptDigest = digestString (r_digest receipt), op_receipt = r_canonical receipt,
      op_recorded = formatTime (r_recordedAt receipt)\<rparr>"

definition insertOperationTx :: "AgentPrincipalID \<Rightarrow> Receipt \<Rightarrow> EventID \<Rightarrow> Store \<Rightarrow> Store outcome" where
  "insertOperationTx who receipt eventID s =
     execute ''admit Intent: persist operation'' (insert_operation (operationRowOf who receipt eventID) s)"

definition persistRejectionTx ::
  "AgentPrincipalID \<Rightarrow> BoundIntent \<Rightarrow> SemanticLabel \<Rightarrow> string \<Rightarrow> instant \<Rightarrow> Store \<Rightarrow> (AdmissionResult \<times> Store) outcome" where
  "persistRejectionTx who request label diagnostic now s =
     bindE (wrap ''admit Intent: construct rejected Receipt'' (NewRejectedReceipt request label diagnostic now)) (\<lambda>receipt.
     bindE (insertOperationTx who receipt [] s) (\<lambda>s.
     Inr (resultFromReceipt receipt False, s)))"

definition validateReplayEventTx :: "Receipt \<Rightarrow> string option \<Rightarrow> Store \<Rightarrow> unit outcome" where
  "validateReplayEventTx receipt storedEvent s =
     (if refIsZero (r_event receipt)
      then require (Problem ''admit Intent: rejected operation names an Event'') (storedEvent = None)
      else if storedEvent \<noteq> Some (ref_id (r_event receipt))
      then Inl (Problem ''admit Intent: accepted operation Event mismatch'')
      else
        bindE (loadStoredEventTx (ref_id (r_event receipt)) s) (\<lambda>(storedRef, _, _, _).
        require (Problem ''admit Intent: replay Event digest mismatch'') (storedRef = r_event receipt)))"

definition operationReplayTx :: "AgentPrincipalID \<Rightarrow> BoundIntent \<Rightarrow> Store \<Rightarrow> AdmissionResult option outcome" where
  "operationReplayTx who request s =
     (case List.find (\<lambda>r. op_actor r = who \<and> op_key r = b_operationKey request) (operations s) of
        None \<Rightarrow> Inr None
      | Some r \<Rightarrow>
          if op_request r \<noteq> digestString (b_digest request) then Inl ErrOperationConflict
          else
            let corrupt = Inl (Problem ''admit Intent: corrupt stored Receipt'')
            in case ParseDigest (op_receiptDigest r) of Inl e \<Rightarrow> corrupt | Inr receiptDigest \<Rightarrow>
               case ParseReceiptCanonicalJSON (op_receipt r) of Inl e \<Rightarrow> corrupt | Inr parsed \<Rightarrow>
               if r_digest parsed \<noteq> receiptDigest \<or> r_operationKey parsed \<noteq> b_operationKey request \<or>
                  r_requestDigest parsed \<noteq> b_digest request
               then corrupt
               else if op_outcome r \<noteq> outcomeString (r_outcome parsed) then Inl (Problem ''admit Intent: corrupt operation outcome'')
               else if formatTime (r_recordedAt parsed) \<noteq> op_recorded r then Inl (Problem ''admit Intent: corrupt operation timestamp'')
               else
                 bindE (validateReplayEventTx parsed (op_event r) s) (\<lambda>_.
                 Inr (Some \<lparr>adm_receipt = op_receipt r, adm_digest = receiptDigest, adm_outcome = r_outcome parsed,
                            adm_replayed = True\<rparr>)))"

section \<open>Admission\<close>

definition requireBoundAttachment :: "authenticatedAttachment \<Rightarrow> BoundIntent \<Rightarrow> unit outcome" where
  "requireBoundAttachment authenticated request =
     (let bound = b_attachment request; stored = aa_value authenticated
      in require ErrAttachmentAuth (att_id bound = att_id stored \<and> att_principal bound = att_principal stored \<and>
           mayInitiate bound = mayInitiate stored \<and> issuedAt bound = issuedAt stored \<and> expiresAt bound = expiresAt stored))"

definition nextOriginSequenceTx :: "Store \<Rightarrow> (64 word \<times> Store) outcome" where
  "nextOriginSequenceTx s =
     (let sequence = origin_sequence s + 1
      in if 2 ^ 63 \<le> sequence then Inl (Statement ''admit Intent: advance origin sequence'')
         else Inr (of_nat sequence, s\<lparr>origin_sequence := sequence\<rparr>))"

text \<open>
  The spine of \<^verbatim>\<open>domain_admission.go\<close>: the two inputs there are, an Intent and a verified delivery with its decided
  effect, and the one path that makes facts of them.
\<close>

record decidedPeerEffect =
  de_consequence :: Consequence
  de_targets :: "ResolvedTarget list"

datatype domainAdmissionCandidate =
    localDomainAdmission BoundIntent
  | peerDomainAdmission VerifiedPeerDelivery decidedPeerEffect

definition decidePeerEffect :: "VerifiedPeerDelivery \<Rightarrow> decidedPeerEffect outcome" where
  "decidePeerEffect verified =
     (let delivery = vd_delivery verified
      in if pd_id delivery = zeroDigest \<or> vd_target verified = [] then Inl (Problem ''admit PeerDelivery: incomplete verified candidate'')
         else if \<not> RequiresTerminalReplyMatch delivery
         then
           bindE (wrap ''admit PeerDelivery: resolve target alias'' (AliasTarget (pd_targetAlias delivery))) (\<lambda>target.
           bindE (wrap ''admit PeerDelivery: resolve local target'' (ResolveLocalTarget target (vd_target verified))) (\<lambda>resolved.
           Inr \<lparr>de_consequence = ConsequenceCreateHandlings, de_targets = [resolved]\<rparr>))
         else
           case pd_originConsequence delivery of
             ConsequenceResolveCompleted \<Rightarrow>
               if length (vd_artifacts verified) = 0 then Inl (Problem ''admit PeerDelivery: completed reply requires a verified Artifact'')
               else Inr \<lparr>de_consequence = ConsequenceObserveCompleted, de_targets = []\<rparr>
           | ConsequenceResolveDeclined \<Rightarrow> Inr \<lparr>de_consequence = ConsequenceObserveDeclined, de_targets = []\<rparr>
           | ConsequenceResolveUnresolved \<Rightarrow> Inr \<lparr>de_consequence = ConsequenceObserveUnresolved, de_targets = []\<rparr>
           | _ \<Rightarrow> Inl (Problem ''admit PeerDelivery: invalid terminal reply consequence''))"

definition newDomainEventTx :: "domainAdmissionCandidate \<Rightarrow> EventID \<Rightarrow> instant \<Rightarrow> Store \<Rightarrow> ((Event \<times> AttachmentID) \<times> Store) outcome" where
  "newDomainEventTx candidate eventID now s =
     bindE (nextOriginSequenceTx s) (\<lambda>(sequence, s).
     let stamp = \<lparr>st_id = eventID, st_acceptedAt = now, st_sequence = sequence, st_depth = 0\<rparr>
     in case candidate of
          localDomainAdmission request \<Rightarrow>
            bindE (deriveLocalEventCausalDepthTx request s) (\<lambda>depth.
            bindE (wrap ''admit Intent: construct Event'' (NewEvent request (stamp\<lparr>st_depth := depth\<rparr>))) (\<lambda>event.
            Inr ((event, att_id (b_attachment request)), s)))
        | peerDomainAdmission verified effect \<Rightarrow>
            bindE (wrap ''admit PeerDelivery: construct local Event''
                     (NewPeerEvent verified (stamp\<lparr>st_depth := pd_depth (vd_delivery verified)\<rparr>) (de_consequence effect) (de_targets effect))) (\<lambda>event.
            Inr ((event, []), s)))"

definition commitDomainAdmissionTx ::
  "domainAdmissionCandidate \<Rightarrow> EventID \<Rightarrow> HandlingID list \<Rightarrow> instant \<Rightarrow> Store \<Rightarrow> (Event \<times> Store) outcome" where
  "commitDomainAdmissionTx candidate eventID handlingIDs now s =
     bindE (newDomainEventTx candidate eventID now s) (\<lambda>((event, claimAttachment), s).
     bindE (admitEffectTx event claimAttachment handlingIDs s) (\<lambda>s.
     bindE (insertPeerDeliveriesTx event handlingIDs now s) (\<lambda>s.
     Inr (event, s))))"

definition commitAcceptedAdmissionTx ::
  "AgentPrincipalID \<Rightarrow> BoundIntent \<Rightarrow> EventID \<Rightarrow> HandlingID list \<Rightarrow> instant \<Rightarrow> Store \<Rightarrow> (AdmissionResult \<times> Store) outcome" where
  "commitAcceptedAdmissionTx who request eventID handlingIDs now s =
     bindE (commitDomainAdmissionTx (localDomainAdmission request) eventID handlingIDs now s) (\<lambda>(event, s).
     bindE (wrap ''admit Intent: construct Receipt'' (NewAcceptedReceipt request event now)) (\<lambda>receipt.
     bindE (insertOperationTx who receipt (e_id event) s) (\<lambda>s.
     Inr (resultFromReceipt receipt False, s))))"

definition freshAdmissionRejectionTx ::
  "authenticatedAttachment \<Rightarrow> BoundIntent \<Rightarrow> bool \<Rightarrow> instant \<Rightarrow> Store \<Rightarrow> admissionRejection option outcome" where
  "freshAdmissionRejectionTx authenticated request artifactFailure now s =
     (case requireLiveAttachment authenticated now of
        Inl e \<Rightarrow> Inr (reject rejectionAttachmentExpired ''attachment expired'')
      | Inr _ \<Rightarrow>
          if artifactFailure then Inr (reject rejectionArtifactUnavailable ''Artifact bytes unavailable or invalid'')
          else case requireArtifacts (b_artifacts request) s of
                 Inl e \<Rightarrow> Inr (reject rejectionArtifactUnavailable ''Artifact is not in the verified catalog'')
               | Inr _ \<Rightarrow> validateMutableAuthorityTx (aa_value authenticated) request now s)"

definition newHandlingIDs :: "nat \<Rightarrow> (nat \<Rightarrow> bytes) \<Rightarrow> HandlingID list outcome" where
  "newHandlingIDs n entropy = mapE (\<lambda>i. newHandlingID (entropy i)) [0..<n]"

definition commitAdmission ::
  "instant \<Rightarrow> bytes \<Rightarrow> (nat \<Rightarrow> bytes) \<Rightarrow> AttachmentProof \<Rightarrow> BoundIntent \<Rightarrow> bool \<Rightarrow> Store \<Rightarrow> (AdmissionResult \<times> Store) outcome" where
  "commitAdmission wall eventEntropy handlingEntropy capability request artifactFailure s =
     bindE (trustedNow wall) (\<lambda>now.
     bindE (newEventID eventEntropy) (\<lambda>eventID.
     bindE (newHandlingIDs (localTargetCount (b_targets request)) handlingEntropy) (\<lambda>handlingIDs.
     bindE (requireOpen s) (\<lambda>_.
     bindE (authenticateAttachmentTx capability s) (\<lambda>authenticated.
     bindE (operationReplayTx (att_principal (aa_value authenticated)) request s) (\<lambda>replay.
     case replay of
       Some result \<Rightarrow> Inr (result, s)
     | None \<Rightarrow>
         bindE (requireBoundAttachment authenticated request) (\<lambda>_.
         bindE (freshAdmissionRejectionTx authenticated request artifactFailure now s) (\<lambda>rejection.
         case rejection of
           Some r \<Rightarrow> persistRejectionTx (att_principal (aa_value authenticated)) request (rej_code r) (rej_diagnostic r) now s
         | None \<Rightarrow> commitAcceptedAdmissionTx (att_principal (aa_value authenticated)) request eventID handlingIDs now s))))))))"

record artifactCheck =
  ac_digest :: Digest
  ac_size :: int

fun artifactChecksTx :: "Digest list \<Rightarrow> Store \<Rightarrow> artifactCheck list outcome" where
  "artifactChecksTx [] s = Inr []"
| "artifactChecksTx (d # ds) s =
     (case List.find (\<lambda>r. ar_digest r = digestString d) (verified_artifacts s) of
        None \<Rightarrow> Inl ErrArtifactUnavailable
      | Some r \<Rightarrow> bindE (artifactChecksTx ds s) (\<lambda>checks. Inr (\<lparr>ac_digest = d, ac_size = ar_size r\<rparr> # checks)))"

text \<open>The checks to make, or the replay.\<close>

definition preflightAdmission ::
  "instant \<Rightarrow> AttachmentProof \<Rightarrow> BoundIntent \<Rightarrow> Store \<Rightarrow> (AdmissionResult + artifactCheck list) outcome" where
  "preflightAdmission wall capability request s =
     bindE (trustedNow wall) (\<lambda>now.
     bindE (requireOpen s) (\<lambda>_.
     bindE (authenticateAttachmentTx capability s) (\<lambda>authenticated.
     bindE (operationReplayTx (att_principal (aa_value authenticated)) request s) (\<lambda>replay.
     case replay of
       Some result \<Rightarrow> Inr (Inl result)
     | None \<Rightarrow>
         bindE (requireBoundAttachment authenticated request) (\<lambda>_.
         case requireLiveAttachment authenticated now of Inl e \<Rightarrow> Inr (Inr []) | Inr _ \<Rightarrow>
           bindE (validateMutableAuthorityTx (aa_value authenticated) request now s) (\<lambda>rejection.
           if rejection \<noteq> None then Inr (Inr [])
           else case artifactChecksTx (b_artifacts request) s of
                  Inl e \<Rightarrow> if e = ErrArtifactUnavailable then Inr (Inr []) else Inl e
                | Inr checks \<Rightarrow> Inr (Inr checks)))))))"

definition verifyAdmissionArtifacts :: "(Digest \<Rightarrow> int \<Rightarrow> bool) option \<Rightarrow> artifactCheck list \<Rightarrow> bool" where
  "verifyAdmissionArtifacts artifactVerifier checks =
     (checks \<noteq> [] \<and> (case artifactVerifier of
        None \<Rightarrow> True | Some verify \<Rightarrow> \<not> list_all (\<lambda>c. verify (ac_digest c) (ac_size c)) checks))"

definition Admit ::
  "(Digest \<Rightarrow> int \<Rightarrow> bool) option \<Rightarrow> instant \<Rightarrow> instant \<Rightarrow> bytes \<Rightarrow> (nat \<Rightarrow> bytes) \<Rightarrow> AttachmentProof \<Rightarrow> BoundIntent \<Rightarrow> Store \<Rightarrow> Store \<Rightarrow>
   (AdmissionResult \<times> Store) outcome" where
  "Admit artifactVerifier wall wall' eventEntropy handlingEntropy capability request before s =
     (if b_operationKey request = [] \<or> b_digest request = zeroDigest
      then Inl (Problem ''admit Intent: complete BoundIntent is required'')
      else
        bindE (preflightAdmission wall capability request before) (\<lambda>found.
        case found of
          Inl replay \<Rightarrow> Inr (replay, s)
        | Inr checks \<Rightarrow>
            commitAdmission wall' eventEntropy handlingEntropy capability request
              (verifyAdmissionArtifacts artifactVerifier checks) s))"

section \<open>The three ends of an admission\<close>

lemma commitAdmission_cases [consumes 1, case_names replay refused accepted]:
  assumes "commitAdmission wall eventEntropy handlingEntropy capability request failed s = Inr (result, t)"
  obtains (replay) a where "authenticateAttachmentTx capability s = Inr a"
      "operationReplayTx (att_principal (aa_value a)) request s = Inr (Some result)" "t = s"
  | (refused) a r where "authenticateAttachmentTx capability s = Inr a"
      "operationReplayTx (att_principal (aa_value a)) request s = Inr None" "requireBoundAttachment a request = Inr ()"
      "freshAdmissionRejectionTx a request failed wall s = Inr (Some r)"
      "persistRejectionTx (att_principal (aa_value a)) request (rej_code r) (rej_diagnostic r) wall s = Inr (result, t)"
  | (accepted) a eventID handlingIDs where "authenticateAttachmentTx capability s = Inr a"
      "operationReplayTx (att_principal (aa_value a)) request s = Inr None" "requireBoundAttachment a request = Inr ()"
      "freshAdmissionRejectionTx a request failed wall s = Inr None"
      "newEventID eventEntropy = Inr eventID"
      "newHandlingIDs (localTargetCount (b_targets request)) handlingEntropy = Inr handlingIDs"
      "commitAcceptedAdmissionTx (att_principal (aa_value a)) request eventID handlingIDs wall s = Inr (result, t)"
proof -
  obtain a eventID handlingIDs found where a: "authenticateAttachmentTx capability s = Inr a"
    and ids: "newEventID eventEntropy = Inr eventID"
      "newHandlingIDs (localTargetCount (b_targets request)) handlingEntropy = Inr handlingIDs"
    and found: "operationReplayTx (att_principal (aa_value a)) request s = Inr found"
    and rest: "(case found of
       Some result \<Rightarrow> Inr (result, s)
     | None \<Rightarrow>
         bindE (requireBoundAttachment a request) (\<lambda>_.
         bindE (freshAdmissionRejectionTx a request failed wall s) (\<lambda>rejection.
         case rejection of
           Some r \<Rightarrow> persistRejectionTx (att_principal (aa_value a)) request (rej_code r) (rej_diagnostic r) wall s
         | None \<Rightarrow> commitAcceptedAdmissionTx (att_principal (aa_value a)) request eventID handlingIDs wall s))) = Inr (result, t)"
    using assms unfolding commitAdmission_def guards by (auto simp: trustedNow_def split: if_splits)
  show ?thesis
  proof (cases found)
    case None
    then obtain rejection where "requireBoundAttachment a request = Inr ()" "freshAdmissionRejectionTx a request failed wall s = Inr rejection"
      "(case rejection of
           Some r \<Rightarrow> persistRejectionTx (att_principal (aa_value a)) request (rej_code r) (rej_diagnostic r) wall s
         | None \<Rightarrow> commitAcceptedAdmissionTx (att_principal (aa_value a)) request eventID handlingIDs wall s) = Inr (result, t)"
      using rest by (auto simp: guards)
    then show ?thesis using refused accepted a ids found None by (cases rejection) auto
  next
    case (Some x)
    then show ?thesis using replay a found rest by auto
  qed
qed

lemma insert_operation_effect: "insert_operation r s = Some t \<Longrightarrow> t = s\<lparr>operations := operations s @ [r]\<rparr>"
  by (auto simp: insert_operation_def Let_def split: if_splits)

lemma persistRejectionTx_Inr:
  "persistRejectionTx who request label diagnostic now s = Inr (result, t) \<longleftrightarrow>
   (\<exists>receipt. NewRejectedReceipt request label diagnostic now = Inr receipt \<and>
      insert_operation (operationRowOf who receipt []) s = Some t \<and> result = resultFromReceipt receipt False)"
  by (auto simp: persistRejectionTx_def insertOperationTx_def guards)

text \<open>The codes of refusals are labels.\<close>

lemma rejection_labels:
  "label_ok rejectionAttachmentExpired" "label_ok rejectionArtifactUnavailable" "label_ok rejectionStaleView"
  "label_ok rejectionStaleSubject" "label_ok rejectionStaleReference" "label_ok rejectionStaleRoute" "label_ok rejectionResourceBound"
  by code_simp+

definition refusals_named :: "admissionRejection option outcome \<Rightarrow> bool" where
  "refusals_named x \<longleftrightarrow> (case x of Inr (Some r) \<Rightarrow> label_ok (rej_code r) | _ \<Rightarrow> True)"

lemma refusals_named_simps [simp]:
  "refusals_named (Inl e)" "refusals_named (Inr None)" "refusals_named (Inr (reject label d)) = label_ok label"
  by (simp_all add: refusals_named_def reject_def)

lemma refusals_named_bind: "(\<And>y. refusals_named (f y)) \<Longrightarrow> refusals_named (bindE x f)"
  by (cases x) (simp_all add: bindE_def)

lemma refusals_named_orReject: "refusals_named x \<Longrightarrow> refusals_named y \<Longrightarrow> refusals_named (orReject x y)"
  by (cases x) (auto simp: orReject_def refusals_named_def bindE_def split: option.splits)

lemma refusals_named_if: "(c \<Longrightarrow> refusals_named (Inr x)) \<Longrightarrow> (\<not> c \<Longrightarrow> refusals_named (Inr y)) \<Longrightarrow> refusals_named (Inr (if c then x else y))"
  by simp

lemma validateTargetsTx_named: "refusals_named (validateTargetsTx a targets s)"
  by (induction a targets s rule: validateTargetsTx.induct)
    (auto simp: rejection_labels Let_def split: option.splits intro!: refusals_named_bind)

lemma validateCitations_named: "refusals_named (validateCitations seen refs s)"
proof (induction refs arbitrary: seen)
  case (Cons cited refs)
  then show ?case
    by (auto simp: rejection_labels Let_def split: option.splits sum.splits intro!: refusals_named_bind)
qed simp

lemma refusals_named_mutable: "refusals_named (validateMutableAuthorityTx a request now s)"
  unfolding validateMutableAuthorityTx_def
proof (intro refusals_named_orReject refusals_named_bind)
  show "refusals_named (validateIssuedViewTx a request s)"
    by (auto simp: validateIssuedViewTx_def Let_def rejection_labels split: option.splits sum.splits)
  show "refusals_named (validatePeerDeliveryCapacityTx request now s)"
    by (auto simp: validatePeerDeliveryCapacityTx_def Let_def rejection_labels intro: refusals_named_bind)
  show "refusals_named (Inr (validateBoundSubject request claim now))" for claim
    by (auto simp: validateBoundSubject_def Let_def rejection_labels split: option.splits)
  show "refusals_named (if claim = None then rejectIfClaimableTx (att_principal a) s else Inr None)" for claim :: "(projectedClaim \<times> instant) option"
    by (simp add: rejectIfClaimableTx_def rejection_labels)
  have "refusals_named (validateReferenceExpectationTx request s)"
    by (auto simp: validateReferenceExpectationTx_def Let_def rejection_labels split: option.splits intro!: refusals_named_bind)
  then show "refusals_named (validateReferenceReadSetTx request s)"
    by (simp add: validateReferenceReadSetTx_def validateReferenceCitationsTx_def refusals_named_orReject validateCitations_named)
  show "refusals_named (validateHandlingBoundTx (att_principal a) request s)"
    by (auto simp: validateHandlingBoundTx_def Let_def rejection_labels)
  show "refusals_named (Inr (if consequence (b_intent request) = ConsequenceResolveCompleted \<and> length (b_artifacts request) = 0
      then reject rejectionArtifactUnavailable ''completed requires a verified Artifact'' else None))"
    by (simp add: rejection_labels)
qed (rule validateTargetsTx_named)

lemma refusal_label:
  assumes "freshAdmissionRejectionTx a request failed now s = Inr (Some r)"
  shows "label_ok (rej_code r)"
proof -
  have "refusals_named (freshAdmissionRejectionTx a request failed now s)"
    by (auto simp: freshAdmissionRejectionTx_def rejection_labels refusals_named_mutable split: sum.splits)
  then show ?thesis by (simp add: assms refusals_named_def)
qed

section \<open>A recorded operation is answered from its record\<close>

lemma authenticate_same: "attachments t = attachments s \<Longrightarrow> authenticateAttachmentTx capability t = authenticateAttachmentTx capability s"
  by (simp add: authenticateAttachmentTx_def)

lemma operationReplayTx_None:
  assumes "operationReplayTx who request s = Inr None"
  shows "List.find (\<lambda>r. op_actor r = who \<and> op_key r = b_operationKey request) (operations s) = None"
  using assms by (auto simp: operationReplayTx_def Let_def guards split: option.splits sum.splits if_splits)

lemma rejected_receipt:
  assumes "NewRejectedReceipt request label diagnostic now = Inr receipt"
  shows "r_operationKey receipt = b_operationKey request" "r_requestDigest receipt = b_digest request"
    "r_outcome receipt = ReceiptOutcomeRejected" "r_event receipt = zeroEventRef"
  using assms unfolding NewRejectedReceipt_def newReceipt_def Let_def
  by (auto simp: guards split: if_splits sum.splits)

lemma ParseDigest_digestString:
  "length d = 32 \<Longrightarrow> d \<noteq> zeroDigest \<Longrightarrow> ParseDigest (digestString d) = Inr d"
  "\<exists>e. ParseDigest (digestString zeroDigest) = Inl e"
  by (simp add: ParseDigest_Inr digest_ok_def)
    (cases "ParseDigest (digestString zeroDigest)"; simp add: ParseDigest_Inr digest_ok_def)

text \<open>The answer of a record to a request under its key.\<close>

definition recordedAnswer :: "Receipt \<Rightarrow> BoundIntent \<Rightarrow> AdmissionResult option outcome" where
  "recordedAnswer receipt request =
     (if b_digest request \<noteq> r_requestDigest receipt then Inl ErrOperationConflict
      else if r_digest receipt = zeroDigest then Inl (Problem ''admit Intent: corrupt stored Receipt'')
      else Inr (Some (resultFromReceipt receipt True)))"

lemma recorded_operation:
  assumes "receipt_ok receipt" "validateReplayEventTx receipt (if eventID = [] then None else Some eventID) t = Inr ()"
    "List.find (\<lambda>r. op_actor r = who \<and> op_key r = b_operationKey request) (operations s) = None"
    "operations t = operations s @ operationRowOf who receipt eventID # rows" "r_operationKey receipt = b_operationKey request"
  shows "operationReplayTx who request t = recordedAnswer receipt request"
proof -
  have find: "List.find (\<lambda>r. op_actor r = who \<and> op_key r = b_operationKey request) (operations t) = Some (operationRowOf who receipt eventID)"
    using assms(3-5) by (simp add: find_append operationRowOf_def)
  have len: "length (r_digest receipt) = 32" using assms(1) by (simp add: receipt_ok_def)
  obtain e where zero: "ParseDigest (digestString zeroDigest) = Inl e" using ParseDigest_digestString(2) by blast
  show ?thesis
    using assms(2,5) ParseDigest_digestString(1) [OF len] zero
    by (cases "r_digest receipt = zeroDigest")
      (auto simp: operationReplayTx_def find operationRowOf_def ParseReceiptCanonicalJSON_ok [OF assms(1)] Let_def
        resultFromReceipt_def recordedAnswer_def bindE_def)
qed

text \<open>A repeated request meets its record before anything else but its actor is looked at.\<close>

lemma Admit_recorded:
  assumes "authenticateAttachmentTx capability before = Inr a" "\<not> closed before" "wall \<noteq> zeroTime"
    "operationReplayTx (att_principal (aa_value a)) request before = recordedAnswer receipt request"
    "b_operationKey request \<noteq> []" "b_digest request \<noteq> zeroDigest"
  shows "Admit verifier wall wall' eventEntropy handlingEntropy capability request before s =
    bindE (recordedAnswer receipt request) (\<lambda>answer. Inr (the answer, s))"
proof -
  have "preflightAdmission wall capability request before = bindE (recordedAnswer receipt request) (\<lambda>answer. Inr (Inl (the answer)))"
    using assms by (auto simp: preflightAdmission_def trustedNow_def requireOpen_def require_def bindE_def recordedAnswer_def)
  then show ?thesis using assms(5,6) by (auto simp: Admit_def bindE_def recordedAnswer_def)
qed

lemma refused_admission:
  assumes "commitAdmission wall eventEntropy handlingEntropy capability request failed s = Inr (result, t)"
    "adm_outcome result = ReceiptOutcomeRejected" "\<not> adm_replayed result" "request_ok request"
  obtains a receipt where "authenticateAttachmentTx capability t = Inr a" "receipt_ok receipt" "result = resultFromReceipt receipt False"
    "r_requestDigest receipt = b_digest request" "r_operationKey receipt = b_operationKey request" "r_event receipt = zeroEventRef"
    "t = s\<lparr>operations := operations s @ [operationRowOf (att_principal (aa_value a)) receipt []]\<rparr>"
    "List.find (\<lambda>r. op_actor r = att_principal (aa_value a) \<and> op_key r = b_operationKey request) (operations s) = None"
  using assms(1)
proof (cases rule: commitAdmission_cases)
  case (replay a)
  have "adm_replayed result" using replay(2)
    by (auto simp: operationReplayTx_def Let_def guards split: option.splits sum.splits if_splits)
  then show ?thesis using assms(3) by simp
next
  case (refused a r)
  obtain receipt where receipt: "NewRejectedReceipt request (rej_code r) (rej_diagnostic r) wall = Inr receipt"
    "insert_operation (operationRowOf (att_principal (aa_value a)) receipt []) s = Some t" "result = resultFromReceipt receipt False"
    using refused(5) by (auto simp: persistRejectionTx_Inr)
  note t = insert_operation_effect [OF receipt(2)]
  show ?thesis
    by (rule that [of a receipt])
      (use t refused(1) receipt rejected_receipt [OF receipt(1)] NewRejectedReceipt_ok [OF receipt(1) assms(4) refusal_label [OF refused(4)]]
        operationReplayTx_None [OF refused(2)] authenticate_same [of t s] in simp_all)
next
  case (accepted a eventID handlingIDs)
  have "adm_outcome result = ReceiptOutcomeAccepted"
    using accepted(7) unfolding commitAcceptedAdmissionTx_def guards
    by (auto simp: guards resultFromReceipt_def NewAcceptedReceipt_def newReceipt_def Let_def split: if_splits)
  then show ?thesis using assms(2) by simp
qed

lemma commitAdmission_open: "commitAdmission wall eventEntropy handlingEntropy capability request failed s = Inr r \<Longrightarrow> \<not> closed s"
  by (auto simp: commitAdmission_def requireOpen_def guards)

section \<open>An instance\<close>

text \<open>The store of the claims, with the digest of a credential that can be presented.\<close>

definition credentialStore :: Store where
  "credentialStore = claimStore\<lparr>attachments := map (\<lambda>r. r\<lparr>at_credential := digestString (Sum sampleCredential)\<rparr>) (attachments claimStore)\<rparr>"

definition sampleProof :: AttachmentProof where
  "sampleProof = \<lparr>proof_id = ''attachment:1'', proof_credential = sampleCredential, proof_expires = 900000001000\<rparr>"

definition sampleAttachment :: Attachment where
  "sampleAttachment = \<lparr>att_id = ''attachment:1'', att_principal = ''agent:local'', mayInitiate = True, issuedAt = 1000, expiresAt = 900000001000\<rparr>"

lemma sample_digest: "Sum sampleCredential \<noteq> zeroDigest"
proof -
  have "CHR 0x5E \<noteq> char_of (0 :: nat)" by code_simp
  then have "hd (Sum sampleCredential) \<noteq> hd zeroDigest" by (simp add: Sum_def sampleSum_hd zeroDigest_def)
  then show ?thesis by metis
qed

lemma sample_authenticated: "authenticateAttachmentTx sampleProof credentialStore = Inr \<lparr>aa_value = sampleAttachment, aa_ended = None\<rparr>"
proof -
  have "NewAgentPrincipalID ''agent:local'' = Inr ''agent:local''" by code_simp
  moreover have "NewAttachment ''attachment:1'' ''agent:local'' True 1000 900000001000 = Inr sampleAttachment"
    by (simp add: NewAttachment_def guards canonicalTime_Inr time_ok_def sampleAttachment_def)
  ultimately show ?thesis
    using parseTime_formatTime [OF instance_times(3)] parseTime_formatTime [OF instance_times(5)]
      ParseDigest_digestString(1) [OF length_Sum sample_digest]
    by (simp add: authenticateAttachmentTx_def sampleProof_def credentialStore_def claimStore_def require_def orElse_def wrap_def bindE_def)
qed

lemma mapE_total: "(\<And>x. x \<in> set xs \<Longrightarrow> \<exists>y. f x = Inr y) \<Longrightarrow> \<exists>ys. mapE f xs = Inr ys"
proof (induction xs)
  case (Cons x xs)
  then obtain y ys where "f x = Inr y" "mapE f xs = Inr ys" by (metis list.set_intros)
  then show ?case by (simp add: bindE_def)
qed simp

text \<open>A request that comes when the Attachment has expired.\<close>

lemma sample_refused:
  "\<exists>request result t. commitAdmission 900000001000 (replicate 16 CHR ''x'') (\<lambda>_. replicate 16 CHR ''x'') sampleProof request False credentialStore = Inr (result, t) \<and>
     adm_outcome result = ReceiptOutcomeRejected \<and> \<not> adm_replayed result \<and> request_ok request \<and> b_digest request \<noteq> zeroDigest"
proof -
  obtain b where b: "request_ok b" "b_digest b \<noteq> zeroDigest" using exampleRequest [OF _ exampleRefs_ok] by auto
  define request where "request = b\<lparr>b_attachment := sampleAttachment\<rparr>"
  have "handle_ok ''agent:local''" by code_simp
  then have request: "request_ok request" "b_digest request \<noteq> zeroDigest" "b_attachment request = sampleAttachment"
    using b by (simp_all add: request_def request_ok_def bound_ok_def sampleAttachment_def)
  have key: "b_operationKey request \<noteq> []" using request(1) by (auto simp: request_ok_def bound_ok_def dest: token_okD)
  have wording: "payload_ok ''attachment expired''" "rejectionAttachmentExpired \<noteq> []" by code_simp+
  then have "NewSemanticPayload ''attachment expired'' = Inr ''attachment expired''"
    "canonicalTime ''Receipt recorded time'' 900000001000 = Inr 900000001000"
    by (simp_all add: constructor_Inr canonicalTime_Inr time_ok_def)
  then obtain receipt where receipt: "NewRejectedReceipt request rejectionAttachmentExpired ''attachment expired'' 900000001000 = Inr receipt"
    using request key wording by (auto simp: NewRejectedReceipt_def newReceipt_def MaxDiagnosticBytes_def Let_def bindE_def)
  let ?row = "operationRowOf ''agent:local'' receipt []"
  have row: "insert_operation ?row credentialStore = Some (credentialStore\<lparr>operations := [?row]\<rparr>)"
    using rejected_receipt(3) [OF receipt]
    by (simp add: insert_operation_def operations_ok_def operationRowOf_def credentialStore_def claimStore_def emptyStore_def principal_ids_def outcomeString_def)
  have refusal: "freshAdmissionRejectionTx \<lparr>aa_value = sampleAttachment, aa_ended = None\<rparr> request False 900000001000 credentialStore =
    Inr (reject rejectionAttachmentExpired ''attachment expired'')"
    by (simp add: freshAdmissionRejectionTx_def requireLiveAttachment_def sampleAttachment_def)
  have "\<not> isl (newEventID (replicate 16 CHR ''x''))" "\<not> isl (newHandlingID (replicate 16 CHR ''x''))" by code_simp+
  then obtain eventID handlingID where "newEventID (replicate 16 CHR ''x'') = Inr eventID" "newHandlingID (replicate 16 CHR ''x'') = Inr handlingID"
    using sum.collapse(2) by metis
  moreover obtain hs where "newHandlingIDs (localTargetCount (b_targets request)) (\<lambda>_. replicate 16 CHR ''x'') = Inr hs"
    unfolding newHandlingIDs_def using mapE_total calculation(2) by metis
  moreover have "operationReplayTx ''agent:local'' request credentialStore = Inr None"
    by (simp add: operationReplayTx_def credentialStore_def claimStore_def emptyStore_def)
  moreover have "requireBoundAttachment \<lparr>aa_value = sampleAttachment, aa_ended = None\<rparr> request = Inr ()"
    by (simp add: requireBoundAttachment_def request(3) require_def)
  moreover have "att_principal sampleAttachment = ''agent:local''" "requireOpen credentialStore = Inr ()" "trustedNow 900000001000 = Inr 900000001000"
    by (simp add: sampleAttachment_def, simp add: requireOpen_def require_def credentialStore_def claimStore_def emptyStore_def, code_simp)
  moreover have "persistRejectionTx ''agent:local'' request rejectionAttachmentExpired ''attachment expired'' 900000001000 credentialStore =
    Inr (resultFromReceipt receipt False, credentialStore\<lparr>operations := [?row]\<rparr>)"
    using receipt row by (simp add: persistRejectionTx_Inr)
  ultimately have "commitAdmission 900000001000 (replicate 16 CHR ''x'') (\<lambda>_. replicate 16 CHR ''x'') sampleProof request False credentialStore =
    Inr (resultFromReceipt receipt False, credentialStore\<lparr>operations := [?row]\<rparr>)"
    by (simp add: commitAdmission_def sample_authenticated refusal reject_def bindE_def)
  moreover have "adm_outcome (resultFromReceipt receipt False) = ReceiptOutcomeRejected" "\<not> adm_replayed (resultFromReceipt receipt False)"
    using rejected_receipt(3) [OF receipt] by (simp_all add: resultFromReceipt_def)
  ultimately show ?thesis using request(1,2) by blast
qed

end
