(* ===== verification/Authority_Bounds.thy ===== *)
theory Authority_Bounds
  imports Authority_Admission
begin

text \<open>
  What every admission keeps (\<^verbatim>\<open>internal/agency/authority/admission.go\<close>, \<^verbatim>\<open>admission_validate.go\<close>,
  \<^verbatim>\<open>admission_apply.go\<close>, \<^verbatim>\<open>peer_delivery_outbox.go\<close>): the invariants of the claims and of the References, and
  the two bounds on what Intents may leave behind, 64 open Handlings of a Principal and 64 pending deliveries.
\<close>

section \<open>Counting rows\<close>

lemma matching_simps [simp]:
  "matching P [] = 0" "matching P (r # rs) = (if P r then 1 else 0) + matching P rs" "matching P (xs @ ys) = matching P xs + matching P ys"
  by (simp_all add: matching_def)

lemma matching_le: "matching P rows \<le> length rows"
  by (simp add: matching_def)

lemma matching_update_where: "matching Q (update_where P f rows) = matching (\<lambda>r. if P r then Q (f r) else Q r) rows"
  by (induction rows) (auto simp: update_where_def)

lemma matching_split: "matching (\<lambda>r. \<not> P r \<and> Q r) rows + matching (\<lambda>r. P r \<and> Q r) rows = matching Q rows"
  by (induction rows) auto

lemma matching_cong: "(\<And>r. r \<in> set rows \<Longrightarrow> P r = Q r) \<Longrightarrow> matching P rows = matching Q rows"
  by (induction rows) auto

definition open_handlings :: "AgentPrincipalID \<Rightarrow> Store \<Rightarrow> nat" where
  "open_handlings who s = matching (\<lambda>r. ha_target r = who \<and> ha_state r = ''open'') (handlings s)"

definition pending_deliveries :: "instant \<Rightarrow> Store \<Rightarrow> nat" where
  "pending_deliveries now s = matching (\<lambda>r. ob_state r = ''pending'' \<and> formatTime now < ob_expires r) (peer_outbox s)"

section \<open>The effects, counted\<close>

lemma createSuccessors_open:
  "createSuccessors event targets hs s = Inr t \<Longrightarrow>
   open_handlings p t = open_handlings p s + length (filter (\<lambda>x. destination x = TargetDestinationLocal \<and> localPrincipal x = p) targets)"
proof (induction event targets hs s rule: createSuccessors.induct)
  case (2 event target targets hs s)
  show ?case
  proof (cases "destination target = TargetDestinationRemote")
    case True
    then show ?thesis using 2 by simp
  next
    case False
    obtain h gs u where hs: "hs = h # gs" "destination target = TargetDestinationLocal" "localPrincipal target \<noteq> []"
      and u: "insert_handling (successorRow event target h) s = Some u" "createSuccessors event targets gs u = Inr t"
      using False 2(3) by (auto simp: guards split: if_splits list.splits)
    have "u = s\<lparr>handlings := handlings s @ [successorRow event target h]\<rparr>"
      using u(1) by (auto simp: insert_handling_def Let_def split: if_splits)
    then have "open_handlings p u = open_handlings p s + (if localPrincipal target = p then 1 else 0)"
      by (simp add: open_handlings_def successorRow_def)
    then show ?thesis using 2(2) [OF False _ hs(1) u(2)] hs(2,3) by simp
  qed
qed simp

lemma created_open:
  assumes "createSuccessorHandlingsTx event hs s = Inr t"
    "\<And>x. x \<in> set (e_targets event) \<Longrightarrow> destination x = TargetDestinationLocal \<Longrightarrow> localPrincipal x = who"
  shows "open_handlings p t = open_handlings p s + (if p = who then localTargetCount (e_targets event) else 0)"
proof -
  have "filter (\<lambda>x. destination x = TargetDestinationLocal \<and> localPrincipal x = p) (e_targets event) =
      (if p = who then filter (\<lambda>x. destination x = TargetDestinationLocal) (e_targets event) else [])"
    using assms(2) by (auto simp: filter_empty_conv intro: filter_cong)
  then show ?thesis
    using createSuccessors_open [of event "e_targets event" hs s t p] assms(1)
    by (simp add: createSuccessorHandlingsTx_def localTargetCount_def split: if_splits)
qed

lemma settled_open:
  assumes "settleSubjectTx event a newState result s = Inr t" "store_ok s"
    "\<And>r. r \<in> set (handlings s) \<Longrightarrow> ha_claim r = Some a \<Longrightarrow> ha_target r = who"
  shows "open_handlings p t + (if p = who \<and> newState \<noteq> ''open'' then 1 else 0) = open_handlings p s"
proof -
  obtain subject where "matching (settles subject a) (handlings s) = 1"
    and t: "t = s\<lparr>handlings := update_where (settles subject a)
       (\<lambda>r. r\<lparr>ha_head := e_id event, ha_state := newState, ha_outcome := (if result = [] then None else Some result),
              ha_claim := None, ha_until := None\<rparr>) (handlings s)\<rparr>"
    using settleSubjectTx_effect [OF assms(1,2)] by blast
  let ?P = "settles subject a" and ?Q = "\<lambda>r. ha_target r = p \<and> ha_state r = ''open''"
  have row: "?P r \<Longrightarrow> ha_target r = who \<and> ha_state r = ''open''" if "r \<in> set (handlings s)" for r
    using assms(3) [OF that] by (simp add: settles_def)
  have count: "open_handlings p t = matching (\<lambda>r. if ?P r then ha_target r = p \<and> newState = ''open'' else ?Q r) (handlings s)"
    by (simp add: t open_handlings_def matching_update_where)
  show ?thesis
  proof (cases "newState = ''open''")
    case True
    have "open_handlings p t = open_handlings p s"
      unfolding count unfolding open_handlings_def by (rule matching_cong) (use row True in auto)
    then show ?thesis using True by simp
  next
    case False
    have "open_handlings p t = matching (\<lambda>r. \<not> ?P r \<and> ?Q r) (handlings s)"
      unfolding count by (rule matching_cong) (use False in auto)
    moreover have "matching (\<lambda>r. ?P r \<and> ?Q r) (handlings s) = (if p = who then matching ?P (handlings s) else matching (\<lambda>_. False) (handlings s))"
      using row by (auto intro!: matching_cong)
    moreover have "matching (\<lambda>_. False) (handlings s) = 0" by (simp add: matching_def)
    moreover have "open_handlings p s = matching ?Q (handlings s)" by (simp only: open_handlings_def)
    ultimately show ?thesis
      using matching_split [of ?P ?Q "handlings s"] \<open>matching ?P (handlings s) = 1\<close> False by (cases "p = who") simp_all
  qed
qed

lemma deliverTargets_effect:
  "deliverTargets event reply now targets s = Inr t \<Longrightarrow> store_ok s \<Longrightarrow>
   store_ok t \<and> grows s t \<and> (\<exists>rows. t = s\<lparr>peer_outbox := peer_outbox s @ rows\<rparr> \<and> length rows = remoteTargetCount targets)"
proof (induction event reply now targets s rule: deliverTargets.induct)
  case (1 event reply now s)
  then show ?case by (intro conjI exI [of _ "[]"]) (simp_all add: remoteTargetCount_def)
next
  case (2 event reply now target targets s)
  show ?case
  proof (cases "destination target = TargetDestinationRemote")
    case False
    then show ?thesis using 2 by (simp add: remoteTargetCount_def)
  next
    case True
    obtain route delivery u where route: "peerRouteByIDTx (remoteRoute target) s = Inr (Some route)"
      "\<not> (\<not> rp_active route \<or> rs_remoteAlias route \<noteq> remoteAlias target)"
      "NewPeerDelivery (rs_route route) (deliverySpecOf event route now) = Inr delivery"
      and u: "insert_outbox (outboxRowOf event route reply delivery now) s = Some u" "deliverTargets event reply now targets u = Inr t"
      using True 2(3) by (auto simp: guards split: if_splits option.splits)
    have k: "store_ok u" "grows s u" "u = s\<lparr>peer_outbox := peer_outbox s @ [outboxRowOf event route reply delivery now]\<rparr>"
      using insert_keeps(9) [OF 2(4) u(1)] u(1) by (auto simp: insert_outbox_def Let_def split: if_splits)
    then obtain rows where "store_ok t" "grows u t" "t = u\<lparr>peer_outbox := peer_outbox u @ rows\<rparr>" "length rows = remoteTargetCount targets"
      using 2(2) [OF _ route(2) u(2) k(1)] True by auto
    then show ?thesis
      using k(2,3) grows_trans [of s u t] True
      by (intro conjI exI [of _ "outboxRowOf event route reply delivery now # rows"]) (auto simp: remoteTargetCount_def)
  qed
qed

section \<open>An effect, counted\<close>

definition resolves :: "Consequence \<Rightarrow> bool" where
  "resolves c \<longleftrightarrow> c \<in> {ConsequenceResolveCompleted, ConsequenceResolveDeclined, ConsequenceResolveUnresolved}"

text \<open>By how many the open Handlings of the actor may grow.\<close>

definition growth :: "Consequence \<Rightarrow> ResolvedTarget list \<Rightarrow> int" where
  "growth c targets = (if referenceBound c then 0 else int (localTargetCount targets) - (if resolves c then 1 else 0))"

lemma subject_then_successors:
  assumes "bindE (settleSubjectTx event a newState result s) (createSuccessorHandlingsTx event hs) = Inr t" "store_ok s"
    "\<And>r. r \<in> set (handlings s) \<Longrightarrow> ha_claim r = Some a \<Longrightarrow> ha_target r = who"
    "\<And>x. x \<in> set (e_targets event) \<Longrightarrow> destination x = TargetDestinationLocal \<Longrightarrow> localPrincipal x = who"
  shows "int (open_handlings p t) = int (open_handlings p s) +
    (if p = who then int (localTargetCount (e_targets event)) - (if newState = ''open'' then 0 else 1) else 0)"
proof -
  obtain u where "settleSubjectTx event a newState result s = Inr u" "createSuccessorHandlingsTx event hs u = Inr t"
    using assms(1) by (auto simp: bindE_Inr)
  then show ?thesis
    using settled_open [of event a newState result s u who p] created_open [of event hs u t who p] assms(2-4) by (auto split: if_splits)
qed

lemma effect_open:
  assumes "applyDomainEffectTx event a hs s = Inr t" "store_ok s"
    "\<And>r. r \<in> set (handlings s) \<Longrightarrow> ha_claim r = Some a \<Longrightarrow> ha_target r = who"
    "\<And>x. x \<in> set (e_targets event) \<Longrightarrow> destination x = TargetDestinationLocal \<Longrightarrow> localPrincipal x = who"
  shows "int (open_handlings p t) \<le> int (open_handlings p s) + (if p = who then growth (e_consequence event) (e_targets event) else 0)"
proof -
  have refs: ?thesis if "t = referenceAppended li f s" "referenceBound (e_consequence event)" for li f
    using that by (simp add: open_handlings_def referenceAppended_def growth_def)
  have settle: "int (open_handlings p t) = int (open_handlings p s) +
    (if p = who then int (localTargetCount (e_targets event)) - (if newState = ''open'' then 0 else 1) else 0)"
    if "bindE (settleSubjectTx event a newState result s) (createSuccessorHandlingsTx event hs) = Inr t" for newState result
    using subject_then_successors [OF that assms(2)] assms(3,4) by blast
  show ?thesis
  proof (cases "e_consequence event")
    case ConsequenceCreateHandlings
    then show ?thesis
      using assms(1) created_open [of event hs s t who p] assms(4)
      by (auto simp: applyDomainEffectTx_def growth_def resolves_def referenceBound_iff)
  next
    case ConsequenceAdvanceHandling
    then have "bindE (settleSubjectTx event a ''open'' [] s) (createSuccessorHandlingsTx event hs) = Inr t"
      using assms(1) by (simp add: applyDomainEffectTx_def)
    from settle [OF this] show ?thesis using ConsequenceAdvanceHandling by (simp add: growth_def resolves_def referenceBound_iff)
  next
    case ConsequenceResolveCompleted
    then have "bindE (settleSubjectTx event a ''terminal'' ''completed'' s) (createSuccessorHandlingsTx event hs) = Inr t"
      using assms(1) by (simp add: applyDomainEffectTx_def)
    from settle [OF this] show ?thesis using ConsequenceResolveCompleted by (simp add: growth_def resolves_def referenceBound_iff)
  next
    case ConsequenceResolveDeclined
    then have "bindE (settleSubjectTx event a ''terminal'' ''declined'' s) (createSuccessorHandlingsTx event hs) = Inr t"
      using assms(1) by (simp add: applyDomainEffectTx_def)
    from settle [OF this] show ?thesis using ConsequenceResolveDeclined by (simp add: growth_def resolves_def referenceBound_iff)
  next
    case ConsequenceResolveUnresolved
    then have "bindE (settleSubjectTx event a ''terminal'' ''unresolved'' s) (createSuccessorHandlingsTx event hs) = Inr t"
      using assms(1) by (simp add: applyDomainEffectTx_def)
    from settle [OF this] show ?thesis using ConsequenceResolveUnresolved by (simp add: growth_def resolves_def referenceBound_iff)
  next
    case ConsequencePublishReference
    then have "publishReferenceTx event s = Inr t" using assms(1) by (simp add: applyDomainEffectTx_def)
    then show ?thesis by (rule publishReferenceTx_effect [OF _ assms(2)]) (erule refs, simp add: ConsequencePublishReference referenceBound_iff)
  next
    case ConsequenceSupersedeReference
    then have "supersedeReferenceTx event s = Inr t" using assms(1) by (simp add: applyDomainEffectTx_def)
    then show ?thesis by (rule supersedeReferenceTx_effect [OF _ assms(2)]) (erule refs, simp add: ConsequenceSupersedeReference referenceBound_iff)
  next
    case ConsequenceRetractReference
    then have "retractReferenceTx event s = Inr t" using assms(1) by (simp add: applyDomainEffectTx_def)
    then show ?thesis by (rule retractReferenceTx_effect [OF _ assms(2)]) (erule refs, simp add: ConsequenceRetractReference referenceBound_iff)
  qed (use assms(1) in \<open>auto simp: applyDomainEffectTx_def growth_def resolves_def referenceBound_iff split: if_splits\<close>)
qed

section \<open>What the validation promises\<close>

lemma orReject_None: "orReject x y = Inr None \<longleftrightarrow> x = Inr None \<and> y = Inr None"
  by (cases x) (auto simp: orReject_def bindE_def split: option.splits)

lemma validated:
  assumes "freshAdmissionRejectionTx a request failed now s = Inr None"
  shows "validateTargetsTx (aa_value a) (b_targets request) s = Inr None" "validatePeerDeliveryCapacityTx request now s = Inr None"
    "validateHandlingBoundTx (att_principal (aa_value a)) request s = Inr None"
proof -
  have "validateMutableAuthorityTx (aa_value a) request now s = Inr None"
    using assms by (auto simp: freshAdmissionRejectionTx_def reject_def split: sum.splits if_splits)
  then show "validateTargetsTx (aa_value a) (b_targets request) s = Inr None" "validatePeerDeliveryCapacityTx request now s = Inr None"
    "validateHandlingBoundTx (att_principal (aa_value a)) request s = Inr None"
    unfolding validateMutableAuthorityTx_def orReject_None bindE_Inr by auto
qed

lemma validated_targets:
  "validateTargetsTx a targets s = Inr None \<Longrightarrow> x \<in> set targets \<Longrightarrow> destination x = TargetDestinationLocal \<Longrightarrow> localPrincipal x = att_principal a"
  by (induction a targets s rule: validateTargetsTx.induct) (auto simp: reject_def bindE_Inr Let_def split: if_splits option.splits)

lemma validated_growth:
  assumes "validateHandlingBoundTx who request s = Inr None" "open_handlings who s \<le> 64"
  shows "int (open_handlings who s) + growth (consequence (b_intent request)) (b_targets request) \<le> 64"
  using assms
  by (auto simp: validateHandlingBoundTx_def growth_def resolves_def referenceBound_iff open_handlings_def reject_def
      MaxOpenHandlingsPerPrincipal_def Let_def split: if_splits)

lemma validated_capacity:
  assumes "validatePeerDeliveryCapacityTx request now s = Inr None" "pending_deliveries now s \<le> 64"
  shows "pending_deliveries now s + remoteTargetCount (b_targets request) \<le> 64"
  using assms
  by (auto simp: validatePeerDeliveryCapacityTx_def pending_deliveries_def reject_def MaxPendingPeerDeliveries_def bindE_Inr Let_def split: if_splits)

section \<open>An accepted admission\<close>

lemma NewEvent_fields:
  "NewEvent request stamp = Inr event \<Longrightarrow> e_targets event = b_targets request \<and> e_consequence event = consequence (b_intent request)"
  unfolding NewEvent_def guards by (auto simp: sealEvent_Inr eventOf_def)

lemma accepted_steps:
  assumes "commitAcceptedAdmissionTx who request eventID hs now s = Inr (result, t)"
  obtains event v reply w row where
    "admitEffectTx event (att_id (b_attachment request)) hs (s\<lparr>origin_sequence := origin_sequence s + 1\<rparr>) = Inr v"
    "deliverTargets event reply now (e_targets event) v = Inr w" "insert_operation row w = Some t"
    "e_targets event = b_targets request" "e_consequence event = consequence (b_intent request)"
  using assms NewEvent_fields
  unfolding commitAcceptedAdmissionTx_def commitDomainAdmissionTx_def newDomainEventTx_def nextOriginSequenceTx_def
    insertPeerDeliveriesTx_def insertOperationTx_def Let_def
  by (auto simp: guards split_paired_Ex split: if_splits)

text \<open>The counter of origin sequences is in no constraint.\<close>

lemma sequence_irrelevant:
  "store_ok s \<Longrightarrow> store_ok (s\<lparr>origin_sequence := n\<rparr>)"
  using store_keepI [of s "s\<lparr>origin_sequence := n\<rparr>"] by (simp add: store_ok_def grows_def ids_defs)

text \<open>An effect queues no delivery, and it touches neither the inbox nor the record of operations.\<close>

lemma effect_outbox:
  assumes "applyDomainEffectTx event a hs s = Inr t" "store_ok s"
  shows "peer_outbox t = peer_outbox s \<and> peer_inbox t = peer_inbox s \<and> operations t = operations s"
  using assms(1)
proof (cases rule: applyDomainEffectTx_cases)
  case create
  then show ?thesis using createSuccessorHandlingsTx_effect [OF create(1) assms(2)] by auto
next
  case (settle newState result)
  then obtain u where u: "settleSubjectTx event a newState result s = Inr u" "createSuccessorHandlingsTx event hs u = Inr t"
    by (auto simp: bindE_Inr)
  have "store_ok u" "peer_outbox u = peer_outbox s" "peer_inbox u = peer_inbox s" "operations u = operations s" by (rule settleSubjectTx_effect [OF u(1) assms(2)], simp)+
  then show ?thesis using createSuccessorHandlingsTx_effect [OF u(2)] by auto
next
  case publish
  show ?thesis by (rule publishReferenceTx_effect [OF publish(1) assms(2)]) (simp add: referenceAppended_def)
next
  case supersede
  show ?thesis by (rule supersedeReferenceTx_effect [OF supersede(1) assms(2)]) (simp add: referenceAppended_def)
next
  case retract
  show ?thesis by (rule retractReferenceTx_effect [OF retract(1) assms(2)]) (simp add: referenceAppended_def)
qed simp

text \<open>What an admission keeps.\<close>

definition admission_inv :: "instant \<Rightarrow> Store \<Rightarrow> bool" where
  "admission_inv now s \<longleftrightarrow> claims_inv s \<and> references_inv s \<and> (\<forall>p. open_handlings p s \<le> 64) \<and> pending_deliveries now s \<le> 64"

lemma admission_inv_tail:
  assumes "admission_inv now s" "store_ok t" "attachments t = attachments s" "handlings t = handlings s" "claim_dispositions t = claim_dispositions s"
    "reference_lineage t = reference_lineage s" "active_references t = active_references s" "pending_deliveries now t \<le> 64"
  shows "admission_inv now t"
  using assms claims_inv_same [of s t] references_same [of t s] by (simp add: admission_inv_def open_handlings_def)

lemma recorded_inv:
  assumes "insert_operation row s = Some t" "admission_inv now s"
  shows "admission_inv now t"
proof -
  have "store_ok t" using insert_keeps(10) [OF _ assms(1)] assms(2) by (auto simp: admission_inv_def claims_inv_def)
  then show ?thesis
    using admission_inv_tail [OF assms(2), of t] insert_operation_effect [OF assms(1)] assms(2)
    by (simp add: admission_inv_def pending_deliveries_def)
qed

lemma claimed_target:
  assumes "claims_inv s" "authenticateAttachmentTx capability s = Inr a" "r \<in> set (handlings s)" "ha_claim r = Some (att_id (aa_value a))"
  shows "ha_target r = att_principal (aa_value a)"
proof -
  obtain b where b: "b \<in> set (attachments s)" "at_id b = att_id (aa_value a)" "at_principal b = ha_target r"
    using assms(1,3,4) by (fastforce simp: claims_inv_def claim_ok_def)
  obtain c where c: "c \<in> set (attachments s)" "at_id c = att_id (aa_value a)" "at_principal c = att_principal (aa_value a)"
    using authenticated [OF assms(2)] by blast
  have "b = c" using attachment_unique [OF _ b(1) c(1)] assms(1) b(2) c(2) by (simp add: claims_inv_def)
  then show ?thesis using b(3) c(3) by simp
qed

lemma effect_inv:
  assumes "admitEffectTx event (att_id (aa_value a)) hs s = Inr t" "admission_inv now s" "authenticateAttachmentTx capability s = Inr a"
    "\<And>x. x \<in> set (e_targets event) \<Longrightarrow> destination x = TargetDestinationLocal \<Longrightarrow> localPrincipal x = att_principal (aa_value a)"
    "int (open_handlings (att_principal (aa_value a)) s) + growth (e_consequence event) (e_targets event) \<le> 64"
  shows "admission_inv now t \<and> pending_deliveries now t = pending_deliveries now s"
proof -
  have ok: "store_ok s" "claims_inv s" "references_inv s" using assms(2) by (simp_all add: admission_inv_def claims_inv_def)
  obtain u where u: "insertEventTx event s = Inr u" "applyDomainEffectTx event (att_id (aa_value a)) hs u = Inr t"
    using assms(1) by (auto simp: admitEffectTx_def bindE_Inr)
  obtain xs where ue: "store_ok u" "u = s\<lparr>events := events s @ [eventRowOf event], event_artifacts := event_artifacts s @ xs\<rparr>"
    using insertEventTx_effect [OF u(1) ok(1)] by blast
  have "open_handlings p t \<le> 64" for p
  proof -
    have "int (open_handlings p t) \<le> int (open_handlings p u) + (if p = att_principal (aa_value a) then growth (e_consequence event) (e_targets event) else 0)"
      by (rule effect_open [OF u(2) ue(1)]) (use claimed_target [OF ok(2) assms(3)] assms(4) ue(2) in simp_all)
    moreover have "open_handlings p u = open_handlings p s" by (simp add: ue(2) open_handlings_def)
    moreover have "open_handlings p s \<le> 64" using assms(2) by (simp add: admission_inv_def)
    ultimately show ?thesis using assms(5) by (cases "p = att_principal (aa_value a)") simp_all
  qed
  moreover have "references_inv t"
    using applied_references [OF u(2) ue(1)] references_same [of u s] ok(3) ue(2) by simp
  moreover have "peer_outbox t = peer_outbox s" using effect_outbox [OF u(2) ue(1)] ue(2) by simp
  ultimately show ?thesis
    using claims_inv_admitted [OF assms(1) ok(2)] assms(2) by (simp add: admission_inv_def pending_deliveries_def)
qed

lemma delivered_inv:
  assumes "deliverTargets event reply now targets s = Inr t" "admission_inv now s" "pending_deliveries now s + remoteTargetCount targets \<le> 64"
  shows "admission_inv now t"
proof -
  have "store_ok s" using assms(2) by (simp add: admission_inv_def claims_inv_def)
  then obtain rows where t: "store_ok t" "t = s\<lparr>peer_outbox := peer_outbox s @ rows\<rparr>" "length rows = remoteTargetCount targets"
    using deliverTargets_effect [OF assms(1)] by blast
  have "pending_deliveries now t \<le> pending_deliveries now s + length rows"
    using matching_le [of _ rows] by (simp add: t(2) pending_deliveries_def)
  then show ?thesis using admission_inv_tail [OF assms(2) t(1)] t(2,3) assms(3) by simp
qed

text \<open>
  (C2) Every admission of an Intent, whether it ends in a replay, a refusal or an Event, keeps the claims with
  their live boundaries and the References with their lineage, and it keeps both bounds: when no Principal had
  more than 64 open Handlings and no more than 64 deliveries were pending, that still holds. The Handling an
  Event resolves makes room for one successor.
\<close>

theorem admission_keeps_bounds:
  assumes "commitAdmission wall eventEntropy handlingEntropy capability request failed s = Inr (result, t)" "admission_inv wall s"
  shows "admission_inv wall t"
  using assms(1)
proof (cases rule: commitAdmission_cases)
  case (replay a)
  then show ?thesis using assms(2) by simp
next
  case (refused a r)
  then show ?thesis using recorded_inv assms(2) by (auto simp: persistRejectionTx_Inr)
next
  case (accepted a eventID hs)
  let ?who = "att_principal (aa_value a)" and ?s = "s\<lparr>origin_sequence := origin_sequence s + 1\<rparr>"
  obtain event v reply w row where steps: "admitEffectTx event (att_id (b_attachment request)) hs ?s = Inr v"
    "deliverTargets event reply wall (e_targets event) v = Inr w" "insert_operation row w = Some t"
    "e_targets event = b_targets request" "e_consequence event = consequence (b_intent request)"
    using accepted_steps [OF accepted(7)] by blast
  have att: "att_id (b_attachment request) = att_id (aa_value a)"
    using accepted(3) by (auto simp: requireBoundAttachment_def require_def Let_def split: if_splits)
  have inv: "admission_inv wall ?s"
    by (rule admission_inv_tail [OF assms(2) sequence_irrelevant]) (use assms(2) in \<open>simp_all add: admission_inv_def claims_inv_def pending_deliveries_def\<close>)
  note valid = validated [OF accepted(4)]
  have growth: "int (open_handlings ?who ?s) + growth (e_consequence event) (e_targets event) \<le> 64"
    using validated_growth [OF valid(3)] assms(2) by (simp add: steps(4,5) admission_inv_def open_handlings_def)
  have "admission_inv wall v \<and> pending_deliveries wall v = pending_deliveries wall ?s"
    by (rule effect_inv [OF steps(1) [unfolded att] inv _ _ growth])
      (use accepted(1) authenticate_same [of ?s s] validated_targets [OF valid(1)] steps(4) in auto)
  moreover have "pending_deliveries wall ?s + remoteTargetCount (e_targets event) \<le> 64"
    using validated_capacity [OF valid(2)] assms(2) by (simp add: steps(4) admission_inv_def pending_deliveries_def)
  ultimately show ?thesis using delivered_inv [OF steps(2)] recorded_inv [OF steps(3)] by simp
qed

section \<open>An instance\<close>

lemma hex_encode_text: "list_all (\<lambda>c. c \<in> set ''0123456789abcdef'') (hex_encode bs)"
proof (induction bs)
  case (Cons b bs)
  have "\<forall>n \<in> set [0..<16]. hex_digit n \<in> set ''0123456789abcdef''" by code_simp
  moreover have "code b < 256" by simp
  then have "code b div 16 < 16" by linarith
  then have "code b div 16 \<in> set [0..<16]" "code b mod 16 \<in> set [0..<16]" by auto
  ultimately have "hex_digit (code b div 16) \<in> set ''0123456789abcdef''" "hex_digit (code b mod 16) \<in> set ''0123456789abcdef''" by blast+
  then show ?case using Cons by simp
qed simp

lemma digest_text_digestString:
  assumes "digest_ok d"
  shows "digest_text (digestString d)"
proof -
  have "digestString zeroDigest = ''sha256:'' @ replicate 64 CHR ''0''" by code_simp
  then show ?thesis
    using assms hex_encode_text [of d] digestString_inject [of d zeroDigest] unfolding digest_text_def digest_ok_def by (simp add: digestString_def)
qed

lemma credentialStore_inv: "admission_inv 900000001000 credentialStore"
proof -
  have "digest_text (digestString (Sum sampleCredential))"
    using digest_text_digestString sample_digest by (simp add: digest_ok_def)
  then have "store_ok credentialStore"
    using instance_digests(2) formatTime_order(1) [OF instance_times(3,5)]
    by (simp add: store_ok_def credentialStore_def claimStore_def emptyStore_def heldHandling_def principals_ok_def attachments_ok_def
        attachment_check_def principal_ids_def artifacts_ok_def events_ok_def event_artifacts_ok_def routes_ok_def outbox_ok_def
        inbox_ok_def operations_ok_def currents_ok_def handlings_ok_def handling_check_def event_ids_def attachment_ids_def
        dispositions_ok_def references_ok_def lineage_ok_def List.map_filter_def)
  moreover have "claims_inv credentialStore = store_ok credentialStore"
    by (simp add: claims_inv_def claim_ok_def boundary_ends_def) (simp add: credentialStore_def claimStore_def heldHandling_def emptyStore_def)
  moreover have "references_inv credentialStore"
    by (simp add: references_inv_def lineage_of_def credentialStore_def claimStore_def emptyStore_def)
  moreover have "open_handlings p credentialStore \<le> 64" for p
    by (simp add: open_handlings_def credentialStore_def claimStore_def emptyStore_def)
  moreover have "pending_deliveries 900000001000 credentialStore \<le> 64"
    by (simp add: pending_deliveries_def credentialStore_def claimStore_def emptyStore_def)
  ultimately show ?thesis by (simp add: admission_inv_def)
qed

theorem admission_keeps_bounds_witness:
  "\<exists>request result t. commitAdmission 900000001000 (replicate 16 CHR ''x'') (\<lambda>_. replicate 16 CHR ''x'') sampleProof request False credentialStore =
     Inr (result, t) \<and> open_handlings ''agent:local'' t = 2 \<and> admission_inv 900000001000 t"
proof -
  obtain request result t where r: "commitAdmission 900000001000 (replicate 16 CHR ''x'') (\<lambda>_. replicate 16 CHR ''x'') sampleProof request False credentialStore = Inr (result, t)"
    "adm_outcome result = ReceiptOutcomeRejected" "\<not> adm_replayed result" "request_ok request"
    using sample_refused by blast
  obtain row where "t = credentialStore\<lparr>operations := operations credentialStore @ [row]\<rparr>"
    by (rule refused_admission [OF r])
  then have "open_handlings ''agent:local'' t = 2"
    by (simp add: open_handlings_def credentialStore_def claimStore_def heldHandling_def)
  then show ?thesis using r(1) admission_keeps_bounds [OF r(1) credentialStore_inv] by blast
qed

end
