(* ===== verification/Authority_Peer.thy ===== *)
theory Authority_Peer
  imports Authority_Bounds
begin

text \<open>
  Deliveries of peers (\<^verbatim>\<open>internal/agency/authority/peer_delivery_inbox.go\<close>, \<^verbatim>\<open>peer_delivery_admission.go\<close>,
  \<^verbatim>\<open>peer_terminal_reply_admission.go\<close>, \<^verbatim>\<open>peer_delivery_projection.go\<close>): an envelope is authenticated and staged, and
  later admitted, refused or expired, under the route it came in on; a terminal reply is admitted only
  against the delivery it answers. And the enumeration of open Handlings every View is made with
  (\<^verbatim>\<open>loadOpenHeadsTx\<close> of \<^verbatim>\<open>current_focus.go\<close>).

  An error of another operation passes through under a longer text; the model keeps the error. The
  verification of a signature is the argument \<open>verify\<close>.
\<close>

section \<open>The inbox\<close>

definition insert_inbox :: "inboxRow \<Rightarrow> Store \<Rightarrow> Store option" where
  "insert_inbox r s =
     (let rows = peer_inbox s @ [r] in if inbox_ok s rows then Some (s\<lparr>peer_inbox := rows\<rparr>) else None)"

definition update_inbox :: "(inboxRow \<Rightarrow> bool) \<Rightarrow> (inboxRow \<Rightarrow> inboxRow) \<Rightarrow> Store \<Rightarrow> (Store \<times> nat) option" where
  "update_inbox P f s =
     (let rows = update_where P f (peer_inbox s)
      in if inbox_ok s rows then Some (s\<lparr>peer_inbox := rows\<rparr>, matching P (peer_inbox s)) else None)"

definition MaxStagedPeerDeliveries :: nat where "MaxStagedPeerDeliveries = 64"

definition peerRouteByRemotePeerTx :: "OpaqueHandle \<Rightarrow> Store \<Rightarrow> PeerRouteProjection option outcome" where
  "peerRouteByRemotePeerTx remotePeer s =
     (case List.find (\<lambda>r. ro_peer r = remotePeer) (peer_routes s) of
        None \<Rightarrow> Inr None
      | Some row \<Rightarrow> bindE (scanPeerRoute row) (\<lambda>route. Inr (Some route)))"

definition routeForInboxTx :: "DeliveryID \<Rightarrow> Store \<Rightarrow> PeerRouteProjection option outcome" where
  "routeForInboxTx deliveryID s =
     (case List.find (\<lambda>r. ib_id r = deliveryString deliveryID) (peer_inbox s) of
        None \<Rightarrow> Inr None
      | Some r \<Rightarrow>
          bindE (orElse (Problem ''peer inbox: corrupt RouteID'') (NewRouteID (ib_route r))) (\<lambda>routeID.
          peerRouteByIDTx routeID s))"

definition peerInboxReplyValue :: "PeerDelivery \<Rightarrow> string option" where
  "peerInboxReplyValue delivery =
     (if pd_inReplyTo delivery = zeroDigest then None else Some (deliveryString (pd_inReplyTo delivery)))"

definition peerInboxSignatureMatchesTx :: "DeliveryID \<Rightarrow> RouteID \<Rightarrow> bytes \<Rightarrow> Store \<Rightarrow> bool" where
  "peerInboxSignatureMatchesTx deliveryID routeID signature s =
     (case List.find (\<lambda>r. ib_id r = deliveryString deliveryID) (peer_inbox s) of
        None \<Rightarrow> False | Some r \<Rightarrow> ib_route r = routeID \<and> ib_signature r = signature)"

text \<open>The row of a fresh delivery in its three states.\<close>

definition stagedRow :: "PeerRouteProjection \<Rightarrow> PeerDelivery \<Rightarrow> bytes \<Rightarrow> instant \<Rightarrow> inboxRow" where
  "stagedRow route delivery signature now =
     \<lparr>ib_id = deliveryString (pd_id delivery), ib_route = rs_route route, ib_inReplyTo = peerInboxReplyValue delivery,
      ib_envelope = digestString (pd_envelope delivery), ib_json = pd_canonical delivery, ib_signature = signature,
      ib_state = ''staged'', ib_expires = formatTime (pd_expiresAt delivery), ib_received = formatTime now,
      ib_event = None, ib_receiptDigest = None, ib_receipt = None, ib_settled = None\<rparr>"

definition insertRejectedPeerInboxTx ::
  "PeerRouteProjection \<Rightarrow> PeerDelivery \<Rightarrow> bytes \<Rightarrow> string \<Rightarrow> string \<Rightarrow> instant \<Rightarrow> Store \<Rightarrow> (PeerAdmissionResult \<times> Store) outcome" where
  "insertRejectedPeerInboxTx route delivery signature codeValue diagnostic now s =
     bindE (wrap [] (NewSemanticLabel codeValue)) (\<lambda>label.
     bindE (wrap [] (NewRejectedPeerAdmissionReceipt delivery label diagnostic now)) (\<lambda>receipt.
     bindE (execute ''stage PeerDelivery: persist rejection''
             (insert_inbox ((stagedRow route delivery signature now)\<lparr>ib_state := ''settled'',
                ib_receiptDigest := Some (digestString (par_digest receipt)), ib_receipt := Some (par_canonical receipt),
                ib_settled := Some (formatTime now)\<rparr>) s)) (\<lambda>s.
     Inr (\<lparr>pa_state = PeerAdmissionStateRejected, pa_delivery = delivery, pa_receipt = Some receipt, pa_replayed = False\<rparr>, s))))"

definition insertExpiredPeerInboxTx ::
  "PeerRouteProjection \<Rightarrow> PeerDelivery \<Rightarrow> bytes \<Rightarrow> instant \<Rightarrow> Store \<Rightarrow> (PeerAdmissionResult \<times> Store) outcome" where
  "insertExpiredPeerInboxTx route delivery signature now s =
     bindE (execute ''stage PeerDelivery: persist expiry''
             (insert_inbox ((stagedRow route delivery signature now)\<lparr>ib_state := ''expired'', ib_settled := Some (formatTime now)\<rparr>) s)) (\<lambda>s.
     Inr (\<lparr>pa_state = PeerAdmissionStateExpired, pa_delivery = delivery, pa_receipt = None, pa_replayed = False\<rparr>, s))"

definition expirePeerInboxRowsTx :: "instant \<Rightarrow> Store \<Rightarrow> Store outcome" where
  "expirePeerInboxRowsTx now s =
     bindE (execute ''expire staged PeerDelivery''
             (update_inbox (\<lambda>r. ib_state r = ''staged'' \<and> ib_expires r \<le> formatTime now)
               (\<lambda>r. r\<lparr>ib_state := ''expired'', ib_settled := Some (formatTime now)\<rparr>) s)) (\<lambda>(s, _). Inr s)"

definition expirePeerInboxTx :: "PeerDelivery \<Rightarrow> instant \<Rightarrow> Store \<Rightarrow> (PeerAdmissionResult \<times> Store) outcome" where
  "expirePeerInboxTx delivery now s =
     bindE (execute ''admit PeerDelivery: persist expiry''
             (update_inbox (\<lambda>r. ib_id r = deliveryString (pd_id delivery) \<and> ib_state r = ''staged'')
               (\<lambda>r. r\<lparr>ib_state := ''expired'', ib_settled := Some (formatTime now)\<rparr>) s)) (\<lambda>(s, rows).
     bindE (requireOneRow ''peer inbox expiry'' rows) (\<lambda>_.
     Inr (\<lparr>pa_state = PeerAdmissionStateExpired, pa_delivery = delivery, pa_receipt = None, pa_replayed = False\<rparr>, s)))"

section \<open>Staging\<close>

definition replayPeerInboxTx ::
  "PeerAdmissionResult \<Rightarrow> PeerRouteProjection \<Rightarrow> PeerDelivery \<Rightarrow> bytes \<Rightarrow> bytes \<Rightarrow> instant \<Rightarrow> Store \<Rightarrow> (PeerAdmissionResult \<times> Store) outcome" where
  "replayPeerInboxTx existing route delivery encoded signature now s =
     (if pd_envelope (pa_delivery existing) \<noteq> pd_envelope delivery \<or> pd_canonical (pa_delivery existing) \<noteq> encoded \<or>
         \<not> peerInboxSignatureMatchesTx (pd_id delivery) (rs_route route) signature s
      then Inl ErrPeerDeliveryConflict
      else if pa_state existing = PeerAdmissionStateStaged \<and> \<not> now < pd_expiresAt delivery then expirePeerInboxTx delivery now s
      else Inr (existing\<lparr>pa_replayed := True\<rparr>, s))"

definition stageFreshPeerDeliveryTx ::
  "PeerRouteProjection \<Rightarrow> PeerDelivery \<Rightarrow> bytes \<Rightarrow> instant \<Rightarrow> Store \<Rightarrow> (PeerAdmissionResult \<times> Store) outcome" where
  "stageFreshPeerDeliveryTx route delivery signature now s =
     (if \<not> rp_active route then Inl ErrPeerRouteRevoked
      else
        bindE (expirePeerInboxRowsTx now s) (\<lambda>s.
        if MaxStagedPeerDeliveries \<le> matching (\<lambda>r. ib_state r = ''staged'') (peer_inbox s) then Inl ErrPeerInboxBound
        else if pd_targetAlias delivery \<noteq> rs_inboundAlias route
        then insertRejectedPeerInboxTx route delivery signature ''peer.target_unavailable'' ''target alias is not admitted by this route'' now s
        else if \<not> now < pd_expiresAt delivery then insertExpiredPeerInboxTx route delivery signature now s
        else
          bindE (execute ''stage PeerDelivery'' (insert_inbox (stagedRow route delivery signature now) s)) (\<lambda>s.
          Inr (\<lparr>pa_state = PeerAdmissionStateStaged, pa_delivery = delivery, pa_receipt = None, pa_replayed = False\<rparr>, s))))"

definition stagePeerDeliveryTx ::
  "verifier \<Rightarrow> OpaqueHandle \<Rightarrow> bytes \<Rightarrow> bytes \<Rightarrow> instant \<Rightarrow> Store \<Rightarrow> (PeerAdmissionResult \<times> Store) outcome" where
  "stagePeerDeliveryTx verify remotePeer encoded signature now s =
     bindE (peerRouteByRemotePeerTx remotePeer s) (\<lambda>found.
     case found of
       None \<Rightarrow> Inl ErrPeerAuthentication
     | Some route \<Rightarrow>
         bindE (orElse ErrPeerAuthentication (ParsePeerDeliveryCanonicalJSON encoded (rs_route route))) (\<lambda>delivery.
         bindE (require ErrPeerAuthentication (verifyPeerSignature verify (rs_key route) (SigningMessage delivery) signature)) (\<lambda>_.
         bindE (peerInboxResultTx (pd_id delivery) s) (\<lambda>existing.
         case existing of
           Some result \<Rightarrow> replayPeerInboxTx result route delivery encoded signature now s
         | None \<Rightarrow> stageFreshPeerDeliveryTx route delivery signature now s))))"

definition StagePeerDelivery :: "verifier \<Rightarrow> instant \<Rightarrow> OpaqueHandle \<Rightarrow> bytes \<Rightarrow> bytes \<Rightarrow> Store \<Rightarrow> (PeerAdmissionResult \<times> Store) outcome" where
  "StagePeerDelivery verify wall remotePeer encoded signature s =
     (if remotePeer = [] \<or> length encoded = 0 \<or> length signature = 0
      then Inl (Problem ''stage PeerDelivery: authenticated peer and envelope are required'')
      else
        bindE (requireOpen s) (\<lambda>_.
        bindE (trustedNow wall) (\<lambda>now.
        stagePeerDeliveryTx verify remotePeer encoded signature now s)))"

section \<open>Terminal replies\<close>

record terminalReplyMatch =
  tm_outbound :: DeliveryID
  tm_anchor :: HandlingID
  tm_root :: EventRef

text \<open>\<open>None\<close> is no match.\<close>

definition matchOpenTerminalReplyAnchorTx :: "VerifiedPeerDelivery \<Rightarrow> RouteID \<Rightarrow> Store \<Rightarrow> terminalReplyMatch option outcome" where
  "matchOpenTerminalReplyAnchorTx verified inboundRoute s =
     (let delivery = vd_delivery verified; outbound = pd_inReplyTo delivery; root = pd_originCorrelation delivery
      in if outbound = zeroDigest \<or> refIsZero root \<or> inboundRoute = [] \<or> vd_target verified = [] then Inr None
         else
           case List.find (\<lambda>(o', h). ob_anchor o' = Some (ha_id h) \<and> ob_id o' = deliveryString outbound \<and> ob_route o' = inboundRoute \<and>
                  ob_rootEvent o' = Some (ref_id root) \<and> ob_rootDigest o' = Some (digestString (ref_digest root)) \<and>
                  ha_target h = vd_target verified \<and> ha_state h = ''open'') (List.product (peer_outbox s) (handlings s)) of
             None \<Rightarrow> Inr None
           | Some (o', h) \<Rightarrow>
               bindE (orElse (Problem ''admit terminal PeerDelivery: corrupt reply binding'') (NewHandlingID (ha_id h))) (\<lambda>anchor.
               if list_ex (\<lambda>r. ib_inReplyTo r = Some (deliveryString outbound) \<and> ib_event r \<noteq> None) (peer_inbox s) then Inr None
               else
                 bindE (terminalObservationRevisionTx anchor s) (\<lambda>revision.
                 if MaxTerminalObservationsPerAnchor \<le> revision then Inr None
                 else Inr (Some \<lparr>tm_outbound = outbound, tm_anchor = anchor, tm_root = root\<rparr>))))"

section \<open>Admission\<close>

definition settleRejectedPeerInboxTx :: "PeerDelivery \<Rightarrow> string \<Rightarrow> string \<Rightarrow> instant \<Rightarrow> Store \<Rightarrow> (PeerAdmissionResult \<times> Store) outcome" where
  "settleRejectedPeerInboxTx delivery codeValue diagnostic now s =
     bindE (wrap [] (NewSemanticLabel codeValue)) (\<lambda>label.
     bindE (wrap [] (NewRejectedPeerAdmissionReceipt delivery label diagnostic now)) (\<lambda>receipt.
     bindE (execute ''admit PeerDelivery: persist rejection''
             (update_inbox (\<lambda>r. ib_id r = deliveryString (pd_id delivery) \<and> ib_state r = ''staged'')
               (\<lambda>r. r\<lparr>ib_state := ''settled'', ib_receiptDigest := Some (digestString (par_digest receipt)),
                      ib_receipt := Some (par_canonical receipt), ib_settled := Some (formatTime now)\<rparr>) s)) (\<lambda>(s, rows).
     bindE (requireOneRow ''peer inbox rejection'' rows) (\<lambda>_.
     Inr (\<lparr>pa_state = PeerAdmissionStateRejected, pa_delivery = delivery, pa_receipt = Some receipt, pa_replayed = False\<rparr>, s)))))"

definition storedPeerInboxSignatureValidTx :: "verifier \<Rightarrow> DeliveryID \<Rightarrow> PeerRouteProjection \<Rightarrow> bytes \<Rightarrow> Store \<Rightarrow> bool" where
  "storedPeerInboxSignatureValidTx verify deliveryID route message s =
     (case List.find (\<lambda>r. ib_id r = deliveryString deliveryID \<and> ib_route r = rs_route route) (peer_inbox s) of
        None \<Rightarrow> False | Some r \<Rightarrow> verifyPeerSignature verify (rs_key route) message (ib_signature r))"

definition peerVerifiedArtifacts :: "artifactCheck list \<Rightarrow> instant \<Rightarrow> VerifiedPeerArtifact list outcome" where
  "peerVerifiedArtifacts checks now = mapE (\<lambda>c. wrap [] (NewVerifiedPeerArtifact (ac_digest c) (ac_size c) now)) checks"

text \<open>\<open>pr_verified\<close> is absent when the admission is done already.\<close>

record preparedPeerAdmission =
  pr_result :: PeerAdmissionResult
  pr_verified :: "VerifiedPeerDelivery option"

definition preparePeerAdmissionTx ::
  "verifier \<Rightarrow> DeliveryID \<Rightarrow> artifactCheck list \<Rightarrow> instant \<Rightarrow> Store \<Rightarrow> (preparedPeerAdmission \<times> Store) outcome" where
  "preparePeerAdmissionTx verify deliveryID checks now s =
     (let finished = (\<lambda>(result, s). Inr (\<lparr>pr_result = result, pr_verified = None\<rparr>, s))
      in bindE (peerInboxResultTx deliveryID s) (\<lambda>found.
         case found of None \<Rightarrow> Inl ErrPeerDeliveryUnavailable | Some result \<Rightarrow>
         if pa_state result \<noteq> PeerAdmissionStateStaged then finished (result\<lparr>pa_replayed := True\<rparr>, s)
         else
           bindE (orElse (Problem ''admit PeerDelivery: route unavailable'') (routeForInboxTx deliveryID s)) (\<lambda>found.
           case found of None \<Rightarrow> Inl (Problem ''admit PeerDelivery: route unavailable'') | Some route \<Rightarrow>
           if \<not> rp_active route
           then bindE (settleRejectedPeerInboxTx (pa_delivery result) ''peer.route_revoked'' ''route was revoked before local admission'' now s) finished
           else if \<not> now < pd_expiresAt (pa_delivery result) then bindE (expirePeerInboxTx (pa_delivery result) now s) finished
           else
             case artifactChecksTx (pd_artifacts (pa_delivery result)) s of
               Inl e \<Rightarrow> if e = ErrArtifactUnavailable then finished (result, s) else Inl (Problem ''admit PeerDelivery: Artifact catalog changed'')
             | Inr latest \<Rightarrow>
                 if checks \<noteq> latest then Inl (Problem ''admit PeerDelivery: Artifact catalog changed'')
                 else
                   bindE (peerVerifiedArtifacts latest now) (\<lambda>verifiedArtifacts.
                   bindE (orElse (Problem ''admit PeerDelivery: corrupt staged envelope'')
                            (ParsePeerDeliveryCanonicalJSON (pd_canonical (pa_delivery result)) (rs_route route))) (\<lambda>parsed.
                   bindE (require (Problem ''admit PeerDelivery: corrupt staged signature'')
                            (storedPeerInboxSignatureValidTx verify deliveryID route (SigningMessage parsed) s)) (\<lambda>_.
                   bindE (wrap [] (NewVerifiedPeerDelivery parsed (rp_surrogate route) (rs_localTarget route) verifiedArtifacts)) (\<lambda>verified.
                   if RequiresTerminalReplyMatch (vd_delivery verified)
                   then
                     bindE (matchOpenTerminalReplyAnchorTx verified (rs_route route) s) (\<lambda>matched.
                     if matched = None
                     then bindE (settleRejectedPeerInboxTx (pa_delivery result) ''peer.terminal_reply_unmatched''
                                  ''terminal reply does not match an open local responsibility'' now s) finished
                     else Inr (\<lparr>pr_result = result, pr_verified = Some verified\<rparr>, s))
                   else Inr (\<lparr>pr_result = result, pr_verified = Some verified\<rparr>, s))))))))"

definition commitAcceptedPeerAdmissionTx ::
  "PeerDelivery \<Rightarrow> VerifiedPeerDelivery \<Rightarrow> EventID \<Rightarrow> HandlingID list \<Rightarrow> instant \<Rightarrow> Store \<Rightarrow> (PeerAdmissionResult \<times> Store) outcome" where
  "commitAcceptedPeerAdmissionTx delivery verified eventID handlingIDs now s =
     bindE (decidePeerEffect verified) (\<lambda>effect.
     if length handlingIDs \<noteq> 1 \<or> length handlingIDs < length (de_targets effect)
     then Inl (Problem ''admit PeerDelivery: Handling ID pool is invalid'')
     else
       bindE (commitDomainAdmissionTx (peerDomainAdmission verified effect) eventID (take (length (de_targets effect)) handlingIDs) now s) (\<lambda>(event, s).
       bindE (wrap [] (NewAcceptedPeerAdmissionReceipt delivery (eventRef event) now)) (\<lambda>receipt.
       bindE (execute ''admit PeerDelivery: settle inbox''
               (update_inbox (\<lambda>r. ib_id r = deliveryString (pd_id delivery) \<and> ib_state r = ''staged'')
                 (\<lambda>r. r\<lparr>ib_state := ''settled'', ib_event := Some (e_id event), ib_receiptDigest := Some (digestString (par_digest receipt)),
                        ib_receipt := Some (par_canonical receipt), ib_settled := Some (formatTime now)\<rparr>) s)) (\<lambda>(s, rows).
       bindE (requireOneRow ''peer inbox admission'' rows) (\<lambda>_.
       Inr (\<lparr>pa_state = PeerAdmissionStateAccepted, pa_delivery = delivery, pa_receipt = Some receipt, pa_replayed = False\<rparr>, s))))))"

definition commitPeerAdmission ::
  "verifier \<Rightarrow> instant \<Rightarrow> bytes \<Rightarrow> DeliveryID \<Rightarrow> artifactCheck list \<Rightarrow> HandlingID list \<Rightarrow> Store \<Rightarrow> (PeerAdmissionResult \<times> Store) outcome" where
  "commitPeerAdmission verify wall eventEntropy deliveryID checks handlingIDs s =
     bindE (newEventID eventEntropy) (\<lambda>eventID.
     bindE (requireOpen s) (\<lambda>_.
     bindE (trustedNow wall) (\<lambda>now.
     bindE (preparePeerAdmissionTx verify deliveryID checks now s) (\<lambda>(prepared, s).
     case pr_verified prepared of
       None \<Rightarrow> Inr (pr_result prepared, s)
     | Some verified \<Rightarrow> commitAcceptedPeerAdmissionTx (pa_delivery (pr_result prepared)) verified eventID handlingIDs now s))))"

definition expirePeerInboxDeliveryTx :: "DeliveryID \<Rightarrow> instant \<Rightarrow> Store \<Rightarrow> (bool \<times> Store) outcome" where
  "expirePeerInboxDeliveryTx deliveryID now s =
     bindE (execute ''expire PeerDelivery preflight''
             (update_inbox (\<lambda>r. ib_id r = deliveryString deliveryID \<and> ib_state r = ''staged'' \<and> ib_expires r \<le> formatTime now)
               (\<lambda>r. r\<lparr>ib_state := ''expired'', ib_settled := Some (formatTime now)\<rparr>) s)) (\<lambda>(s, changed).
     Inr (changed = 1, s))"

text \<open>The checks to make, the result so far, and whether it is final.\<close>

definition preflightPeerAdmission ::
  "instant \<Rightarrow> DeliveryID \<Rightarrow> Store \<Rightarrow> ((artifactCheck list \<times> PeerAdmissionResult \<times> bool) \<times> Store) outcome" where
  "preflightPeerAdmission wall deliveryID s =
     (if deliveryID = zeroDigest then Inl (Problem ''admit PeerDelivery: DeliveryID is required'')
      else
        bindE (requireOpen s) (\<lambda>_.
        bindE (trustedNow wall) (\<lambda>now.
        bindE (expirePeerInboxDeliveryTx deliveryID now s) (\<lambda>(_, s).
        bindE (peerInboxResultTx deliveryID s) (\<lambda>found.
        case found of None \<Rightarrow> Inl ErrPeerDeliveryUnavailable | Some result \<Rightarrow>
        if pa_state result \<noteq> PeerAdmissionStateStaged then Inr (([], result\<lparr>pa_replayed := True\<rparr>, True), s)
        else
          case artifactChecksTx (pd_artifacts (pa_delivery result)) s of
            Inl e \<Rightarrow> if e = ErrArtifactUnavailable then Inr (([], result, True), s) else Inl e
          | Inr checks \<Rightarrow> Inr ((checks, result, False), s))))))"

text \<open>
  The preflight commits an expiry of its own, so an admission that fails afterwards leaves the store the
  preflight made. What other transactions do in between is the argument \<open>between\<close>. The result and the error are
  returned side by side, as in Go: Artifacts that cannot be verified give both the staged result and the
  error; \<open>None\<close> is the empty result.
\<close>

definition AdmitPeerDelivery ::
  "(Digest \<Rightarrow> int \<Rightarrow> bool) option \<Rightarrow> verifier \<Rightarrow> instant \<Rightarrow> instant \<Rightarrow> (nat \<Rightarrow> bytes) \<Rightarrow> bytes \<Rightarrow> (Store \<Rightarrow> Store) \<Rightarrow> DeliveryID \<Rightarrow> Store \<Rightarrow>
   (PeerAdmissionResult option \<times> authorityError option) \<times> Store" where
  "AdmitPeerDelivery artifactVerifier verify wall wall' handlingEntropy eventEntropy between deliveryID s =
     (case preflightPeerAdmission wall deliveryID s of
        Inl e \<Rightarrow> ((None, Some e), s)
      | Inr ((checks, early, finished), s1) \<Rightarrow>
          if finished then ((Some early, None), s1)
          else if checks \<noteq> [] \<and> (case artifactVerifier of
                 None \<Rightarrow> True | Some verifyArtifact \<Rightarrow> \<not> list_all (\<lambda>c. verifyArtifact (ac_digest c) (ac_size c)) checks)
          then ((Some early, Some ErrArtifactUnavailable), s1)
          else case newHandlingIDs 1 handlingEntropy of
            Inl e \<Rightarrow> ((None, Some e), s1)
          | Inr handlingIDs \<Rightarrow>
              (case commitPeerAdmission verify wall' eventEntropy deliveryID checks handlingIDs (between s1) of
                 Inl e \<Rightarrow> ((None, Some e), between s1) | Inr (result, s2) \<Rightarrow> ((Some result, None), s2)))"

section \<open>The work to do\<close>

record StagedPeerDelivery =
  sp_route :: PeerRouteProjection
  sp_delivery :: PeerDelivery

definition stagedPeerDeliveryIDsTx :: "int \<Rightarrow> Store \<Rightarrow> DeliveryID list outcome" where
  "stagedPeerDeliveryIDsTx limit s =
     mapE (\<lambda>r. orElse (Problem ''project staged PeerDelivery: corrupt ID'') (ParseDeliveryID (ib_id r)))
       (take (nat limit) (sort_key (\<lambda>r. (ib_received r, ib_id r)) (filter (\<lambda>r. ib_state r = ''staged'') (peer_inbox s))))"

definition StagedPeerDeliveries :: "instant \<Rightarrow> int \<Rightarrow> Store \<Rightarrow> (StagedPeerDelivery list \<times> Store) outcome" where
  "StagedPeerDeliveries wall limit s =
     (if limit < 1 \<or> int MaxStagedPeerDeliveries < limit
      then Inl (Problem ''project staged PeerDelivery: bounded positive limit is required'')
      else
        bindE (requireOpen s) (\<lambda>_.
        bindE (trustedNow wall) (\<lambda>now.
        bindE (expirePeerInboxRowsTx now s) (\<lambda>s.
        bindE (stagedPeerDeliveryIDsTx limit s) (\<lambda>ids.
        bindE (mapE (\<lambda>i.
                case peerInboxResultTx i s of
                  Inr (Some projected) \<Rightarrow>
                    if pa_state projected \<noteq> PeerAdmissionStateStaged
                    then Inl (Problem ''project staged PeerDelivery: durable state changed or is corrupt'')
                    else (case routeForInboxTx i s of
                            Inr (Some route) \<Rightarrow> Inr \<lparr>sp_route = route, sp_delivery = pa_delivery projected\<rparr>
                          | _ \<Rightarrow> Inl (Problem ''project staged PeerDelivery: route unavailable''))
                | _ \<Rightarrow> Inl (Problem ''project staged PeerDelivery: durable state changed or is corrupt'')) ids) (\<lambda>result.
        Inr (result, s)))))))"

text \<open>The open Handlings of a Principal and their heads, as every View counts them.\<close>

definition loadOpenHeadsTx :: "AgentPrincipalID \<Rightarrow> Store \<Rightarrow> (string \<times> string) list outcome" where
  "loadOpenHeadsTx who s =
     (let heads = map (\<lambda>r. (ha_id r, ha_head r)) (take (MaxOpenHandlingsPerPrincipal + 1)
                    (sort_key claimOrder (filter (\<lambda>r. ha_target r = who \<and> ha_state r = ''open'') (handlings s))))
      in if MaxOpenHandlingsPerPrincipal < length heads then Inl (Problem ''current View: open Handling bound violated'')
         else Inr heads)"

section \<open>Statements on the inbox\<close>

lemma insert_inbox_effect: "insert_inbox r s = Some t \<Longrightarrow> t = s\<lparr>peer_inbox := peer_inbox s @ [r]\<rparr>"
  by (auto simp: insert_inbox_def Let_def split: if_splits)

lemma update_inbox_effect:
  "update_inbox P f s = Some (t, n) \<Longrightarrow> t = s\<lparr>peer_inbox := update_where P f (peer_inbox s)\<rparr> \<and> n = matching P (peer_inbox s)"
  by (auto simp: update_inbox_def Let_def split: if_splits)

lemma inbox_keeps:
  assumes "store_ok s"
  shows "insert_inbox r s = Some t \<Longrightarrow> store_ok t \<and> grows s t" "update_inbox P f s = Some (t, n) \<Longrightarrow> store_ok t \<and> grows s t"
  using assms [unfolded store_ok_def]
  by - (rule store_keepI; auto simp: insert_inbox_def update_inbox_def Let_def grows_def ids_defs split: if_splits)+

section \<open>The inbox is bounded\<close>

definition staged_deliveries :: "Store \<Rightarrow> nat" where
  "staged_deliveries s = matching (\<lambda>r. ib_state r = ''staged'') (peer_inbox s)"

lemma staged_insert: "insert_inbox r s = Some t \<Longrightarrow> staged_deliveries t = staged_deliveries s + (if ib_state r = ''staged'' then 1 else 0)"
  by (auto simp: staged_deliveries_def dest!: insert_inbox_effect)

lemma expired_rows:
  assumes "expirePeerInboxRowsTx now s = Inr t"
  shows "t = s\<lparr>peer_inbox := update_where (\<lambda>r. ib_state r = ''staged'' \<and> ib_expires r \<le> formatTime now)
    (\<lambda>r. r\<lparr>ib_state := ''expired'', ib_settled := Some (formatTime now)\<rparr>) (peer_inbox s)\<rparr>"
  using assms by (auto simp: expirePeerInboxRowsTx_def guards dest!: update_inbox_effect)

text \<open>
  (C9) Staging is bounded and makes no fact. A fresh envelope of an active route becomes one row of the inbox,
  after the rows whose time is over were expired: staged exactly when it is for the alias the route admits
  and its time is not over, settled with a refusal when it is for another alias, expired otherwise. At most 64 rows
  are staged then. No Event, Handling, Reference or delivery is made, and the sender gets no Receipt
  unless it was refused.
\<close>

theorem staging_bounded:
  assumes "stageFreshPeerDeliveryTx route delivery signature now s = Inr (result, t)"
  shows "staged_deliveries t \<le> 64 \<and>
    (\<exists>row. t = s\<lparr>peer_inbox := update_where (\<lambda>r. ib_state r = ''staged'' \<and> ib_expires r \<le> formatTime now)
        (\<lambda>r. r\<lparr>ib_state := ''expired'', ib_settled := Some (formatTime now)\<rparr>) (peer_inbox s) @ [row]\<rparr> \<and>
      ib_id row = deliveryString (pd_id delivery) \<and> ib_signature row = signature \<and> ib_json row = pd_canonical delivery \<and> ib_event row = None \<and>
      ib_state row = (if pd_targetAlias delivery \<noteq> rs_inboundAlias route then ''settled''
                      else if now < pd_expiresAt delivery then ''staged'' else ''expired'')) \<and>
    rp_active route \<and> (pa_receipt result \<noteq> None \<longleftrightarrow> pd_targetAlias delivery \<noteq> rs_inboundAlias route)"
proof -
  obtain u where u: "expirePeerInboxRowsTx now s = Inr u" "staged_deliveries u < 64" "rp_active route"
    and rest: "(if pd_targetAlias delivery \<noteq> rs_inboundAlias route
        then insertRejectedPeerInboxTx route delivery signature ''peer.target_unavailable'' ''target alias is not admitted by this route'' now u
        else if \<not> now < pd_expiresAt delivery then insertExpiredPeerInboxTx route delivery signature now u
        else
          bindE (execute ''stage PeerDelivery'' (insert_inbox (stagedRow route delivery signature now) u)) (\<lambda>s.
          Inr (\<lparr>pa_state = PeerAdmissionStateStaged, pa_delivery = delivery, pa_receipt = None, pa_replayed = False\<rparr>, s))) = Inr (result, t)"
    using assms by (auto simp: stageFreshPeerDeliveryTx_def guards MaxStagedPeerDeliveries_def staged_deliveries_def not_le split: if_splits)
  let ?row = "stagedRow route delivery signature now"
  let ?state = "if pd_targetAlias delivery \<noteq> rs_inboundAlias route then ''settled''
     else if now < pd_expiresAt delivery then ''staged'' else ''expired''"
  have fresh: "ib_id ?row = deliveryString (pd_id delivery)" "ib_signature ?row = signature" "ib_json ?row = pd_canonical delivery"
    "ib_event ?row = None" "ib_state ?row = ''staged''"
    by (simp_all add: stagedRow_def)
  obtain row where row: "insert_inbox row u = Some t" "ib_id row = deliveryString (pd_id delivery)" "ib_signature row = signature"
    "ib_json row = pd_canonical delivery" "ib_event row = None" "ib_state row = ?state"
    "pa_receipt result \<noteq> None \<longleftrightarrow> pd_targetAlias delivery \<noteq> rs_inboundAlias route"
  proof (cases "pd_targetAlias delivery \<noteq> rs_inboundAlias route")
    case True
    then obtain receipt where "insert_inbox (?row\<lparr>ib_state := ''settled'', ib_receiptDigest := Some (digestString (par_digest receipt)),
        ib_receipt := Some (par_canonical receipt), ib_settled := Some (formatTime now)\<rparr>) u = Some t" "pa_receipt result = Some receipt"
      using rest by (auto simp: insertRejectedPeerInboxTx_def guards)
    then show ?thesis using that fresh True by simp
  next
    case False
    note same = False
    show ?thesis
    proof (cases "now < pd_expiresAt delivery")
      case True
      then have "insert_inbox ?row u = Some t" "pa_receipt result = None" using rest same by (auto simp: guards)
      then show ?thesis using that fresh True same by simp
    next
      case False
      then have "insert_inbox (?row\<lparr>ib_state := ''expired'', ib_settled := Some (formatTime now)\<rparr>) u = Some t" "pa_receipt result = None"
        using rest same by (auto simp: insertExpiredPeerInboxTx_def guards)
      then show ?thesis using that fresh False same by simp
    qed
  qed
  have "staged_deliveries t \<le> 64" using staged_insert [OF row(1)] u(2) by simp
  moreover have "t = s\<lparr>peer_inbox := update_where (\<lambda>r. ib_state r = ''staged'' \<and> ib_expires r \<le> formatTime now)
        (\<lambda>r. r\<lparr>ib_state := ''expired'', ib_settled := Some (formatTime now)\<rparr>) (peer_inbox s) @ [row]\<rparr>"
    using insert_inbox_effect [OF row(1)] expired_rows [OF u(1)] by simp
  ultimately show ?thesis using row(2-7) u(3) by blast
qed

section \<open>Open Handlings beyond the bound\<close>

lemma loadOpenHeadsTx_bound:
  "loadOpenHeadsTx who s = Inl (Problem ''current View: open Handling bound violated'') \<longleftrightarrow> 64 < open_handlings who s"
  "(\<exists>heads. loadOpenHeadsTx who s = Inr heads) \<longleftrightarrow> open_handlings who s \<le> 64"
  by (auto simp: loadOpenHeadsTx_def open_handlings_def matching_def MaxOpenHandlingsPerPrincipal_def Let_def)

lemma decided_effect:
  assumes "decidePeerEffect verified = Inr effect" "\<not> RequiresTerminalReplyMatch (vd_delivery verified)"
  shows "de_consequence effect = ConsequenceCreateHandlings \<and>
    (\<exists>target. de_targets effect = [target] \<and> destination target = TargetDestinationLocal \<and> localPrincipal target = vd_target verified)"
  using assms by (auto simp: decidePeerEffect_def Let_def guards ResolveLocalTarget_def split: if_splits)

lemma opened_by_peer:
  assumes "decidePeerEffect verified = Inr effect" "\<not> RequiresTerminalReplyMatch (vd_delivery verified)"
    "e_consequence event = de_consequence effect" "e_targets event = de_targets effect" "admitEffectTx event a hs s = Inr t" "store_ok s"
  shows "open_handlings (vd_target verified) t = open_handlings (vd_target verified) s + 1"
proof -
  obtain target where target: "de_consequence effect = ConsequenceCreateHandlings" "de_targets effect = [target]"
    "destination target = TargetDestinationLocal" "localPrincipal target = vd_target verified"
    using decided_effect [OF assms(1,2)] by blast
  obtain u where u: "insertEventTx event s = Inr u" "createSuccessorHandlingsTx event hs u = Inr t"
    using assms(3,5) target(1) by (auto simp: admitEffectTx_def applyDomainEffectTx_def bindE_Inr)
  have "open_handlings p u = open_handlings p s" for p
    using insertEventTx_effect [OF u(1) assms(6)] by (auto simp: open_handlings_def)
  then show ?thesis
    using created_open [OF u(2), of "vd_target verified" "vd_target verified"] assms(4) target
    by (simp add: localTargetCount_def)
qed

text \<open>The statements of an acceptance, in order.\<close>

lemma peer_domain_steps:
  assumes "commitDomainAdmissionTx (peerDomainAdmission verified effect) eventID ids now s = Inr (event, u)"
  obtains v reply where "admitEffectTx event [] ids (s\<lparr>origin_sequence := origin_sequence s + 1\<rparr>) = Inr v"
    "deliverTargets event reply now (e_targets event) v = Inr u"
    "e_consequence event = de_consequence effect" "e_targets event = de_targets effect"
proof -
  obtain v stamp where "admitEffectTx event [] ids (s\<lparr>origin_sequence := origin_sequence s + 1\<rparr>) = Inr v" "insertPeerDeliveriesTx event ids now v = Inr u"
    and new: "NewPeerEvent verified stamp (de_consequence effect) (de_targets effect) = Inr event"
    using assms by (auto simp: commitDomainAdmissionTx_def newDomainEventTx_def nextOriginSequenceTx_def Let_def guards split: if_splits)
  moreover have "e_consequence event = de_consequence effect" "e_targets event = de_targets effect"
    using new by (auto simp: NewPeerEvent_def guards Let_def sealEvent_Inr split: if_splits option.splits)
  ultimately show ?thesis using that by (auto simp: insertPeerDeliveriesTx_def bindE_Inr)
qed

definition accepted_row :: "EventID \<Rightarrow> PeerAdmissionReceipt \<Rightarrow> instant \<Rightarrow> inboxRow \<Rightarrow> inboxRow" where
  "accepted_row event receipt now r =
     r\<lparr>ib_state := ''settled'', ib_event := Some event, ib_receiptDigest := Some (digestString (par_digest receipt)),
       ib_receipt := Some (par_canonical receipt), ib_settled := Some (formatTime now)\<rparr>"

lemma accepted_peer_steps:
  assumes "commitAcceptedPeerAdmissionTx delivery verified eventID hs now s = Inr (result, t)"
  obtains effect event receipt u where "decidePeerEffect verified = Inr effect"
    "commitDomainAdmissionTx (peerDomainAdmission verified effect) eventID (take (length (de_targets effect)) hs) now s = Inr (event, u)"
    "update_inbox (\<lambda>r. ib_id r = deliveryString (pd_id delivery) \<and> ib_state r = ''staged'') (accepted_row (e_id event) receipt now) u = Some (t, 1)"
  using assms by (auto simp: commitAcceptedPeerAdmissionTx_def guards requireOneRow_def accepted_row_def [abs_def] split: if_splits)

lemma domain_admission_opens:
  assumes "decidePeerEffect verified = Inr effect" "\<not> RequiresTerminalReplyMatch (vd_delivery verified)"
    "commitDomainAdmissionTx (peerDomainAdmission verified effect) eventID ids now s = Inr (event, u)" "store_ok s"
  shows "open_handlings (vd_target verified) u = open_handlings (vd_target verified) s + 1"
  using assms(3)
proof (cases rule: peer_domain_steps)
  case (1 v reply)
  have ok: "store_ok (s\<lparr>origin_sequence := origin_sequence s + 1\<rparr>)" using sequence_irrelevant [OF assms(4)] .
  have "store_ok v" using admitEffectTx_frame [OF 1(1) ok] by blast
  then have "handlings u = handlings v" using deliverTargets_effect [OF 1(2)] by auto
  then show ?thesis using opened_by_peer [OF assms(1,2) 1(3,4,1) ok] by (simp add: open_handlings_def)
qed

lemma accepted_peer_opens:
  assumes "commitAcceptedPeerAdmissionTx delivery verified eventID hs now s = Inr (result, t)"
    "\<not> RequiresTerminalReplyMatch (vd_delivery verified)" "store_ok s"
  shows "open_handlings (vd_target verified) t = open_handlings (vd_target verified) s + 1"
  using assms(1)
proof (cases rule: accepted_peer_steps)
  case (1 effect event receipt u)
  then show ?thesis
    using domain_admission_opens [OF 1(1) assms(2) 1(2) assms(3)] update_inbox_effect [OF 1(3)] by (simp add: open_handlings_def)
qed


section \<open>A delivery is answered once\<close>

lemma replies_count:
  "length (accepted_replies anchor s) =
   sum_list (map (\<lambda>i. if ib_event i = None then 0 else matching (\<lambda>out. ib_inReplyTo i = Some (ob_id out) \<and> ob_anchor out = Some anchor) (peer_outbox s)) (peer_inbox s))"
proof -
  have "length (filter (\<lambda>(i, out). ib_inReplyTo i = Some (ob_id out) \<and> ob_anchor out = Some anchor \<and> ib_event i \<noteq> None) (List.product is os)) =
    sum_list (map (\<lambda>i. if ib_event i = None then 0 else matching (\<lambda>out. ib_inReplyTo i = Some (ob_id out) \<and> ob_anchor out = Some anchor) os) is)" for "is" os
    by (induction "is") (auto simp: filter_map comp_def matching_def)
  then show ?thesis by (simp add: accepted_replies_def)
qed

lemma sum_update_where:
  "(\<And>r. P r \<Longrightarrow> g (f r) \<le> g r + (1 :: nat)) \<Longrightarrow> sum_list (map g (update_where P f rows)) \<le> sum_list (map g rows) + matching P rows"
  by (induction rows) (fastforce simp: update_where_def)+

lemma matched_reply:
  assumes "matchOpenTerminalReplyAnchorTx verified route s = Inr (Some m)"
  shows "\<exists>out \<in> set (peer_outbox s). \<exists>h \<in> set (handlings s). ob_id out = deliveryString (pd_inReplyTo (vd_delivery verified)) \<and> ob_route out = route \<and>
      ob_anchor out = Some (ha_id h) \<and> ob_rootEvent out = Some (ref_id (pd_originCorrelation (vd_delivery verified))) \<and>
      ob_rootDigest out = Some (digestString (ref_digest (pd_originCorrelation (vd_delivery verified)))) \<and>
      ha_id h = tm_anchor m \<and> ha_target h = vd_target verified \<and> ha_state h = ''open''"
    "length (accepted_replies (tm_anchor m) s) < 64"
    "\<not> list_ex (\<lambda>r. ib_inReplyTo r = Some (deliveryString (pd_inReplyTo (vd_delivery verified))) \<and> ib_event r \<noteq> None) (peer_inbox s)"
proof -
  let ?Q = "\<lambda>(o', h). ob_anchor o' = Some (ha_id h) \<and> ob_id o' = deliveryString (pd_inReplyTo (vd_delivery verified)) \<and> ob_route o' = route \<and>
                  ob_rootEvent o' = Some (ref_id (pd_originCorrelation (vd_delivery verified))) \<and>
                  ob_rootDigest o' = Some (digestString (ref_digest (pd_originCorrelation (vd_delivery verified)))) \<and>
                  ha_target h = vd_target verified \<and> ha_state h = ''open''"
  obtain o' h where found: "List.find ?Q (List.product (peer_outbox s) (handlings s)) = Some (o', h)"
    using assms by (auto simp: matchOpenTerminalReplyAnchorTx_def Let_def split: if_splits option.splits)
  have rest: "tm_anchor m = ha_id h \<and> \<not> list_ex (\<lambda>r. ib_inReplyTo r = Some (deliveryString (pd_inReplyTo (vd_delivery verified))) \<and> ib_event r \<noteq> None) (peer_inbox s) \<and>
      (\<exists>revision. terminalObservationRevisionTx (tm_anchor m) s = Inr revision \<and> revision < 64)"
    using assms unfolding matchOpenTerminalReplyAnchorTx_def Let_def found
    by (auto simp: guards identifier_Inr MaxTerminalObservationsPerAnchor_def not_le split: if_splits)
  show "\<not> list_ex (\<lambda>r. ib_inReplyTo r = Some (deliveryString (pd_inReplyTo (vd_delivery verified))) \<and> ib_event r \<noteq> None) (peer_inbox s)"
    using rest by blast
  show "length (accepted_replies (tm_anchor m) s) < 64"
    using rest by (auto simp: terminalObservationRevisionTx_def Let_def split: if_splits)
  have "(o', h) \<in> set (List.product (peer_outbox s) (handlings s)) \<and> ?Q (o', h)" using find_Some_iff_mem [OF found] by blast
  then show "\<exists>out \<in> set (peer_outbox s). \<exists>h \<in> set (handlings s). ob_id out = deliveryString (pd_inReplyTo (vd_delivery verified)) \<and> ob_route out = route \<and>
      ob_anchor out = Some (ha_id h) \<and> ob_rootEvent out = Some (ref_id (pd_originCorrelation (vd_delivery verified))) \<and>
      ob_rootDigest out = Some (digestString (ref_digest (pd_originCorrelation (vd_delivery verified)))) \<and>
      ha_id h = tm_anchor m \<and> ha_target h = vd_target verified \<and> ha_state h = ''open''"
    using rest by auto
qed

lemma answered_no_match:
  "list_ex (\<lambda>r. ib_inReplyTo r = Some (deliveryString (pd_inReplyTo (vd_delivery verified))) \<and> ib_event r \<noteq> None) (peer_inbox s) \<Longrightarrow>
   matchOpenTerminalReplyAnchorTx verified route s \<noteq> Inr (Some m)"
  using matched_reply(3) by blast

text \<open>The acceptance of a terminal reply writes an Event and settles the row of the delivery, and nothing else.\<close>

lemma accepted_reply:
  assumes "commitAcceptedPeerAdmissionTx delivery verified eventID hs now s = Inr (result, t)"
    "RequiresTerminalReplyMatch (vd_delivery verified)" "store_ok s"
  obtains event receipt xs where
    "t = s\<lparr>origin_sequence := origin_sequence s + 1, events := events s @ [eventRowOf event], event_artifacts := event_artifacts s @ xs,
       peer_inbox := update_where (\<lambda>r. ib_id r = deliveryString (pd_id delivery) \<and> ib_state r = ''staged'')
         (accepted_row (e_id event) receipt now) (peer_inbox s)\<rparr>"
    "matching (\<lambda>r. ib_id r = deliveryString (pd_id delivery) \<and> ib_state r = ''staged'') (peer_inbox s) = 1"
  using assms(1)
proof (cases rule: accepted_peer_steps)
  case (1 effect event receipt u)
  have effect: "de_targets effect = []" "de_consequence effect \<in> {ConsequenceObserveCompleted, ConsequenceObserveDeclined, ConsequenceObserveUnresolved}"
    using 1(1) assms(2) by (auto simp: decidePeerEffect_def Let_def split: if_splits Consequence.splits)
  show ?thesis
    using 1(2)
  proof (cases rule: peer_domain_steps)
    case steps: (1 v reply)
    let ?s = "s\<lparr>origin_sequence := origin_sequence s + 1\<rparr>"
    have "insertEventTx event ?s = Inr v"
      using steps(1,3) effect by (auto simp: admitEffectTx_def applyDomainEffectTx_def bindE_Inr split: if_splits)
    then obtain xs where v: "v = ?s\<lparr>events := events s @ [eventRowOf event], event_artifacts := event_artifacts s @ xs\<rparr>"
      using insertEventTx_effect sequence_irrelevant [OF assms(3)] by force
    have "u = v" using steps(2,4) effect(1) by simp
    then show ?thesis using that [of event receipt xs] update_inbox_effect [OF 1(3)] v by simp
  qed
qed

lemma distinct_repeated: "distinct (replicate n x) \<Longrightarrow> n \<le> 1"
  by (cases n; cases "n - 1") auto

lemma one_answer:
  assumes "distinct (map ob_id outs)"
  shows "matching (\<lambda>out. reply = Some (ob_id out) \<and> ob_anchor out = Some anchor) outs \<le> 1"
proof -
  have "distinct (map ob_id (filter (\<lambda>out. reply = Some (ob_id out) \<and> ob_anchor out = Some anchor) outs))"
    using assms distinct_map_filter by blast
  moreover have "map ob_id (filter (\<lambda>out. reply = Some (ob_id out) \<and> ob_anchor out = Some anchor) outs) =
      replicate (matching (\<lambda>out. reply = Some (ob_id out) \<and> ob_anchor out = Some anchor) outs) (the reply)"
    by (induction outs) (auto simp: matching_def)
  ultimately have "distinct (replicate (matching (\<lambda>out. reply = Some (ob_id out) \<and> ob_anchor out = Some anchor) outs) (the reply))" by simp
  then show ?thesis by (metis distinct_repeated)
qed

text \<open>Settling the row of a reply adds one accepted reply to the anchor of its delivery and none to any other.\<close>

lemma settled_replies:
  assumes "store_ok s" "out \<in> set (peer_outbox s)" "ob_anchor out = Some anchor"
    "\<And>r. r \<in> set (peer_inbox s) \<Longrightarrow> P r \<Longrightarrow> ib_inReplyTo r = Some (ob_id out)" "matching P (peer_inbox s) = 1"
    "\<And>r. ib_inReplyTo (f r) = ib_inReplyTo r" "peer_outbox t = peer_outbox s" "peer_inbox t = update_where P f (peer_inbox s)"
  shows "length (accepted_replies anchor t) \<le> length (accepted_replies anchor s) + 1"
    "other \<noteq> anchor \<Longrightarrow> length (accepted_replies other t) \<le> length (accepted_replies other s)"
proof -
  define g where "g = (\<lambda>a (i :: inboxRow). if ib_event i = None then 0 else
    matching (\<lambda>out. ib_inReplyTo i = Some (ob_id out) \<and> ob_anchor out = Some a) (peer_outbox s))"
  have distinct: "distinct (map ob_id (peer_outbox s))" using assms(1) by (simp add: store_ok_def outbox_ok_def)
  have count: "length (accepted_replies a s) = sum_list (map (g a) (peer_inbox s))"
    "length (accepted_replies a t) = sum_list (map (g a) (update_where P f (peer_inbox s)))" for a
    unfolding replies_count assms(7,8) g_def by simp_all
  have "g anchor (f r) \<le> g anchor r + 1" for r
    using one_answer [OF distinct, of "ib_inReplyTo r" anchor] by (simp add: g_def assms(6))
  then show "length (accepted_replies anchor t) \<le> length (accepted_replies anchor s) + 1"
    unfolding count using sum_update_where [of P "g anchor" f "peer_inbox s"] assms(5) by simp
  assume other: "other \<noteq> anchor"
  have "g other (f r) = 0" if "r \<in> set (peer_inbox s)" "P r" for r
  proof -
    have "\<not> (ib_inReplyTo (f r) = Some (ob_id out') \<and> ob_anchor out' = Some other)" if "out' \<in> set (peer_outbox s)" for out'
      using assms(4) [OF \<open>r \<in> set (peer_inbox s)\<close> \<open>P r\<close>] filter_map_distinct_keys [OF distinct that assms(2)] assms(3,6) other by auto
    then show ?thesis by (simp add: g_def matching_def filter_empty_conv)
  qed
  then have "map (g other) (update_where P f (peer_inbox s)) = map (\<lambda>r. if P r then 0 else g other r) (peer_inbox s)"
    by (simp add: update_where_def)
  then show "length (accepted_replies other t) \<le> length (accepted_replies other s)"
    unfolding count by (auto intro: sum_list_mono)
qed

section \<open>Instances\<close>

definition peerRouteRow :: routeRow where
  "peerRouteRow = \<lparr>ro_id = ''route:1'', ro_alias = ''bob'', ro_peer = ''peer:bob'', ro_key = replicate 32 CHR ''k'', ro_address = ''bob:1'',
     ro_remoteAlias = ''bob-main'', ro_inboundAlias = ''alice'', ro_localTarget = ''agent:local'', ro_surrogate = ''agent:bob'',
     ro_state = ''active'', ro_enrolled = [], ro_revoked = None\<rparr>"

definition peerRoute :: PeerRouteProjection where
  "peerRoute = \<lparr>rs_route = ''route:1'', rs_alias = ''bob'', rs_peer = ''peer:bob'', rs_key = replicate 32 CHR ''k'', rs_address = ''bob:1'',
     rs_remoteAlias = ''bob-main'', rs_inboundAlias = ''alice'', rs_localTarget = ''agent:local'', rp_surrogate = ''agent:bob'', rp_active = True,
     rp_enrolled = 500, rp_revoked = zeroTime\<rparr>"

definition peerEnvelope :: PeerDelivery where
  "peerEnvelope = \<lparr>pd_originEvent = \<lparr>ref_id = ''event:r'', ref_digest = replicate 32 CHR ''r''\<rparr>, pd_originSequence = 1, pd_originAcceptedAt = 600,
     pd_originSource = ''agent:remote'', pd_originConsequence = ConsequenceCreateHandlings, pd_originTargetCount = 1, pd_originCausation = [],
     pd_originCorrelation = zeroEventRef, pd_inReplyTo = zeroDigest, pd_targetAlias = ''alice'', pd_kind = ''note'', pd_payload = ''hello'',
     pd_artifacts = [], pd_depth = 1, pd_expiresAt = 2000, pd_id = replicate 32 CHR ''i'', pd_canonical = ''x'', pd_envelope = replicate 32 CHR ''v''\<rparr>"

text \<open>A reply to a delivery that went out for the first Handling.\<close>

definition replyEnvelope :: PeerDelivery where
  "replyEnvelope = peerEnvelope\<lparr>pd_id := replicate 32 CHR ''j'', pd_originConsequence := ConsequenceResolveDeclined, pd_inReplyTo := replicate 32 CHR ''o'',
     pd_originCorrelation := \<lparr>ref_id = ''event:1'', ref_digest = replicate 32 CHR ''e''\<rparr>\<rparr>"

definition peerStore :: "handlingRow list \<Rightarrow> Store" where
  "peerStore rows = emptyStore\<lparr>origin_sequence := 1,
     principals := [\<lparr>pr_id = ''agent:local'', pr_createdAt = []\<rparr>, \<lparr>pr_id = ''agent:bob'', pr_createdAt = []\<rparr>],
     events := [\<lparr>ev_id = ''event:1'', ev_digest = ''d'', ev_sequence = 1, ev_source = ''agent:local'',
       ev_request = digestString (replicate 32 CHR ''r''), ev_depth = 0, ev_accepted = [], ev_json = []\<rparr>],
     peer_routes := [peerRouteRow], handlings := rows\<rparr>"

definition openHandling :: "string \<Rightarrow> handlingRow" where
  "openHandling h = \<lparr>ha_id = h, ha_target = ''agent:local'', ha_head = ''event:1'', ha_state = ''open'', ha_outcome = None, ha_claim = None,
     ha_fence = 0, ha_until = None, ha_created = 1\<rparr>"

definition replyRow :: inboxRow where
  "replyRow = \<lparr>ib_id = deliveryString (replicate 32 CHR ''j''), ib_route = ''route:1'', ib_inReplyTo = Some (deliveryString (replicate 32 CHR ''o'')),
     ib_envelope = ''y'', ib_json = [], ib_signature = replicate 64 CHR ''s'', ib_state = ''staged'', ib_expires = [], ib_received = [],
     ib_event = None, ib_receiptDigest = None, ib_receipt = None, ib_settled = None\<rparr>"

definition awaitingStore :: Store where
  "awaitingStore = (peerStore [openHandling ''handling:1''])\<lparr>
     peer_outbox := [\<lparr>ob_id = deliveryString (replicate 32 CHR ''o''), ob_route = ''route:1'', ob_event = ''event:1'', ob_anchor = Some ''handling:1'',
       ob_rootEvent = Some ''event:1'', ob_rootDigest = Some (digestString (replicate 32 CHR ''e'')), ob_envelope = ''x'', ob_json = [],
       ob_state = ''pending'', ob_expires = [], ob_created = [], ob_receiptDigest = None, ob_receipt = None, ob_signature = None, ob_settled = None\<rparr>],
     peer_inbox := [replyRow]\<rparr>"

theorem staging_bounded_witness:
  "\<exists>result t. stageFreshPeerDeliveryTx peerRoute peerEnvelope (replicate 64 CHR ''s'') 1000 (peerStore []) = Inr (result, t) \<and> staged_deliveries t \<le> 64"
proof -
  have "\<exists>result t. stageFreshPeerDeliveryTx peerRoute peerEnvelope (replicate 64 CHR ''s'') 1000 (peerStore []) = Inr (result, t)"
    by (simp add: stageFreshPeerDeliveryTx_def peerRoute_def peerEnvelope_def peerStore_def emptyStore_def expirePeerInboxRowsTx_def update_inbox_def
        update_where_def inbox_ok_def List.map_filter_def execute_def bindE_def MaxStagedPeerDeliveries_def insert_inbox_def stagedRow_def inbox_check_def
        peerRouteRow_def route_ids_def peerInboxReplyValue_def)
  then show ?thesis using staging_bounded by blast
qed

lemmas schema_defs = store_ok_def principals_ok_def attachments_ok_def principal_ids_def artifacts_ok_def events_ok_def event_artifacts_ok_def
  routes_ok_def route_ids_def outbox_ok_def outbox_check_def inbox_ok_def inbox_check_def operations_ok_def currents_ok_def handlings_ok_def
  handling_check_def event_ids_def handling_ids_def dispositions_ok_def references_ok_def lineage_ok_def List.map_filter_def

lemma awaitingStore_ok: "store_ok awaitingStore"
proof -
  have "digest_text (digestString (replicate 32 CHR ''e''))" "text_length ''bob:1'' = 5" by code_simp+
  then show ?thesis
    by (simp add: schema_defs awaitingStore_def peerStore_def emptyStore_def peerRouteRow_def openHandling_def replyRow_def)
qed

text \<open>A Principal with 64 open Handlings, and a delivery that is to open one more.\<close>

definition manyHandlings :: "handlingRow list" where
  "manyHandlings = map (\<lambda>i. openHandling (''handling:'' @ replicate i CHR ''x'')) [0..<64]"

definition peerCandidate :: VerifiedPeerDelivery where
  "peerCandidate = \<lparr>vd_delivery = peerEnvelope, vd_source = ''agent:bob'', vd_target = ''agent:local'', vd_artifacts = []\<rparr>"

definition peerArrival :: Event where
  "peerArrival = publication\<lparr>e_id := ''event:2'', e_sequence := 2, e_source := ''agent:bob'', e_consequence := ConsequenceCreateHandlings,
     e_expected := None, e_artifacts := [], e_digest := replicate 32 CHR ''f'',
     e_targets := [\<lparr>requested = \<lparr>targetSelf = False, targetAlias = ''alice''\<rparr>, destination = TargetDestinationLocal, localPrincipal = ''agent:local'',
       remoteRoute = [], remoteAlias = []\<rparr>]\<rparr>"

lemma open_rows:
  "ha_id (openHandling h) = h" "ha_target (openHandling h) = ''agent:local''" "ha_state (openHandling h) = ''open''" "ha_claim (openHandling h) = None"
  "ha_head (openHandling h) = ''event:1''" "handling_check (openHandling h)"
  by (simp_all add: openHandling_def handling_check_def)

lemma many_open:
  "open_handlings ''agent:local'' (peerStore manyHandlings) = 64" "distinct (map ha_id manyHandlings)" "''handling:n'' \<notin> set (map ha_id manyHandlings)"
  "list_all handling_check manyHandlings" "\<And>r. r \<in> set manyHandlings \<Longrightarrow> ha_claim r = None \<and> ha_target r = ''agent:local'' \<and> ha_head r = ''event:1''"
proof -
  have "inj_on (\<lambda>i. ''handling:'' @ replicate i CHR ''x'') A" for A by (rule inj_onI) (simp add: replicate_eq_replicate)
  then show "distinct (map ha_id manyHandlings)" by (simp add: manyHandlings_def comp_def open_rows distinct_map)
  have "''n'' \<noteq> replicate i CHR ''x''" for i by (cases i) auto
  then show "''handling:n'' \<notin> set (map ha_id manyHandlings)" by (auto simp: manyHandlings_def open_rows)
  show "open_handlings ''agent:local'' (peerStore manyHandlings) = 64"
    by (simp add: open_handlings_def peerStore_def matching_def manyHandlings_def open_rows filter_map comp_def)
qed (auto simp: manyHandlings_def open_rows list_all_iff)

lemma unclaimed: "(\<And>r. r \<in> set rows \<Longrightarrow> ha_claim r = None) \<Longrightarrow> List.map_filter ha_claim rows = []"
  by (simp add: List.map_filter_def filter_empty_conv)

lemma peerStore_ok: "store_ok (peerStore manyHandlings)"
proof -
  have "text_length ''bob:1'' = 5" by code_simp
  moreover have "handlings_ok (peerStore manyHandlings) manyHandlings"
    using many_open(2-5) unclaimed [of manyHandlings]
    by (auto simp: handlings_ok_def list_all_iff peerStore_def principal_ids_def event_ids_def)
  ultimately show ?thesis
    by (simp add: store_ok_def principals_ok_def attachments_ok_def artifacts_ok_def events_ok_def event_artifacts_ok_def routes_ok_def outbox_ok_def
        inbox_ok_def operations_ok_def currents_ok_def dispositions_ok_def references_ok_def lineage_ok_def List.map_filter_def principal_ids_def
        peerStore_def emptyStore_def peerRouteRow_def)
qed

lemma not_a_digest: "''d'' \<noteq> digestString x"
  by (simp add: digestString_def)

lemma arrival_admitted: "\<exists>t. admitEffectTx peerArrival [] [''handling:n''] (peerStore manyHandlings) = Inr t"
proof -
  let ?s = "peerStore manyHandlings"
  let ?u = "?s\<lparr>events := events ?s @ [eventRowOf peerArrival]\<rparr>"
  let ?target = "hd (e_targets peerArrival)"
  let ?row = "successorRow peerArrival ?target ''handling:n''"
  have target: "e_targets peerArrival = [?target]" "destination ?target = TargetDestinationLocal" "localPrincipal ?target = ''agent:local''"
    "e_artifacts peerArrival = []" "e_consequence peerArrival = ConsequenceCreateHandlings"
    by (simp_all add: peerArrival_def)
  have event: "insertEventTx peerArrival ?s = Inr ?u"
    by (simp add: insertEventTx_def execute_def insert_event_def events_ok_def eventRowOf_def peerArrival_def publication_def
        peerStore_def emptyStore_def principal_ids_def not_a_digest)
  have row: "ha_id ?row = ''handling:n''" "ha_target ?row = ''agent:local''" "ha_head ?row = ''event:2''" "ha_claim ?row = None" "handling_check ?row"
    by (simp_all add: successorRow_def target(3) handling_check_def) (simp_all add: peerArrival_def)
  have ids: "''agent:local'' \<in> principal_ids ?u" "''event:1'' \<in> event_ids ?u" "''event:2'' \<in> event_ids ?u"
    by (simp_all add: principal_ids_def event_ids_def peerStore_def eventRowOf_def peerArrival_def)
  have "handlings_ok ?u (manyHandlings @ [?row])"
    unfolding handlings_ok_def
  proof (intro conjI)
    show "distinct (map ha_id (manyHandlings @ [?row]))" using many_open(2,3) row(1) by simp
    show "list_all handling_check (manyHandlings @ [?row])" using many_open(4) row(5) by simp
    have "List.map_filter ha_claim (manyHandlings @ [?row]) = []" by (rule unclaimed) (use many_open(5) row(4) in auto)
    then show "distinct (List.map_filter ha_claim (manyHandlings @ [?row]))" by simp
    show "list_all (\<lambda>r. ha_target r \<in> principal_ids ?u \<and> ha_head r \<in> event_ids ?u \<and>
        (case ha_claim r of None \<Rightarrow> True | Some a \<Rightarrow> a \<in> attachment_ids ?u)) (manyHandlings @ [?row])"
      using many_open(5) row ids by (auto simp: list_all_iff)
  qed
  moreover have "handlings ?u = manyHandlings" by (simp add: peerStore_def)
  ultimately have "insert_handling ?row ?u = Some (?u\<lparr>handlings := manyHandlings @ [?row]\<rparr>)" by (simp add: insert_handling_def)
  then have "createSuccessors peerArrival [?target] [''handling:n''] ?u = Inr (?u\<lparr>handlings := manyHandlings @ [?row]\<rparr>)"
    using target(2,3) by (simp add: execute_def bindE_def)
  moreover have "localTargetCount (e_targets peerArrival) = 1" by (simp add: peerArrival_def localTargetCount_def)
  ultimately have "applyDomainEffectTx peerArrival [] [''handling:n''] ?u = Inr (?u\<lparr>handlings := manyHandlings @ [?row]\<rparr>)"
    using target(1,5) by (simp add: applyDomainEffectTx_def createSuccessorHandlingsTx_def)
  then show ?thesis using event by (simp add: admitEffectTx_def bindE_def)
qed


end
