(* ===== verification/Authority_History.thy ===== *)
theory Authority_History
  imports Authority_Peer
begin

text \<open>
  The authority over time: every transaction that writes to the store as a step of one machine, and what
  no sequence of such steps takes back. Rows of the record of operations, of the Attachments and of the inbox
  are never deleted. The locale states what it means for a table to be kept that way by a machine, and it is
  interpreted on the three tables of the store.
\<close>

section \<open>Tables that only grow\<close>

text \<open>Every row is still there, at its place, in a form \<open>later\<close> allows.\<close>

definition extends :: "('r \<Rightarrow> 'r \<Rightarrow> bool) \<Rightarrow> 'r list \<Rightarrow> 'r list \<Rightarrow> bool" where
  "extends later rows rows' \<longleftrightarrow> (\<exists>kept new. rows' = kept @ new \<and> list_all2 later rows kept)"

lemma extends_same:
  assumes "\<And>r. later r r"
  shows "extends later rows rows" "extends later rows (rows @ new)"
  using assms unfolding extends_def by (metis append_Nil2 list_all2_refl)+

lemma extends_update:
  assumes "\<And>r. later r r" "\<And>r. P r \<Longrightarrow> later r (f r)"
  shows "extends later rows (update_where P f rows)"
  using assms unfolding extends_def update_where_def
  by (intro exI [of _ "map (\<lambda>r. if P r then f r else r) rows"] exI [of _ "[]"]) (simp add: list_all2_map2 list_all2_same)

lemma extends_trans:
  assumes "extends later xs ys" "extends later ys zs" "\<And>p q r. later p q \<Longrightarrow> later q r \<Longrightarrow> later p r"
  shows "extends later xs zs"
proof -
  obtain kept new kept' new' where k: "ys = kept @ new" "list_all2 later xs kept" "zs = kept' @ new'" "list_all2 later (kept @ new) kept'"
    using assms(1,2) by (auto simp: extends_def)
  then obtain us vs where "kept' = us @ vs" "list_all2 later kept us" by (auto simp: list_all2_append1)
  then show ?thesis
    using k(2,3) list_all2_trans [of later later later, OF assms(3)] unfolding extends_def by (intro exI [of _ us] exI [of _ "vs @ new'"]) auto
qed

lemma extends_member: "extends later xs ys \<Longrightarrow> x \<in> set xs \<Longrightarrow> \<exists>y \<in> set ys. later x y"
  unfolding extends_def by (metis in_set_conv_nth list_all2_conv_all_nth nth_append_left nth_mem length_append trans_less_add1)

lemma extends_find:
  assumes "extends later xs ys" "List.find P xs = Some x" "\<And>p q. later p q \<Longrightarrow> P q = P p"
  shows "\<exists>y. List.find P ys = Some y \<and> later x y"
proof -
  obtain kept new where k: "ys = kept @ new" "list_all2 later xs kept" using assms(1) by (auto simp: extends_def)
  have "list_all2 later xs kept \<Longrightarrow> List.find P xs = Some x \<Longrightarrow> \<exists>y. List.find P kept = Some y \<and> later x y"
    by (induction xs kept rule: list_all2_induct) (auto simp: assms(3) split: if_splits)
  then show ?thesis using k assms(2) by (auto simp: find_append)
qed

locale chronicle =
  fixes step :: "'s \<Rightarrow> 's \<Rightarrow> bool"
    and inv :: "'s \<Rightarrow> bool"
    and rows :: "'s \<Rightarrow> 'r list"
    and later :: "'r \<Rightarrow> 'r \<Rightarrow> bool"
  assumes step_inv: "step s t \<Longrightarrow> inv s \<Longrightarrow> inv t"
    and step_rows: "step s t \<Longrightarrow> inv s \<Longrightarrow> extends later (rows s) (rows t)"
    and later_refl: "later r r"
    and later_trans: "later p q \<Longrightarrow> later q r \<Longrightarrow> later p r"
begin

lemma run_inv: "step\<^sup>*\<^sup>* s t \<Longrightarrow> inv s \<Longrightarrow> inv t"
  by (induction rule: rtranclp_induct) (auto intro: step_inv)

lemma run_rows: "step\<^sup>*\<^sup>* s t \<Longrightarrow> inv s \<Longrightarrow> extends later (rows s) (rows t)"
proof (induction rule: rtranclp_induct)
  case base
  show ?case by (rule extends_same(1) [OF later_refl])
next
  case (step t u)
  then show ?case using step_rows [OF step(2) run_inv] extends_trans later_trans by metis
qed

lemma run_find:
  "step\<^sup>*\<^sup>* s t \<Longrightarrow> inv s \<Longrightarrow> List.find P (rows s) = Some r \<Longrightarrow> (\<And>p q. later p q \<Longrightarrow> P q = P p) \<Longrightarrow>
   \<exists>q. List.find P (rows t) = Some q \<and> later r q"
  using extends_find [OF run_rows] by blast

lemma run_member: "step\<^sup>*\<^sup>* s t \<Longrightarrow> inv s \<Longrightarrow> r \<in> set (rows s) \<Longrightarrow> \<exists>q \<in> set (rows t). later r q"
  using extends_member [OF run_rows] by blast

end

section \<open>The machine\<close>

text \<open>
  Every transaction of the package that writes: boundaries, claims, setup, Artifacts, Intents, the outbox
  and the inbox. A View that was issued is one row of \<open>current_operations\<close>. The last step is the end of the
  process, or the start of a new one, on the same database. The clock a boundary is issued, ended or continued
  under has a date of four digits.
\<close>

inductive authority_step :: "Store \<Rightarrow> Store \<Rightarrow> bool" where
  issue: "IssueInteractiveAttachment wall who boundary s = Inr (capability, t) \<Longrightarrow> formattable wall \<Longrightarrow> authority_step s t"
| finish: "EndInteractiveAttachment wall capability s = Inr (ending, t) \<Longrightarrow> formattable wall \<Longrightarrow> authority_step s t"
| current: "currentClaimTx wall capability s = Inr (claim, t) \<Longrightarrow> formattable wall \<Longrightarrow> authority_step s t"
| view: "insert_current row s = Some t \<Longrightarrow> authority_step s t"
| enroll: "EnrollPrincipal wall who s = Inr t \<Longrightarrow> authority_step s t"
| provision: "ProvisionInitialPrincipal wall who s = Inr (present, t) \<Longrightarrow> authority_step s t"
| route: "EnrollPeerRoute wall spec s = Inr (projection, t) \<Longrightarrow> authority_step s t"
| revoke: "RevokePeerRoute wall routeID s = Inr (projection, t) \<Longrightarrow> authority_step s t"
| catalog: "CatalogArtifact artifact s = Inr t \<Longrightarrow> authority_step s t"
| admit: "commitAdmission wall eventEntropy handlingEntropy capability request failed s = Inr (result, t) \<Longrightarrow> authority_step s t"
| pending: "PendingPeerDeliveries wall limit s = Inr (deliveries, t) \<Longrightarrow> authority_step s t"
| settle: "SettlePeerDelivery verify wall remotePeer deliveryID encoded signature s = Inr (receipt, t) \<Longrightarrow> authority_step s t"
| stage: "StagePeerDelivery verify wall remotePeer encoded signature s = Inr (staging, t) \<Longrightarrow> authority_step s t"
| preflight: "preflightPeerAdmission wall deliveryID s = Inr (checked, t) \<Longrightarrow> authority_step s t"
| accept: "commitPeerAdmission verify wall eventEntropy deliveryID checks handlingIDs s = Inr (admission, t) \<Longrightarrow> authority_step s t"
| staged: "StagedPeerDeliveries wall limit s = Inr (work, t) \<Longrightarrow> authority_step s t"
| process: "authority_step s (s\<lparr>closed := c\<rparr>)"

inductive_cases authority_stepE: "authority_step s t"

text \<open>An Attachment may end, once; a row of the inbox that is settled or expired stays as it is.\<close>

definition attachment_later :: "attachmentRow \<Rightarrow> attachmentRow \<Rightarrow> bool" where
  "attachment_later r q \<longleftrightarrow> q = r \<or> at_ended r = None \<and> (\<exists>now. formattable now \<and> q = r\<lparr>at_ended := Some (formatTime now)\<rparr>)"

definition inbox_later :: "inboxRow \<Rightarrow> inboxRow \<Rightarrow> bool" where
  "inbox_later r q \<longleftrightarrow> ib_id q = ib_id r \<and> ib_inReplyTo q = ib_inReplyTo r \<and> (ib_state r \<noteq> ''staged'' \<longrightarrow> q = r)"

lemma later_simps [simp]: "attachment_later r r" "inbox_later i i"
  by (simp_all add: attachment_later_def inbox_later_def)

lemma attachment_later_id: "attachment_later r q \<Longrightarrow> (at_id q = a) = (at_id r = a)"
  by (auto simp: attachment_later_def)

lemma attachment_later_trans: "attachment_later p q \<Longrightarrow> attachment_later q r \<Longrightarrow> attachment_later p r"
  by (auto simp: attachment_later_def)

lemma inbox_later_trans: "inbox_later p q \<Longrightarrow> inbox_later q r \<Longrightarrow> inbox_later p r"
  by (auto simp: inbox_later_def)

text \<open>What a step keeps of the three tables.\<close>

definition outlives :: "Store \<Rightarrow> Store \<Rightarrow> bool" where
  "outlives s t \<longleftrightarrow> extends (=) (operations s) (operations t) \<and> extends attachment_later (attachments s) (attachments t) \<and>
     extends inbox_later (peer_inbox s) (peer_inbox t)"

lemma outlives_trans: "outlives s t \<Longrightarrow> outlives t u \<Longrightarrow> outlives s u"
  unfolding outlives_def
  using extends_trans [of "(=)" "operations s" "operations t" "operations u"]
    extends_trans [of attachment_later "attachments s" "attachments t" "attachments u"]
    extends_trans [of inbox_later "peer_inbox s" "peer_inbox t" "peer_inbox u"] attachment_later_trans inbox_later_trans by blast

lemma outlives_same: "operations t = operations s \<Longrightarrow> attachments t = attachments s \<Longrightarrow> peer_inbox t = peer_inbox s \<Longrightarrow> outlives s t"
  by (simp add: outlives_def extends_same)

text \<open>The steps that leave Attachments, Handlings, dispositions and operations alone.\<close>

definition quiet :: "Store \<Rightarrow> Store \<Rightarrow> bool" where
  "quiet s t \<longleftrightarrow> store_ok t \<and> attachments t = attachments s \<and> handlings t = handlings s \<and> claim_dispositions t = claim_dispositions s \<and>
     operations t = operations s \<and> extends inbox_later (peer_inbox s) (peer_inbox t)"

lemma quiet_trans: "quiet s t \<Longrightarrow> quiet t u \<Longrightarrow> quiet s u"
  unfolding quiet_def using extends_trans [of inbox_later "peer_inbox s" "peer_inbox t" "peer_inbox u"] inbox_later_trans by auto

lemma quiet_refl: "store_ok s \<Longrightarrow> quiet s s"
  by (simp add: quiet_def extends_same)

lemma quiet_keeps: "quiet s t \<Longrightarrow> claims_inv s \<Longrightarrow> claims_inv t \<and> outlives s t"
  using claims_inv_same [of s t] by (auto simp: quiet_def outlives_def extends_same)

lemma quiet_tables:
  "store_ok t \<and> grows s t \<Longrightarrow> attachments t = attachments s \<Longrightarrow> handlings t = handlings s \<Longrightarrow> claim_dispositions t = claim_dispositions s \<Longrightarrow>
   operations t = operations s \<Longrightarrow> extends inbox_later (peer_inbox s) (peer_inbox t) \<Longrightarrow> quiet s t"
  by (simp add: quiet_def)

lemma quiet_statements:
  assumes "store_ok s"
  shows "insert_principal p s = Some t \<Longrightarrow> quiet s t" "insert_route r s = Some t \<Longrightarrow> quiet s t"
    "insert_artifact a s = Some t \<Longrightarrow> quiet s t" "insert_current c s = Some t \<Longrightarrow> quiet s t"
    "insert_inbox i s = Some t \<Longrightarrow> quiet s t" "update_outbox P f s = Some (t, n) \<Longrightarrow> quiet s t"
  by (rule quiet_tables, erule insert_keeps(1,5,8,11) [OF assms] inbox_keeps(1) [OF assms] update_keeps(4) [OF assms],
      auto simp: statement_defs insert_inbox_def Let_def extends_same split: if_splits; fail)+

lemma quiet_routes:
  "store_ok s \<Longrightarrow> update_routes P f s = Some (t, n) \<Longrightarrow> (\<And>r. ro_id (f r) = ro_id r) \<Longrightarrow> quiet s t"
  using update_keeps(3) [of s P f t n] by (auto simp: quiet_def extends_same dest!: update_effect(1))

lemma quiet_inbox:
  assumes "store_ok s" "update_inbox P f s = Some (t, n)" "\<And>r. P r \<Longrightarrow> ib_state r = ''staged''"
    "\<And>r. ib_id (f r) = ib_id r \<and> ib_inReplyTo (f r) = ib_inReplyTo r"
  shows "quiet s t"
proof -
  have "extends inbox_later (peer_inbox s) (update_where P f (peer_inbox s))"
    by (rule extends_update) (use assms(3,4) in \<open>simp_all add: inbox_later_def\<close>)
  then show ?thesis using inbox_keeps(2) [OF assms(1,2)] update_inbox_effect [OF assms(2)] by (simp add: quiet_def)
qed

text \<open>What every success of a transaction keeps, by the structure of its code.\<close>

definition quietly :: "Store \<Rightarrow> ('a \<times> Store) outcome \<Rightarrow> bool" where
  "quietly s result \<longleftrightarrow> (\<forall>x t. result = Inr (x, t) \<longrightarrow> quiet s t)"

lemma quietlyD: "result = Inr (x, t) \<Longrightarrow> quietly s result \<Longrightarrow> quiet s t"
  by (simp add: quietly_def)

lemma quietly_simps [simp]: "quietly s (Inl e)" "quietly s (Inr (x, t)) = quiet s t"
  by (simp_all add: quietly_def)

lemma quietly_bind: "(\<And>y. m = Inr y \<Longrightarrow> quietly s (f y)) \<Longrightarrow> quietly s (bindE m f)"
  by (cases m) (simp_all add: bindE_def)

text \<open>The operations of setup, Artifacts, the outbox and the inbox are of this kind.\<close>

lemma quiet_setup:
  assumes "store_ok s"
  shows "EnrollPrincipal wall who s = Inr t \<Longrightarrow> quiet s t" "ProvisionInitialPrincipal wall who s = Inr (present, t) \<Longrightarrow> quiet s t"
    "CatalogArtifact artifact s = Inr t \<Longrightarrow> quiet s t"
  using quiet_statements(1,3) [OF assms] quiet_refl [OF assms]
  by (auto simp: EnrollPrincipal_def ProvisionInitialPrincipal_def CatalogArtifact_def Let_def guards split: if_splits option.splits)

lemma quiet_route:
  assumes "EnrollPeerRoute wall spec s = Inr (projection, t)" "store_ok s"
  shows "quiet s t"
  using assms(1)
proof (cases rule: EnrollPeerRoute_cases)
  case (fresh surrogate u)
  then show ?thesis
    using quiet_statements(1) [OF assms(2) fresh(4)] quiet_statements(2) [OF _ fresh(5)] quiet_trans by (auto simp: quiet_def)
qed (use quiet_refl [OF assms(2)] in simp)

lemma quiet_revoke:
  assumes "RevokePeerRoute wall routeID s = Inr (projection, t)" "store_ok s"
  shows "quiet s t"
  using assms(1)
proof (cases rule: RevokePeerRoute_cases)
  case (fresh current u n)
  have u: "quiet s u" by (rule quiet_routes [OF assms(2) fresh(3)]) simp
  then have "quiet u t" using quiet_statements(6) [OF _ fresh(4)] by (simp add: quiet_def)
  then show ?thesis using u quiet_trans by blast
qed (use quiet_refl [OF assms(2)] in simp)

lemma quiet_outbox:
  assumes "store_ok s"
  shows "PendingPeerDeliveries wall limit s = Inr (deliveries, t) \<Longrightarrow> quiet s t"
    "SettlePeerDelivery verify wall remotePeer deliveryID encoded signature s = Inr (receipt, t) \<Longrightarrow> quiet s t"
  using quiet_statements(6) [OF assms] quiet_refl [OF assms]
  by (auto simp: PendingPeerDeliveries_def expirePeerOutboxTx_def SettlePeerDelivery_def settlePeerDeliveryTx_def guards split: if_splits)

lemma quiet_expiry:
  assumes "store_ok s"
  shows "expirePeerInboxRowsTx now s = Inr t \<Longrightarrow> quiet s t" "expirePeerInboxTx delivery now s = Inr (result, t) \<Longrightarrow> quiet s t"
    "expirePeerInboxDeliveryTx deliveryID now s = Inr (changed, t) \<Longrightarrow> quiet s t"
    "settleRejectedPeerInboxTx delivery label diagnostic now s = Inr (result, t) \<Longrightarrow> quiet s t"
  by (auto simp: expirePeerInboxRowsTx_def expirePeerInboxTx_def expirePeerInboxDeliveryTx_def settleRejectedPeerInboxTx_def guards
      intro: quiet_inbox [OF assms])

lemma quiet_fresh:
  assumes "stageFreshPeerDeliveryTx projection delivery signature now s = Inr (staging, t)" "store_ok s"
  shows "quiet s t"
proof -
  obtain u where u: "expirePeerInboxRowsTx now s = Inr u" using assms(1) by (auto simp: stageFreshPeerDeliveryTx_def guards split: if_splits)
  have su: "quiet s u" by (rule quiet_expiry(1) [OF assms(2) u])
  then have "store_ok u" by (simp add: quiet_def)
  then have "quietly u (stageFreshPeerDeliveryTx projection delivery signature now s)"
    unfolding stageFreshPeerDeliveryTx_def u
    by (auto simp: insertRejectedPeerInboxTx_def insertExpiredPeerInboxTx_def bindE_def [of "Inr u"] guards intro!: quietly_bind intro: quiet_statements(5))
  then show ?thesis using quietlyD [OF assms(1)] su quiet_trans by blast
qed

lemma quiet_stage:
  assumes "StagePeerDelivery verify wall remotePeer encoded signature s = Inr (staging, t)" "store_ok s"
  shows "quiet s t"
proof (rule quietlyD [OF assms(1)])
  show "quietly s (StagePeerDelivery verify wall remotePeer encoded signature s)"
    unfolding StagePeerDelivery_def stagePeerDeliveryTx_def replayPeerInboxTx_def
    using quiet_fresh [OF _ assms(2)] quiet_expiry(2) [OF assms(2)] quiet_refl [OF assms(2)]
    by (auto intro!: quietly_bind simp: quietly_def [of s "stageFreshPeerDeliveryTx _ _ _ _ _"] quietly_def [of s "expirePeerInboxTx _ _ _"] split: option.split)
qed

lemma quiet_preflight:
  assumes "store_ok s"
  shows "quietly s (preflightPeerAdmission wall deliveryID s)" "quietly s (StagedPeerDeliveries wall limit s)"
  unfolding preflightPeerAdmission_def StagedPeerDeliveries_def
  using quiet_expiry(1,3) [OF assms] by (auto intro!: quietly_bind split: option.split sum.split)

lemma quiet_prepare:
  assumes "store_ok s"
  shows "quietly s (preparePeerAdmissionTx verify deliveryID checks now s)"
  unfolding preparePeerAdmissionTx_def Let_def
  using quiet_expiry(2,4) [OF assms] quiet_refl [OF assms] by (auto intro!: quietly_bind split: option.split sum.split)

section \<open>Every step keeps the claims and the three tables\<close>

definition kept :: "Store \<Rightarrow> Store \<Rightarrow> bool" where
  "kept s t \<longleftrightarrow> claims_inv t \<and> outlives s t"

lemma kept_trans: "kept s t \<Longrightarrow> kept t u \<Longrightarrow> kept s u"
  using outlives_trans by (auto simp: kept_def)

lemma kept_quiet: "quiet s t \<Longrightarrow> claims_inv s \<Longrightarrow> kept s t"
  using quiet_keeps by (simp add: kept_def)

lemma claims_store: "claims_inv s \<Longrightarrow> store_ok s"
  by (simp add: claims_inv_def)

lemma kept_domain:
  assumes "commitDomainAdmissionTx candidate eventID ids now s = Inr (event, t)" "claims_inv s"
  shows "kept s t \<and> peer_inbox t = peer_inbox s"
proof -
  let ?s = "s\<lparr>origin_sequence := origin_sequence s + 1\<rparr>"
  obtain a v reply where v: "admitEffectTx event a ids ?s = Inr v" "deliverTargets event reply now (e_targets event) v = Inr t"
    using assms(1)
    by (auto simp: commitDomainAdmissionTx_def newDomainEventTx_def nextOriginSequenceTx_def insertPeerDeliveriesTx_def Let_def guards
        split: domainAdmissionCandidate.splits if_splits)
  have s: "store_ok s" "store_ok ?s" using claims_store [OF assms(2)] sequence_irrelevant by blast+
  have "claims_inv ?s" by (rule claims_inv_same [OF assms(2) s(2)]) simp
  then have cv: "claims_inv v" "store_ok v" using claims_inv_admitted [OF v(1)] claims_store by blast+
  obtain w where w: "insertEventTx event ?s = Inr w" "applyDomainEffectTx event a ids w = Inr v"
    using v(1) by (auto simp: admitEffectTx_def bindE_Inr)
  obtain xs where "store_ok w" "w = ?s\<lparr>events := events s @ [eventRowOf event], event_artifacts := event_artifacts s @ xs\<rparr>"
    using insertEventTx_effect [OF w(1) s(2)] by auto
  then have tables: "operations v = operations s" "peer_inbox v = peer_inbox s" using effect_outbox [OF w(2)] by simp_all
  obtain rows where t: "store_ok t" "t = v\<lparr>peer_outbox := peer_outbox v @ rows\<rparr>" using deliverTargets_effect [OF v(2) cv(2)] by blast
  have "claims_inv t" by (rule claims_inv_same [OF cv(1) t(1)]) (simp add: t(2))
  moreover have "attachments v = attachments s" using admitEffectTx_frame [OF v(1) s(2)] by simp
  ultimately show ?thesis using tables outlives_same [of t s] by (simp add: kept_def t(2))
qed

lemma kept_recorded:
  assumes "insert_operation row s = Some t" "claims_inv s"
  shows "kept s t"
proof -
  have t: "store_ok t" "t = s\<lparr>operations := operations s @ [row]\<rparr>"
    using insert_keeps(10) [OF claims_store [OF assms(2)] assms(1)] insert_operation_effect [OF assms(1)] by simp_all
  have "claims_inv t" by (rule claims_inv_same [OF assms(2) t(1)]) (simp add: t(2))
  then show ?thesis by (simp add: kept_def outlives_def t(2) extends_same)
qed

lemma kept_admit:
  assumes "commitAdmission wall eventEntropy handlingEntropy capability request failed s = Inr (result, t)" "claims_inv s"
  shows "kept s t"
  using assms(1)
proof (cases rule: commitAdmission_cases)
  case (replay a)
  then show ?thesis using assms(2) by (simp add: kept_def outlives_same)
next
  case (refused a r)
  then show ?thesis using kept_recorded assms(2) by (auto simp: persistRejectionTx_Inr)
next
  case (accepted a eventID handlingIDs)
  then obtain event u row where u: "commitDomainAdmissionTx (localDomainAdmission request) eventID handlingIDs wall s = Inr (event, u)"
    "insert_operation row u = Some t"
    by (auto simp: commitAcceptedAdmissionTx_def insertOperationTx_def guards)
  have "kept s u" using kept_domain [OF u(1) assms(2)] by simp
  then show ?thesis using kept_recorded [OF u(2)] kept_trans by (auto simp: kept_def)
qed

lemma kept_accepted:
  assumes "commitAcceptedPeerAdmissionTx delivery verified eventID handlingIDs now s = Inr (admission, t)" "claims_inv s"
  shows "kept s t"
  using assms(1)
proof (cases rule: accepted_peer_steps)
  case (1 effect event receipt u)
  have u: "kept s u" using kept_domain [OF 1(2) assms(2)] by simp
  then have "quiet u t" by (intro quiet_inbox [OF _ 1(3)]) (auto simp: accepted_row_def kept_def claims_store)
  then show ?thesis using u kept_quiet kept_trans by (meson kept_def)
qed

lemma kept_accept:
  assumes "commitPeerAdmission verify wall eventEntropy deliveryID checks handlingIDs s = Inr (admission, t)" "claims_inv s"
  shows "kept s t"
proof -
  obtain eventID prepared u where u: "preparePeerAdmissionTx verify deliveryID checks wall s = Inr (prepared, u)"
    and rest: "(case pr_verified prepared of None \<Rightarrow> Inr (pr_result prepared, u)
       | Some verified \<Rightarrow> commitAcceptedPeerAdmissionTx (pa_delivery (pr_result prepared)) verified eventID handlingIDs wall u) = Inr (admission, t)"
    using assms(1) by (auto simp: commitPeerAdmission_def trustedNow_def guards split: if_splits)
  have su: "kept s u" using kept_quiet [OF quietlyD [OF u quiet_prepare] assms(2)] claims_store [OF assms(2)] by blast
  then show ?thesis
    using rest kept_accepted kept_trans by (auto simp: kept_def split: option.splits)
qed

lemma ended_boundary_later:
  assumes "endLiveAttachmentTx now a s = Inr (released, t)" "store_ok s" "formattable now"
  shows "outlives s t"
  using assms(1,2)
proof (cases rule: endLiveAttachmentTx_effect)
  case (1 ds)
  have "extends attachment_later (attachments s) (update_where (\<lambda>r. at_id r = a \<and> at_ended r = None)
      (\<lambda>r. r\<lparr>at_ended := Some (formatTime now)\<rparr>) (attachments s))"
    by (rule extends_update) (use assms(3) in \<open>auto simp: attachment_later_def\<close>)
  then show ?thesis by (simp add: 1(1) boundaryEnded_def outlives_def extends_same)
qed

lemma kept_issue:
  assumes "IssueInteractiveAttachment wall who boundary s = Inr (capability, t)" "formattable wall" "claims_inv s"
  shows "kept s t"
proof -
  have "outlives s t"
    using assms(1)
  proof (cases rule: IssueInteractiveAttachment_cases)
    case (fresh m u)
    have "outlives s u"
      using fresh(4) claims_store [OF assms(3)]
    proof (cases rule: replaceLiveAttachmentTx_effect)
      case (ended r released)
      then show ?thesis using ended_boundary_later [OF ended(4) claims_store [OF assms(3)] assms(2)] by simp
    qed (simp add: outlives_same)
    moreover have "outlives u t" using insertAttachmentBeginTx_effect [OF fresh(5)] by (simp add: outlives_def extends_same)
    ultimately show ?thesis using outlives_trans by blast
  qed (simp add: outlives_same)
  then show ?thesis using claims_inv_issued [OF assms(1,3)] by (simp add: kept_def)
qed

lemma kept_finish:
  assumes "EndInteractiveAttachment wall capability s = Inr (ending, t)" "formattable wall" "claims_inv s"
  shows "kept s t"
proof -
  have "outlives s t"
    using assms(1)
  proof (cases rule: EndInteractiveAttachment_cases)
    case (fresh a)
    then show ?thesis using ended_boundary_later [OF fresh(4) claims_store [OF assms(3)] assms(2)] by simp
  qed (simp add: outlives_same)
  then show ?thesis using claims_inv_finished [OF assms(1,3)] by (simp add: kept_def)
qed

lemma kept_current:
  assumes "currentClaimTx wall capability s = Inr (claim, t)" "formattable wall" "claims_inv s"
  shows "kept s t"
proof -
  have "outlives s t"
    using assms(1,3,2) by (cases rule: currentClaimTx_cases) (simp_all add: outlives_same)
  then show ?thesis using claims_inv_current assms by (auto simp: kept_def)
qed

lemma kept_process: "claims_inv s \<Longrightarrow> kept s (s\<lparr>closed := c\<rparr>)"
proof -
  assume inv: "claims_inv s"
  have "store_ok (s\<lparr>closed := c\<rparr>)"
    using store_keepI [of s "s\<lparr>closed := c\<rparr>"] claims_store [OF inv] by (simp add: store_ok_def grows_def ids_defs)
  then have "claims_inv (s\<lparr>closed := c\<rparr>)" using claims_inv_same [OF inv] by simp
  then show ?thesis by (simp add: kept_def outlives_same)
qed

lemma step_kept:
  assumes "authority_step s t" "claims_inv s"
  shows "kept s t"
proof -
  note ok = claims_store [OF assms(2)] and quiet = kept_quiet [OF _ assms(2)]
  show ?thesis
    using assms(1)
  proof cases
    case issue then show ?thesis using kept_issue assms(2) by blast
  next
    case finish then show ?thesis using kept_finish assms(2) by blast
  next
    case current then show ?thesis using kept_current assms(2) by blast
  next
    case view then show ?thesis by (intro quiet quiet_statements(4) [OF ok])
  next
    case enroll then show ?thesis by (intro quiet quiet_setup(1) [OF ok])
  next
    case provision then show ?thesis by (intro quiet quiet_setup(2) [OF ok])
  next
    case route then show ?thesis by (intro quiet quiet_route [OF _ ok])
  next
    case revoke then show ?thesis by (intro quiet quiet_revoke [OF _ ok])
  next
    case catalog then show ?thesis by (intro quiet quiet_setup(3) [OF ok])
  next
    case admit then show ?thesis using kept_admit assms(2) by blast
  next
    case pending then show ?thesis by (intro quiet quiet_outbox(1) [OF ok])
  next
    case settle then show ?thesis by (intro quiet quiet_outbox(2) [OF ok])
  next
    case stage then show ?thesis by (intro quiet quiet_stage [OF _ ok])
  next
    case preflight then show ?thesis by (intro quiet quietlyD [OF _ quiet_preflight(1) [OF ok]])
  next
    case accept then show ?thesis using kept_accept assms(2) by blast
  next
    case staged then show ?thesis by (intro quiet quietlyD [OF _ quiet_preflight(2) [OF ok]])
  next
    case process then show ?thesis using kept_process assms(2) by simp
  qed
qed

interpretation journal: chronicle authority_step claims_inv operations "(=)"
  using step_kept by unfold_locales (auto simp: kept_def outlives_def)

interpretation boundaries: chronicle authority_step claims_inv attachments attachment_later
  using step_kept attachment_later_trans by unfold_locales (auto simp: kept_def outlives_def)

interpretation letters: chronicle authority_step claims_inv peer_inbox inbox_later
  using step_kept inbox_later_trans by unfold_locales (auto simp: kept_def outlives_def)

section \<open>A refusal is final\<close>

text \<open>A capability authenticates the same Attachment at any later time, ended or not.\<close>

lemma authenticate_later:
  assumes "authenticateAttachmentTx capability s = Inr a" "extends attachment_later (attachments s) (attachments v)" "store_ok v"
  shows "\<exists>b. authenticateAttachmentTx capability v = Inr b \<and> aa_value b = aa_value a"
proof -
  obtain r where r: "List.find (\<lambda>r. at_id r = proof_id capability) (attachments s) = Some r"
    using assms(1) by (auto simp: authenticateAttachmentTx_def split: if_splits option.splits)
  obtain q where q: "List.find (\<lambda>r. at_id r = proof_id capability) (attachments v) = Some q" "attachment_later r q"
    using extends_find [OF assms(2) r attachment_later_id] by blast
  show ?thesis
  proof (cases "q = r")
    case True
    then have "authenticateAttachmentTx capability v = authenticateAttachmentTx capability s"
      using r q(1) by (simp add: authenticateAttachmentTx_def)
    then show ?thesis using assms(1) by simp
  next
    case False
    then obtain now where now: "at_ended r = None" "formattable now" "q = r\<lparr>at_ended := Some (formatTime now)\<rparr>"
      using q(2) by (auto simp: attachment_later_def)
    have issued: "parseTime (at_issued r) = Inr (issuedAt (aa_value a)) \<and> time_ok (issuedAt (aa_value a))"
      using assms(1) r now(1) by (auto simp: authenticateAttachmentTx_def guards NewAttachment_def canonicalTime_Inr split: if_splits)
    have "attachment_check q" using find_Some_iff_mem [OF q(1)] assms(3) by (auto simp: store_ok_def attachments_ok_def list_all_iff)
    then have "formatTime (issuedAt (aa_value a)) \<le> formatTime now"
      using issued parseTime_Inr [of "at_issued r"] by (simp add: attachment_check_def now(3))
    then have "\<not> now < issuedAt (aa_value a)"
      using issued formatTime_order(2) [OF formattable_int64 now(2), of "issuedAt (aa_value a)"] by (simp add: time_ok_def)
    then have "authenticateAttachmentTx capability v = Inr (a\<lparr>aa_ended := Some now\<rparr>)"
      using assms(1) r q(1) now issued parseTime_formatTime [OF now(2)]
      by (auto simp: authenticateAttachmentTx_def guards orElse_def wrap_def require_def bindE_def split: if_splits sum.splits)
    then show ?thesis by simp
  qed
qed

text \<open>
  (C1) A refusal is final. In a store with the invariant of the claims, what the refusal of a well-formed request
  changes is one row of the record of operations, which names no Event. From then on, after any sequence of
  transactions of the authority (boundaries issued or ended under clocks with dates of four digits, claims, setup,
  Artifacts, other admissions, deliveries, a restart), while the store is open, the same request under the same
  capability is answered with the very bytes that were recorded, whatever nonzero time the clock reads, whether the
  Attachment has expired or ended, and whatever the verifier of Artifacts says, and nothing is written;
  another request (with a nonzero digest) under that operation key is a conflict. (A Receipt whose digest is
  the zero digest would be reported as corrupt.)
\<close>

theorem refusal_final:
  assumes "commitAdmission wall eventEntropy handlingEntropy capability request failed s = Inr (result, t)"
    "adm_outcome result = ReceiptOutcomeRejected" "\<not> adm_replayed result" "request_ok request" "claims_inv s"
    "b_operationKey again = b_operationKey request" "b_digest again \<noteq> zeroDigest" "later \<noteq> zeroTime"
    "authority_step\<^sup>*\<^sup>* t v" "\<not> closed v"
  shows "(\<exists>row. t = s\<lparr>operations := operations s @ [row]\<rparr> \<and> op_event row = None \<and> op_receipt row = adm_receipt result) \<and>
    Admit verifier later later' eventEntropy' handlingEntropy' capability again v u =
      (if b_digest again \<noteq> b_digest request then Inl ErrOperationConflict
       else if adm_digest result = zeroDigest then Inl (Problem ''admit Intent: corrupt stored Receipt'')
       else Inr (result\<lparr>adm_replayed := True\<rparr>, u))"
proof -
  obtain a receipt where a: "authenticateAttachmentTx capability t = Inr a" and receipt: "receipt_ok receipt" "result = resultFromReceipt receipt False"
    "r_requestDigest receipt = b_digest request" "r_operationKey receipt = b_operationKey request" "r_event receipt = zeroEventRef"
    and t: "t = s\<lparr>operations := operations s @ [operationRowOf (att_principal (aa_value a)) receipt []]\<rparr>"
    "List.find (\<lambda>r. op_actor r = att_principal (aa_value a) \<and> op_key r = b_operationKey request) (operations s) = None"
    using refused_admission [OF assms(1-4)] by blast
  have inv: "claims_inv t" using kept_admit [OF assms(1,5)] by (simp add: kept_def)
  obtain b where b: "authenticateAttachmentTx capability v = Inr b" "aa_value b = aa_value a"
    using authenticate_later [OF a boundaries.run_rows [OF assms(9) inv]] journal.run_inv [OF assms(9) inv] claims_store by blast
  obtain rows where rows: "operations v = operations s @ operationRowOf (att_principal (aa_value a)) receipt [] # rows"
    using journal.run_rows [OF assms(9) inv] by (auto simp: extends_def t(1) list_all2_eq [symmetric])
  have event: "validateReplayEventTx receipt (if [] = ([] :: char list) then None else Some []) v = Inr ()"
    by (simp add: validateReplayEventTx_def receipt(5) require_def refIsZero_def zeroEventRef_def)
  have "operationReplayTx (att_principal (aa_value b)) again v = recordedAnswer receipt again"
    unfolding b(2) by (rule recorded_operation [OF receipt(1) event _ rows]) (use t receipt(4) assms(6) in simp_all)
  moreover have "b_operationKey again \<noteq> []" using assms(4,6) by (auto simp: request_ok_def bound_ok_def dest: token_okD)
  ultimately have "Admit verifier later later' eventEntropy' handlingEntropy' capability again v u =
      bindE (recordedAnswer receipt again) (\<lambda>answer. Inr (the answer, u))"
    using Admit_recorded [OF b(1)] assms(7,8,10) by blast
  then show ?thesis
    using t(1) receipt(2,3) by (auto simp: recordedAnswer_def bindE_def resultFromReceipt_def operationRowOf_def)
qed

theorem refusal_final_witness:
  "\<exists>request result t v. commitAdmission 900000001000 (replicate 16 CHR ''x'') (\<lambda>_. replicate 16 CHR ''x'') sampleProof request False credentialStore = Inr (result, t) \<and>
     EnrollPrincipal 1000 ''agent:new'' t = Inr v \<and> v \<noteq> t \<and>
     Admit None 1000 1000 [] (\<lambda>_. []) sampleProof request v v =
       (if adm_digest result = zeroDigest then Inl (Problem ''admit Intent: corrupt stored Receipt'')
        else Inr (result\<lparr>adm_replayed := True\<rparr>, v))"
proof -
  obtain request result t where r: "commitAdmission 900000001000 (replicate 16 CHR ''x'') (\<lambda>_. replicate 16 CHR ''x'') sampleProof request False credentialStore = Inr (result, t)"
    "adm_outcome result = ReceiptOutcomeRejected" "\<not> adm_replayed result" "request_ok request" "b_digest request \<noteq> zeroDigest"
    using sample_refused by blast
  obtain row where t: "t = credentialStore\<lparr>operations := operations credentialStore @ [row]\<rparr>" by (rule refused_admission [OF r(1-4)])
  define v where "v = t\<lparr>principals := principals t @ [\<lparr>pr_id = ''agent:new'', pr_createdAt = formatTime 1000\<rparr>]\<rparr>"
  have zero: "(1000 :: instant) \<noteq> zeroTime" by code_simp
  have v: "EnrollPrincipal 1000 ''agent:new'' t = Inr v" "\<not> closed v" "v \<noteq> t"
    using zero
    by (simp_all add: EnrollPrincipal_def v_def t credentialStore_def claimStore_def emptyStore_def trustedNow_def requireOpen_def require_def bindE_def
        execute_def insert_principal_def principals_ok_def principal_ids_def)
  have run: "authority_step\<^sup>*\<^sup>* t v" using authority_step.enroll [OF v(1)] by blast
  have inv: "claims_inv credentialStore" using credentialStore_inv by (simp add: admission_inv_def)
  have "Admit None 1000 1000 [] (\<lambda>_. []) sampleProof request v v =
     (if adm_digest result = zeroDigest then Inl (Problem ''admit Intent: corrupt stored Receipt'')
      else Inr (result\<lparr>adm_replayed := True\<rparr>, v))"
    using refusal_final [OF r(1-4) inv refl r(5) zero run v(2), of None 1000 "[]" "\<lambda>_. []" v] by simp
  then show ?thesis using r(1) v by blast
qed

section \<open>A delivery is answered once\<close>

lemma matched_terminal:
  "matchOpenTerminalReplyAnchorTx verified route s = Inr (Some m) \<Longrightarrow> RequiresTerminalReplyMatch (vd_delivery verified)"
  by (auto simp: matchOpenTerminalReplyAnchorTx_def RequiresTerminalReplyMatch_def Let_def split: if_splits)

text \<open>
  (C7) A delivery is answered once, by its own route. In a store with the invariant of the claims, a terminal reply matches only the delivery it names, on the
  route that delivery went out on, with the very root Event (identity and digest) it was sent under, while the
  Handling that waits for the reply is open and its Principal is the reply's target. The acceptance of the reply,
  when its row in the inbox names the same delivery, changes no Handling and no row of the outbox; the Handling it
  answers then has at most 64 accepted replies, and no other Handling has more than before. From then on, after any
  sequence of transactions of the authority, no reply to that delivery matches, on any route.
\<close>

theorem reply_observed_once:
  assumes "matchOpenTerminalReplyAnchorTx verified route s = Inr (Some m)" "claims_inv s"
    "row \<in> set (peer_inbox s)" "ib_id row = deliveryString (pd_id delivery)" "ib_inReplyTo row = peerInboxReplyValue (vd_delivery verified)"
  shows "(\<exists>out h. out \<in> set (peer_outbox s) \<and> h \<in> set (handlings s) \<and> ob_id out = deliveryString (pd_inReplyTo (vd_delivery verified)) \<and>
      ob_route out = route \<and> ob_rootEvent out = Some (ref_id (pd_originCorrelation (vd_delivery verified))) \<and>
      ob_rootDigest out = Some (digestString (ref_digest (pd_originCorrelation (vd_delivery verified)))) \<and>
      ob_anchor out = Some (tm_anchor m) \<and> ha_id h = tm_anchor m \<and> ha_target h = vd_target verified \<and> ha_state h = ''open'') \<and>
    (\<forall>eventID ids now result t. commitAcceptedPeerAdmissionTx delivery verified eventID ids now s = Inr (result, t) \<longrightarrow>
      handlings t = handlings s \<and> peer_outbox t = peer_outbox s \<and> length (accepted_replies (tm_anchor m) t) \<le> 64 \<and>
      (\<forall>other. other \<noteq> tm_anchor m \<longrightarrow> length (accepted_replies other t) \<le> length (accepted_replies other s)) \<and>
      (\<forall>v again route' m'. authority_step\<^sup>*\<^sup>* t v \<longrightarrow> pd_inReplyTo (vd_delivery again) = pd_inReplyTo (vd_delivery verified) \<longrightarrow>
        matchOpenTerminalReplyAnchorTx again route' v \<noteq> Inr (Some m')))"
proof -
  let ?reply = "deliveryString (pd_inReplyTo (vd_delivery verified))"
  obtain out h where out: "out \<in> set (peer_outbox s)" "h \<in> set (handlings s)" "ob_id out = ?reply" "ob_route out = route"
    "ob_rootEvent out = Some (ref_id (pd_originCorrelation (vd_delivery verified)))"
    "ob_rootDigest out = Some (digestString (ref_digest (pd_originCorrelation (vd_delivery verified))))"
    "ob_anchor out = Some (tm_anchor m)" "ha_id h = tm_anchor m" "ha_target h = vd_target verified" "ha_state h = ''open''"
    using matched_reply(1) [OF assms(1)] by auto
  note ok = claims_store [OF assms(2)] and terminal = matched_terminal [OF assms(1)]
  have reply: "ib_inReplyTo row = Some ?reply" using assms(5) terminal by (simp add: peerInboxReplyValue_def RequiresTerminalReplyMatch_def)
  have same: "r = row" if "r \<in> set (peer_inbox s)" "ib_id r = deliveryString (pd_id delivery)" for r
    using filter_map_distinct_keys [of ib_id "peer_inbox s" r row] that assms(3,4) ok by (simp add: store_ok_def inbox_ok_def)
  have accepted: "handlings t = handlings s \<and> peer_outbox t = peer_outbox s \<and> length (accepted_replies (tm_anchor m) t) \<le> 64 \<and>
      (\<forall>other. other \<noteq> tm_anchor m \<longrightarrow> length (accepted_replies other t) \<le> length (accepted_replies other s)) \<and>
      (\<forall>v again route' m'. authority_step\<^sup>*\<^sup>* t v \<longrightarrow> pd_inReplyTo (vd_delivery again) = pd_inReplyTo (vd_delivery verified) \<longrightarrow>
        matchOpenTerminalReplyAnchorTx again route' v \<noteq> Inr (Some m'))"
    if "commitAcceptedPeerAdmissionTx delivery verified eventID ids now s = Inr (result, t)" for eventID ids now result t
    using that terminal ok
  proof (cases rule: accepted_reply)
    case (1 event receipt xs)
    let ?P = "\<lambda>r. ib_id r = deliveryString (pd_id delivery) \<and> ib_state r = ''staged''" and ?f = "accepted_row (e_id event) receipt now"
    have tables: "peer_outbox t = peer_outbox s" "peer_inbox t = update_where ?P ?f (peer_inbox s)" "handlings t = handlings s" by (simp_all add: 1(1))
    have counts: "length (accepted_replies (tm_anchor m) t) \<le> length (accepted_replies (tm_anchor m) s) + 1"
      "other \<noteq> tm_anchor m \<Longrightarrow> length (accepted_replies other t) \<le> length (accepted_replies other s)" for other
      by (rule settled_replies [OF ok out(1,7) _ 1(2) _ tables(1,2)]; use same reply out(3) in \<open>auto simp: accepted_row_def\<close>)+
    have "filter ?P (peer_inbox s) \<noteq> []" using 1(2) by (auto simp: matching_def)
    then obtain r where "r \<in> set (peer_inbox s)" "?P r" by (auto simp: filter_empty_conv)
    then have settled: "?f row \<in> set (peer_inbox t)" using same by (force simp: tables(2) set_update_where)
    have inv: "claims_inv t" using kept_accepted [OF that assms(2)] by (simp add: kept_def)
    have "matchOpenTerminalReplyAnchorTx again route' v \<noteq> Inr (Some m')"
      if "authority_step\<^sup>*\<^sup>* t v" "pd_inReplyTo (vd_delivery again) = pd_inReplyTo (vd_delivery verified)" for v again route' m'
    proof -
      have "?f row \<in> set (peer_inbox v)" using letters.run_member [OF that(1) inv settled] by (auto simp: inbox_later_def accepted_row_def)
      then have "list_ex (\<lambda>r. ib_inReplyTo r = Some (deliveryString (pd_inReplyTo (vd_delivery again))) \<and> ib_event r \<noteq> None) (peer_inbox v)"
        using reply that(2) by (auto simp: list_ex_iff accepted_row_def intro!: bexI [of _ "?f row"])
      then show ?thesis by (rule answered_no_match)
    qed
    then show ?thesis using tables(1,3) counts matched_reply(2) [OF assms(1)] by auto
  qed
  show ?thesis using out accepted by blast
qed

section \<open>An instance\<close>

text \<open>The reply of the instances before, with the bytes of its envelope and their digest.\<close>

definition sealedEnvelope :: PeerDelivery where
  "sealedEnvelope =
     replyEnvelope\<lparr>pd_canonical := Marshal (enc_delivery (deliveryWire replyEnvelope)),
       pd_envelope := domainSeparatedDigest peerDeliveryEnvelopeDomain (Marshal (enc_delivery (deliveryWire replyEnvelope)))\<rparr>"

definition sealedReply :: VerifiedPeerDelivery where
  "sealedReply = \<lparr>vd_delivery = sealedEnvelope, vd_source = ''agent:bob'', vd_target = ''agent:local'', vd_artifacts = []\<rparr>"

definition observationStamp :: EventStamp where
  "observationStamp = \<lparr>st_id = ''event:2'', st_acceptedAt = 1000, st_sequence = 2, st_depth = 1\<rparr>"

definition arrival :: Event where
  "arrival = \<lparr>e_id = ''event:2'', e_acceptedAt = 1000, e_sequence = 2, e_depth = 1, e_source = ''agent:bob'',
     e_operationKey = deliveryString (replicate 32 CHR ''j''), e_requestDigest = pd_envelope sealedEnvelope, e_kind = ''note'', e_payload = ''hello'',
     e_consequence = ConsequenceObserveDeclined, e_subject = None, e_expected = None, e_targets = [], e_artifacts = [],
     e_causation = [\<lparr>ref_id = ''event:r'', ref_digest = replicate 32 CHR ''r''\<rparr>],
     e_correlation = \<lparr>ref_id = ''event:1'', ref_digest = replicate 32 CHR ''e''\<rparr>, e_inReplyTo = replicate 32 CHR ''o'',
     e_canonical = [], e_digest = zeroDigest\<rparr>"

definition observed :: Event where
  "observed = arrival\<lparr>e_canonical := Marshal (enc_event (eventToWire arrival)), e_digest := Sum (Marshal (enc_event (eventToWire arrival)))\<rparr>"

lemma instance_tokens:
  "handle_ok ''event:2''" "handle_ok ''agent:bob''" "handle_ok (deliveryString (replicate 32 CHR ''j''))" "label_ok ''note''" "payload_ok ''hello''"
  "digest_ok (replicate 32 CHR ''r'')" "digest_ok (replicate 32 CHR ''e'')" "digest_ok (replicate 32 CHR ''o'')" "digest_ok (replicate 32 CHR ''j'')"
  "handle_ok ''event:r''" "handle_ok ''event:1''" "time_ok 1000" "observation ConsequenceObserveDeclined"
  by code_simp+

lemma sealed_fields:
  "pd_id sealedEnvelope = replicate 32 CHR ''j''" "pd_depth sealedEnvelope = 1" "pd_inReplyTo sealedEnvelope = replicate 32 CHR ''o''"
  "pd_artifacts sealedEnvelope = []" "pd_kind sealedEnvelope = ''note''" "pd_payload sealedEnvelope = ''hello''"
  "pd_originEvent sealedEnvelope = \<lparr>ref_id = ''event:r'', ref_digest = replicate 32 CHR ''r''\<rparr>"
  "pd_originCorrelation sealedEnvelope = \<lparr>ref_id = ''event:1'', ref_digest = replicate 32 CHR ''e''\<rparr>"
  "pd_originConsequence sealedEnvelope = ConsequenceResolveDeclined" "length (pd_envelope sealedEnvelope) = 32"
  "vd_source sealedReply = ''agent:bob''"
  by (simp_all add: sealedReply_def sealedEnvelope_def replyEnvelope_def peerEnvelope_def domainSeparatedDigest_def)

lemma observation_ok:
  assumes "pd_envelope sealedEnvelope \<noteq> zeroDigest"
  shows "event_ok arrival"
  using assms instance_tokens sealed_fields(10)
  by (simp add: event_ok_def arrival_def digest_ok_def ref_ok_def MaxPeerCausalDepth_def MaxSuccessors_def MaxArtifactInputs_def MaxCausationHandles_def sortDigests_def)

lemma sealed_event:
  assumes "pd_envelope sealedEnvelope \<noteq> zeroDigest"
  shows "NewPeerEvent sealedReply observationStamp ConsequenceObserveDeclined [] = Inr observed"
proof -
  have ids: "pd_id sealedEnvelope \<noteq> zeroDigest" "replicate 32 CHR ''o'' \<noteq> zeroDigest" "replicate 32 CHR ''e'' \<noteq> zeroDigest"
    using instance_tokens by (simp_all add: digest_ok_def sealed_fields)
  have "pd_canonical sealedEnvelope = Marshal (enc_delivery (deliveryWire sealedEnvelope))" "pd_envelope sealedEnvelope =
      domainSeparatedDigest peerDeliveryEnvelopeDomain (pd_canonical sealedEnvelope)"
    by (simp_all add: sealedEnvelope_def)
  then have valid: "parsedValid sealedEnvelope" using assms ids by (simp add: parsedValid_def enc_delivery_def)
  have inputs: "peerEventInputs sealedReply = Inr (sealedEnvelope, [])"
    using valid by (simp add: peerEventInputs_def sealedReply_def sealed_fields requireCompletePeerArtifacts_def bindE_def)
  have key: "NewOperationKey (deliveryString (replicate 32 CHR ''j'')) = Inr (deliveryString (replicate 32 CHR ''j''))"
    using instance_tokens(3) by (simp add: constructor_Inr)
  have time: "canonicalTime f 1000 = Inr 1000" for f using instance_tokens by (simp add: canonicalTime_Inr)
  have parse: "ParseDeliveryID (deliveryString (replicate 32 CHR ''j'')) = Inr (replicate 32 CHR ''j'')"
    using instance_tokens by (simp add: ParseDeliveryID_Inr)
  have shape: "validateParsedEventShape arrival = None"
    using ids parse instance_tokens(13) by (simp add: shape_defs arrival_def refIsZero_def)
  have seal: "sealEvent arrival = Inr observed" using event_fits [OF observation_ok [OF assms]] by (simp add: sealEvent_Inr observed_def)
  have "\<lparr>e_id = ''event:2'', e_acceptedAt = 1000, e_sequence = 2, e_depth = pd_depth sealedEnvelope,
            e_source = ''agent:bob'', e_operationKey = deliveryString (replicate 32 CHR ''j''), e_requestDigest = pd_envelope sealedEnvelope,
            e_kind = pd_kind sealedEnvelope, e_payload = pd_payload sealedEnvelope, e_consequence = ConsequenceObserveDeclined, e_subject = None, e_expected = None,
            e_targets = [], e_artifacts = [], e_causation = [pd_originEvent sealedEnvelope],
            e_correlation = pd_originCorrelation sealedEnvelope, e_inReplyTo = pd_inReplyTo sealedEnvelope,
            e_canonical = [], e_digest = zeroDigest\<rparr> = arrival"
    by (simp add: arrival_def sealed_fields)
  then show ?thesis
    using key time shape seal
    by (simp add: NewPeerEvent_def inputs bindE_def observationStamp_def sealed_fields(1,2,11) validateDecidedPeerEffect_def)
qed

lemma sealed_committed:
  assumes "pd_envelope sealedEnvelope \<noteq> zeroDigest"
  shows "commitDomainAdmissionTx (peerDomainAdmission sealedReply \<lparr>de_consequence = ConsequenceObserveDeclined, de_targets = []\<rparr>) ''event:2'' [] 1000 awaitingStore =
    Inr (observed, awaitingStore\<lparr>origin_sequence := 2, events := events awaitingStore @ [eventRowOf observed]\<rparr>)"
proof -
  let ?s = "awaitingStore\<lparr>origin_sequence := 2\<rparr>"
  have sequence: "nextOriginSequenceTx awaitingStore = Inr (2, ?s)"
    by (simp add: nextOriginSequenceTx_def awaitingStore_def peerStore_def)
  have fields: "e_id observed = ''event:2''" "e_sequence observed = 2" "e_depth observed = 1" "e_source observed = ''agent:bob''" "e_targets observed = []"
    "e_artifacts observed = []" "e_consequence observed = ConsequenceObserveDeclined"
    by (simp_all add: observed_def arrival_def)
  have "newDomainEventTx (peerDomainAdmission sealedReply \<lparr>de_consequence = ConsequenceObserveDeclined, de_targets = []\<rparr>) ''event:2'' 1000 awaitingStore =
      Inr ((observed, []), ?s)"
    using sealed_event [OF assms]
    by (simp add: newDomainEventTx_def sequence bindE_def wrap_def observationStamp_def) (simp add: sealedReply_def sealed_fields)
  moreover have "insertEventTx observed ?s = Inr (?s\<lparr>events := events awaitingStore @ [eventRowOf observed]\<rparr>)"
    by (simp add: insertEventTx_def execute_def bindE_def insert_event_def events_ok_def eventRowOf_def fields awaitingStore_def peerStore_def emptyStore_def
        principal_ids_def not_a_digest)
  ultimately show ?thesis
    by (simp add: commitDomainAdmissionTx_def bindE_def admitEffectTx_def applyDomainEffectTx_def fields insertPeerDeliveriesTx_def outboundReplyBinding_def remoteTargetCount_def)
qed

lemma sealed_accepted:
  assumes "pd_envelope sealedEnvelope \<noteq> zeroDigest" "e_digest observed \<noteq> zeroDigest"
  shows "\<exists>result t. commitAcceptedPeerAdmissionTx sealedEnvelope sealedReply ''event:2'' [''handling:n''] 1000 awaitingStore = Inr (result, t)"
proof -
  let ?u = "awaitingStore\<lparr>origin_sequence := 2, events := events awaitingStore @ [eventRowOf observed]\<rparr>"
  have effect: "decidePeerEffect sealedReply = Inr \<lparr>de_consequence = ConsequenceObserveDeclined, de_targets = []\<rparr>"
    using instance_tokens(8,9) by (simp add: decidePeerEffect_def sealedReply_def sealed_fields RequiresTerminalReplyMatch_def digest_ok_def)
  have ref: "ref_ok (eventRef observed)" "eventRef observed \<noteq> pd_originEvent sealedEnvelope"
    using assms(2) instance_tokens(1) by (simp_all add: ref_ok_def eventRef_def digest_ok_def observed_def arrival_def sealed_fields)
  obtain receipt where receipt: "NewAcceptedPeerAdmissionReceipt sealedEnvelope (eventRef observed) 1000 = Inr receipt"
  proof -
    define r where "r = \<lparr>par_delivery = pd_id sealedEnvelope, par_envelope = pd_envelope sealedEnvelope, par_outcome = PeerAdmissionOutcomeAccepted,
                         par_recordedAt = 1000, par_event = eventRef observed, par_code = [],
                         par_diagnostic = [], par_canonical = [], par_digest = zeroDigest\<rparr>"
    define c where "c = Marshal (enc_peerReceipt (peerReceiptWire r))"
    have "peer_receipt_ok (r\<lparr>par_canonical := c, par_digest := domainSeparatedDigest peerAdmissionReceiptDigestDomain c\<rparr>)"
      using assms(1) instance_tokens(9,12) ref(1) sealed_fields(10)
      by (simp add: peer_receipt_ok_def c_def) (simp add: r_def sealed_fields(1) digest_ok_def)
    then have "length c \<le> MaxPeerAdmissionReceiptCanonicalBytes" using peer_receipt_valid(2) by fastforce
    moreover have "canonicalTime f 1000 = Inr 1000" for f using instance_tokens(12) by (simp add: canonicalTime_Inr)
    moreover have "pd_canonical sealedEnvelope \<noteq> []" by (simp add: sealedEnvelope_def enc_delivery_def)
    ultimately show ?thesis
      using that assms(1) instance_tokens(9) ref(2) ref_ok_nonzero [OF ref(1)] sealed_fields(1)
      by (simp add: NewAcceptedPeerAdmissionReceipt_def newPeerAdmissionReceipt_def bindE_def Let_def c_def r_def digest_ok_def)
  qed
  have "\<exists>t. update_inbox (\<lambda>r. ib_id r = deliveryString (pd_id sealedEnvelope) \<and> ib_state r = ''staged'')
     (accepted_row (e_id observed) receipt 1000) ?u = Some (t, 1)"
    by (simp add: update_inbox_def awaitingStore_def peerStore_def emptyStore_def replyRow_def accepted_row_def sealed_fields(1)
        update_where_def inbox_ok_def inbox_check_def List.map_filter_def route_ids_def event_ids_def eventRowOf_def peerRouteRow_def)
  then show ?thesis
    using sealed_committed [OF assms(1)] effect receipt
    by (auto simp: commitAcceptedPeerAdmissionTx_def bindE_def wrap_def execute_def requireOneRow_def require_def accepted_row_def [abs_def])
qed

theorem reply_observed_once_witness:
  "\<exists>m. matchOpenTerminalReplyAnchorTx sealedReply ''route:1'' awaitingStore = Inr (Some m) \<and> tm_anchor m = ''handling:1'' \<and>
     (pd_envelope sealedEnvelope = zeroDigest \<or> e_digest observed = zeroDigest \<or>
      (\<exists>result t. commitAcceptedPeerAdmissionTx sealedEnvelope sealedReply ''event:2'' [''handling:n''] 1000 awaitingStore = Inr (result, t) \<and>
        length (accepted_replies ''handling:1'' t) \<le> 64 \<and>
        matchOpenTerminalReplyAnchorTx sealedReply ''route:1'' (t\<lparr>closed := True\<rparr>) \<noteq> Inr (Some m)))"
proof -
  let ?m = "\<lparr>tm_outbound = replicate 32 CHR ''o'', tm_anchor = ''handling:1'', tm_root = \<lparr>ref_id = ''event:1'', ref_digest = replicate 32 CHR ''e''\<rparr>\<rparr>"
  have handle: "NewHandlingID ''handling:1'' = Inr ''handling:1''" by code_simp
  have fields: "vd_delivery sealedReply = sealedEnvelope" "vd_target sealedReply = ''agent:local''" by (simp_all add: sealedReply_def)
  have m: "matchOpenTerminalReplyAnchorTx sealedReply ''route:1'' awaitingStore = Inr (Some ?m)"
    using instance_tokens(7,8) handle
    by (simp add: matchOpenTerminalReplyAnchorTx_def fields sealed_fields refIsZero_def digest_ok_def awaitingStore_def peerStore_def openHandling_def replyRow_def
        orElse_def bindE_def terminalObservationRevisionTx_def accepted_replies_def MaxTerminalObservationsPerAnchor_def)
  have inv: "claims_inv awaitingStore"
    using awaitingStore_ok
    by (simp add: claims_inv_def claim_ok_def boundary_ends_def) (simp add: awaitingStore_def peerStore_def openHandling_def emptyStore_def)
  have row: "replyRow \<in> set (peer_inbox awaitingStore)" "ib_id replyRow = deliveryString (pd_id sealedEnvelope)"
    "ib_inReplyTo replyRow = peerInboxReplyValue (vd_delivery sealedReply)"
    using instance_tokens(8) by (simp add: awaitingStore_def, simp_all add: replyRow_def sealedReply_def sealed_fields peerInboxReplyValue_def digest_ok_def)
  note once = reply_observed_once [OF m inv row]
  show ?thesis
  proof (cases "pd_envelope sealedEnvelope = zeroDigest \<or> e_digest observed = zeroDigest")
    case False
    then obtain result t where t: "commitAcceptedPeerAdmissionTx sealedEnvelope sealedReply ''event:2'' [''handling:n''] 1000 awaitingStore = Inr (result, t)"
      using sealed_accepted by blast
    have "authority_step\<^sup>*\<^sup>* t (t\<lparr>closed := True\<rparr>)" by (intro r_into_rtranclp authority_step.process)
    then have "matchOpenTerminalReplyAnchorTx sealedReply ''route:1'' (t\<lparr>closed := True\<rparr>) \<noteq> Inr (Some ?m) \<and> length (accepted_replies ''handling:1'' t) \<le> 64"
      using once t by auto
    then show ?thesis using m t by (intro exI [of _ ?m]) auto
  qed (use m in auto)
qed

end
